(* ===== verification/OG_Text.thy ===== *)
theory OG_Text
  imports OG_Prelude
begin

text \<open>
  The text functions of the Rust standard library that the crates call, on UTF-8 bytes:
  \<^verbatim>\<open>trim\<close> (Unicode \<^verbatim>\<open>White_Space\<close>), \<^verbatim>\<open>String::from_utf8_lossy\<close>, \<^verbatim>\<open>str::parse\<close> and
  \<^verbatim>\<open>from_str_radix\<close> of unsigned integers, and \<^verbatim>\<open>Vec::dedup\<close> and the first-occurrence
  filter \<^verbatim>\<open>retain(|v| seen.insert(v))\<close>.
\<close>

section \<open>Trimming\<close>

text \<open>The UTF-8 encodings of the Unicode \<^verbatim>\<open>White_Space\<close> characters.\<close>

definition white_space :: "string list" where
  "white_space =
     [[CHR 0x09], [CHR 0x0A], [CHR 0x0B], [CHR 0x0C], [CHR 0x0D], [CHR 0x20],
      [CHR 0xC2, CHR 0x85], [CHR 0xC2, CHR 0xA0], [CHR 0xE1, CHR 0x9A, CHR 0x80],
      [CHR 0xE2, CHR 0x80, CHR 0x80], [CHR 0xE2, CHR 0x80, CHR 0x81], [CHR 0xE2, CHR 0x80, CHR 0x82],
      [CHR 0xE2, CHR 0x80, CHR 0x83], [CHR 0xE2, CHR 0x80, CHR 0x84], [CHR 0xE2, CHR 0x80, CHR 0x85],
      [CHR 0xE2, CHR 0x80, CHR 0x86], [CHR 0xE2, CHR 0x80, CHR 0x87], [CHR 0xE2, CHR 0x80, CHR 0x88],
      [CHR 0xE2, CHR 0x80, CHR 0x89], [CHR 0xE2, CHR 0x80, CHR 0x8A], [CHR 0xE2, CHR 0x80, CHR 0xA8],
      [CHR 0xE2, CHR 0x80, CHR 0xA9], [CHR 0xE2, CHR 0x80, CHR 0xAF], [CHR 0xE2, CHR 0x81, CHR 0x9F],
      [CHR 0xE3, CHR 0x80, CHR 0x80]]"

definition drop_one :: "string list \<Rightarrow> string \<Rightarrow> string option" where
  "drop_one ws s = (case filter (starts_with s) ws of [] \<Rightarrow> None | w # _ \<Rightarrow> Some (drop (length w) s))"

text \<open>One character is removed per round, so the length bounds the number of rounds.\<close>

fun drop_many :: "nat \<Rightarrow> string list \<Rightarrow> string \<Rightarrow> string" where
  "drop_many 0 ws s = s"
| "drop_many (Suc n) ws s = (case drop_one ws s of None \<Rightarrow> s | Some s' \<Rightarrow> drop_many n ws s')"

definition trim_start :: "string \<Rightarrow> string" where
  "trim_start s = drop_many (length s) white_space s"

definition trim_end :: "string \<Rightarrow> string" where
  "trim_end s = rev (drop_many (length s) (map rev white_space) (rev s))"

definition trim :: "string \<Rightarrow> string" where
  "trim s = trim_end (trim_start s)"

lemma drop_one_shorter:
  assumes "drop_one ws s = Some s'" "[] \<notin> set ws"
  shows "length s' < length s"
proof -
  from assms(1) obtain w rest where w: "filter (starts_with s) ws = w # rest"
    and s': "s' = drop (length w) s"
    by (auto simp: drop_one_def split: list.splits)
  from w have "w \<in> set (filter (starts_with s) ws)" by simp
  with assms(2) have "w \<noteq> []" "starts_with s w" by auto
  then show ?thesis using s' by (cases w; cases s) auto
qed

text \<open>The bound on the rounds is enough: what is left starts with none of the patterns.\<close>

lemma drop_many_done:
  assumes "[] \<notin> set ws" "length s \<le> n"
  shows "drop_one ws (drop_many n ws s) = None"
  using assms(2)
proof (induction n arbitrary: s)
  case 0
  have "filter (starts_with s) ws = []" 
    using 0 assms(1) by (auto simp: filter_empty_conv starts_with_prefix)
  then show ?case by (simp add: drop_one_def)
next
  case (Suc n)
  show ?case
  proof (cases "drop_one ws s")
    case None
    then show ?thesis by simp
  next
    case (Some s')
    with drop_one_shorter [OF Some assms(1)] Suc show ?thesis by simp
  qed
qed

lemma length_drop_many: "length (drop_many n ws s) \<le> length s"
proof (induction n arbitrary: s)
  case (Suc n)
  show ?case
  proof (cases "drop_one ws s")
    case (Some s')
    then have "length s' \<le> length s" by (auto simp: drop_one_def split: list.splits)
    with Suc [of s'] Some show ?thesis by simp
  qed simp
qed simp

lemma length_trim: "length (trim s) \<le> length s"
proof -
  have "length (trim_end (trim_start s)) \<le> length (trim_start s)"
    using length_drop_many by (metis length_rev trim_end_def)
  also have "\<dots> \<le> length s" by (simp add: trim_start_def length_drop_many)
  finally show ?thesis by (simp add: trim_def)
qed

section \<open>Lossy decoding\<close>

definition is_cont :: "nat \<Rightarrow> bool" where
  "is_cont b \<longleftrightarrow> 128 \<le> b \<and> b < 192"

text \<open>The second bytes that the decoder accepts after a three- or four-byte lead.\<close>

definition second3 :: "nat \<Rightarrow> nat \<Rightarrow> bool" where
  "second3 l b \<longleftrightarrow>
     (l = 0xE0 \<and> 0xA0 \<le> b \<and> b \<le> 0xBF) \<or> (0xE1 \<le> l \<and> l \<le> 0xEC \<and> is_cont b) \<or>
     (l = 0xED \<and> 0x80 \<le> b \<and> b \<le> 0x9F) \<or> (0xEE \<le> l \<and> l \<le> 0xEF \<and> is_cont b)"

definition second4 :: "nat \<Rightarrow> nat \<Rightarrow> bool" where
  "second4 l b \<longleftrightarrow>
     (l = 0xF0 \<and> 0x90 \<le> b \<and> b \<le> 0xBF) \<or> (0xF1 \<le> l \<and> l \<le> 0xF3 \<and> is_cont b) \<or>
     (l = 0xF4 \<and> 0x80 \<le> b \<and> b \<le> 0x8F)"

definition byte_at :: "bytes \<Rightarrow> nat \<Rightarrow> nat" where
  "byte_at s i = (if i < length s then of_char (s ! i) else 0)"

text \<open>
  \<open>utf8_step s\<close> is the length of the next chunk of \<open>s\<close> and whether it is a valid character: an
  invalid chunk is the longest prefix of a character that the following bytes do not complete.
\<close>

definition utf8_step :: "bytes \<Rightarrow> nat \<times> bool" where
  "utf8_step s =
     (let l = byte_at s 0; b1 = byte_at s 1; b2 = byte_at s 2; b3 = byte_at s 3 in
      if l < 128 then (1, True)
      else if 0xC2 \<le> l \<and> l \<le> 0xDF then (if is_cont b1 then (2, True) else (1, False))
      else if 0xE0 \<le> l \<and> l \<le> 0xEF then
        (if \<not> second3 l b1 then (1, False) else if \<not> is_cont b2 then (2, False) else (3, True))
      else if 0xF0 \<le> l \<and> l \<le> 0xF4 then
        (if \<not> second4 l b1 then (1, False) else if \<not> is_cont b2 then (2, False)
         else if \<not> is_cont b3 then (3, False) else (4, True))
      else (1, False))"

lemma utf8_step_pos: "0 < fst (utf8_step s)"
  by (simp add: utf8_step_def Let_def)

function utf8_lossy :: "bytes \<Rightarrow> string" where
  "utf8_lossy s =
     (if s = [] then []
      else (if snd (utf8_step s) then take (fst (utf8_step s)) s
            else [CHR 0xEF, CHR 0xBF, CHR 0xBD])
           @ utf8_lossy (drop (fst (utf8_step s)) s))"
  by pat_completeness auto
termination
  by (relation "measure length") (auto simp: utf8_step_pos)

declare utf8_lossy.simps [simp del]

lemma utf8_lossy_ascii: "\<forall>c \<in> set s. (of_char c :: nat) < 128 \<Longrightarrow> utf8_lossy s = s"
proof (induction s)
  case Nil
  then show ?case by (simp add: utf8_lossy.simps)
next
  case (Cons c s)
  then have "utf8_step (c # s) = (1, True)" by (simp add: utf8_step_def byte_at_def Let_def)
  with Cons show ?case by (simp add: utf8_lossy.simps [of "c # s"])
qed

section \<open>Unsigned integers from text\<close>

definition to_digit :: "nat \<Rightarrow> char \<Rightarrow> nat option" where
  "to_digit radix c =
     (let n = of_char c :: nat;
          d = (if 48 \<le> n \<and> n \<le> 57 then n - 48 else if 65 \<le> n \<and> n \<le> 90 then n - 55
               else if 97 \<le> n \<and> n \<le> 122 then n - 87 else 36)
      in if d < radix then Some d else None)"

fun digits_value :: "nat \<Rightarrow> nat \<Rightarrow> string \<Rightarrow> nat option" where
  "digits_value radix acc [] = Some acc"
| "digits_value radix acc (c # cs) =
     (case to_digit radix c of None \<Rightarrow> None | Some d \<Rightarrow> digits_value radix (acc * radix + d) cs)"

text \<open>One leading plus sign is accepted, an empty digit string and an overflow are errors.\<close>

definition from_str_radix :: "nat \<Rightarrow> nat \<Rightarrow> string \<Rightarrow> nat option" where
  "from_str_radix width radix s =
     (let t = (case s of [] \<Rightarrow> [] | c # cs \<Rightarrow> if c = CHR ''+'' then cs else s)
      in if t = [] then None
         else (case digits_value radix 0 t of
                 None \<Rightarrow> None
               | Some v \<Rightarrow> if v < 2 ^ width then Some v else None))"

definition parse_u32 :: "string \<Rightarrow> u32 option" where
  "parse_u32 s = map_option of_nat (from_str_radix 32 10 s)"

definition hex_u32 :: "string \<Rightarrow> u32 option" where
  "hex_u32 s = map_option of_nat (from_str_radix 32 16 s)"

lemma from_str_radix_bound: "from_str_radix w r s = Some v \<Longrightarrow> v < 2 ^ w"
  by (auto simp: from_str_radix_def Let_def split: option.splits if_splits)

lemma digits_value_append:
  "digits_value r a (s @ t) =
     (case digits_value r a s of None \<Rightarrow> None | Some b \<Rightarrow> digits_value r b t)"
  by (induction s arbitrary: a) (auto split: option.splits)

lemma to_digit_decimal: "d < 10 \<Longrightarrow> to_digit 10 (char_of (48 + d)) = Some d"
  by (simp add: to_digit_def Let_def)

lemma digits_value_show_nat: "digits_value 10 0 (show_nat n) = Some n"
proof (induction n rule: less_induct)
  case (less n)
  show ?case
  proof (cases "n < 10")
    case True
    then show ?thesis by (simp add: show_nat.simps [of n] to_digit_decimal)
  next
    case False
    then have "digits_value 10 0 (show_nat (n div 10)) = Some (n div 10)"
      by (intro less) simp
    with False show ?thesis
      by (simp add: show_nat.simps [of n] digits_value_append to_digit_decimal)
  qed
qed

lemma show_nat_nonempty: "show_nat n \<noteq> []"
  by (subst show_nat.simps) simp

lemma show_nat_no_plus: "show_nat n = c # cs \<Longrightarrow> c \<noteq> CHR ''+''"
  using digits_value_show_nat [of n] by (auto simp: to_digit_def)

lemma from_str_radix_show_nat:
  assumes "n < 2 ^ w"
  shows "from_str_radix w 10 (show_nat n) = Some n"
proof -
  obtain c cs where s: "show_nat n = c # cs"
    using show_nat_nonempty [of n] by (cases "show_nat n") auto
  then have "c \<noteq> CHR ''+''" by (rule show_nat_no_plus)
  moreover have "digits_value 10 0 (c # cs) = Some n"
    using digits_value_show_nat [of n] s by simp
  ultimately show ?thesis
    using assms s by (simp add: from_str_radix_def del: digits_value.simps)
qed

lemma show_nat_inj: "show_nat m = show_nat n \<Longrightarrow> m = n"
  by (metis digits_value_show_nat option.inject)

section \<open>Removing duplicates\<close>

text \<open>\<^verbatim>\<open>retain(|value| seen.insert(value))\<close> keeps the first occurrence of each value.\<close>

fun keep_first :: "'a list \<Rightarrow> 'a list \<Rightarrow> 'a list" where
  "keep_first seen [] = []"
| "keep_first seen (x # xs) =
     (if x \<in> set seen then keep_first seen xs else x # keep_first (x # seen) xs)"

text \<open>\<^verbatim>\<open>Vec::dedup\<close> drops consecutive repetitions: \<open>remdups_adj\<close> of the list library.\<close>

lemma set_keep_first: "set (keep_first seen xs) = set xs - set seen"
  by (induction xs arbitrary: seen) auto

lemma distinct_keep_first: "distinct (keep_first seen xs)"
  by (induction xs arbitrary: seen) (auto simp: set_keep_first)

lemma keep_first_distinct:
  "distinct xs \<Longrightarrow> set xs \<inter> set seen = {} \<Longrightarrow> keep_first seen xs = xs"
  by (induction xs arbitrary: seen) auto

lemma sorted_remdups_adj_distinct: "sorted xs \<Longrightarrow> distinct (remdups_adj (xs :: 'a::linorder list))"
  by (induction xs rule: remdups_adj.induct) auto

end
