(* ===== verification/OG_Net.thy ===== *)
theory OG_Net
  imports OG_Text
begin

text \<open>
  IP addresses: the parser of \<^verbatim>\<open>str::parse::<IpAddr>\<close> of the Rust standard library and the
  address predicates that the behavior chains (\<^verbatim>\<open>behavior_chain.rs\<close>) and the reputation feed
  (\<^verbatim>\<open>openguard-windows/src/lib.rs\<close>) use.  An IPv4 address is its 32-bit value and an IPv6
  address its 128-bit value, as \<^verbatim>\<open>u32::from\<close> and \<^verbatim>\<open>u128::from\<close> give them.
\<close>

unbundle bit_operations_syntax

datatype ip_addr = V4 "32 word" | V6 "128 word"

type_synonym 'a parser = "string \<Rightarrow> ('a \<times> string) option"

section \<open>Parsing\<close>

text \<open>\<^verbatim>\<open>Parser::read_number\<close> with a digit limit, into an integer of the given width.\<close>

definition read_number :: "nat \<Rightarrow> nat \<Rightarrow> bool \<Rightarrow> nat \<Rightarrow> nat parser" where
  "read_number radix max_digits zero_prefix width s =
     (let ds = takeWhile (\<lambda>c. to_digit radix c \<noteq> None) s; n = length ds in
      if n = 0 \<or> max_digits < n \<or> (\<not> zero_prefix \<and> hd ds = CHR ''0'' \<and> 1 < n) then None
      else (case digits_value radix 0 ds of
              None \<Rightarrow> None
            | Some v \<Rightarrow> if v < 2 ^ width then Some (v, drop n s) else None))"

definition read_given_char :: "char \<Rightarrow> unit parser" where
  "read_given_char c s = (case s of [] \<Rightarrow> None | d # ds \<Rightarrow> if c = d then Some ((), ds) else None)"

definition read_separator :: "char \<Rightarrow> nat \<Rightarrow> 'a parser \<Rightarrow> 'a parser" where
  "read_separator c i inner s =
     (if i = 0 then inner s
      else (case read_given_char c s of None \<Rightarrow> None | Some (_, t) \<Rightarrow> inner t))"

fun read_octets :: "nat \<Rightarrow> nat \<Rightarrow> nat \<Rightarrow> nat parser" where
  "read_octets 0 i acc s = Some (acc, s)"
| "read_octets (Suc k) i acc s =
     (case read_separator CHR ''.'' i (read_number 10 3 False 8) s of
        None \<Rightarrow> None
      | Some (d, t) \<Rightarrow> read_octets k (Suc i) (acc * 256 + d) t)"

definition read_ipv4_addr :: "nat parser" where
  "read_ipv4_addr s = read_octets 4 0 0 s"

text \<open>\<open>read_groups k i limit\<close>: the loop of \<^verbatim>\<open>read_groups\<close> from slot \<open>i\<close> with \<open>k\<close> slots left.\<close>

fun read_groups :: "nat \<Rightarrow> nat \<Rightarrow> nat \<Rightarrow> string \<Rightarrow> nat list \<times> bool \<times> string" where
  "read_groups 0 i limit s = ([], False, s)"
| "read_groups (Suc k) i limit s =
     (case (if i < limit - 1 then read_separator CHR '':'' i read_ipv4_addr s else None) of
        Some (v, t) \<Rightarrow> ([v div 65536, v mod 65536], True, t)
      | None \<Rightarrow>
          (case read_separator CHR '':'' i (read_number 16 4 True 16) s of
             None \<Rightarrow> ([], False, s)
           | Some (g, t) \<Rightarrow>
               (case read_groups k (Suc i) limit t of (gs, embedded, u) \<Rightarrow> (g # gs, embedded, u))))"

definition groups_value :: "nat list \<Rightarrow> nat" where
  "groups_value gs = fold (\<lambda>g acc. acc * 65536 + g) gs 0"

definition read_ipv6_addr :: "nat parser" where
  "read_ipv6_addr s =
     (case read_groups 8 0 8 s of (head, head_ipv4, t) \<Rightarrow>
        if length head = 8 then Some (groups_value head, t)
        else if head_ipv4 then None
        else (case read_given_char CHR '':'' t of None \<Rightarrow> None | Some (_, u) \<Rightarrow>
             (case read_given_char CHR '':'' u of None \<Rightarrow> None | Some (_, v) \<Rightarrow>
                let limit = 8 - (length head + 1) in
                (case read_groups limit 0 limit v of (tail, _, w) \<Rightarrow>
                   Some (groups_value (head @ replicate (8 - length head - length tail) 0 @ tail),
                         w)))))"

definition parse_ip_addr :: "string \<Rightarrow> ip_addr option" where
  "parse_ip_addr s =
     (case read_ipv4_addr s of
        Some (v, t) \<Rightarrow> if t = [] then Some (V4 (of_nat v)) else None
      | None \<Rightarrow>
          (case read_ipv6_addr s of
             Some (v, t) \<Rightarrow> if t = [] then Some (V6 (of_nat v)) else None
           | None \<Rightarrow> None))"

section \<open>Address classes\<close>

definition octet0 :: "32 word \<Rightarrow> 32 word" where "octet0 a = drop_bit 24 a"

definition is_private_v4 :: "32 word \<Rightarrow> bool" where
  "is_private_v4 a \<longleftrightarrow> octet0 a = 10 \<or> drop_bit 20 a = 0xAC1 \<or> drop_bit 16 a = 0xC0A8"

definition is_loopback_v4 :: "32 word \<Rightarrow> bool" where
  "is_loopback_v4 a \<longleftrightarrow> octet0 a = 127"

definition is_link_local_v4 :: "32 word \<Rightarrow> bool" where
  "is_link_local_v4 a \<longleftrightarrow> drop_bit 16 a = 0xA9FE"

definition is_unspecified_v4 :: "32 word \<Rightarrow> bool" where
  "is_unspecified_v4 a \<longleftrightarrow> a = 0"

definition is_broadcast_v4 :: "32 word \<Rightarrow> bool" where
  "is_broadcast_v4 a \<longleftrightarrow> a = 0xFFFFFFFF"

definition is_loopback_v6 :: "128 word \<Rightarrow> bool" where
  "is_loopback_v6 a \<longleftrightarrow> a = 1"

definition is_unspecified_v6 :: "128 word \<Rightarrow> bool" where
  "is_unspecified_v6 a \<longleftrightarrow> a = 0"

definition is_unique_local_v6 :: "128 word \<Rightarrow> bool" where
  "is_unique_local_v6 a \<longleftrightarrow> drop_bit 112 a AND 0xFE00 = 0xFC00"

definition is_unicast_link_local_v6 :: "128 word \<Rightarrow> bool" where
  "is_unicast_link_local_v6 a \<longleftrightarrow> drop_bit 112 a AND 0xFFC0 = 0xFE80"

text \<open>\<^verbatim>\<open>is_non_public_v4\<close> of \<^verbatim>\<open>behavior_chain.rs\<close>.\<close>

definition is_non_public_v4 :: "32 word \<Rightarrow> bool" where
  "is_non_public_v4 a \<longleftrightarrow>
     is_private_v4 a \<or> is_loopback_v4 a \<or> is_link_local_v4 a \<or> is_unspecified_v4 a \<or>
     is_broadcast_v4 a \<or> octet0 a = 0"

text \<open>\<^verbatim>\<open>is_external_address\<close> of \<^verbatim>\<open>behavior_chain.rs\<close>.\<close>

definition is_external_address :: "string \<Rightarrow> bool" where
  "is_external_address address =
     (case parse_ip_addr address of
        Some (V4 a) \<Rightarrow> \<not> is_non_public_v4 a
      | Some (V6 a) \<Rightarrow> \<not> (is_loopback_v6 a \<or> is_unspecified_v6 a \<or> is_unique_local_v6 a
                           \<or> is_unicast_link_local_v6 a)
      | None \<Rightarrow> False)"

end
