(* ===== verification/OG_Domain.thy ===== *)
theory OG_Domain
  imports OG_Text
begin

text \<open>
  The data model shared by every crate: \<^verbatim>\<open>crates/openguard-domain/src/models.rs\<close> and
  \<^verbatim>\<open>protocol.rs\<close>.  Every struct is a record whose field names carry a two-letter prefix, every
  enum a datatype.  Floating-point fields hold the IEEE bit pattern: no operation on them is
  modelled.  Row identifiers (\<^verbatim>\<open>i64\<close>) are integers.
\<close>

section \<open>models.rs\<close>

datatype signature_status = Trusted | Untrusted | SignatureUnknown | NotApplicable

datatype severity = Info | Low | Medium | High | Critical

datatype scan_verdict =
  Clean | LowRisk | Suspicious | Malicious | Skipped | VerdictError | VerdictCancelled

datatype scan_profile = Quick | Full | Startup | Downloads

fun signature_display :: "signature_status \<Rightarrow> string" where
  "signature_display Trusted = ''trusted''"
| "signature_display Untrusted = ''untrusted''"
| "signature_display SignatureUnknown = ''unknown''"
| "signature_display NotApplicable = ''not_applicable''"

text \<open>\<^verbatim>\<open>Severity\<close> derives \<^verbatim>\<open>Ord\<close>: the order is the order of the constructors.\<close>

fun severity_rank :: "severity \<Rightarrow> nat" where
  "severity_rank Info = 0"
| "severity_rank Low = 1"
| "severity_rank Medium = 2"
| "severity_rank High = 3"
| "severity_rank Critical = 4"

lemma severity_rank_inj: "severity_rank a = severity_rank b \<Longrightarrow> a = b"
  by (cases a; cases b) auto

instantiation severity :: linorder
begin

definition less_eq_severity :: "severity \<Rightarrow> severity \<Rightarrow> bool" where
  "less_eq_severity a b \<longleftrightarrow> severity_rank a \<le> severity_rank b"

definition less_severity :: "severity \<Rightarrow> severity \<Rightarrow> bool" where
  "less_severity a b \<longleftrightarrow> severity_rank a < severity_rank b"

instance
  by standard (auto simp: less_eq_severity_def less_severity_def severity_rank_inj)

end

text \<open>\<^verbatim>\<open>Severity::from_score\<close>: the arms of the match in the order of the source.\<close>

definition severity_from_score :: "u8 \<Rightarrow> severity" where
  "severity_from_score score =
     (if 90 \<le> score then Critical
      else if 65 \<le> score \<and> score \<le> 89 then High
      else if 35 \<le> score \<and> score \<le> 64 then Medium
      else if 15 \<le> score \<and> score \<le> 34 then Low
      else Info)"

definition severity_parse :: "string \<Rightarrow> severity option" where
  "severity_parse value =
     (if value = ''info'' then Some Info
      else if value = ''low'' then Some Low
      else if value = ''medium'' then Some Medium
      else if value = ''high'' then Some High
      else if value = ''critical'' then Some Critical
      else None)"

fun severity_display :: "severity \<Rightarrow> string" where
  "severity_display Info = ''info''"
| "severity_display Low = ''low''"
| "severity_display Medium = ''medium''"
| "severity_display High = ''high''"
| "severity_display Critical = ''critical''"

fun verdict_display :: "scan_verdict \<Rightarrow> string" where
  "verdict_display Clean = ''clean''"
| "verdict_display LowRisk = ''low_risk''"
| "verdict_display Suspicious = ''suspicious''"
| "verdict_display Malicious = ''malicious''"
| "verdict_display Skipped = ''skipped''"
| "verdict_display VerdictError = ''error''"
| "verdict_display VerdictCancelled = ''cancelled''"

record risk_assessment =
  ra_score :: u8
  ra_severity :: severity
  ra_reasons :: "string list"

record process_record =
  pr_pid :: u32
  pr_parent_pid :: u32
  pr_name :: string
  pr_path :: string
  pr_thread_count :: u32
  pr_working_set_bytes :: u64
  pr_cpu_percent :: u32
  pr_signature :: signature_status
  pr_accessible :: bool
  pr_identity :: string
  pr_is_new :: bool
  pr_risk :: risk_assessment

record network_endpoint =
  ne_protocol :: string
  ne_local_address :: string
  ne_local_port :: u16
  ne_remote_address :: string
  ne_remote_port :: u16
  ne_state :: string
  ne_pid :: u32
  ne_process_name :: string
  ne_process_path :: string
  ne_remote_hostname :: string
  ne_reputation :: string
  ne_reputation_reason :: string
  ne_bytes_sent :: "u64 option"
  ne_bytes_received :: "u64 option"
  ne_send_rate_bps :: "u64 option"
  ne_receive_rate_bps :: "u64 option"
  ne_usage_status :: string

record security_event =
  se_id :: "int option"
  se_event_type :: string
  se_severity :: severity
  se_title :: string
  se_detail :: string
  se_process_id :: "u32 option"
  se_path :: string
  se_created_at :: string
  se_resolved :: bool

record timeline_event =
  te_id :: "int option"
  te_category :: string
  te_action :: string
  te_severity :: severity
  te_title :: string
  te_detail :: string
  te_process_id :: "u32 option"
  te_path :: string
  te_remote_address :: string
  te_correlation_id :: string
  te_occurred_at :: string

record timeline_page =
  tp_events :: "timeline_event list"
  tp_next_before_id :: "int option"

record persistence_item =
  pi_id :: string
  pi_category :: string
  pi_name :: string
  pi_command :: string
  pi_location :: string
  pi_state :: string
  pi_risk :: severity
  pi_evidence :: "string list"
  pi_detected_at :: string
  pi_response_capability :: string

datatype coverage_state = Active | Limited | Unavailable | CoverageUnknown

record coverage_note =
  cn_source :: string
  cn_state :: coverage_state
  cn_detail :: string

record persistence_inventory =
  pv_items :: "persistence_item list"
  pv_collected_at :: string
  pv_coverage :: "coverage_note list"

datatype response_action_kind =
  TerminateProcess | TerminateProcessTree | SuspendProcess | ResumeProcess | QuarantineFile
  | BlockRemoteAddress | UnblockRemoteAddress | DisablePersistence | RestorePersistence

record response_action_request =
  rq_action :: response_action_kind
  rq_process_id :: "u32 option"
  rq_expected_path :: string
  rq_target :: string
  rq_remote_address :: string
  rq_duration_minutes :: "u32 option"
  rq_persistence_id :: string
  rq_rollback_id :: string
  rq_confirmation :: string

record response_action_result =
  rr_action :: response_action_kind
  rr_target :: string
  rr_outcome :: string
  rr_rollback_id :: "string option"
  rr_expires_at :: "string option"
  rr_audit_event_id :: int

record threat_capability =
  tc_category :: string
  tc_mitre_technique :: string
  tc_confidence :: u8
  tc_evidence :: "string list"

record scan_finding =
  sf_path :: string
  sf_verdict :: scan_verdict
  sf_score :: u8
  sf_reasons :: "string list"
  sf_sha256 :: string
  sf_size_bytes :: u64
  sf_signature :: signature_status
  sf_amsi_result :: string
  sf_yara_status :: string
  sf_yara_matches :: "string list"
  sf_capabilities :: "threat_capability list"
  sf_scanned_at :: string

datatype scan_job_state = Queued | Running | Completed | Cancelled | Failed

record scan_job_status =
  sj_scan_id :: string
  sj_target :: string
  sj_state :: scan_job_state
  sj_finding :: "scan_finding option"
  sj_findings :: "scan_finding list"
  sj_files_scanned :: u64
  sj_total_files :: u64
  sj_current_path :: string
  sj_error :: "string option"

record quarantine_record =
  qr_id :: string
  qr_original_path :: string
  qr_sha256 :: string
  qr_reason :: string
  qr_created_at :: string
  qr_restored_at :: "string option"
  qr_restored_path :: "string option"

record content_status =
  ct_active_version :: string
  ct_previous_version :: "string option"
  ct_source :: string
  ct_manifest_url :: string

record exclusion_record =
  ex_path :: string
  ex_recursive :: bool
  ex_created_at :: string

record allowed_hash_record =
  ah_sha256 :: string
  ah_label :: string
  ah_created_at :: string

record system_snapshot =
  sn_processes :: "process_record list"
  sn_endpoints :: "network_endpoint list"
  sn_captured_at :: string
  sn_elevated :: bool
  sn_coverage :: "coverage_note list"

record service_health =
  sh_version :: string
  sh_protocol :: u16
  sh_service_state :: string
  sh_database_state :: string
  sh_content_version :: string
  sh_uptime_seconds :: u64
  sh_coverage :: "coverage_note list"

definition default_risk :: risk_assessment where
  "default_risk = \<lparr>ra_score = 0, ra_severity = Info, ra_reasons = []\<rparr>"

section \<open>protocol.rs\<close>

definition PROTOCOL_VERSION :: u16 where "PROTOCOL_VERSION = 1"

datatype request =
  Ping | GetHealth | GetSnapshot
  | RecentEvents u32
  | GetTimeline "int option" u32 "string option" "u32 option" "string option"
  | GetPersistence bool
  | ExecuteResponse response_action_request
  | StartScan string "scan_profile option"
  | CancelScan string
  | GetScan string
  | Quarantine scan_finding
  | ListQuarantine u32
  | RestoreQuarantine string "string option"
  | GetContentStatus | InstallContentUpdate | RollbackContentUpdate
  | ListExclusions
  | AddExclusion string bool
  | RemoveExclusion string
  | ListAllowedHashes
  | AllowHash string string
  | RemoveAllowedHash string

datatype error_code =
  InvalidRequest | UnsupportedProtocol | Unauthorized | Forbidden | NotFound | Conflict | Busy
  | LimitedCoverage | Internal

record api_error =
  ae_code :: error_code
  ae_message :: string
  ae_retryable :: bool

datatype response_data =
  Pong string
  | Health service_health
  | Snapshot system_snapshot
  | Events "security_event list"
  | Timeline timeline_page
  | Persistence persistence_inventory
  | ResponseAction response_action_result
  | ScanStarted string
  | ScanCancelled string
  | ScanStatus scan_job_status
  | Quarantines "quarantine_record list"
  | QuarantineChanged quarantine_record
  | ContentStatus content_status
  | Exclusions "exclusion_record list"
  | AllowedHashes "allowed_hash_record list"
  | PolicyChanged

datatype response = Success response_data | Error api_error

record request_envelope =
  rqe_protocol :: u16
  rqe_request_id :: string
  rqe_body :: request

record response_envelope =
  rse_protocol :: u16
  rse_request_id :: string
  rse_body :: response

definition request_new :: "string \<Rightarrow> request \<Rightarrow> request_envelope" where
  "request_new request_id body =
     \<lparr>rqe_protocol = PROTOCOL_VERSION, rqe_request_id = request_id, rqe_body = body\<rparr>"

definition response_success :: "string \<Rightarrow> response_data \<Rightarrow> response_envelope" where
  "response_success request_id data =
     \<lparr>rse_protocol = PROTOCOL_VERSION, rse_request_id = request_id, rse_body = Success data\<rparr>"

definition response_error :: "string \<Rightarrow> api_error \<Rightarrow> response_envelope" where
  "response_error request_id error =
     \<lparr>rse_protocol = PROTOCOL_VERSION, rse_request_id = request_id, rse_body = Error error\<rparr>"

section \<open>Properties\<close>

lemma severity_parse_display [simp]: "severity_parse (severity_display s) = Some s"
  by (cases s) (auto simp: severity_parse_def)

lemma severity_parse_Some: "severity_parse v = Some s \<Longrightarrow> v = severity_display s"
  by (auto simp: severity_parse_def split: if_splits)

lemma severity_from_score_mono: "a \<le> b \<Longrightarrow> severity_from_score a \<le> severity_from_score b"
  by (auto simp: severity_from_score_def less_eq_severity_def word_le_nat_alt)

lemma severity_from_score_iffs:
  "severity_from_score s = Critical \<longleftrightarrow> 90 \<le> s"
  "High \<le> severity_from_score s \<longleftrightarrow> 65 \<le> s"
  "Medium \<le> severity_from_score s \<longleftrightarrow> 35 \<le> s"
  "Low \<le> severity_from_score s \<longleftrightarrow> 15 \<le> s"
  by (auto simp: severity_from_score_def less_eq_severity_def word_le_nat_alt)

text \<open>
  Severities are stored as text and read back: reading the text that \<^verbatim>\<open>Display\<close> writes gives
  the severity back, every other text is refused, and the severity of a score never decreases when
  the score grows, crossing to \<open>Low\<close>, \<open>Medium\<close>, \<open>High\<close> and \<open>Critical\<close> exactly at 15, 35, 65 and 90.
\<close>

theorem severity_text_and_thresholds:
  "(severity_parse v = Some s \<longleftrightarrow> v = severity_display s)
   \<and> (Low \<le> severity_from_score n \<longleftrightarrow> 15 \<le> n) \<and> (Medium \<le> severity_from_score n \<longleftrightarrow> 35 \<le> n)
   \<and> (High \<le> severity_from_score n \<longleftrightarrow> 65 \<le> n) \<and> (severity_from_score n = Critical \<longleftrightarrow> 90 \<le> n)
   \<and> severity_from_score (min m n) \<le> severity_from_score n"
  using severity_parse_Some severity_from_score_iffs [of n]
    severity_from_score_mono [of "min m n" n] by auto

end
