(* ===== verification/OG_Ipc.thy ===== *)
theory OG_Ipc
  imports OG_Domain
begin

text \<open>
  Length-prefixed frames and envelope validation, \<^verbatim>\<open>crates/openguard-ipc/src/lib.rs\<close>.  The JSON
  serializer and deserializer (\<^verbatim>\<open>serde_json\<close>) are parameters: \<open>ser\<close> is \<^verbatim>\<open>to_vec\<close> and \<open>de\<close>
  returns the value and the input it did not consume.  The reader is the list of bytes still to
  come; the writer records what it accepted and how much more it accepts before it fails.
\<close>

definition MAX_FRAME_BYTES :: nat where "MAX_FRAME_BYTES = 4 * 1024 * 1024"

datatype frame_error =
  FrameIo | FrameJson | InvalidSize nat nat | UnsupportedVersion u16 u16 | InvalidRequestId

record sink =
  sk_written :: bytes
  sk_room :: nat

definition write_all :: "sink \<Rightarrow> bytes \<Rightarrow> sink \<times> (frame_error + unit)" where
  "write_all w b =
     (let n = min (length b) (sk_room w);
          w' = \<lparr>sk_written = sk_written w @ take n b, sk_room = sk_room w - n\<rparr>
      in (w', if length b \<le> sk_room w then Inr () else Inl FrameIo))"

definition read_exact :: "nat \<Rightarrow> bytes \<Rightarrow> frame_error + (bytes \<times> bytes)" where
  "read_exact n input = (if n \<le> length input then Inr (take n input, drop n input) else Inl FrameIo)"

definition write_frame :: "('a \<Rightarrow> bytes option) \<Rightarrow> sink \<Rightarrow> 'a \<Rightarrow> sink \<times> (frame_error + unit)" where
  "write_frame ser w value =
     (case ser value of
        None \<Rightarrow> (w, Inl FrameJson)
      | Some payload \<Rightarrow>
          if payload = [] \<or> MAX_FRAME_BYTES < length payload
          then (w, Inl (InvalidSize (length payload) MAX_FRAME_BYTES))
          else if \<not> length payload < 2 ^ 32
          then (w, Inl (InvalidSize (length payload) MAX_FRAME_BYTES))
          else (case write_all w (le_bytes 4 (length payload)) of
                  (w1, Inl e) \<Rightarrow> (w1, Inl e)
                | (w1, Inr _) \<Rightarrow> write_all w1 payload))"

text \<open>\<^verbatim>\<open>Deserializer::end\<close>: only JSON white space may follow the value.\<close>

definition json_space :: "char \<Rightarrow> bool" where
  "json_space c \<longleftrightarrow> c \<in> {CHR 0x20, CHR 0x09, CHR 0x0A, CHR 0x0D}"

definition read_frame ::
  "(bytes \<Rightarrow> ('a \<times> bytes) option) \<Rightarrow> bytes \<Rightarrow> frame_error + ('a \<times> bytes)" where
  "read_frame de input =
     and_then (read_exact 4 input) (\<lambda>(header, rest).
       let size = from_le_bytes header in
       if size = 0 \<or> MAX_FRAME_BYTES < size then Inl (InvalidSize size MAX_FRAME_BYTES)
       else and_then (read_exact size rest) (\<lambda>(payload, rest').
         case de payload of
           None \<Rightarrow> Inl FrameJson
         | Some (value, trailing) \<Rightarrow>
             if \<forall>c \<in> set trailing. json_space c then Inr (value, rest') else Inl FrameJson))"

definition ascii_alphanumeric :: "char \<Rightarrow> bool" where
  "ascii_alphanumeric c \<longleftrightarrow>
     (CHR ''0'' \<le> c \<and> c \<le> CHR ''9'') \<or> (CHR ''A'' \<le> c \<and> c \<le> CHR ''Z'')
     \<or> (CHR ''a'' \<le> c \<and> c \<le> CHR ''z'')"

definition valid_request_id :: "string \<Rightarrow> bool" where
  "valid_request_id value \<longleftrightarrow>
     value \<noteq> [] \<and> length value \<le> 64 \<and>
     (\<forall>c \<in> set value. ascii_alphanumeric c \<or> c = CHR ''-'' \<or> c = CHR ''_'')"

definition validate_request :: "request_envelope \<Rightarrow> frame_error + unit" where
  "validate_request r =
     (if rqe_protocol r \<noteq> PROTOCOL_VERSION
      then Inl (UnsupportedVersion (rqe_protocol r) PROTOCOL_VERSION)
      else if \<not> valid_request_id (rqe_request_id r) then Inl InvalidRequestId
      else Inr ())"

definition validate_response :: "response_envelope \<Rightarrow> frame_error + unit" where
  "validate_response r =
     (if rse_protocol r \<noteq> PROTOCOL_VERSION
      then Inl (UnsupportedVersion (rse_protocol r) PROTOCOL_VERSION)
      else if \<not> valid_request_id (rse_request_id r) then Inl InvalidRequestId
      else Inr ())"

section \<open>The header as an interface\<close>

text \<open>
  A frame is a fixed-width header that encodes the payload length, followed by the payload: what
  the reader needs of the header is its width and that decoding inverts encoding below a bound.
\<close>

locale frame_header =
  fixes put :: "nat \<Rightarrow> bytes" and get :: "bytes \<Rightarrow> nat" and width :: nat and bound :: nat
  assumes put_width: "length (put n) = width"
    and get_put: "n < bound \<Longrightarrow> get (put n) = n"
begin

lemma header_split:
  assumes "length payload < bound"
  shows "take width (put (length payload) @ payload @ rest) = put (length payload)"
    and "get (take width (put (length payload) @ payload @ rest)) = length payload"
    and "drop width (put (length payload) @ payload @ rest) = payload @ rest"
  using assms by (simp_all add: put_width get_put)

lemma header_injective: "m < bound \<Longrightarrow> n < bound \<Longrightarrow> put m = put n \<Longrightarrow> m = n"
  by (metis get_put)

end

interpretation le32: frame_header "le_bytes 4" from_le_bytes 4 "2 ^ 32"
  by unfold_locales (simp_all add: from_le_bytes_le_bytes)

lemma frame_bound: "MAX_FRAME_BYTES < 2 ^ 32"
  by (simp add: MAX_FRAME_BYTES_def)

section \<open>Properties\<close>

lemma write_frame_ok:
  assumes "ser v = Some payload" "payload \<noteq> []" "length payload \<le> MAX_FRAME_BYTES"
    and "4 + length payload \<le> sk_room w"
  shows "write_frame ser w v =
           (\<lparr>sk_written = sk_written w @ le_bytes 4 (length payload) @ payload,
             sk_room = sk_room w - (4 + length payload)\<rparr>, Inr ())"
  using assms frame_bound
  by (simp add: write_frame_def write_all_def Let_def min_def del: le_bytes.simps)

lemma frame_read_back:
  assumes "payload \<noteq> []" "length payload \<le> MAX_FRAME_BYTES" "de payload = Some (v, trailing)"
    and "\<forall>c \<in> set trailing. json_space c"
  shows "read_frame de ((le_bytes 4 (length payload) @ payload) @ rest) = Inr (v, rest)"
proof -
  let ?frame = "le_bytes 4 (length payload) @ payload"
  have b: "length payload < 2 ^ 32" using assms(2) frame_bound by simp
  have h: "read_exact 4 (?frame @ rest) = Inr (le_bytes 4 (length payload), payload @ rest)"
    by (simp add: read_exact_def del: le_bytes.simps)
  have n: "from_le_bytes (le_bytes 4 (length payload)) = length payload"
    using b by (rule le32.get_put)
  have p: "read_exact (length payload) (payload @ rest) = Inr (payload, rest)"
    by (simp add: read_exact_def)
  show ?thesis
    using assms by (simp add: read_frame_def h n p Let_def del: le_bytes.simps append_assoc)
qed

text \<open>
  C25. A value written as a frame is read back unchanged, the reader stops exactly at the end of the
  frame and leaves the following bytes for the next one.  The hypotheses are what the JSON library
  documents (deserializing its own output returns the value and leaves nothing but white space), a
  serialized size within the limit, and a writer that accepts the whole frame.
\<close>

theorem frame_roundtrip:
  assumes "ser v = Some payload" "payload \<noteq> []" "length payload \<le> MAX_FRAME_BYTES"
    and "4 + length payload \<le> sk_room w"
    and "de payload = Some (v, trailing)" "\<forall>c \<in> set trailing. json_space c"
  shows "\<exists>w'. write_frame ser w v = (w', Inr ())
           \<and> sk_written w' = sk_written w @ le_bytes 4 (length payload) @ payload
           \<and> read_frame de ((le_bytes 4 (length payload) @ payload) @ rest) = Inr (v, rest)"
  using write_frame_ok [where ser = ser and v = v and w = w, OF assms(1-4)] frame_read_back [where de = de, OF assms(2,3,5,6)]
  by simp

theorem frame_roundtrip_witness:
  "\<exists>w'. write_frame (\<lambda>b. Some (if b then ''true'' else ''false''))
      \<lparr>sk_written = [], sk_room = 8\<rparr> True = (w', Inr ())
    \<and> sk_written w' = [] @ le_bytes 4 (length ''true'') @ ''true''
    \<and> read_frame (\<lambda>p. Some (p = ''true'', '' '')) ((le_bytes 4 (length ''true'') @ ''true'') @ ''more'')
        = Inr (True, ''more'')"
  using frame_roundtrip
    [of "\<lambda>b. Some (if b then ''true'' else ''false'')" True "''true''" "\<lparr>sk_written = [], sk_room = 8\<rparr>"
        "\<lambda>p. Some (p = ''true'', '' '')" "'' ''" "''more''"]
  by (simp add: MAX_FRAME_BYTES_def json_space_def del: le_bytes.simps)

lemma read_frame_Inr:
  assumes "read_frame de input = Inr (v, rest)"
  shows "\<exists>header payload trailing. input = header @ payload @ rest \<and> length header = 4
     \<and> from_le_bytes header = length payload \<and> 0 < length payload
     \<and> length payload \<le> MAX_FRAME_BYTES \<and> de payload = Some (v, trailing)
     \<and> (\<forall>c \<in> set trailing. json_space c)"
proof -
  let ?h = "take 4 input" and ?r = "drop 4 input"
  let ?n = "from_le_bytes ?h"
  from assms have l: "4 \<le> length input" and n: "0 < ?n" "?n \<le> MAX_FRAME_BYTES" "?n \<le> length ?r"
    by (auto simp: read_frame_def read_exact_def Let_def split: if_splits option.splits)
  from assms l n obtain trailing where d: "de (take ?n ?r) = Some (v, trailing)"
    "\<forall>c \<in> set trailing. json_space c" "rest = drop ?n ?r"
    by (auto simp: read_frame_def read_exact_def Let_def split: if_splits option.splits)
  have "input = ?h @ take ?n ?r @ rest" by (metis append_take_drop_id d(3))
  moreover have "length ?h = 4" "length (take ?n ?r) = ?n" using l n by auto
  ultimately show ?thesis using n d(1,2) by metis
qed

text \<open>
  C26. What \<^verbatim>\<open>read_frame\<close> accepts: the input starts with a header whose value is the length of a
  non-empty payload of at most 4 MiB, the deserializer accepts that payload with nothing but white
  space after the value, and exactly header and payload are consumed.  A header announcing an empty
  or oversized frame is refused on its own, whatever follows it.
\<close>

theorem read_frame_bounded:
  "(read_frame de input = Inr (v, rest) \<longrightarrow>
      (\<exists>header payload trailing. input = header @ payload @ rest \<and> length header = 4
         \<and> from_le_bytes header = length payload \<and> 0 < length payload
         \<and> length payload \<le> MAX_FRAME_BYTES \<and> de payload = Some (v, trailing)
         \<and> (\<forall>c \<in> set trailing. json_space c)))
   \<and> (length header = 4 \<and> (from_le_bytes header = 0 \<or> MAX_FRAME_BYTES < from_le_bytes header) \<longrightarrow>
      read_frame de (header @ body) = Inl (InvalidSize (from_le_bytes header) MAX_FRAME_BYTES))"
  using read_frame_Inr [of de input v rest]
  by (auto simp: read_frame_def read_exact_def Let_def)

theorem read_frame_bounded_witness:
  "read_frame (\<lambda>p. Some (p, [])) ([CHR 0x02, CHR 0x00, CHR 0x00, CHR 0x00] @ ''hi'' @ ''!'')
     = Inr (''hi'', ''!'')
   \<and> read_frame (\<lambda>p. Some (p, [])) ([CHR 0x01, CHR 0x00, CHR 0x40, CHR 0x00] @ ''hi'')
     = Inl (InvalidSize 4194305 MAX_FRAME_BYTES)"
  using read_frame_bounded [where header = "[CHR 0x01, CHR 0x00, CHR 0x40, CHR 0x00]"
      and body = "''hi''" and de = "\<lambda>p. Some (p, [])"]
  by (simp add: read_frame_def read_exact_def MAX_FRAME_BYTES_def Let_def)

lemma validate_request_ok:
  "validate_request r = Inr () \<longleftrightarrow>
     rqe_protocol r = PROTOCOL_VERSION \<and> valid_request_id (rqe_request_id r)"
  by (simp add: validate_request_def)

lemma validate_response_ok:
  "validate_response r = Inr () \<longleftrightarrow>
     rse_protocol r = PROTOCOL_VERSION \<and> valid_request_id (rse_request_id r)"
  by (simp add: validate_response_def)

end
