(* ===== verification/OG_Channel.thy ===== *)
theory OG_Channel
  imports OG_Domain
begin

text \<open>
  The bounded, non-blocking event channel behind both Event Log monitors
  (\<^verbatim>\<open>openguard-windows/src/sysmon.rs\<close> and \<^verbatim>\<open>eventlog.rs\<close>): a \<^verbatim>\<open>sync_channel\<close> of fixed capacity with
  the atomic counters of \<^verbatim>\<open>CallbackContext\<close>.  One delivery of the callback is one step; the events
  handed out so far are kept as a ghost field, so that the counters can be compared with them.
\<close>

datatype notify_action = ActionError | ActionDeliver | ActionOther

record 'a channel =
  ch_queue :: "'a list"
  ch_received :: u64
  ch_dropped :: u64
  ch_parse_failures :: u64
  ch_subscription_errors :: u64
  ch_delivered :: "'a list"

definition channel_new :: "'a channel" where
  "channel_new = \<lparr>ch_queue = [], ch_received = 0, ch_dropped = 0, ch_parse_failures = 0,
                  ch_subscription_errors = 0, ch_delivered = []\<rparr>"

text \<open>
  \<^verbatim>\<open>subscription_callback\<close>: \<open>parsed\<close> is the outcome of rendering and parsing the event.  The
  receiver lives as long as the monitor, so \<^verbatim>\<open>try_send\<close> fails only on a full queue.
\<close>

definition subscription_callback ::
  "nat \<Rightarrow> notify_action \<Rightarrow> ('e + 'a) \<Rightarrow> 'a channel \<Rightarrow> 'a channel" where
  "subscription_callback capacity action parsed c =
     (case action of
        ActionError \<Rightarrow> c\<lparr>ch_subscription_errors := ch_subscription_errors c + 1\<rparr>
      | ActionOther \<Rightarrow> c
      | ActionDeliver \<Rightarrow>
          let c = c\<lparr>ch_received := ch_received c + 1\<rparr> in
          (case parsed of
             Inr event \<Rightarrow>
               if length (ch_queue c) < capacity then c\<lparr>ch_queue := ch_queue c @ [event]\<rparr>
               else c\<lparr>ch_dropped := ch_dropped c + 1\<rparr>
           | Inl _ \<Rightarrow> c\<lparr>ch_parse_failures := ch_parse_failures c + 1\<rparr>))"

text \<open>\<^verbatim>\<open>drain\<close>: at most \<^verbatim>\<open>limit.clamp(1, capacity)\<close> events, oldest first.\<close>

definition channel_drain :: "nat \<Rightarrow> nat \<Rightarrow> 'a channel \<Rightarrow> 'a list \<times> 'a channel" where
  "channel_drain capacity limit c =
     (let n = min (max limit 1) capacity; out = take n (ch_queue c) in
      (out, c\<lparr>ch_queue := drop n (ch_queue c), ch_delivered := ch_delivered c @ out\<rparr>))"

section \<open>What a bounded counting queue promises\<close>

text \<open>
  The interface the monitors rely on: a queue that never exceeds its capacity, keeps the order of
  arrival, and accounts for every event it was offered.
\<close>

datatype 'a offer = Offer notify_action "unit + 'a" | Drain nat

locale counting_queue =
  fixes init :: 'q
    and offer :: "notify_action \<Rightarrow> unit + 'a \<Rightarrow> 'q \<Rightarrow> 'q"
    and drain :: "nat \<Rightarrow> 'q \<Rightarrow> 'a list \<times> 'q"
    and accepted :: "'q \<Rightarrow> 'a list"
    and ok :: "'q \<Rightarrow> bool"
  assumes ok_init: "ok init"
    and ok_offer: "ok q \<Longrightarrow> ok (offer a r q)"
    and ok_drain: "ok q \<Longrightarrow> ok (snd (drain n q))"
    and accepted_init: "accepted init = []"
    and accepted_offer: "accepted (offer a r q) = accepted q \<or>
          (\<exists>x. r = Inr x \<and> accepted (offer a r q) = accepted q @ [x])"
    and accepted_drain: "accepted (snd (drain n q)) = accepted q"
begin

primrec run :: "'q \<Rightarrow> 'a offer list \<Rightarrow> 'q" where
  "run q [] = q"
| "run q (s # ss) = run (case s of Offer a r \<Rightarrow> offer a r q | Drain n \<Rightarrow> snd (drain n q)) ss"

lemma ok_run: "ok q \<Longrightarrow> ok (run q ss)"
  by (induction ss arbitrary: q) (auto simp: ok_offer ok_drain split: offer.splits)

lemma ok_reachable: "ok (run init ss)"
  by (rule ok_run [OF ok_init])

text \<open>Nothing is ever accepted that was not offered, and acceptance is final.\<close>

lemma accepted_run:
  "\<exists>xs. accepted (run q ss) = accepted q @ xs \<and> (\<forall>x\<in>set xs. \<exists>a. Offer a (Inr x) \<in> set ss)"
proof (induction ss arbitrary: q)
  case Nil
  then show ?case by simp
next
  case (Cons s ss)
  let ?q = "case s of Offer a r \<Rightarrow> offer a r q | Drain n \<Rightarrow> snd (drain n q)"
  obtain ys where ys: "accepted ?q = accepted q @ ys"
      "\<forall>y\<in>set ys. \<exists>a. Offer a (Inr y) = s"
  proof (cases s)
    case (Offer a r)
    then show ?thesis using accepted_offer [of a r q] that [of "[]"] that by force
  next
    case (Drain n)
    then show ?thesis using accepted_drain [of n q] that [of "[]"] by simp
  qed
  obtain xs where xs: "accepted (run ?q ss) = accepted ?q @ xs"
      "\<forall>x\<in>set xs. \<exists>a. Offer a (Inr x) \<in> set ss"
    using Cons.IH by blast
  have "accepted (run q (s # ss)) = accepted q @ (ys @ xs)" using ys xs by simp
  moreover have "\<forall>x\<in>set (ys @ xs). \<exists>a. Offer a (Inr x) \<in> set (s # ss)"
    using ys(2) xs(2) by fastforce
  ultimately show ?case by blast
qed

end

text \<open>
  The invariant of the channel: the queue is within its capacity and the received counter is the
  sum of what was queued or delivered, dropped and refused by the parser (in the 64-bit arithmetic
  of the atomic counters).
\<close>

definition channel_ok :: "nat \<Rightarrow> 'a channel \<Rightarrow> bool" where
  "channel_ok capacity c \<longleftrightarrow>
     length (ch_queue c) \<le> capacity \<and>
     ch_received c = of_nat (length (ch_delivered c) + length (ch_queue c))
                     + ch_dropped c + ch_parse_failures c"

definition channel_accepted :: "'a channel \<Rightarrow> 'a list" where
  "channel_accepted c = ch_delivered c @ ch_queue c"

lemma channel_ok_callback:
  "channel_ok k c \<Longrightarrow> channel_ok k (subscription_callback k a r c)"
  by (auto simp: channel_ok_def subscription_callback_def Let_def split: notify_action.splits sum.splits)

lemma channel_ok_drain: "channel_ok k c \<Longrightarrow> channel_ok k (snd (channel_drain k n c))"
  by (auto simp: channel_ok_def channel_drain_def Let_def of_nat_diff min_def of_nat_add [symmetric]
      simp del: of_nat_add)

lemma channel_accepted_callback:
  "channel_accepted (subscription_callback k a r c) = channel_accepted c \<or>
   (\<exists>x. r = Inr x \<and> channel_accepted (subscription_callback k a r c) = channel_accepted c @ [x])"
  by (auto simp: channel_accepted_def subscription_callback_def Let_def
      split: notify_action.splits sum.splits)

lemma channel_accepted_drain: "channel_accepted (snd (channel_drain k n c)) = channel_accepted c"
  by (simp add: channel_accepted_def channel_drain_def Let_def)

interpretation chan: counting_queue channel_new "subscription_callback k" "channel_drain k"
    channel_accepted "channel_ok k" for k
  by unfold_locales
    (auto simp: channel_ok_callback channel_ok_drain channel_accepted_callback
        channel_accepted_drain, simp_all add: channel_ok_def channel_new_def channel_accepted_def)

text \<open>A run of the channel: callback deliveries and drains in any order.\<close>

fun channel_run :: "nat \<Rightarrow> 'a channel \<Rightarrow> 'a offer list \<Rightarrow> 'a channel" where
  "channel_run k c [] = c"
| "channel_run k c (Offer a r # ss) = channel_run k (subscription_callback k a r c) ss"
| "channel_run k c (Drain n # ss) = channel_run k (snd (channel_drain k n c)) ss"

lemma channel_run_run: "channel_run k c ss = chan.run k c ss"
  by (induction k c ss rule: channel_run.induct) simp_all

text \<open>
  No event is lost silently: after any sequence of callback deliveries and drains the queue is
  within its capacity, the received counter equals the events handed out, still queued, dropped
  and refused by the parser, and what was accepted is a sequence of offered events.
\<close>

theorem channel_accounts_for_every_event:
  "length (ch_queue (channel_run k channel_new ss)) \<le> k
   \<and> ch_received (channel_run k channel_new ss)
       = of_nat (length (channel_accepted (channel_run k channel_new ss)))
         + ch_dropped (channel_run k channel_new ss) + ch_parse_failures (channel_run k channel_new ss)
   \<and> (\<forall>x. x \<in> set (channel_accepted (channel_run k channel_new ss))
        \<longrightarrow> (\<exists>a. Offer a (Inr x) \<in> set ss))"
proof -
  obtain xs where xs: "channel_accepted (channel_run k channel_new ss) = xs"
      "\<forall>x\<in>set xs. \<exists>a. Offer a (Inr x) \<in> set ss"
    using chan.accepted_run [of k channel_new ss] by (auto simp: channel_run_run chan.accepted_init)
  with chan.ok_reachable [of k ss] show ?thesis
    by (auto simp: channel_run_run channel_ok_def channel_accepted_def)
qed

theorem channel_accounts_for_every_event_witness:
  "ch_received (channel_run 1 channel_new
      [Offer ActionDeliver (Inr ''a''), Offer ActionDeliver (Inr ''b''), Drain 5,
       Offer ActionDeliver (Inl ())]) = 3
   \<and> channel_accepted (channel_run 1 channel_new
      [Offer ActionDeliver (Inr ''a''), Offer ActionDeliver (Inr ''b''), Drain 5,
       Offer ActionDeliver (Inl ())]) = [''a'']"
  using channel_accounts_for_every_event [of 1 "[Offer ActionDeliver (Inr ''a''),
      Offer ActionDeliver (Inr ''b''), Drain 5, Offer ActionDeliver (Inl ())]"]
  by (simp add: channel_new_def subscription_callback_def channel_drain_def channel_accepted_def Let_def)

end
