(* ===== verification/OG_Sysmon.thy ===== *)
theory OG_Sysmon
  imports OG_Channel
begin

text \<open>
  Sysmon events, \<^verbatim>\<open>crates/openguard-windows/src/sysmon.rs\<close>: the bounded parser of the event XML,
  the accessors of \<^verbatim>\<open>SysmonEvent\<close> and the normalization used by the timeline and the behavior
  chains.  The XML tokenizer (\<^verbatim>\<open>quick_xml\<close>) is a parameter of the model: the parser consumes the
  list of tokens it yields, ended by its end-of-file or error.
\<close>

definition SYSMON_QUEUE_CAPACITY :: nat where "SYSMON_QUEUE_CAPACITY = 2048"
definition MAXIMUM_EVENT_XML_BYTES :: nat where "MAXIMUM_EVENT_XML_BYTES = 512 * 1024"
definition MAXIMUM_FIELDS :: nat where "MAXIMUM_FIELDS = 128"
definition MAXIMUM_FIELD_NAME_BYTES :: nat where "MAXIMUM_FIELD_NAME_BYTES = 128"
definition MAXIMUM_FIELD_VALUE_BYTES :: nat where "MAXIMUM_FIELD_VALUE_BYTES = 32 * 1024"

record sysmon_event =
  sy_event_id :: u32
  sy_occurred_at :: string
  sy_fields :: "(string \<times> string) list"

section \<open>Parsing\<close>

text \<open>An attribute is its local name and its decoded value, or the decoding error.\<close>

type_synonym xml_attribute = "string \<times> (string + string)"

datatype xml_token =
  XStart string "xml_attribute list" | XEmpty string "xml_attribute list"
  | XText "string + string" | XEnd string | XOther

record parser_state =
  ps_event_id :: "u32 option"
  ps_occurred_at :: string
  ps_active_element :: string
  ps_active_data_name :: string
  ps_fields :: "(string \<times> string) list"

definition parser_init :: parser_state where
  "parser_init = \<lparr>ps_event_id = None, ps_occurred_at = [], ps_active_element = [],
                  ps_active_data_name = [], ps_fields = []\<rparr>"

fun attribute_value :: "string \<Rightarrow> xml_attribute list \<Rightarrow> string + string" where
  "attribute_value wanted [] = Inr []"
| "attribute_value wanted ((name, value) # rest) =
     (if name = wanted then map_err (\<lambda>e. ''decode XML attribute: '' @ e) value
      else attribute_value wanted rest)"

text \<open>The loop over the attributes of a \<open>Data\<close> element: the last short enough \<open>Name\<close> wins.\<close>

fun data_name :: "string \<Rightarrow> xml_attribute list \<Rightarrow> string + string" where
  "data_name active [] = Inr active"
| "data_name active ((name, value) # rest) =
     (if name = ''Name'' then
        (case value of
           Inl e \<Rightarrow> Inl (''decode field name: '' @ e)
         | Inr v \<Rightarrow> data_name (if length v \<le> MAXIMUM_FIELD_NAME_BYTES then v else active) rest)
      else data_name active rest)"

fun parse_token :: "xml_token \<Rightarrow> parser_state \<Rightarrow> string + parser_state" where
  "parse_token (XStart name attributes) p =
     (let p = p\<lparr>ps_active_element := name\<rparr> in
      if name = ''Data'' then
        and_then (data_name [] attributes) (\<lambda>n. Inr (p\<lparr>ps_active_data_name := n\<rparr>))
      else if name = ''TimeCreated'' then
        and_then (attribute_value ''SystemTime'' attributes) (\<lambda>t. Inr (p\<lparr>ps_occurred_at := t\<rparr>))
      else Inr p)"
| "parse_token (XEmpty name attributes) p =
     (if name = ''TimeCreated'' then
        and_then (attribute_value ''SystemTime'' attributes) (\<lambda>t. Inr (p\<lparr>ps_occurred_at := t\<rparr>))
      else Inr p)"
| "parse_token (XText text) p =
     and_then (map_err (\<lambda>e. ''decode event text: '' @ e) text) (\<lambda>value.
       if ps_active_element p = ''EventID'' then Inr (p\<lparr>ps_event_id := parse_u32 (trim value)\<rparr>)
       else if ps_active_element p = ''Data'' \<and> ps_active_data_name p \<noteq> []
               \<and> length (ps_fields p) < MAXIMUM_FIELDS
               \<and> length value \<le> MAXIMUM_FIELD_VALUE_BYTES
       then Inr (p\<lparr>ps_fields := AList.update (ps_active_data_name p) value (ps_fields p)\<rparr>)
       else Inr p)"
| "parse_token (XEnd name) p =
     Inr (p\<lparr>ps_active_element := [],
            ps_active_data_name := (if name = ''Data'' then [] else ps_active_data_name p)\<rparr>)"
| "parse_token XOther p = Inr p"

fun parse_tokens :: "xml_token list \<Rightarrow> parser_state \<Rightarrow> string + parser_state" where
  "parse_tokens [] p = Inr p"
| "parse_tokens (t # ts) p = and_then (parse_token t p) (parse_tokens ts)"

text \<open>\<open>tokens\<close> is the tokenizer: the tokens before the end, and the error that ended it, if any.\<close>

definition parse_event_xml ::
  "(string \<Rightarrow> xml_token list \<times> string option) \<Rightarrow> string \<Rightarrow> string \<Rightarrow> string + sysmon_event" where
  "parse_event_xml tokens now xml =
     (if MAXIMUM_EVENT_XML_BYTES < length xml
      then Inl ''event XML exceeds the bounded parser limit''
      else and_then (parse_tokens (fst (tokens xml)) parser_init) (\<lambda>p.
        case snd (tokens xml) of
          Some e \<Rightarrow> Inl (''parse event XML: '' @ e)
        | None \<Rightarrow>
            and_then (ok_or ''Sysmon event has no numeric EventID'' (ps_event_id p)) (\<lambda>i.
              Inr \<lparr>sy_event_id = i,
                   sy_occurred_at = (if ps_occurred_at p = [] then now else ps_occurred_at p),
                   sy_fields = ps_fields p\<rparr>)))"

section \<open>Accessors\<close>

definition sy_field :: "sysmon_event \<Rightarrow> string \<Rightarrow> string" where
  "sy_field e name = (case map_of (sy_fields e) name of None \<Rightarrow> [] | Some v \<Rightarrow> v)"

text \<open>\<^verbatim>\<open>sysmon.rs\<close> and \<^verbatim>\<open>eventlog.rs\<close> share this parser: a prefix \<open>0x\<close> or \<open>0X\<close> selects hexadecimal.\<close>

definition parse_prefixed_u32 :: "string \<Rightarrow> u32 option" where
  "parse_prefixed_u32 value =
     (let value = trim value in
      (case (case strip_prefix value ''0x'' of
               Some h \<Rightarrow> Some h | None \<Rightarrow> strip_prefix value ''0X'') of
         None \<Rightarrow> parse_u32 value
       | Some h \<Rightarrow> hex_u32 h))"

fun find_map :: "('a \<Rightarrow> 'b option) \<Rightarrow> 'a list \<Rightarrow> 'b option" where
  "find_map f [] = None"
| "find_map f (x # xs) = (case f x of None \<Rightarrow> find_map f xs | Some y \<Rightarrow> Some y)"

definition first_nonempty :: "string list \<Rightarrow> string option" where
  "first_nonempty vs = find (\<lambda>v. v \<noteq> []) vs"

definition sy_process_id :: "sysmon_event \<Rightarrow> u32 option" where
  "sy_process_id e = find_map (\<lambda>name. parse_prefixed_u32 (sy_field e name))
     [''ProcessId'', ''SourceProcessId'', ''TargetProcessId'']"

definition sy_correlation_id :: "sysmon_event \<Rightarrow> string" where
  "sy_correlation_id e =
     (case first_nonempty (map (sy_field e) [''ProcessGuid'', ''SourceProcessGuid'', ''TargetProcessGuid'']) of
        None \<Rightarrow> ''sysmon-pid-'' @ show_nat (unat (case sy_process_id e of None \<Rightarrow> 0 | Some p \<Rightarrow> p))
      | Some v \<Rightarrow> ''sysmon-'' @ v)"

definition sy_image :: "sysmon_event \<Rightarrow> string" where
  "sy_image e = (case first_nonempty (map (sy_field e) [''Image'', ''SourceImage'', ''TargetImage'']) of
                None \<Rightarrow> [] | Some v \<Rightarrow> v)"

definition sy_target_path :: "sysmon_event \<Rightarrow> string" where
  "sy_target_path e =
     (case first_nonempty (map (sy_field e)
             [''TargetFilename'', ''TargetObject'', ''TargetImage'', ''PipeName'']) of
        None \<Rightarrow> [] | Some v \<Rightarrow> v)"

definition sy_remote_address :: "sysmon_event \<Rightarrow> string" where
  "sy_remote_address e =
     (let destination = sy_field e ''DestinationIp''
      in if destination = [] then sy_field e ''QueryName'' else destination)"

definition event_action :: "u32 \<Rightarrow> string" where
  "event_action i =
     (if i = 1 then ''process_create'' else if i = 3 then ''network_connect''
      else if i = 5 then ''process_terminate'' else if i = 6 then ''driver_load''
      else if i = 7 then ''image_load'' else if i = 8 then ''create_remote_thread''
      else if i = 10 then ''process_access'' else if i = 11 then ''file_create''
      else if i = 12 then ''registry_create_delete'' else if i = 13 then ''registry_value_set''
      else if i = 14 then ''registry_rename'' else if i = 15 then ''file_stream_hash''
      else if i = 16 then ''configuration_change'' else if i = 17 then ''pipe_created''
      else if i = 18 then ''pipe_connected'' else if i = 19 then ''wmi_filter''
      else if i = 20 then ''wmi_consumer'' else if i = 21 then ''wmi_binding''
      else if i = 22 then ''dns_query'' else if i = 23 \<or> i = 26 then ''file_delete''
      else if i = 25 then ''process_tampering'' else if i = 255 then ''sysmon_error''
      else ''sysmon_event'')"

definition event_severity :: "u32 \<Rightarrow> severity" where
  "event_severity i =
     (if i = 8 \<or> i = 25 then High
      else if i = 10 \<or> (19 \<le> i \<and> i \<le> 21) \<or> i = 255 then Medium
      else if i = 6 \<or> (12 \<le> i \<and> i \<le> 15) \<or> i = 17 \<or> i = 18 \<or> i = 23 \<or> i = 26 then Low
      else Info)"

definition sy_title :: "sysmon_event \<Rightarrow> string" where
  "sy_title e = ''Sysmon '' @ map (\<lambda>c. if c = CHR ''_'' then CHR '' '' else c) (event_action (sy_event_id e))"

definition append_detail :: "string \<Rightarrow> string \<Rightarrow> string list \<Rightarrow> string list" where
  "append_detail label value parts =
     (if value \<noteq> [] \<and> \<not> (\<exists>part \<in> set parts. ends_with part value)
      then parts @ [label @ ''='' @ value] else parts)"

definition sy_detail :: "sysmon_event \<Rightarrow> string" where
  "sy_detail e =
     (let parts = append_detail ''pipe'' (sy_field e ''PipeName'')
                 (append_detail ''access'' (sy_field e ''GrantedAccess'')
                 (append_detail ''dns'' (sy_field e ''QueryName'')
                 (append_detail ''port'' (sy_field e ''DestinationPort'')
                 (append_detail ''destination'' (sy_field e ''DestinationIp'')
                 (append_detail ''target'' (sy_target_path e)
                 (append_detail ''command'' (sy_field e ''CommandLine'')
                 (append_detail ''image'' (sy_image e) [])))))))
      in if parts = [] then ''Sysmon event '' @ show_nat (unat (sy_event_id e))
         else join ''; '' parts)"

section \<open>Properties of the parser\<close>

definition fields_ok :: "(string \<times> string) list \<Rightarrow> bool" where
  "fields_ok fs \<longleftrightarrow>
     length fs \<le> MAXIMUM_FIELDS \<and> distinct (map fst fs) \<and>
     (\<forall>(n, v) \<in> set fs. n \<noteq> [] \<and> length n \<le> MAXIMUM_FIELD_NAME_BYTES
                          \<and> length v \<le> MAXIMUM_FIELD_VALUE_BYTES)"

definition parser_ok :: "parser_state \<Rightarrow> bool" where
  "parser_ok p \<longleftrightarrow> fields_ok (ps_fields p)
     \<and> length (ps_active_data_name p) \<le> MAXIMUM_FIELD_NAME_BYTES"

lemma data_name_bound:
  "data_name active attrs = Inr n \<Longrightarrow> length active \<le> MAXIMUM_FIELD_NAME_BYTES \<Longrightarrow>
   length n \<le> MAXIMUM_FIELD_NAME_BYTES"
  by (induction active attrs rule: data_name.induct) (auto split: sum.splits if_splits)

lemma length_alist_update: "length (AList.update k v al) \<le> Suc (length al)"
  by (induction al) auto

lemma set_alist_update: "x \<in> set (AList.update k v al) \<Longrightarrow> x = (k, v) \<or> x \<in> set al"
  by (induction al) (auto split: if_splits)

lemma fields_ok_update:
  assumes "fields_ok fs" "length fs < MAXIMUM_FIELDS" "n \<noteq> []"
    and "length n \<le> MAXIMUM_FIELD_NAME_BYTES" "length v \<le> MAXIMUM_FIELD_VALUE_BYTES"
  shows "fields_ok (AList.update n v fs)"
  using assms length_alist_update [of n v fs]
  by (auto simp: fields_ok_def distinct_update dest!: set_alist_update)

lemma parse_token_ok: "parse_token t p = Inr q \<Longrightarrow> parser_ok p \<Longrightarrow> parser_ok q"
  by (cases t)
    (auto simp: parser_ok_def result_iffs Let_def fields_ok_update
      split: if_splits dest: data_name_bound)

lemma parse_tokens_ok: "parse_tokens ts p = Inr q \<Longrightarrow> parser_ok p \<Longrightarrow> parser_ok q"
  by (induction ts arbitrary: p) (auto simp: result_iffs dest: parse_token_ok)

lemma parser_ok_init: "parser_ok parser_init"
  by (simp add: parser_ok_def parser_init_def fields_ok_def)

text \<open>
  Whatever the XML tokenizer yields, an accepted Sysmon event came from at most 512 KiB of
  text, has at most 128 fields with distinct non-empty names of at most 128 bytes and values of at
  most 32 KiB, the tokenizer reached its end without an error, and the time is never empty when the
  clock text is not.
\<close>

theorem parsed_event_is_bounded:
  assumes "parse_event_xml tokens now xml = Inr e"
  shows "length xml \<le> MAXIMUM_EVENT_XML_BYTES \<and> fields_ok (sy_fields e)
    \<and> snd (tokens xml) = None \<and> (now \<noteq> [] \<longrightarrow> sy_occurred_at e \<noteq> [])"
proof -
  from assms obtain p where p: "parse_tokens (fst (tokens xml)) parser_init = Inr p"
    and e: "sy_fields e = ps_fields p"
      "sy_occurred_at e = (if ps_occurred_at p = [] then now else ps_occurred_at p)"
    and l: "length xml \<le> MAXIMUM_EVENT_XML_BYTES" "snd (tokens xml) = None"
    by (auto simp: parse_event_xml_def result_iffs split: if_splits option.splits)
  from parse_tokens_ok [OF p parser_ok_init] e l show ?thesis by (simp add: parser_ok_def)
qed

definition sample_tokens :: "xml_token list" where
  "sample_tokens =
     [XStart ''Event'' [], XStart ''EventID'' [], XText (Inr ''10''), XEnd ''EventID'',
      XEmpty ''TimeCreated'' [(''SystemTime'', Inr ''t1'')], XStart ''Data'' [(''Name'', Inr ''Image'')],
      XText (Inr ''a.exe''), XEnd ''Data'', XEnd ''Event'']"

lemma sample_parsed:
  "parse_event_xml (\<lambda>_. (sample_tokens, None)) ''unix:0'' ''<Event>'' =
     Inr \<lparr>sy_event_id = 10, sy_occurred_at = ''t1'', sy_fields = [(''Image'', ''a.exe'')]\<rparr>"
  by code_simp

theorem parsed_event_is_bounded_witness:
  "fields_ok (sy_fields \<lparr>sy_event_id = 10, sy_occurred_at = ''t1'',
                         sy_fields = [(''Image'', ''a.exe'')]\<rparr>)"
  using parsed_event_is_bounded [OF sample_parsed] by simp

lemma event_severity_cases: "event_severity i \<le> High"
  by (simp add: event_severity_def less_eq_severity_def)

end
