(* ===== verification/OG_Chain.thy ===== *)
theory OG_Chain
  imports OG_Sysmon OG_Net
begin

text \<open>
  The behavior-chain engine, \<^verbatim>\<open>crates/openguard-service/src/behavior_chain.rs\<close>: Sysmon events are
  classified into signals, collected per stable process identity, and matched against three rules
  inside a sliding window; duplicate alerts are suppressed during a cooldown.

  An \<^verbatim>\<open>Instant\<close> is a number of nanoseconds and \<^verbatim>\<open>saturating_duration_since\<close> is subtraction of
  naturals.  \<^verbatim>\<open>chains\<close> and \<^verbatim>\<open>reported\<close> are association lists with distinct keys; the iteration order
  that \<^verbatim>\<open>min_by_key\<close> sees when the capacity is enforced is the parameter \<open>iter\<close>, a rearrangement.
\<close>

unbundle bit_operations_syntax

type_synonym instant = nat

definition CHAIN_WINDOW :: nat where "CHAIN_WINDOW = 10 * 60 * 10 ^ 9"
definition ALERT_COOLDOWN :: nat where "ALERT_COOLDOWN = 60 * 60 * 10 ^ 9"
definition MAXIMUM_CHAINS :: nat where "MAXIMUM_CHAINS = 4096"
definition MAXIMUM_SIGNALS_PER_CHAIN :: nat where "MAXIMUM_SIGNALS_PER_CHAIN = 32"

datatype chain_rule = CredentialExfiltration | InjectionBeacon | DropPersistenceBeacon

datatype signal_kind = CredentialAccess | Injection | FileDrop | PersistenceSignal | Network

record behavior_alert =
  ba_event_type :: string
  ba_severity :: severity
  ba_title :: string
  ba_detail :: string
  ba_process_id :: "u32 option"
  ba_path :: string
  ba_remote_address :: string
  ba_correlation_id :: string

record signal =
  sg_kind :: signal_kind
  sg_observed_at :: instant
  sg_detail :: string
  sg_remote_address :: string

record chain =
  bc_process_id :: "u32 option"
  bc_path :: string
  bc_last_seen :: instant
  bc_signals :: "signal list"

record engine =
  en_chains :: "(string \<times> chain) list"
  en_reported :: "((string \<times> chain_rule) \<times> instant) list"

definition engine_default :: engine where
  "engine_default = \<lparr>en_chains = [], en_reported = []\<rparr>"

section \<open>Rules\<close>

fun rule_event_type :: "chain_rule \<Rightarrow> string" where
  "rule_event_type CredentialExfiltration = ''credential_access_network_chain''"
| "rule_event_type InjectionBeacon = ''injection_network_chain''"
| "rule_event_type DropPersistenceBeacon = ''drop_persistence_network_chain''"

fun rule_severity :: "chain_rule \<Rightarrow> severity" where
  "rule_severity CredentialExfiltration = Critical"
| "rule_severity InjectionBeacon = Critical"
| "rule_severity DropPersistenceBeacon = High"

fun rule_title :: "chain_rule \<Rightarrow> string" where
  "rule_title CredentialExfiltration = ''Credential access followed by outbound activity''"
| "rule_title InjectionBeacon = ''Process injection followed by outbound activity''"
| "rule_title DropPersistenceBeacon = ''File drop, persistence, and outbound activity''"

fun rule_mitre :: "chain_rule \<Rightarrow> string" where
  "rule_mitre CredentialExfiltration = ''T1003.001 + T1041''"
| "rule_mitre InjectionBeacon = ''T1055 + T1071''"
| "rule_mitre DropPersistenceBeacon = ''T1105 + T1547/T1546 + T1071''"

section \<open>Classification\<close>

definition path_separator :: "char \<Rightarrow> bool" where
  "path_separator c \<longleftrightarrow> c = backslash \<or> c = CHR ''/''"

definition is_lsass :: "string \<Rightarrow> bool" where
  "is_lsass path \<longleftrightarrow> eq_ignore_ascii_case (last_piece path_separator path) ''lsass.exe''"

definition has_memory_read_access :: "string \<Rightarrow> bool" where
  "has_memory_read_access value =
     (let trimmed = trim value;
          hex = (case strip_prefix trimmed ''0x'' of Some h \<Rightarrow> Some h
                 | None \<Rightarrow> strip_prefix trimmed ''0X'');
          parsed = (case Option.bind hex hex_u32 of Some m \<Rightarrow> Some m | None \<Rightarrow> parse_u32 trimmed)
      in (case parsed of None \<Rightarrow> False
          | Some m \<Rightarrow> m AND (0x0010 OR 0x0020 OR 0x0008) \<noteq> 0))"

definition is_executable_drop :: "string \<Rightarrow> bool" where
  "is_executable_drop path =
     (let normalized = to_ascii_lowercase (to_backslashes path);
          user_writable = list_ex (\<lambda>segment. str_contains normalized (to_backslashes segment))
            [''/users/'', ''/programdata/'', ''/windows/temp/'', ''/recycle.bin/''];
          executable = list_ex (ends_with normalized)
            [''.exe'', ''.dll'', ''.scr'', ''.com'', ''.msi'', ''.ps1'', ''.bat'', ''.cmd'',
             ''.vbs'', ''.js'', ''.hta'']
      in user_writable \<and> executable)"

definition is_persistence_target :: "string \<Rightarrow> bool" where
  "is_persistence_target target =
     (let normalized = to_ascii_lowercase (to_backslashes target)
      in list_ex (\<lambda>segment. str_contains normalized (to_backslashes segment))
           [''/software/microsoft/windows/currentversion/run'',
            ''/software/microsoft/windows nt/currentversion/winlogon'',
            ''/system/currentcontrolset/services/'',
            ''/image file execution options/''])"

definition is_external_dns_query :: "string \<Rightarrow> bool" where
  "is_external_dns_query query =
     (let normalized = to_ascii_lowercase (trim_end_matches (\<lambda>c. c = CHR ''.'') query);
          suffix = (if CHR ''.'' \<in> set normalized then Some (last_piece (\<lambda>c. c = CHR ''.'') normalized)
                    else None)
      in normalized \<noteq> [] \<and> normalized \<noteq> ''localhost''
         \<and> \<not> (suffix = Some ''local'' \<or> suffix = Some ''lan''))"

definition classify :: "sysmon_event \<Rightarrow> signal_kind option" where
  "classify e =
     (let i = sy_event_id e in
      if i = 10 \<and> is_lsass (sy_target_path e) \<and> has_memory_read_access (sy_field e ''GrantedAccess'')
      then Some CredentialAccess
      else if i = 8 \<or> i = 25 then Some Injection
      else if i = 11 \<and> is_executable_drop (sy_target_path e) then Some FileDrop
      else if 12 \<le> i \<and> i \<le> 14 \<and> is_persistence_target (sy_target_path e) then Some PersistenceSignal
      else if 19 \<le> i \<and> i \<le> 21 then Some PersistenceSignal
      else if i = 3 \<and> is_external_address (sy_field e ''DestinationIp'') then Some Network
      else if i = 22 \<and> is_external_dns_query (sy_field e ''QueryName'') then Some Network
      else None)"

definition stable_correlation_id :: "sysmon_event \<Rightarrow> string option" where
  "stable_correlation_id e =
     (case first_nonempty (map (sy_field e) [''ProcessGuid'', ''SourceProcessGuid'']) of
        Some value \<Rightarrow> Some (''sysmon-'' @ value)
      | None \<Rightarrow>
          (case sy_process_id e of
             None \<Rightarrow> None
           | Some pid \<Rightarrow> if pid \<noteq> 0 then Some (''sysmon-pid-'' @ show_nat (unat pid)) else None))"

section \<open>The engine\<close>

definition has_signal :: "chain \<Rightarrow> signal_kind \<Rightarrow> bool" where
  "has_signal c kind \<longleftrightarrow> list_ex (\<lambda>s. sg_kind s = kind) (bc_signals c)"

definition matching_rules :: "chain \<Rightarrow> chain_rule list" where
  "matching_rules c =
     (if has_signal c CredentialAccess \<and> has_signal c Network then [CredentialExfiltration] else [])
     @ (if has_signal c Injection \<and> has_signal c Network then [InjectionBeacon] else [])
     @ (if has_signal c FileDrop \<and> has_signal c PersistenceSignal \<and> has_signal c Network
        then [DropPersistenceBeacon] else [])"

definition build_alert :: "chain_rule \<Rightarrow> string \<Rightarrow> chain \<Rightarrow> behavior_alert" where
  "build_alert r cid c =
     (let evidence = join '' -> '' (map sg_detail (bc_signals c));
          remote = (case find (\<lambda>s. sg_kind s = Network) (rev (bc_signals c)) of
                      None \<Rightarrow> [] | Some s \<Rightarrow> sg_remote_address s)
      in \<lparr>ba_event_type = rule_event_type r, ba_severity = rule_severity r, ba_title = rule_title r,
          ba_detail = ''Correlated within a 10-minute window; MITRE '' @ rule_mitre r
                      @ ''; evidence: '' @ evidence,
          ba_process_id = bc_process_id c, ba_path = bc_path c, ba_remote_address = remote,
          ba_correlation_id = cid\<rparr>)"

fun pop_excess :: "'a list \<Rightarrow> 'a list" where
  "pop_excess [] = []"
| "pop_excess (x # xs) =
     (if MAXIMUM_SIGNALS_PER_CHAIN < length (x # xs) then pop_excess xs else x # xs)"

text \<open>The entry of the chain map for one event: inserted when absent, then extended.\<close>

definition extend_chain :: "instant \<Rightarrow> sysmon_event \<Rightarrow> signal_kind \<Rightarrow> chain option \<Rightarrow> chain" where
  "extend_chain now e kind existing =
     (let c = (case existing of Some c \<Rightarrow> c
               | None \<Rightarrow> \<lparr>bc_process_id = sy_process_id e, bc_path = sy_image e,
                          bc_last_seen = now, bc_signals = []\<rparr>)
      in c\<lparr>bc_last_seen := now,
           bc_process_id := (case sy_process_id e of Some p \<Rightarrow> Some p | None \<Rightarrow> bc_process_id c),
           bc_path := (if sy_image e \<noteq> [] then sy_image e else bc_path c),
           bc_signals := pop_excess (bc_signals c @
             [\<lparr>sg_kind = kind, sg_observed_at = now, sg_detail = sy_detail e,
               sg_remote_address = sy_remote_address e\<rparr>])\<rparr>)"

definition cooling :: "instant \<Rightarrow> ((string \<times> chain_rule) \<times> instant) list \<Rightarrow> string \<times> chain_rule \<Rightarrow> bool" where
  "cooling now reported key =
     (case map_of reported key of None \<Rightarrow> False | Some at \<Rightarrow> now - at < ALERT_COOLDOWN)"

fun report_rules ::
  "instant \<Rightarrow> string \<Rightarrow> chain \<Rightarrow> chain_rule list \<Rightarrow> ((string \<times> chain_rule) \<times> instant) list
   \<Rightarrow> behavior_alert list \<times> ((string \<times> chain_rule) \<times> instant) list" where
  "report_rules now cid c [] reported = ([], reported)"
| "report_rules now cid c (r # rs) reported =
     (if cooling now reported (cid, r) then report_rules now cid c rs reported
      else (case report_rules now cid c rs (AList.update (cid, r) now reported) of
              (alerts, reported') \<Rightarrow> (build_alert r cid c # alerts, reported')))"

definition ingest_event :: "instant \<Rightarrow> sysmon_event \<Rightarrow> engine \<Rightarrow> behavior_alert list \<times> engine" where
  "ingest_event now e s =
     (case classify e of None \<Rightarrow> ([], s) | Some kind \<Rightarrow>
     (case stable_correlation_id e of None \<Rightarrow> ([], s) | Some cid \<Rightarrow>
        let c = extend_chain now e kind (map_of (en_chains s) cid) in
        (case report_rules now cid c (matching_rules c) (en_reported s) of
           (alerts, reported) \<Rightarrow>
             (alerts, s\<lparr>en_chains := AList.update cid c (en_chains s), en_reported := reported\<rparr>))))"

fun ingest_events :: "instant \<Rightarrow> sysmon_event list \<Rightarrow> engine \<Rightarrow> behavior_alert list \<times> engine" where
  "ingest_events now [] s = ([], s)"
| "ingest_events now (e # es) s =
     (case ingest_event now e s of (alerts, s') \<Rightarrow>
      (case ingest_events now es s' of (later, s'') \<Rightarrow> (alerts @ later, s'')))"

definition prune_chain :: "instant \<Rightarrow> chain \<Rightarrow> chain" where
  "prune_chain now c =
     c\<lparr>bc_signals := filter (\<lambda>s. now - sg_observed_at s \<le> CHAIN_WINDOW) (bc_signals c)\<rparr>"

definition prune :: "instant \<Rightarrow> engine \<Rightarrow> engine" where
  "prune now s =
     \<lparr>en_chains = filter (\<lambda>(_, c). bc_signals c \<noteq> [])
                    (map (\<lambda>(k, c). (k, prune_chain now c)) (en_chains s)),
      en_reported = filter (\<lambda>(_, at). now - at \<le> ALERT_COOLDOWN) (en_reported s)\<rparr>"

text \<open>\<^verbatim>\<open>min_by_key\<close> returns the first minimum in iteration order.\<close>

fun oldest_chain :: "(string \<times> chain) list \<Rightarrow> string option" where
  "oldest_chain [] = None"
| "oldest_chain ((k, c) # rest) =
     (case oldest_chain rest of None \<Rightarrow> Some k | Some k' \<Rightarrow>
      (case map_of rest k' of
         Some c' \<Rightarrow> if bc_last_seen c \<le> bc_last_seen c' then Some k else Some k'
       | None \<Rightarrow> Some k))"

text \<open>
  The eviction loop.  Every round removes one chain, so the number of chains bounds the rounds.
\<close>

fun evict :: "nat \<Rightarrow> ((string \<times> chain) list \<Rightarrow> (string \<times> chain) list) \<Rightarrow> engine \<Rightarrow> engine" where
  "evict 0 iter s = s"
| "evict (Suc n) iter s =
     (if MAXIMUM_CHAINS < length (en_chains s) then
        (case oldest_chain (iter (en_chains s)) of
           None \<Rightarrow> s
         | Some k \<Rightarrow> evict n iter
             (s\<lparr>en_chains := AList.delete k (en_chains s),
                en_reported := filter (\<lambda>((k', _), _). k' \<noteq> k) (en_reported s)\<rparr>))
      else s)"

definition enforce_capacity ::
  "((string \<times> chain) list \<Rightarrow> (string \<times> chain) list) \<Rightarrow> engine \<Rightarrow> engine" where
  "enforce_capacity iter s = evict (length (en_chains s)) iter s"

definition ingest_at ::
  "((string \<times> chain) list \<Rightarrow> (string \<times> chain) list) \<Rightarrow> sysmon_event list \<Rightarrow> instant \<Rightarrow> engine
   \<Rightarrow> behavior_alert list \<times> engine" where
  "ingest_at iter events now s =
     (case ingest_events now events (prune now s) of (alerts, s') \<Rightarrow>
        (alerts, enforce_capacity iter s'))"

section \<open>Invariants\<close>

lemma pop_excess_drop: "pop_excess xs = drop (length xs - MAXIMUM_SIGNALS_PER_CHAIN) xs"
  by (induction xs) (auto simp: Suc_diff_le)

lemma set_pop_excess: "x \<in> set (pop_excess xs) \<Longrightarrow> x \<in> set xs"
  by (auto simp: pop_excess_drop dest: in_set_dropD)

lemma length_pop_excess: "length (pop_excess xs) = min (length xs) MAXIMUM_SIGNALS_PER_CHAIN"
  by (auto simp: pop_excess_drop)

declare pop_excess.simps [simp del]

lemma matching_rules_iff:
  "r \<in> set (matching_rules c) \<longleftrightarrow>
     (case r of
        CredentialExfiltration \<Rightarrow> has_signal c CredentialAccess \<and> has_signal c Network
      | InjectionBeacon \<Rightarrow> has_signal c Injection \<and> has_signal c Network
      | DropPersistenceBeacon \<Rightarrow>
          has_signal c FileDrop \<and> has_signal c PersistenceSignal \<and> has_signal c Network)"
  by (auto simp: matching_rules_def split: chain_rule.splits)

lemma distinct_matching_rules: "distinct (matching_rules c)"
  by (auto simp: matching_rules_def)

text \<open>What the engine keeps of every chain: some signals, at most 32 of them.\<close>

definition chain_ok :: "chain \<Rightarrow> bool" where
  "chain_ok c \<longleftrightarrow> bc_signals c \<noteq> [] \<and> length (bc_signals c) \<le> MAXIMUM_SIGNALS_PER_CHAIN"

definition engine_ok :: "engine \<Rightarrow> bool" where
  "engine_ok s \<longleftrightarrow> distinct (map fst (en_chains s)) \<and> distinct (map fst (en_reported s))
     \<and> (\<forall>(k, c) \<in> set (en_chains s). chain_ok c)"

lemma chain_ok_extend: "chain_ok (extend_chain now e kind existing)"
  by (auto simp: chain_ok_def extend_chain_def Let_def length_pop_excess MAXIMUM_SIGNALS_PER_CHAIN_def
      pop_excess_drop)

lemma engine_ok_default: "engine_ok engine_default"
  by (simp add: engine_ok_def engine_default_def)

lemma report_rules_keys:
  "report_rules now cid c rs rep = (al, rep') \<Longrightarrow> distinct (map fst rep) \<Longrightarrow> distinct (map fst rep')"
  by (induction rs arbitrary: rep al)
    (auto split: if_splits prod.splits simp: distinct_update)

lemma set_update_cases: "x \<in> set (AList.update k v al) \<Longrightarrow> x = (k, v) \<or> (x \<in> set al \<and> (distinct (map fst al) \<longrightarrow> fst x \<noteq> k))"
  by (induction al) (auto simp: rev_image_eqI split: if_splits)

lemma engine_ok_event: "engine_ok s \<Longrightarrow> engine_ok (snd (ingest_event now e s))"
  by (auto simp: engine_ok_def ingest_event_def Let_def distinct_update chain_ok_extend
      split: option.splits prod.splits dest!: set_update_cases dest: report_rules_keys)

lemma engine_ok_events: "engine_ok s \<Longrightarrow> engine_ok (snd (ingest_events now es s))"
proof (induction es arbitrary: s)
  case (Cons e es)
  then have "engine_ok (snd (ingest_events now es (snd (ingest_event now e s))))"
    by (simp add: engine_ok_event)
  then show ?case by (simp add: case_prod_beta)
qed simp

lemma distinct_fst_filter: "distinct (map fst al) \<Longrightarrow> distinct (map fst (filter P al))"
  by (induction al) auto

lemma engine_ok_prune: "engine_ok s \<Longrightarrow> engine_ok (prune now s)"
proof -
  assume s: "engine_ok s"
  have "distinct (map fst (map (\<lambda>(k, c). (k, prune_chain now c)) (en_chains s)))"
    using s by (simp add: engine_ok_def case_prod_beta comp_def)
  then show ?thesis
    using s by (fastforce simp: engine_ok_def prune_def chain_ok_def prune_chain_def
        intro!: distinct_fst_filter intro: order_trans [OF length_filter_le])
qed

text \<open>The library's \<open>AList.delete\<close> on distinct keys removes exactly the entry.\<close>

lemma set_delete: "x \<in> set (AList.delete k al) \<longleftrightarrow> x \<in> set al \<and> fst x \<noteq> k"
  by (auto simp: AList.delete_eq)

lemma length_delete_present:
  "k \<in> fst ` set al \<Longrightarrow> length (AList.delete k al) < length al"
  by (auto simp: AList.delete_eq intro!: length_filter_less)

lemma oldest_chain_mem: "oldest_chain al = Some k \<Longrightarrow> k \<in> fst ` set al"
  by (induction al arbitrary: k) (auto split: option.splits if_splits)

lemma oldest_chain_None: "oldest_chain al = None \<longleftrightarrow> al = []"
  by (cases al) (auto split: option.splits if_splits)

lemma oldest_chain_min:
  assumes "oldest_chain al = Some k" "distinct (map fst al)" "(k', c') \<in> set al"
  shows "\<exists>c. (k, c) \<in> set al \<and> bc_last_seen c \<le> bc_last_seen c'"
  using assms
proof (induction al arbitrary: k k' c')
  case (Cons a al)
  obtain ka ca where a: "a = (ka, ca)" by (cases a)
  show ?case
  proof (cases "oldest_chain al")
    case None
    with Cons.prems a show ?thesis by (simp add: oldest_chain_None)
  next
    case (Some q)
    then obtain cq where cq: "(q, cq) \<in> set al" using oldest_chain_mem by fastforce
    then have m: "map_of al q = Some cq" using Cons.prems(2) a by simp
    have least: "bc_last_seen cq \<le> bc_last_seen d" if d: "(kd, d) \<in> set al" for kd d
    proof -
      from Cons.IH [OF Some _ d] Cons.prems(2) a obtain c where
        c: "(q, c) \<in> set al" "bc_last_seen c \<le> bc_last_seen d" by auto
      with m Cons.prems(2) a have "c = cq" by (auto dest: map_of_is_SomeI)
      with c show ?thesis by simp
    qed
    show ?thesis
    proof (cases "bc_last_seen ca \<le> bc_last_seen cq")
      case True
      with Some m Cons.prems(1) a have k: "k = ka" by simp
      from Cons.prems(3) a True least have "bc_last_seen ca \<le> bc_last_seen c'"
        by (auto intro: order_trans)
      with k a show ?thesis by auto
    next
      case False
      with Some m Cons.prems(1) a have k: "k = q" by simp
      from Cons.prems(3) a False least have "bc_last_seen cq \<le> bc_last_seen c'" by auto
      with k cq show ?thesis by auto
    qed
  qed
qed simp

text \<open>The rearrangement that the hash map's iteration may apply.\<close>

definition rearranges :: "('a list \<Rightarrow> 'a list) \<Rightarrow> bool" where
  "rearranges iter \<longleftrightarrow> (\<forall>xs. set (iter xs) = set xs \<and> length (iter xs) = length xs)"

lemma evict_bound:
  assumes "rearranges iter" "length (en_chains s) \<le> MAXIMUM_CHAINS + n"
  shows "length (en_chains (evict n iter s)) \<le> MAXIMUM_CHAINS"
  using assms(2)
proof (induction n arbitrary: s)
  case (Suc n)
  show ?case
  proof (cases "MAXIMUM_CHAINS < length (en_chains s)")
    case True
    then have "iter (en_chains s) \<noteq> []"
      using assms(1) by (metis length_greater_0_conv less_nat_zero_code list.size(3) not_less_iff_gr_or_eq rearranges_def)
    then obtain k where k: "oldest_chain (iter (en_chains s)) = Some k"
      using oldest_chain_None by blast
    then have "k \<in> fst ` set (en_chains s)"
      using oldest_chain_mem assms(1) by (metis rearranges_def)
    then have "length (AList.delete k (en_chains s)) < length (en_chains s)"
      by (rule length_delete_present)
    with Suc.prems True k show ?thesis by (simp add: Suc.IH)
  next
    case False
    then show ?thesis by simp
  qed
qed simp

lemma evict_subset:
  "set (en_chains (evict n iter s)) \<subseteq> set (en_chains s)
   \<and> set (en_reported (evict n iter s)) \<subseteq> set (en_reported s)"
proof (induction n arbitrary: s)
  case (Suc n)
  show ?case
  proof (cases "oldest_chain (iter (en_chains s))")
    case (Some k)
    let ?t = "s\<lparr>en_chains := AList.delete k (en_chains s),
                en_reported := filter (\<lambda>((k', _), _). k' \<noteq> k) (en_reported s)\<rparr>"
    have "set (en_chains ?t) \<subseteq> set (en_chains s)" "set (en_reported ?t) \<subseteq> set (en_reported s)"
      by (auto simp: set_delete)
    with Suc [of ?t] Some show ?thesis by auto
  qed simp
qed simp

lemma engine_ok_evict: "engine_ok s \<Longrightarrow> engine_ok (evict n iter s)"
proof (induction n arbitrary: s)
  case (Suc n)
  have "engine_ok (s\<lparr>en_chains := AList.delete k (en_chains s),
           en_reported := filter (\<lambda>((k', _), _). k' \<noteq> k) (en_reported s)\<rparr>)" for k
    using Suc.prems by (auto simp: engine_ok_def distinct_delete set_delete intro: distinct_fst_filter)
  with Suc show ?case by (auto split: option.splits)
qed simp

lemma engine_ok_ingest: "engine_ok s \<Longrightarrow> engine_ok (snd (ingest_at iter es now s))"
  by (simp add: ingest_at_def case_prod_beta enforce_capacity_def engine_ok_evict
      engine_ok_events engine_ok_prune)

text \<open>
  C23. The engine stays bounded: after every batch, whatever the events, the clock and the iteration
  order of the hash map, there are at most 4096 chains with distinct identities, each holding
  between one and 32 signals.
\<close>

theorem engine_bounded:
  assumes "engine_ok s" "rearranges iter"
  shows "engine_ok (snd (ingest_at iter es now s))
    \<and> length (en_chains (snd (ingest_at iter es now s))) \<le> MAXIMUM_CHAINS"
proof -
  have "length (en_chains (enforce_capacity iter t)) \<le> MAXIMUM_CHAINS" for t
    unfolding enforce_capacity_def by (rule evict_bound [OF assms(2)]) simp
  with engine_ok_ingest [OF assms(1)] show ?thesis
    by (simp add: ingest_at_def case_prod_beta)
qed

theorem engine_bounded_witness:
  "engine_ok (snd (ingest_at rev [] 5 engine_default))"
  using engine_bounded [OF engine_ok_default, of rev "[]" 5] by (simp add: rearranges_def)

section \<open>Alerts are backed by events\<close>

fun rule_kinds :: "chain_rule \<Rightarrow> signal_kind list" where
  "rule_kinds CredentialExfiltration = [CredentialAccess, Network]"
| "rule_kinds InjectionBeacon = [Injection, Network]"
| "rule_kinds DropPersistenceBeacon = [FileDrop, PersistenceSignal, Network]"

lemma matching_rules_kinds:
  "r \<in> set (matching_rules c) \<longleftrightarrow> (\<forall>k \<in> set (rule_kinds r). has_signal c k)"
  by (cases r) (auto simp: matching_rules_iff)

text \<open>A signal is backed when an observed event of the same identity carried it.\<close>

definition backed :: "(instant \<times> sysmon_event) set \<Rightarrow> string \<Rightarrow> signal \<Rightarrow> bool" where
  "backed h cid sg \<longleftrightarrow> (\<exists>e. (sg_observed_at sg, e) \<in> h \<and> classify e = Some (sg_kind sg)
                        \<and> stable_correlation_id e = Some cid)"

definition engine_backed :: "(instant \<times> sysmon_event) set \<Rightarrow> engine \<Rightarrow> bool" where
  "engine_backed h s \<longleftrightarrow>
     (\<forall>(cid, c) \<in> set (en_chains s). \<forall>sg \<in> set (bc_signals c). backed h cid sg)"

definition engine_recent :: "instant \<Rightarrow> engine \<Rightarrow> bool" where
  "engine_recent now s \<longleftrightarrow>
     (\<forall>(cid, c) \<in> set (en_chains s). \<forall>sg \<in> set (bc_signals c). now - sg_observed_at sg \<le> CHAIN_WINDOW)"

lemma backed_mono: "backed h cid sg \<Longrightarrow> h \<subseteq> h' \<Longrightarrow> backed h' cid sg"
  by (auto simp: backed_def)

lemma engine_backed_mono: "engine_backed h s \<Longrightarrow> h \<subseteq> h' \<Longrightarrow> engine_backed h' s"
  by (fastforce simp: engine_backed_def intro: backed_mono)

lemma set_extend_chain:
  assumes "sg \<in> set (bc_signals (extend_chain now e kind existing))"
  shows "(\<exists>c. existing = Some c \<and> sg \<in> set (bc_signals c)) \<or>
         (sg_kind sg = kind \<and> sg_observed_at sg = now)"
  using assms by (auto simp: extend_chain_def Let_def split: option.splits dest!: set_pop_excess)

lemma extended_backed:
  assumes "engine_backed h s" "engine_recent now s"
    and "classify e = Some kind" "stable_correlation_id e = Some cid"
    and "sg \<in> set (bc_signals (extend_chain now e kind (map_of (en_chains s) cid)))"
  shows "backed (insert (now, e) h) cid sg \<and> now - sg_observed_at sg \<le> CHAIN_WINDOW"
  using set_extend_chain [OF assms(5)]
proof
  assume "\<exists>c. map_of (en_chains s) cid = Some c \<and> sg \<in> set (bc_signals c)"
  then obtain c where "(cid, c) \<in> set (en_chains s)" "sg \<in> set (bc_signals c)"
    by (auto dest: map_of_SomeD)
  with assms(1,2) show ?thesis
    by (fastforce simp: engine_backed_def engine_recent_def intro: backed_mono)
next
  assume "sg_kind sg = kind \<and> sg_observed_at sg = now"
  with assms(3,4) show ?thesis by (auto simp: backed_def)
qed

lemma report_rules_alert:
  "a \<in> set (fst (report_rules now cid c rs rep)) \<Longrightarrow> \<exists>r \<in> set rs. a = build_alert r cid c"
  by (induction rs arbitrary: rep) (auto simp: case_prod_beta split: if_splits)

definition justified :: "(instant \<times> sysmon_event) set \<Rightarrow> instant \<Rightarrow> behavior_alert \<Rightarrow> bool" where
  "justified h now a \<longleftrightarrow>
     (\<exists>r. ba_event_type a = rule_event_type r \<and> ba_severity a = rule_severity r \<and>
       (\<forall>kind \<in> set (rule_kinds r). \<exists>t e. (t, e) \<in> h \<and> classify e = Some kind
          \<and> stable_correlation_id e = Some (ba_correlation_id a) \<and> now - t \<le> CHAIN_WINDOW))"

lemma justified_mono: "justified h now a \<Longrightarrow> h \<subseteq> h' \<Longrightarrow> justified h' now a"
  unfolding justified_def by (meson subsetD)

lemma justified_build_alert:
  assumes "r \<in> set (matching_rules c)"
    and "\<And>sg. sg \<in> set (bc_signals c) \<Longrightarrow> backed h cid sg \<and> now - sg_observed_at sg \<le> CHAIN_WINDOW"
  shows "justified h now (build_alert r cid c)"
  unfolding justified_def
proof (intro exI [of _ r] conjI ballI)
  fix kind assume "kind \<in> set (rule_kinds r)"
  with assms(1) obtain sg where "sg \<in> set (bc_signals c)" "sg_kind sg = kind"
    by (auto simp: matching_rules_kinds has_signal_def list_ex_iff)
  with assms(2) show "\<exists>t e. (t, e) \<in> h \<and> classify e = Some kind
      \<and> stable_correlation_id e = Some (ba_correlation_id (build_alert r cid c))
      \<and> now - t \<le> CHAIN_WINDOW"
    by (fastforce simp: backed_def build_alert_def Let_def)
qed (simp_all add: build_alert_def Let_def)

lemma ingest_event_backed:
  assumes "engine_backed h s" "engine_recent now s"
  shows "engine_backed (insert (now, e) h) (snd (ingest_event now e s))
    \<and> engine_recent now (snd (ingest_event now e s))
    \<and> (\<forall>a \<in> set (fst (ingest_event now e s)). justified (insert (now, e) h) now a)"
proof (cases "classify e = None \<or> stable_correlation_id e = None")
  case True
  then have "ingest_event now e s = ([], s)"
    by (auto simp: ingest_event_def split: option.splits)
  with assms(2) engine_backed_mono [OF assms(1), of "insert (now, e) h"] show ?thesis
    by auto
next
  case False
  then obtain kind cid where k: "classify e = Some kind" "stable_correlation_id e = Some cid"
    by auto
  let ?c = "extend_chain now e kind (map_of (en_chains s) cid)"
  note ext = extended_backed [OF assms k]
  have ch: "en_chains (snd (ingest_event now e s)) = AList.update cid ?c (en_chains s)"
    using k by (simp add: ingest_event_def Let_def case_prod_beta)
  have "engine_backed (insert (now, e) h) (snd (ingest_event now e s))"
    using engine_backed_mono [OF assms(1), of "insert (now, e) h"] ext unfolding engine_backed_def ch
    by (auto dest!: set_update_cases)
  moreover have "engine_recent now (snd (ingest_event now e s))"
    using assms(2) ext unfolding engine_recent_def ch by (auto dest!: set_update_cases)
  moreover have "justified (insert (now, e) h) now a" if "a \<in> set (fst (ingest_event now e s))" for a
  proof -
    from that k obtain r where r: "r \<in> set (matching_rules ?c)" "a = build_alert r cid ?c"
      by (auto simp: ingest_event_def Let_def case_prod_beta dest!: report_rules_alert)
    show ?thesis unfolding r(2) by (rule justified_build_alert [OF r(1)]) (rule ext)
  qed
  ultimately show ?thesis by blast
qed

lemma ingest_events_backed:
  assumes "engine_backed h s" "engine_recent now s"
  shows "engine_backed (h \<union> Pair now ` set es) (snd (ingest_events now es s))
    \<and> (\<forall>a \<in> set (fst (ingest_events now es s)). justified (h \<union> Pair now ` set es) now a)"
  using assms
proof (induction es arbitrary: h s)
  case (Cons e es)
  let ?s = "snd (ingest_event now e s)" and ?h = "insert (now, e) h"
  note ev = ingest_event_backed [OF Cons.prems, of e]
  have eq: "h \<union> Pair now ` set (e # es) = ?h \<union> Pair now ` set es" by auto
  from Cons.IH [of ?h ?s] ev
  have rest: "engine_backed (?h \<union> Pair now ` set es) (snd (ingest_events now es ?s))"
    "\<forall>a \<in> set (fst (ingest_events now es ?s)). justified (?h \<union> Pair now ` set es) now a"
    by auto
  have first: "\<forall>a \<in> set (fst (ingest_event now e s)). justified (?h \<union> Pair now ` set es) now a"
    using ev by (auto intro: justified_mono)
  show ?case
    using rest first unfolding eq by (auto simp: case_prod_beta)
qed simp

lemma prune_backed: "engine_backed h s \<Longrightarrow> engine_backed h (prune now s) \<and> engine_recent now (prune now s)"
  by (auto simp: engine_backed_def engine_recent_def prune_def prune_chain_def split: prod.splits)

fun engine_run ::
  "((string \<times> chain) list \<Rightarrow> (string \<times> chain) list) \<Rightarrow> engine \<Rightarrow> (instant \<times> sysmon_event list) list
   \<Rightarrow> engine" where
  "engine_run iter s [] = s"
| "engine_run iter s ((now, es) # rest) = engine_run iter (snd (ingest_at iter es now s)) rest"

definition history :: "(instant \<times> sysmon_event list) list \<Rightarrow> (instant \<times> sysmon_event) set" where
  "history batches = (\<Union>(now, es) \<in> set batches. Pair now ` set es)"

lemma history_Cons: "history ((now, es) # rest) = Pair now ` set es \<union> history rest"
  by (simp add: history_def)

lemma ingest_at_backed:
  assumes "engine_backed h s"
  shows "engine_backed (h \<union> Pair now ` set es) (snd (ingest_at iter es now s))
    \<and> (\<forall>a \<in> set (fst (ingest_at iter es now s)). justified (h \<union> Pair now ` set es) now a)"
proof -
  let ?r = "ingest_events now es (prune now s)"
  have r: "engine_backed (h \<union> Pair now ` set es) (snd ?r)"
    "\<forall>a \<in> set (fst ?r). justified (h \<union> Pair now ` set es) now a"
    using ingest_events_backed [of h "prune now s" now es] prune_backed [OF assms] by auto
  have "set (en_chains (enforce_capacity iter (snd ?r))) \<subseteq> set (en_chains (snd ?r))"
    using evict_subset by (auto simp: enforce_capacity_def)
  with r have "engine_backed (h \<union> Pair now ` set es) (enforce_capacity iter (snd ?r))"
    by (auto simp: engine_backed_def)
  with r(2) show ?thesis by (simp add: ingest_at_def case_prod_beta)
qed

lemma engine_run_backed: "engine_backed h s \<Longrightarrow> engine_backed (h \<union> history bs) (engine_run iter s bs)"
proof (induction bs arbitrary: h s)
  case Nil
  then show ?case by (simp add: history_def)
next
  case (Cons b bs)
  obtain now es where b: "b = (now, es)" by (cases b)
  show ?case
    using Cons.IH [of "h \<union> Pair now ` set es"] ingest_at_backed [OF Cons.prems, of now es iter]
    by (simp add: b history_Cons Un_assoc)
qed

text \<open>
  C8. Every alert is explained by real telemetry: when a batch raises an alert, then for each signal
  kind its rule requires there is an event, in this batch or an earlier one, that is classified as
  that kind, has the same stable process identity as the alert, and was observed at most ten
  minutes ago.  This holds after any sequence of batches, through pruning and eviction.
\<close>

theorem alerts_are_backed:
  assumes "a \<in> set (fst (ingest_at iter es now (engine_run iter engine_default past)))"
  shows "justified (history (past @ [(now, es)])) now a"
proof -
  have "engine_backed {} engine_default" by (simp add: engine_backed_def engine_default_def)
  from engine_run_backed [OF this, of past iter]
  have "engine_backed (history past) (engine_run iter engine_default past)" by simp
  from ingest_at_backed [OF this, of now es iter] assms
  have "justified (history past \<union> Pair now ` set es) now a" by blast
  then show ?thesis by (simp add: history_def Un_commute)
qed

definition sample_injection :: sysmon_event where
  "sample_injection = \<lparr>sy_event_id = 8, sy_occurred_at = ''t'',
     sy_fields = [(''SourceProcessGuid'', ''{A}'')]\<rparr>"

definition sample_network :: sysmon_event where
  "sample_network = \<lparr>sy_event_id = 3, sy_occurred_at = ''t'',
     sy_fields = [(''ProcessGuid'', ''{A}''), (''DestinationIp'', ''8.8.8.8'')]\<rparr>"

lemma sample_alert:
  "map ba_event_type (fst (ingest_at rev [sample_network] 2
     (engine_run rev engine_default [(1, [sample_injection])]))) = [''injection_network_chain'']"
  by code_simp

lemma map_eq_singleton_mem: "map f xs = [y] \<Longrightarrow> \<exists>x \<in> set xs. f x = y"
  by (cases xs) auto

theorem alerts_are_backed_witness:
  "\<exists>a. ba_event_type a = ''injection_network_chain''
     \<and> justified (history ([(1, [sample_injection])] @ [(2, [sample_network])])) 2 a"
proof -
  from map_eq_singleton_mem [OF sample_alert]
  obtain a where a: "a \<in> set (fst (ingest_at rev [sample_network] 2
      (engine_run rev engine_default [(1, [sample_injection])])))"
    and t: "ba_event_type a = ''injection_network_chain''"
    by (elim bexE)
  from alerts_are_backed [OF a] t show ?thesis by (intro exI conjI)
qed

section \<open>Suppression and detection\<close>

definition alert_key :: "behavior_alert \<Rightarrow> string \<times> string" where
  "alert_key a = (ba_correlation_id a, ba_event_type a)"

definition alerts_for :: "string \<Rightarrow> chain_rule \<Rightarrow> behavior_alert list \<Rightarrow> behavior_alert list" where
  "alerts_for cid r alerts = filter (\<lambda>a. alert_key a = (cid, rule_event_type r)) alerts"

lemma rule_event_type_inj: "rule_event_type r = rule_event_type r' \<longleftrightarrow> r = r'"
  by (cases r; cases r') auto

lemma alert_key_build: "alert_key (build_alert r cid c) = (cid, rule_event_type r)"
  by (simp add: alert_key_def build_alert_def Let_def)

lemma alerts_for_append: "alerts_for cid r (as @ bs) = alerts_for cid r as @ alerts_for cid r bs"
  by (simp add: alerts_for_def)

text \<open>
  What one pass over the rules does to one key: nothing while the key cools down or the rule does
  not match, otherwise one alert and the time of the report.
\<close>

definition key_effect ::
  "instant \<Rightarrow> string \<Rightarrow> chain_rule \<Rightarrow> ((string \<times> chain_rule) \<times> instant) list
   \<Rightarrow> behavior_alert list \<times> ((string \<times> chain_rule) \<times> instant) list \<Rightarrow> bool" where
  "key_effect now cid r rep out \<longleftrightarrow>
     (alerts_for cid r (fst out) = [] \<and> map_of (snd out) (cid, r) = map_of rep (cid, r))
     \<or> (length (alerts_for cid r (fst out)) = 1 \<and> \<not> cooling now rep (cid, r)
        \<and> map_of (snd out) (cid, r) = Some now)"

lemma key_effect_nil: "key_effect now cid r rep ([], rep)"
  by (simp add: key_effect_def alerts_for_def)

lemma cooling_now: "map_of rep k = Some now \<Longrightarrow> cooling now rep k"
  by (simp add: cooling_def ALERT_COOLDOWN_def)

lemma cooling_cong: "map_of rep k = map_of rep' k \<Longrightarrow> cooling now rep k = cooling now rep' k"
  by (simp add: cooling_def)

lemma key_effect_trans:
  assumes "key_effect now cid r rep (as, rep')" "key_effect now cid r rep' (bs, rep'')"
  shows "key_effect now cid r rep (as @ bs, rep'')"
proof (cases "alerts_for cid r as = []")
  case True
  with assms(1) have eq: "map_of rep' (cid, r) = map_of rep (cid, r)"
    by (auto simp: key_effect_def)
  then have "cooling now rep' (cid, r) = cooling now rep (cid, r)" by (rule cooling_cong)
  with assms(2) eq True show ?thesis by (auto simp: key_effect_def alerts_for_append)
next
  case False
  with assms(1) have one: "length (alerts_for cid r as) = 1" "\<not> cooling now rep (cid, r)"
    "map_of rep' (cid, r) = Some now"
    by (auto simp: key_effect_def)
  then have "cooling now rep' (cid, r)" by (intro cooling_now)
  with assms(2) one show ?thesis by (auto simp: key_effect_def alerts_for_append)
qed

lemma key_effect_report_rules: "key_effect now cid r rep (report_rules now cid' c rs rep)"
proof (induction rs arbitrary: rep)
  case Nil
  then show ?case by (simp add: key_effect_nil)
next
  case (Cons q rs)
  show ?case
  proof (cases "cooling now rep (cid', q)")
    case True
    with Cons show ?thesis by simp
  next
    case False
    let ?rep = "AList.update (cid', q) now rep"
    have "key_effect now cid r rep ([build_alert q cid' c], ?rep)"
      using False
      by (auto simp: key_effect_def alerts_for_def alert_key_build rule_event_type_inj update_conv')
    from key_effect_trans [OF this, of "fst (report_rules now cid' c rs ?rep)"
        "snd (report_rules now cid' c rs ?rep)"] Cons [of ?rep] False
    show ?thesis by (simp add: case_prod_beta)
  qed
qed

lemma key_effect_event:
  "key_effect now cid r (en_reported s)
     (fst (ingest_event now e s), en_reported (snd (ingest_event now e s)))"
  using key_effect_report_rules [of now cid r "en_reported s"]
  by (auto simp: ingest_event_def Let_def case_prod_beta key_effect_nil split: option.splits)

lemma key_effect_events:
  "key_effect now cid r (en_reported s)
     (fst (ingest_events now es s), en_reported (snd (ingest_events now es s)))"
proof (induction es arbitrary: s)
  case Nil
  then show ?case by (simp add: key_effect_nil)
next
  case (Cons e es)
  show ?case
    using key_effect_trans [OF key_effect_event Cons] by (simp add: case_prod_beta)
qed

text \<open>Eviction forgets a report only together with the chain it belongs to.\<close>

lemma evict_reported:
  "map_of (en_reported (evict n iter s)) (cid, r) = map_of (en_reported s) (cid, r)
   \<or> cid \<notin> fst ` set (en_chains (evict n iter s))"
proof (induction n arbitrary: s)
  case (Suc n)
  show ?case
  proof (cases "MAXIMUM_CHAINS < length (en_chains s)")
    case True
    show ?thesis
    proof (cases "oldest_chain (iter (en_chains s))")
      case (Some k)
      let ?t = "s\<lparr>en_chains := AList.delete k (en_chains s),
                  en_reported := filter (\<lambda>((k', _), _). k' \<noteq> k) (en_reported s)\<rparr>"
      have ev: "evict (Suc n) iter s = evict n iter ?t" using True Some by simp
      show ?thesis
      proof (cases "cid = k")
        case True
        then have "cid \<notin> fst ` set (en_chains ?t)" by (auto simp: set_delete)
        with evict_subset [of n iter ?t] ev show ?thesis by auto
      next
        case False
        have "map_of (filter (\<lambda>((k', _), _). k' \<noteq> k) al) (cid, r) = map_of al (cid, r)"
          for al :: "((string \<times> chain_rule) \<times> instant) list"
          using False by (induction al) auto
        with Suc [of ?t] ev show ?thesis by simp
      qed
    qed simp
  qed simp
qed simp

lemma prune_reported:
  assumes "engine_ok s"
  shows "map_of (en_reported (prune now s)) k =
    (case map_of (en_reported s) k of None \<Rightarrow> None
     | Some at \<Rightarrow> if now - at \<le> ALERT_COOLDOWN then Some at else None)"
proof -
  have "map_of (filter (\<lambda>(_, at). now - at \<le> ALERT_COOLDOWN) al) k =
    (case map_of al k of None \<Rightarrow> None
     | Some at \<Rightarrow> if now - at \<le> ALERT_COOLDOWN then Some at else None)"
    if "distinct (map fst al)" for al :: "((string \<times> chain_rule) \<times> instant) list"
    using that by (induction al) (auto simp: map_of_eq_None_iff rev_image_eqI split: option.splits)
  with assms show ?thesis by (simp add: engine_ok_def prune_def)
qed

text \<open>
  C24. Duplicate alerts are suppressed.  A batch raises at most one alert per process identity and
  rule; it raises none when the last report is less than an hour old; and after the batch the time
  of the latest report is kept unless the capacity limit evicted the whole chain.
\<close>

theorem duplicate_alerts_suppressed:
  assumes "engine_ok s"
  shows "length (alerts_for cid r (fst (ingest_at iter es now s))) \<le> 1
    \<and> (cooling now (en_reported s) (cid, r) \<longrightarrow>
         alerts_for cid r (fst (ingest_at iter es now s)) = [])
    \<and> (cid \<in> fst ` set (en_chains (snd (ingest_at iter es now s))) \<longrightarrow>
         (alerts_for cid r (fst (ingest_at iter es now s)) \<noteq> [] \<longrightarrow>
            map_of (en_reported (snd (ingest_at iter es now s))) (cid, r) = Some now)
         \<and> (cooling now (en_reported s) (cid, r) \<longrightarrow>
              map_of (en_reported (snd (ingest_at iter es now s))) (cid, r)
                = map_of (en_reported s) (cid, r)))"
proof -
  let ?out = "ingest_events now es (prune now s)"
  have eff: "key_effect now cid r (en_reported (prune now s)) (fst ?out, en_reported (snd ?out))"
    by (rule key_effect_events)
  have cool: "cooling now (en_reported s) (cid, r) \<Longrightarrow>
      map_of (en_reported (prune now s)) (cid, r) = map_of (en_reported s) (cid, r)"
    by (auto simp: prune_reported [OF assms] cooling_def split: option.splits)
  then have cool': "cooling now (en_reported s) (cid, r) \<Longrightarrow>
      cooling now (en_reported (prune now s)) (cid, r)"
    by (simp add: cooling_def)
  show ?thesis
    using eff cool cool' evict_reported [of "length (en_chains (snd ?out))" iter "snd ?out" cid r]
    by (auto simp: ingest_at_def case_prod_beta enforce_capacity_def key_effect_def)
qed

lemma engine_ok_sample: "engine_ok (snd (ingest_at rev [sample_injection, sample_network] 5 engine_default))"
  by (rule engine_ok_ingest [OF engine_ok_default])

theorem duplicate_alerts_suppressed_witness:
  "length (alerts_for ''sysmon-{A}'' InjectionBeacon
      (fst (ingest_at rev [sample_injection, sample_network] 5 engine_default))) = 1
   \<and> alerts_for ''sysmon-{A}'' InjectionBeacon
      (fst (ingest_at rev [sample_network] 9
        (snd (ingest_at rev [sample_injection, sample_network] 5 engine_default)))) = []"
proof -
  have one: "length (alerts_for ''sysmon-{A}'' InjectionBeacon
      (fst (ingest_at rev [sample_injection, sample_network] 5 engine_default))) = 1"
    by code_simp
  have cool: "cooling 9 (en_reported (snd (ingest_at rev [sample_injection, sample_network] 5
      engine_default))) (''sysmon-{A}'', InjectionBeacon)"
    by code_simp
  from one cool show ?thesis
    using duplicate_alerts_suppressed [OF engine_ok_sample, of "''sysmon-{A}''" InjectionBeacon rev
        "[sample_network]" 9] by blast
qed

text \<open>
  Detection is not lost below the bounds: when the pruned chain of an identity holds fewer than
  32 signals and an event of that identity supplies the last missing signal kind of a rule that is
  not cooling down, the batch raises the rule's alert.
\<close>

theorem completed_rule_raises_alert:
  assumes "classify e = Some kind" "stable_correlation_id e = Some cid"
    and "map_of (en_chains (prune now s)) cid = Some c" "length (bc_signals c) < MAXIMUM_SIGNALS_PER_CHAIN"
    and "\<forall>k \<in> set (rule_kinds r). k = kind \<or> has_signal c k"
    and "\<not> cooling now (en_reported (prune now s)) (cid, r)"
  shows "\<exists>a \<in> set (fst (ingest_at iter [e] now s)). alert_key a = (cid, rule_event_type r)"
proof -
  let ?c = "extend_chain now e kind (Some c)"
  have sigs: "bc_signals ?c = bc_signals c @ [\<lparr>sg_kind = kind, sg_observed_at = now,
      sg_detail = sy_detail e, sg_remote_address = sy_remote_address e\<rparr>]"
    using assms(4) by (simp add: extend_chain_def Let_def pop_excess_drop)
  have m: "r \<in> set (matching_rules ?c)"
    using assms(5) by (auto simp: matching_rules_kinds has_signal_def list_ex_iff sigs)
  have "\<exists>a \<in> set (fst (report_rules now cid ?c rs rep)). alert_key a = (cid, rule_event_type r)"
    if "r \<in> set rs" "\<not> cooling now rep (cid, r)" for rs rep
    using that
  proof (induction rs arbitrary: rep)
    case (Cons q rs)
    show ?case
    proof (cases "q = r")
      case True
      with Cons.prems show ?thesis by (auto simp: case_prod_beta alert_key_build)
    next
      case False
      then have "\<not> cooling now (AList.update (cid, q) now rep) (cid, r)"
        using Cons.prems(2) by (simp add: cooling_def update_conv')
      with Cons False show ?thesis by (auto simp: case_prod_beta)
    qed
  qed simp
  from this [OF m assms(6)] show ?thesis
    using assms(1-3) by (simp add: ingest_at_def ingest_event_def Let_def case_prod_beta)
qed

theorem completed_rule_raises_alert_witness:
  "\<exists>a \<in> set (fst (ingest_at rev [sample_network] 2
       (snd (ingest_at rev [sample_injection] 1 engine_default)))).
     alert_key a = (''sysmon-{A}'', rule_event_type InjectionBeacon)"
proof -
  let ?s = "snd (ingest_at rev [sample_injection] 1 engine_default)"
  let ?c = "extend_chain 1 sample_injection Injection None"
  have a: "classify sample_network = Some Network" by code_simp
  have b: "stable_correlation_id sample_network = Some ''sysmon-{A}''" by code_simp
  have c: "map_of (en_chains (prune 2 ?s)) ''sysmon-{A}'' = Some ?c" by code_simp
  have d: "length (bc_signals ?c) < MAXIMUM_SIGNALS_PER_CHAIN" by code_simp
  have k: "\<forall>k \<in> set (rule_kinds InjectionBeacon). k = Network \<or> has_signal ?c k" by code_simp
  have n: "\<not> cooling 2 (en_reported (prune 2 ?s)) (''sysmon-{A}'', InjectionBeacon)" by code_simp
  show ?thesis by (rule completed_rule_raises_alert [OF a b c d k n])
qed

end
