(* ===== verification/OG_Risk.thy ===== *)
theory OG_Risk
  imports OG_Domain OG_Text
begin

text \<open>
  Process risk scoring (\<^verbatim>\<open>openguard-detection/src/risk.rs\<close>): the additive, capped score of one
  process, and the correlation that adds behaviour evidence to it.  The full Unicode mapping
  \<^verbatim>\<open>str::to_lowercase\<close> is the parameter \<open>lc\<close>; \<open>env\<close> is the process environment.
\<close>

section \<open>Tables and environment\<close>

definition DUAL_USE_NAMES :: "string list" where
  "DUAL_USE_NAMES = [''certutil.exe'', ''cmd.exe'', ''cscript.exe'', ''mshta.exe'', ''powershell.exe'',
     ''pwsh.exe'', ''regsvr32.exe'', ''rundll32.exe'', ''wscript.exe'']"

definition OFFICE_PARENT_NAMES :: "string list" where
  "OFFICE_PARENT_NAMES = [''excel.exe'', ''msaccess.exe'', ''onenote.exe'', ''outlook.exe'',
     ''powerpnt.exe'', ''winword.exe'']"

definition BROWSER_PARENT_NAMES :: "string list" where
  "BROWSER_PARENT_NAMES = [''brave.exe'', ''chrome.exe'', ''firefox.exe'', ''msedge.exe'']"

record risk_environment =
  re_user_profile :: string
  re_temp_roots :: "string list"
  re_trusted_roots :: "string list"

record behavior_context =
  bx_parent_name :: string
  bx_has_public_network :: bool
  bx_suspicious_destination :: bool
  bx_malicious_destination :: bool

definition normalize :: "(string \<Rightarrow> string) \<Rightarrow> string \<Rightarrow> string" where
  "normalize lc value =
     lc (trim_end_matches (\<lambda>c. c = backslash \<or> c = CHR ''/'') (to_backslashes value))"

definition is_beneath :: "string \<Rightarrow> string \<Rightarrow> bool" where
  "is_beneath candidate root \<longleftrightarrow>
     root \<noteq> [] \<and> (candidate = root \<or> starts_with candidate (root @ [backslash]))"

text \<open>The \<^verbatim>\<open>BTreeSet\<close> of the two temporary roots lists them in order, without repetition.\<close>

definition from_process_environment ::
  "(string \<Rightarrow> string) \<Rightarrow> (string \<Rightarrow> string option) \<Rightarrow> risk_environment" where
  "from_process_environment lc env =
     (let variable = (\<lambda>key fallback. case env key of None \<Rightarrow> fallback | Some v \<Rightarrow> v);
          temp_roots = remdups_adj (sort [variable ''TEMP'' [], variable ''TMP'' []]) in
      \<lparr>re_user_profile = normalize lc (variable ''USERPROFILE'' []),
       re_temp_roots = filter (\<lambda>v. v \<noteq> []) (map (normalize lc) temp_roots),
       re_trusted_roots = filter (\<lambda>v. v \<noteq> []) (map (normalize lc)
         [variable ''WINDIR'' (to_backslashes ''C:/Windows''),
          variable ''ProgramFiles'' (to_backslashes ''C:/Program Files''),
          variable ''ProgramFiles(x86)'' (to_backslashes ''C:/Program Files (x86)'')])\<rparr>)"

section \<open>Scores\<close>

definition add :: "u8 \<Rightarrow> u8 \<Rightarrow> u8" where
  "add score amount = min (sat_add score amount) 100"

text \<open>One charged reason: \<^verbatim>\<open>add(&mut score, n); reasons.push(text)\<close>.\<close>

fun charge :: "u8 \<Rightarrow> string \<Rightarrow> u8 \<times> string list \<Rightarrow> u8 \<times> string list" where
  "charge amount reason (score, reasons) = (add score amount, reasons @ [reason])"

definition R_LIMITED :: string where "R_LIMITED = ''Windows limited access to executable details''"
definition R_TEMP :: string where "R_TEMP = ''Executable is running from a temporary directory''"
definition R_DOWNLOADS :: string where "R_DOWNLOADS = ''Executable is running directly from Downloads''"
definition R_PROFILE :: string where
  "R_PROFILE = ''Executable is running from a user-writable profile directory''"
definition R_UNTRUSTED :: string where
  "R_UNTRUSTED = ''Authenticode trust verification failed or no trusted signature was found''"
definition R_UNKNOWN :: string where "R_UNKNOWN = ''Authenticode trust could not be determined''"
definition R_DUAL_USE :: string where "R_DUAL_USE = ''Process is a legitimate dual-use execution tool''"
definition R_DUAL_LOCATION :: string where
  "R_DUAL_LOCATION = ''Dual-use tool was launched from a higher-risk location''"
definition R_NAME :: string where
  "R_NAME = ''Reported process name does not match the executable filename''"
definition R_OUTSIDE :: string where
  "R_OUTSIDE = ''Unsigned executable is outside Windows and Program Files''"

definition assess_process ::
  "(string \<Rightarrow> string) \<Rightarrow> string \<Rightarrow> string \<Rightarrow> signature_status \<Rightarrow> bool \<Rightarrow> risk_environment
   \<Rightarrow> risk_assessment" where
  "assess_process lc name path signature accessible environment =
     (if \<not> accessible \<or> path = [] then
        \<lparr>ra_score = 5, ra_severity = Info, ra_reasons = [R_LIMITED]\<rparr>
      else
        let lowered_name = to_ascii_lowercase name;
            lowered_path = normalize lc path;
            in_temp = list_ex (is_beneath lowered_path) (re_temp_roots environment);
            downloads = re_user_profile environment @ to_backslashes ''/downloads'';
            in_downloads = (re_user_profile environment \<noteq> [] \<and> is_beneath lowered_path downloads);
            in_trusted_root = list_ex (is_beneath lowered_path) (re_trusted_roots environment);
            acc = (0, []);
            acc = (if in_temp then charge 35 R_TEMP acc
                   else if in_downloads then charge 18 R_DOWNLOADS acc
                   else if re_user_profile environment \<noteq> []
                           \<and> is_beneath lowered_path (re_user_profile environment)
                   then charge 8 R_PROFILE acc else acc);
            acc = (case signature of
                     Untrusted \<Rightarrow> charge 25 R_UNTRUSTED acc
                   | SignatureUnknown \<Rightarrow> charge 5 R_UNKNOWN acc
                   | Trusted \<Rightarrow> acc | NotApplicable \<Rightarrow> acc);
            acc = (if lowered_name \<in> set DUAL_USE_NAMES then
                     (let acc = charge 7 R_DUAL_USE acc in
                      if in_temp \<or> in_downloads then charge 13 R_DUAL_LOCATION acc else acc)
                   else acc);
            actual_name = last_piece ((=) backslash) lowered_path;
            acc = (if actual_name \<noteq> [] \<and> lowered_name \<noteq> [] \<and> actual_name \<noteq> lowered_name
                   then charge 25 R_NAME acc else acc);
            acc = (if \<not> in_trusted_root \<and> signature = Untrusted then charge 10 R_OUTSIDE acc else acc)
        in \<lparr>ra_score = fst acc, ra_severity = severity_from_score (fst acc), ra_reasons = snd acc\<rparr>)"

definition B_MALICIOUS :: string where
  "B_MALICIOUS = ''Behavior: process communicates with a locally classified malicious destination''"
definition B_SUSPICIOUS :: string where
  "B_SUSPICIOUS = ''Behavior: new or untrusted process communicates with a suspicious destination''"
definition B_NEW_NETWORK :: string where
  "B_NEW_NETWORK = ''Behavior: newly observed executable opened a public network connection''"
definition B_UNTRUSTED_NETWORK :: string where
  "B_UNTRUSTED_NETWORK = ''Behavior: untrusted executable has active public network access''"

definition office_reason :: "string \<Rightarrow> string \<Rightarrow> string" where
  "office_reason parent name =
     ''Behavior: Office application '' @ parent @ '' launched dual-use tool '' @ name"

definition browser_reason :: "string \<Rightarrow> string \<Rightarrow> string" where
  "browser_reason parent name =
     ''Behavior: browser '' @ parent @ '' launched a new or untrusted dual-use tool '' @ name"

definition correlate_behavior ::
  "risk_assessment \<Rightarrow> string \<Rightarrow> signature_status \<Rightarrow> bool \<Rightarrow> behavior_context \<Rightarrow> risk_assessment" where
  "correlate_behavior base name signature is_new context =
     (let lowered_name = to_ascii_lowercase name;
          lowered_parent = to_ascii_lowercase (bx_parent_name context);
          is_dual_use = lowered_name \<in> set DUAL_USE_NAMES;
          acc = (ra_score base, ra_reasons base);
          acc = (if bx_malicious_destination context then charge 50 B_MALICIOUS acc
                 else if bx_suspicious_destination context \<and> (is_new \<or> signature \<noteq> Trusted)
                 then charge 25 B_SUSPICIOUS acc else acc);
          acc = (if is_new \<and> bx_has_public_network context then charge 15 B_NEW_NETWORK acc else acc);
          acc = (if signature = Untrusted \<and> bx_has_public_network context
                 then charge 12 B_UNTRUSTED_NETWORK acc else acc);
          acc = (if is_dual_use \<and> lowered_parent \<in> set OFFICE_PARENT_NAMES
                 then charge 45 (office_reason (bx_parent_name context) name) acc
                 else if is_dual_use \<and> lowered_parent \<in> set BROWSER_PARENT_NAMES
                         \<and> (is_new \<or> signature \<noteq> Trusted)
                 then charge 25 (browser_reason (bx_parent_name context) name) acc else acc)
      in \<lparr>ra_score = fst acc, ra_severity = severity_from_score (fst acc),
          ra_reasons = remdups_adj (sort (snd acc))\<rparr>)"

section \<open>Scores as natural numbers\<close>

lemma unat_add: "unat (add score amount) = min 100 (unat score + unat amount)"
  using unat_le_max [of score] unat_le_max [of amount]
  by (simp add: add_def word_nat)

lemma fst_charge: "unat (fst (charge n r acc)) = min 100 (unat (fst acc) + unat n)"
  by (cases acc) (simp add: unat_add)

lemma snd_charge: "snd (charge n r acc) = snd acc @ [r]"
  by (cases acc) simp

lemmas charge_simps = fst_charge snd_charge

text \<open>The points that each reason stands for.\<close>

definition reason_table :: "(string \<times> nat) list" where
  "reason_table = [(R_LIMITED, 5), (R_TEMP, 35), (R_DOWNLOADS, 18), (R_PROFILE, 8), (R_UNTRUSTED, 25),
     (R_UNKNOWN, 5), (R_DUAL_USE, 7), (R_DUAL_LOCATION, 13), (R_NAME, 25), (R_OUTSIDE, 10)]"

definition reason_points :: "string \<Rightarrow> nat" where
  "reason_points r = (case map_of reason_table r of None \<Rightarrow> 0 | Some n \<Rightarrow> n)"

lemma reason_points_eval:
  "reason_points R_LIMITED = 5" "reason_points R_TEMP = 35" "reason_points R_DOWNLOADS = 18"
  "reason_points R_PROFILE = 8" "reason_points R_UNTRUSTED = 25" "reason_points R_UNKNOWN = 5"
  "reason_points R_DUAL_USE = 7" "reason_points R_DUAL_LOCATION = 13" "reason_points R_NAME = 25"
  "reason_points R_OUTSIDE = 10"
  by code_simp+

text \<open>
  An accumulator is explained when its score is the capped sum of the points of its reasons and
  only its first reason is worth more than 25 points.
\<close>

definition explained :: "u8 \<times> string list \<Rightarrow> bool" where
  "explained acc \<longleftrightarrow> unat (fst acc) = min 100 (sum_list (map reason_points (snd acc)))
     \<and> sum_list (map reason_points (snd acc)) \<le> 10 + 25 * length (snd acc)"

definition assessed :: "risk_assessment \<Rightarrow> bool" where
  "assessed r \<longleftrightarrow> explained (ra_score r, ra_reasons r)
     \<and> ra_severity r = severity_from_score (ra_score r)"

lemma explained_first:
  "unat n = reason_points r \<Longrightarrow> reason_points r \<le> 35 \<Longrightarrow> explained (charge n r (0, []))"
  by (simp add: explained_def charge_simps unat_add)

lemma explained_charge:
  "explained acc \<Longrightarrow> unat n = reason_points r \<Longrightarrow> reason_points r \<le> 25 \<Longrightarrow> explained (charge n r acc)"
  by (simp add: explained_def charge_simps)

lemma explained_nil: "explained (0, [])"
  by (simp add: explained_def)

text \<open>One rule for the stages of the accumulator, one for the other bindings.\<close>

lemma assessed_let_acc:
  "explained v \<Longrightarrow> (\<And>acc. explained acc \<Longrightarrow> assessed (f acc)) \<Longrightarrow> assessed (let acc = v in f acc)"
  by simp

lemma assessed_let_bool: "(\<And>b :: bool. assessed (f b)) \<Longrightarrow> assessed (let b = v in f b)"
  by simp

lemma assessed_let_string: "(\<And>s :: string. assessed (f s)) \<Longrightarrow> assessed (let s = v in f s)"
  by simp

lemma assessed_result:
  "explained acc \<Longrightarrow> assessed \<lparr>ra_score = fst acc, ra_severity = severity_from_score (fst acc),
     ra_reasons = snd acc\<rparr>"
  by (simp add: assessed_def)

lemma assessed_let_start: "assessed (f (0, [])) \<Longrightarrow> assessed (let acc = (0, []) in f acc)"
  by simp

lemma explained_if: "explained a \<Longrightarrow> explained b \<Longrightarrow> explained (if c then a else b)"
  by simp

lemma explained_let: "(\<And>acc. explained acc \<Longrightarrow> explained (f acc)) \<Longrightarrow> explained v \<Longrightarrow> explained (let acc = v in f acc)"
  by simp

lemma explained_signature:
  "explained a \<Longrightarrow> explained b \<Longrightarrow> explained c
   \<Longrightarrow> explained (case s of Untrusted \<Rightarrow> a | SignatureUnknown \<Rightarrow> b | Trusted \<Rightarrow> c | NotApplicable \<Rightarrow> c)"
  by (cases s) auto

lemmas explained_stages = explained_if explained_let explained_signature

lemma assessed_assess: "assessed (assess_process lc name path s accessible e)"
proof (cases "\<not> accessible \<or> path = []")
  case True
  then show ?thesis
    by (auto simp: assess_process_def assessed_def explained_def reason_points_eval severity_from_score_def)
next
  case False
  show ?thesis
    unfolding assess_process_def if_not_P [OF False]
    apply (intro assessed_let_bool assessed_let_string)
    apply (rule assessed_let_start)
    apply (rule assessed_let_acc)
     apply (intro explained_stages explained_first explained_nil; simp add: reason_points_eval)
    apply (intro assessed_let_acc assessed_let_string assessed_result)
        apply (assumption | (intro explained_stages explained_charge; simp add: reason_points_eval))+
    done
qed

text \<open>
  A process score is fully explained: it is the sum, capped at 100, of the points of the
  reasons reported with it, and its severity is the severity of that score.  As a consequence no
  single observation is decisive: \<open>High\<close> needs at least three reported reasons and \<open>Critical\<close> four.
\<close>

theorem process_score_explained:
  "unat (ra_score (assess_process lc name path s accessible e))
      = min 100 (sum_list (map reason_points (ra_reasons (assess_process lc name path s accessible e))))
   \<and> ra_severity (assess_process lc name path s accessible e)
      = severity_from_score (ra_score (assess_process lc name path s accessible e))
   \<and> (High \<le> ra_severity (assess_process lc name path s accessible e)
      \<longrightarrow> 3 \<le> length (ra_reasons (assess_process lc name path s accessible e)))
   \<and> (ra_severity (assess_process lc name path s accessible e) = Critical
      \<longrightarrow> 4 \<le> length (ra_reasons (assess_process lc name path s accessible e)))"
  using assessed_assess [of lc name path s accessible e]
  by (auto simp: assessed_def explained_def severity_from_score_iffs word_le_nat_alt)

definition sample_environment :: risk_environment where
  "sample_environment = from_process_environment to_ascii_lowercase
     (map_of [(''TEMP'', to_backslashes ''C:/Users/A/Temp''), (''USERPROFILE'', to_backslashes ''C:/Users/A'')])"

theorem process_score_explained_witness:
  "3 \<le> length (ra_reasons (assess_process to_ascii_lowercase ''tool.exe''
        (to_backslashes ''C:/Users/A/Temp/x.exe'') Untrusted True sample_environment))
   \<and> 4 \<le> length (ra_reasons (assess_process to_ascii_lowercase ''cmd.exe''
        (to_backslashes ''C:/Users/A/Temp/x.exe'') Untrusted True sample_environment))"
proof -
  have "High \<le> ra_severity (assess_process to_ascii_lowercase ''tool.exe''
        (to_backslashes ''C:/Users/A/Temp/x.exe'') Untrusted True sample_environment)"
    "ra_severity (assess_process to_ascii_lowercase ''cmd.exe''
        (to_backslashes ''C:/Users/A/Temp/x.exe'') Untrusted True sample_environment) = Critical"
    by code_simp+
  then show ?thesis using process_score_explained by blast
qed

section \<open>Behaviour correlation\<close>

text \<open>
  The rules as a table: the condition, the points and the reported text of each signal.
\<close>

definition behavior_signals ::
  "string \<Rightarrow> signature_status \<Rightarrow> bool \<Rightarrow> behavior_context \<Rightarrow> (bool \<times> nat \<times> string) list" where
  "behavior_signals name signature is_new x =
     (let unfamiliar = (is_new \<or> signature \<noteq> Trusted);
          dual = (to_ascii_lowercase name \<in> set DUAL_USE_NAMES);
          office = (to_ascii_lowercase (bx_parent_name x) \<in> set OFFICE_PARENT_NAMES);
          browser = (to_ascii_lowercase (bx_parent_name x) \<in> set BROWSER_PARENT_NAMES) in
      [(bx_malicious_destination x, 50, B_MALICIOUS),
       (\<not> bx_malicious_destination x \<and> bx_suspicious_destination x \<and> unfamiliar, 25, B_SUSPICIOUS),
       (is_new \<and> bx_has_public_network x, 15, B_NEW_NETWORK),
       (signature = Untrusted \<and> bx_has_public_network x, 12, B_UNTRUSTED_NETWORK),
       (dual \<and> office, 45, office_reason (bx_parent_name x) name),
       (dual \<and> \<not> office \<and> browser \<and> unfamiliar, 25, browser_reason (bx_parent_name x) name)])"

definition fired :: "(bool \<times> nat \<times> string) list \<Rightarrow> (nat \<times> string) list" where
  "fired sigs = map snd (filter fst sigs)"

definition behavior_points :: "string \<Rightarrow> signature_status \<Rightarrow> bool \<Rightarrow> behavior_context \<Rightarrow> nat" where
  "behavior_points name s n x = sum_list (map fst (fired (behavior_signals name s n x)))"

definition behavior_reasons :: "string \<Rightarrow> signature_status \<Rightarrow> bool \<Rightarrow> behavior_context \<Rightarrow> string list" where
  "behavior_reasons name s n x = map snd (fired (behavior_signals name s n x))"

definition charges :: "nat \<Rightarrow> string list \<Rightarrow> u8 \<times> string list \<Rightarrow> u8 \<times> string list \<Rightarrow> bool" where
  "charges n rs acc acc' \<longleftrightarrow> snd acc' = snd acc @ rs
     \<and> (unat (fst acc) \<le> 100 \<longrightarrow> unat (fst acc') = min 100 (unat (fst acc) + n))"

lemma charges_refl: "charges 0 [] acc acc"
  by (simp add: charges_def)

lemma charges_charge: "unat n = k \<Longrightarrow> charges k [r] acc (charge n r acc)"
  by (simp add: charges_def charge_simps)

lemma charges_trans: "charges n rs a b \<Longrightarrow> charges m qs b c \<Longrightarrow> charges (n + m) (rs @ qs) a c"
  by (auto simp: charges_def min_def)

text \<open>One stage of the rules: either branch of a condition.\<close>

lemma charges_stage:
  "charges (sum_list (map fst (fired [(c, unat n, r)]))) (map snd (fired [(c, unat n, r)]))
     acc (if c then charge n r acc else acc)"
  by (auto simp: fired_def charges_refl charges_charge)

lemma charges_stage2:
  "charges (sum_list (map fst (fired [(c, unat n, r), (\<not> c \<and> d, unat m, q)])))
     (map snd (fired [(c, unat n, r), (\<not> c \<and> d, unat m, q)]))
     acc (if c then charge n r acc else if d then charge m q acc else acc)"
  by (auto simp: fired_def charges_refl charges_charge)

lemma fired_append: "fired (xs @ ys) = fired xs @ fired ys"
  by (simp add: fired_def)

lemma correlate_charges:
  "\<exists>acc. charges (behavior_points name s n x) (behavior_reasons name s n x)
        (ra_score base, ra_reasons base) acc
     \<and> correlate_behavior base name s n x
        = \<lparr>ra_score = fst acc, ra_severity = severity_from_score (fst acc),
           ra_reasons = remdups_adj (sort (snd acc))\<rparr>"
proof -
  let ?u = "n \<or> s \<noteq> Trusted"
  let ?dual = "to_ascii_lowercase name \<in> set DUAL_USE_NAMES"
  let ?o = "?dual \<and> to_ascii_lowercase (bx_parent_name x) \<in> set OFFICE_PARENT_NAMES"
  let ?b = "?dual \<and> to_ascii_lowercase (bx_parent_name x) \<in> set BROWSER_PARENT_NAMES \<and> ?u"
  let ?a0 = "(ra_score base, ra_reasons base)"
  let ?a1 = "if bx_malicious_destination x then charge 50 B_MALICIOUS ?a0
    else if bx_suspicious_destination x \<and> ?u then charge 25 B_SUSPICIOUS ?a0 else ?a0"
  let ?a2 = "if n \<and> bx_has_public_network x then charge 15 B_NEW_NETWORK ?a1 else ?a1"
  let ?a3 = "if s = Untrusted \<and> bx_has_public_network x then charge 12 B_UNTRUSTED_NETWORK ?a2 else ?a2"
  let ?a4 = "if ?o then charge 45 (office_reason (bx_parent_name x) name) ?a3
    else if ?b then charge 25 (browser_reason (bx_parent_name x) name) ?a3 else ?a3"
  have eq: "correlate_behavior base name s n x
        = \<lparr>ra_score = fst ?a4, ra_severity = severity_from_score (fst ?a4),
           ra_reasons = remdups_adj (sort (snd ?a4))\<rparr>"
    by (simp only: correlate_behavior_def Let_def)
  have "charges (behavior_points name s n x) (behavior_reasons name s n x) ?a0 ?a4"
  proof -
    note c = charges_trans [OF charges_trans [OF charges_trans [OF
      charges_stage2 [of "bx_malicious_destination x" 50 B_MALICIOUS
        "bx_suspicious_destination x \<and> ?u" 25 B_SUSPICIOUS ?a0]
      charges_stage [of "n \<and> bx_has_public_network x" 15 B_NEW_NETWORK]]
      charges_stage [of "s = Untrusted \<and> bx_has_public_network x" 12 B_UNTRUSTED_NETWORK]]
      charges_stage2 [of ?o 45 "office_reason (bx_parent_name x) name"
        ?b 25 "browser_reason (bx_parent_name x) name"]]
    have tab: "fired (behavior_signals name s n x) =
      fired [(bx_malicious_destination x, unat (50::u8), B_MALICIOUS),
        (\<not> bx_malicious_destination x \<and> bx_suspicious_destination x \<and> ?u, unat (25::u8), B_SUSPICIOUS)]
      @ fired [(n \<and> bx_has_public_network x, unat (15::u8), B_NEW_NETWORK)]
      @ fired [(s = Untrusted \<and> bx_has_public_network x, unat (12::u8), B_UNTRUSTED_NETWORK)]
      @ fired [(?o, unat (45::u8), office_reason (bx_parent_name x) name),
        (\<not> ?o \<and> ?b, unat (25::u8), browser_reason (bx_parent_name x) name)]"
      by (auto simp: behavior_signals_def fired_def Let_def)
    from c show ?thesis
      unfolding behavior_points_def behavior_reasons_def tab
      by (simp only: map_append sum_list_append add.assoc append_assoc)
  qed
  with eq show ?thesis by blast
qed

lemma correlate_score:
  "ra_score base \<le> 100 \<Longrightarrow>
     unat (ra_score (correlate_behavior base name s n x))
       = min 100 (unat (ra_score base) + behavior_points name s n x)"
  using correlate_charges [of name s n x base] by (auto simp: charges_def word_le_nat_alt)

lemma correlate_score_le: "ra_score base \<le> 100 \<Longrightarrow> ra_score (correlate_behavior base name s n x) \<le> 100"
  by (simp add: word_le_nat_alt correlate_score)

lemma correlate_reasons:
  "ra_reasons (correlate_behavior base name s n x)
     = remdups_adj (sort (ra_reasons base @ behavior_reasons name s n x))"
  using correlate_charges [of name s n x base] by (auto simp: charges_def)

lemma correlate_severity:
  "ra_severity (correlate_behavior base name s n x)
     = severity_from_score (ra_score (correlate_behavior base name s n x))"
  using correlate_charges [of name s n x base] by auto

lemma sorted_remdups_adj: "sorted (xs :: 'a::linorder list) \<Longrightarrow> sorted (remdups_adj xs)"
  by (induction xs rule: remdups_adj.induct) auto

text \<open>
  Correlation adds exactly the evidence of the rules that apply.  The new score is the old one
  plus the points of every applicable rule of the table, capped at 100; the reasons are the old
  reasons and the texts of those rules, in order and without repetition; and the severity is that
  of the new score.
\<close>

theorem correlation_explained:
  assumes "ra_score base \<le> 100"
  shows "unat (ra_score (correlate_behavior base name s n x))
      = min 100 (unat (ra_score base) + behavior_points name s n x)
    \<and> set (ra_reasons (correlate_behavior base name s n x))
      = set (ra_reasons base) \<union> set (behavior_reasons name s n x)
    \<and> sorted (ra_reasons (correlate_behavior base name s n x))
    \<and> distinct (ra_reasons (correlate_behavior base name s n x))
    \<and> ra_severity (correlate_behavior base name s n x)
      = severity_from_score (ra_score (correlate_behavior base name s n x))"
  using correlate_score [OF assms] correlate_severity [of base name s n x]
  by (simp add: correlate_reasons sorted_remdups_adj sorted_remdups_adj_distinct)

definition sample_context :: behavior_context where
  "sample_context = \<lparr>bx_parent_name = ''WINWORD.EXE'', bx_has_public_network = True,
     bx_suspicious_destination = False, bx_malicious_destination = False\<rparr>"

theorem correlation_explained_witness:
  "unat (ra_score (correlate_behavior default_risk ''cmd.exe'' Untrusted True sample_context)) = 72"
proof -
  have "ra_score default_risk \<le> 100" by code_simp
  moreover have "min 100 (unat (ra_score default_risk)
      + behavior_points ''cmd.exe'' Untrusted True sample_context) = 72" by code_simp
  ultimately show ?thesis using correlation_explained by metis
qed

text \<open>
  Normal use of trusted software is not penalised: a trusted executable that was seen before,
  that contacts no malicious destination and is not a dual-use tool started by an Office
  application keeps its score and its reasons, whatever networks it uses.
\<close>

theorem trusted_established_unchanged:
  assumes "ra_score base \<le> 100" "\<not> bx_malicious_destination x"
    and "to_ascii_lowercase name \<in> set DUAL_USE_NAMES \<longrightarrow>
      to_ascii_lowercase (bx_parent_name x) \<notin> set OFFICE_PARENT_NAMES"
  shows "ra_score (correlate_behavior base name Trusted False x) = ra_score base
    \<and> set (ra_reasons (correlate_behavior base name Trusted False x)) = set (ra_reasons base)"
proof -
  have "fired (behavior_signals name Trusted False x) = []"
    using assms(2,3) by (auto simp: behavior_signals_def fired_def Let_def)
  then have "behavior_points name Trusted False x = 0" "behavior_reasons name Trusted False x = []"
    by (simp_all add: behavior_points_def behavior_reasons_def)
  with correlate_score [OF assms(1), of name Trusted False x] assms(1) show ?thesis
    by (simp add: correlate_reasons word_le_nat_alt word_unat_eq_iff)
qed

theorem trusted_established_unchanged_witness:
  "ra_score (correlate_behavior default_risk ''msedge.exe'' Trusted False
     (sample_context\<lparr>bx_suspicious_destination := True\<rparr>)) = 0"
proof -
  have "ra_score default_risk \<le> 100" by code_simp
  moreover have "\<not> bx_malicious_destination (sample_context\<lparr>bx_suspicious_destination := True\<rparr>)"
    by code_simp
  moreover have "to_ascii_lowercase ''msedge.exe'' \<notin> set DUAL_USE_NAMES" by code_simp
  ultimately have "ra_score (correlate_behavior default_risk ''msedge.exe'' Trusted False
     (sample_context\<lparr>bx_suspicious_destination := True\<rparr>)) = ra_score default_risk"
    using trusted_established_unchanged by blast
  then show ?thesis by (simp add: default_risk_def)
qed

text \<open>
  Correlation is not idempotent: correlating an assessment that was already correlated with
  the same context charges every applicable rule a second time, although the reported reasons stay
  the same.
\<close>

theorem repeated_correlation_counts_twice:
  assumes "ra_score base \<le> 100"
  shows "unat (ra_score (correlate_behavior (correlate_behavior base name s n x) name s n x))
      = min 100 (unat (ra_score base) + 2 * behavior_points name s n x)
    \<and> ra_reasons (correlate_behavior (correlate_behavior base name s n x) name s n x)
      = ra_reasons (correlate_behavior base name s n x)"
proof -
  let ?r = "correlate_behavior base name s n x"
  have "set (ra_reasons (correlate_behavior ?r name s n x)) = set (ra_reasons ?r)"
    by (auto simp: correlate_reasons)
  then have "ra_reasons (correlate_behavior ?r name s n x) = ra_reasons ?r"
    by (intro sorted_distinct_set_unique)
      (simp_all add: correlate_reasons sorted_remdups_adj sorted_remdups_adj_distinct)
  then show ?thesis
    using correlate_score [OF assms, of name s n x]
      correlate_score [OF correlate_score_le [OF assms], of name s n x name s n x]
    by (simp add: min_def)
qed

theorem repeated_correlation_counts_twice_witness:
  "unat (ra_score (correlate_behavior
     (correlate_behavior default_risk ''agent.exe'' Untrusted True sample_context)
     ''agent.exe'' Untrusted True sample_context)) = 54"
proof -
  have "ra_score default_risk \<le> 100" by code_simp
  moreover have "min 100 (unat (ra_score default_risk)
      + 2 * behavior_points ''agent.exe'' Untrusted True sample_context) = 54" by code_simp
  ultimately show ?thesis using repeated_correlation_counts_twice by metis
qed

end
