(* ===== verification/OG_Capabilities.thy ===== *)
theory OG_Capabilities
  imports OG_Domain OG_Text
begin

text \<open>
  Static capability inspection (\<^verbatim>\<open>openguard-detection/src/capabilities.rs\<close>).  The import table of a
  PE file is read by a library: \<open>pe_parse\<close> gives the imported names, or nothing when the content is
  no PE file.
\<close>

definition STRING_SAMPLE_BYTES :: nat where "STRING_SAMPLE_BYTES = 4 * 1024 * 1024"

record capability_assessment =
  ca_score :: u16
  ca_capabilities :: "threat_capability list"

definition pe_imports :: "(bytes \<Rightarrow> string list option) \<Rightarrow> bytes \<Rightarrow> string set" where
  "pe_imports pe_parse content =
     (case pe_parse content of None \<Rightarrow> {} | Some names \<Rightarrow> set (map to_ascii_lowercase names))"

definition primitive_count :: "string set \<Rightarrow> string \<Rightarrow> string list \<Rightarrow> nat" where
  "primitive_count imports strings names =
     length (filter (\<lambda>name. name \<in> imports \<or> str_contains strings name) names)"

definition has_primitive :: "string set \<Rightarrow> string \<Rightarrow> string list \<Rightarrow> bool" where
  "has_primitive imports strings names =
     list_ex (\<lambda>name. name \<in> imports \<or> str_contains strings name) names"

definition has_any :: "string set \<Rightarrow> string list \<Rightarrow> bool" where
  "has_any imports names = list_ex (\<lambda>name. name \<in> imports) names"

definition contains_any :: "string \<Rightarrow> string list \<Rightarrow> bool" where
  "contains_any text needles = list_ex (str_contains text) needles"

definition evidence :: "string set \<Rightarrow> string list \<Rightarrow> string list" where
  "evidence imports names = map (\<lambda>name. ''imports '' @ name) (filter (\<lambda>name. name \<in> imports) names)"

definition push ::
  "u16 \<Rightarrow> string \<Rightarrow> string \<Rightarrow> u8 \<Rightarrow> string list \<Rightarrow> capability_assessment \<Rightarrow> capability_assessment" where
  "push score category technique confidence items a =
     \<lparr>ca_score = sat_add (ca_score a) score,
      ca_capabilities = ca_capabilities a @ [\<lparr>tc_category = category, tc_mitre_technique = technique,
        tc_confidence = confidence, tc_evidence = items\<rparr>]\<rparr>"

definition KEYBOARD_NAMES :: "string list" where
  "KEYBOARD_NAMES = [''setwindowshookexa'', ''setwindowshookexw'', ''getasynckeystate'', ''getkeystate'',
     ''getkeyboardstate'', ''registerrawinputdevices'']"
definition CAPTURE_NAMES :: "string list" where
  "CAPTURE_NAMES = [''bitblt'', ''getdc'', ''getwindowdc'', ''printwindow'', ''acquirenextframe'']"
definition WRITE_NAMES :: "string list" where
  "WRITE_NAMES = [''writeprocessmemory'', ''ntwritevirtualmemory'']"
definition ALLOCATE_NAMES :: "string list" where
  "ALLOCATE_NAMES = [''virtualallocex'', ''ntallocatevirtualmemory'']"
definition EXECUTE_NAMES :: "string list" where
  "EXECUTE_NAMES = [''createremotethread'', ''ntcreatethreadex'', ''queueuserapc'', ''setthreadcontext'']"
definition BROWSER_ARTIFACTS :: "string list" where
  "BROWSER_ARTIFACTS = [to_backslashes ''/google/chrome/user data'',
     to_backslashes ''/microsoft/edge/user data'', to_backslashes ''/mozilla/firefox/profiles'',
     ''login data'', to_backslashes ''network/cookies'', ''cookies.sqlite'']"
definition INPUT_NAMES :: "string list" where
  "INPUT_NAMES = [''sendinput'', ''mouse_event'', ''keybd_event'']"
definition NETWORK_NAMES :: "string list" where
  "NETWORK_NAMES = [''connect'', ''wsaconnect'', ''internetconnecta'', ''internetconnectw'', ''winhttpconnect'']"

definition assess :: "string set \<Rightarrow> string \<Rightarrow> capability_assessment" where
  "assess imports strings =
     (let a = \<lparr>ca_score = 0, ca_capabilities = []\<rparr>;
          keyboard = primitive_count imports strings KEYBOARD_NAMES;
          a = (if 2 \<le> keyboard then
                 push 12 ''keyboard_input_capture'' ''T1056.001'' 62 (evidence imports KEYBOARD_NAMES) a
               else a);
          capture = primitive_count imports strings CAPTURE_NAMES;
          a = (if 2 \<le> capture then
                 push 10 ''screen_capture'' ''T1113'' 58 (evidence imports CAPTURE_NAMES) a
               else a);
          cross_process_write = has_primitive imports strings WRITE_NAMES;
          remote_allocate = has_primitive imports strings ALLOCATE_NAMES;
          remote_execute = has_primitive imports strings EXECUTE_NAMES;
          a = (if cross_process_write \<and> remote_allocate \<and> remote_execute then
                 push 48 ''process_injection'' ''T1055'' 94
                   (evidence imports (WRITE_NAMES @ ALLOCATE_NAMES @ EXECUTE_NAMES)) a
               else a);
          browser_artifact = contains_any strings BROWSER_ARTIFACTS;
          decrypts_dpapi = (has_any imports [''cryptunprotectdata'', ''ncryptdecrypt'']
            \<or> contains_any strings [''cryptunprotectdata'', ''os_crypt.encrypted_key'']);
          database_access = (contains_any strings [''sqlite3_open'', ''sqlite3_prepare'', ''cookies.sqlite'']
            \<or> has_any imports [''copyfilea'', ''copyfilew'']);
          a = (if browser_artifact \<and> decrypts_dpapi \<and> database_access then
                 push 34 ''browser_credential_access'' ''T1555.003'' 88
                   [''browser profile artifact references'', ''credential decryption primitive'',
                    ''database or file-copy primitive''] a
               else a);
          lsass_target = str_contains strings ''lsass'';
          process_dump = (has_primitive imports strings [''minidumpwritedump'']
            \<or> contains_any strings [''comsvcs.dll'', ''procdump'', ''sekurlsa'']);
          a = (if lsass_target \<and> process_dump then
                 push 45 ''os_credential_dumping'' ''T1003.001'' 92
                   [''LSASS target reference'', ''process dump or credential extraction primitive''] a
               else a);
          input_control = (0 < keyboard \<or> has_primitive imports strings INPUT_NAMES);
          network = has_primitive imports strings NETWORK_NAMES;
          a = (if 2 \<le> capture \<and> input_control \<and> network then
                 push 24 ''remote_control_stack'' ''T1219.002'' 76
                   [''screen-capture primitives'', ''input-monitoring or control primitives'',
                    ''outbound network primitive''] a
               else a)
      in a\<lparr>ca_score := min (ca_score a) 70\<rparr>)"

definition inspect_capabilities ::
  "(bytes \<Rightarrow> string list option) \<Rightarrow> bytes \<Rightarrow> capability_assessment" where
  "inspect_capabilities pe_parse content =
     (let strings = to_ascii_lowercase (utf8_lossy (take STRING_SAMPLE_BYTES content));
          imports = pe_imports pe_parse content in
      assess imports strings)"

section \<open>The rules as a table\<close>

text \<open>
  Each capability with its score and the condition under which it is reported, over what the
  content offers: a name is present when it is imported or occurs in the text.
\<close>

definition present :: "string set \<Rightarrow> string \<Rightarrow> string \<Rightarrow> bool" where
  "present imports strings name \<longleftrightarrow> name \<in> imports \<or> str_contains strings name"

definition capability_rules :: "string set \<Rightarrow> string \<Rightarrow> (bool \<times> nat \<times> string) list" where
  "capability_rules imports strings =
     (let p = present imports strings; t = str_contains strings; i = (\<lambda>n. n \<in> imports);
          keys = length (filter p KEYBOARD_NAMES); frames = length (filter p CAPTURE_NAMES) in
      [(2 \<le> keys, 12, ''keyboard_input_capture''),
       (2 \<le> frames, 10, ''screen_capture''),
       (list_ex p WRITE_NAMES \<and> list_ex p ALLOCATE_NAMES \<and> list_ex p EXECUTE_NAMES,
        48, ''process_injection''),
       (list_ex t BROWSER_ARTIFACTS
          \<and> (list_ex i [''cryptunprotectdata'', ''ncryptdecrypt'']
             \<or> list_ex t [''cryptunprotectdata'', ''os_crypt.encrypted_key''])
          \<and> (list_ex t [''sqlite3_open'', ''sqlite3_prepare'', ''cookies.sqlite'']
             \<or> list_ex i [''copyfilea'', ''copyfilew'']),
        34, ''browser_credential_access''),
       (t ''lsass'' \<and> (p ''minidumpwritedump'' \<or> list_ex t [''comsvcs.dll'', ''procdump'', ''sekurlsa'']),
        45, ''os_credential_dumping''),
       (2 \<le> frames \<and> (0 < keys \<or> list_ex p INPUT_NAMES) \<and> list_ex p NETWORK_NAMES,
        24, ''remote_control_stack'')])"

definition reported :: "(bool \<times> nat \<times> string) list \<Rightarrow> (nat \<times> string) list" where
  "reported rules = map snd (filter fst rules)"

definition extends ::
  "(bool \<times> nat \<times> string) list \<Rightarrow> capability_assessment \<Rightarrow> capability_assessment \<Rightarrow> bool" where
  "extends rules a b \<longleftrightarrow>
     unat (ca_score b) = min (2 ^ 16 - 1) (unat (ca_score a) + sum_list (map fst (reported rules)))
     \<and> map tc_category (ca_capabilities b) = map tc_category (ca_capabilities a) @ map snd (reported rules)"

lemma extends_nil: "extends [] a a"
  using unat_le_max [of "ca_score a"] by (simp add: extends_def reported_def)

lemma extends_push: "extends [(c, unat n, category)] a (if c then push n category t f e a else a)"
  using unat_le_max [of "ca_score a"]
  by (simp add: extends_def reported_def push_def unat_sat_add min.commute)

lemma extends_trans: "extends r a b \<Longrightarrow> extends q b c \<Longrightarrow> extends (r @ q) a c"
  by (auto simp: extends_def reported_def min_def)

lemma present_folds:
  "primitive_count i s ns = length (filter (present i s) ns)"
  "has_primitive i s ns = list_ex (present i s) ns"
  "has_any i ns = list_ex (\<lambda>n. n \<in> i) ns"
  "contains_any s ns = list_ex (str_contains s) ns"
  by (simp_all add: primitive_count_def has_primitive_def has_any_def contains_any_def present_def [abs_def])

lemma assess_extends:
  "\<exists>a. extends (capability_rules i s) \<lparr>ca_score = 0, ca_capabilities = []\<rparr> a
     \<and> assess i s = a\<lparr>ca_score := min (ca_score a) 70\<rparr>"
proof -
  let ?keys = "length (filter (present i s) KEYBOARD_NAMES)"
  let ?frames = "length (filter (present i s) CAPTURE_NAMES)"
  let ?inj = "list_ex (present i s) WRITE_NAMES \<and> list_ex (present i s) ALLOCATE_NAMES
    \<and> list_ex (present i s) EXECUTE_NAMES"
  let ?browser = "list_ex (str_contains s) BROWSER_ARTIFACTS
    \<and> (list_ex (\<lambda>n. n \<in> i) [''cryptunprotectdata'', ''ncryptdecrypt'']
       \<or> list_ex (str_contains s) [''cryptunprotectdata'', ''os_crypt.encrypted_key''])
    \<and> (list_ex (str_contains s) [''sqlite3_open'', ''sqlite3_prepare'', ''cookies.sqlite'']
       \<or> list_ex (\<lambda>n. n \<in> i) [''copyfilea'', ''copyfilew''])"
  let ?lsass = "str_contains s ''lsass'' \<and> (list_ex (present i s) [''minidumpwritedump'']
    \<or> list_ex (str_contains s) [''comsvcs.dll'', ''procdump'', ''sekurlsa''])"
  let ?remote = "2 \<le> ?frames \<and> (0 < ?keys \<or> list_ex (present i s) INPUT_NAMES)
    \<and> list_ex (present i s) NETWORK_NAMES"
  let ?rules = "[(2 \<le> ?keys, unat (12::u16), ''keyboard_input_capture'')]
    @ [(2 \<le> ?frames, unat (10::u16), ''screen_capture'')] @ [(?inj, unat (48::u16), ''process_injection'')]
    @ [(?browser, unat (34::u16), ''browser_credential_access'')]
    @ [(?lsass, unat (45::u16), ''os_credential_dumping'')]
    @ [(?remote, unat (24::u16), ''remote_control_stack'')]"
  have rules: "capability_rules i s = ?rules"
    by (simp add: capability_rules_def Let_def)
  note step = extends_trans [OF _ extends_push]
  note all = step [OF step [OF step [OF step [OF step [OF extends_push]]]]]
  have "\<exists>a. extends ?rules \<lparr>ca_score = 0, ca_capabilities = []\<rparr> a
     \<and> assess i s = a\<lparr>ca_score := min (ca_score a) 70\<rparr>"
    unfolding assess_def Let_def present_folds append_assoc [symmetric]
    by (rule exI, rule conjI, rule all, rule refl)
  with rules show ?thesis by simp
qed

lemma assess_score:
  "unat (ca_score (assess i s)) = min 70 (sum_list (map fst (reported (capability_rules i s))))"
proof -
  obtain a where "extends (capability_rules i s) \<lparr>ca_score = 0, ca_capabilities = []\<rparr> a"
    "assess i s = a\<lparr>ca_score := min (ca_score a) 70\<rparr>"
    using assess_extends [of i s] by (elim exE conjE)
  then have a: "unat (ca_score a) = min (2 ^ 16 - 1) (sum_list (map fst (reported (capability_rules i s))))"
    and "ca_score (assess i s) = min (ca_score a) 70"
    by (simp_all add: extends_def)
  then have "unat (ca_score (assess i s)) = min (unat (ca_score a)) (unat (70 :: u16))"
    by (simp only: unat_min_word)
  with a show ?thesis by simp
qed

lemma assess_categories:
  "map tc_category (ca_capabilities (assess i s)) = map snd (reported (capability_rules i s))"
  using assess_extends [of i s] by (auto simp: extends_def)

text \<open>
  Capability reports follow the rule table.  The reported capabilities are exactly those whose
  combination of independent signals is present, in the order of the table, and the score is the
  sum of their points, capped at 70, so static evidence alone never reaches the malicious range.
\<close>

theorem capabilities_follow_rules:
  "map tc_category (ca_capabilities (assess imports strings))
      = map snd (reported (capability_rules imports strings))
   \<and> unat (ca_score (assess imports strings))
      = min 70 (sum_list (map fst (reported (capability_rules imports strings))))
   \<and> ca_score (assess imports strings) \<le> 70"
  using assess_score [where i = "imports" and s = strings] assess_categories [where i = "imports" and s = strings]
  by (simp add: word_le_nat_alt)

section \<open>Dual-use names and monotonicity\<close>

lemma list_ex_imp: "list_ex p xs \<Longrightarrow> (\<And>x. p x \<Longrightarrow> q x) \<Longrightarrow> list_ex q xs"
  by (induction xs) auto

lemma length_filter_imp: "(\<And>x. p x \<Longrightarrow> q x) \<Longrightarrow> length (filter p xs) \<le> length (filter q xs)"
  by (induction xs) (auto simp: le_SucI)

lemma length_filter_single: "distinct xs \<Longrightarrow> length (filter (\<lambda>x. x = n) xs) \<le> 1"
  by (induction xs) (auto simp: filter_empty_conv)

text \<open>
  One dual-use function is never a capability: content that imports a single function and has
  no text evidence is reported with no capability and with score zero.
\<close>

theorem single_import_is_no_capability:
  assumes "imports \<subseteq> {n}"
  shows "ca_capabilities (assess imports []) = [] \<and> ca_score (assess imports []) = 0"
proof -
  have p: "present imports [] m \<Longrightarrow> m = n \<or> m = []" for m
    using assms by (auto simp: present_def)
  have few: "\<not> 2 \<le> length (filter (present imports []) xs)" if "distinct xs" "[] \<notin> set xs" for xs
  proof -
    have "filter (present imports []) xs = filter (\<lambda>m. present imports [] m \<and> m = n) xs"
      using p that(2) by (intro filter_cong) auto
    then have "length (filter (present imports []) xs) \<le> length (filter (\<lambda>m. m = n) xs)"
      using length_filter_imp [of "\<lambda>m. present imports [] m \<and> m = n" "\<lambda>m. m = n" xs] by simp
    with length_filter_single [OF that(1), of n] show ?thesis by linarith
  qed
  have d: "distinct KEYBOARD_NAMES" "[] \<notin> set KEYBOARD_NAMES" "distinct CAPTURE_NAMES"
    "[] \<notin> set CAPTURE_NAMES"
    by code_simp+
  have nw: "\<not> (list_ex (present imports []) WRITE_NAMES \<and> list_ex (present imports []) ALLOCATE_NAMES
      \<and> list_ex (present imports []) EXECUTE_NAMES)"
  proof -
    have "\<forall>m \<in> set WRITE_NAMES. m \<notin> set ALLOCATE_NAMES \<and> m \<noteq> []"
      "[] \<notin> set ALLOCATE_NAMES"
      by code_simp+
    with p show ?thesis unfolding list_ex_iff by metis
  qed
  have "reported (capability_rules imports []) = []"
    using few [OF d(1,2)] few [OF d(3,4)] nw
    by (simp add: capability_rules_def reported_def Let_def BROWSER_ARTIFACTS_def to_backslashes_def)
  then show ?thesis
    using assess_score [where i = "imports" and s = "[]"] assess_categories [where i = "imports" and s = "[]"]
    by (simp add: word_unat_eq_iff)
qed

theorem single_import_is_no_capability_witness:
  "ca_capabilities (assess {''writeprocessmemory''} []) = []"
  using single_import_is_no_capability [of "{''writeprocessmemory''}" "''writeprocessmemory''"] by simp

lemma present_mono:
  assumes "imports \<subseteq> imports'" "strings' = u @ strings @ v"
  shows "present imports strings m \<Longrightarrow> present imports' strings' m"
    and "str_contains strings m \<Longrightarrow> str_contains strings' m"
proof -
  show c: "str_contains strings m \<Longrightarrow> str_contains strings' m"
  proof -
    assume "str_contains strings m"
    then obtain a b where "strings = a @ m @ b" by (auto simp: str_contains_iff)
    then have "strings' = (u @ a) @ m @ (b @ v)" using assms(2) by simp
    then show ?thesis unfolding str_contains_iff by blast
  qed
  then show "present imports strings m \<Longrightarrow> present imports' strings' m"
    using assms(1) by (auto simp: present_def)
qed

text \<open>
  Adding evidence never hides a capability: with more imported functions and with text around
  the sampled text, every capability that was reported is reported still, and the score does not
  decrease.
\<close>

theorem capabilities_monotone:
  assumes "imports \<subseteq> imports'" "strings' = u @ strings @ v"
  shows "tc_category ` set (ca_capabilities (assess imports strings))
      \<subseteq> tc_category ` set (ca_capabilities (assess imports' strings'))
    \<and> ca_score (assess imports strings) \<le> ca_score (assess imports' strings')"
proof -
  define p where "p = present imports strings"
  define p' where "p' = present imports' strings'"
  define t where "t = str_contains strings"
  define t' where "t' = str_contains strings'"
  have pp: "\<And>m. p m \<Longrightarrow> p' m" and tt: "\<And>m. t m \<Longrightarrow> t' m"
    using present_mono [OF assms] by (auto simp: p_def p'_def t_def t'_def)
  have ex: "list_ex p ns \<Longrightarrow> list_ex p' ns" "list_ex t ns \<Longrightarrow> list_ex t' ns"
    "list_ex (\<lambda>n. n \<in> imports) ns \<Longrightarrow> list_ex (\<lambda>n. n \<in> imports') ns" for ns
    using pp tt assms(1) by (auto intro: list_ex_imp)
  have len: "k \<le> length (filter p ns) \<Longrightarrow> k \<le> length (filter p' ns)"
    "0 < length (filter p ns) \<Longrightarrow> 0 < length (filter p' ns)" for k ns
    using length_filter_imp [of p p' ns] pp by force+
  have rules: "list_all2 (\<lambda>(c, n, s) (c', n', s'). (c \<longrightarrow> c') \<and> n = n' \<and> s = s')
      (capability_rules imports strings) (capability_rules imports' strings')"
    unfolding capability_rules_def Let_def p_def [symmetric] p'_def [symmetric]
      t_def [symmetric] t'_def [symmetric]
    using ex len pp tt by (simp only: list_all2_Cons list_all2_Nil case_prod_conv) blast
  have "set (map snd (reported r)) \<subseteq> set (map snd (reported r'))
      \<and> sum_list (map fst (reported r)) \<le> sum_list (map fst (reported r'))"
    if "list_all2 (\<lambda>(c, n, s) (c', n', s'). (c \<longrightarrow> c') \<and> n = n' \<and> s = s') r r'" for r r'
    using that by (induction rule: list_all2_induct) (auto simp: reported_def)
  from this [OF rules] show ?thesis
    using assess_score [where i = "imports" and s = strings] assess_score [where i = imports' and s = strings']
      arg_cong [OF assess_categories [where i = "imports" and s = strings], of set]
      arg_cong [OF assess_categories [where i = imports' and s = strings'], of set]
    by (auto simp: word_le_nat_alt)
qed

theorem capabilities_monotone_witness:
  "''process_injection'' \<in> tc_category ` set (ca_capabilities
     (assess {''virtualallocex'', ''writeprocessmemory'', ''queueuserapc'', ''connect''} ''lsass''))"
proof -
  let ?i = "{''virtualallocex'', ''writeprocessmemory'', ''queueuserapc''}"
  let ?i' = "{''virtualallocex'', ''writeprocessmemory'', ''queueuserapc'', ''connect''}"
  have a: "''process_injection'' \<in> tc_category ` set (ca_capabilities (assess ?i []))"
    by code_simp
  have b: "?i \<subseteq> ?i'" by (intro insert_mono) simp
  have c: "''lsass'' = [] @ [] @ ''lsass''" by simp
  show ?thesis by (rule subsetD [OF conjunct1 [OF capabilities_monotone [OF b c]] a])
qed

end
