(* ===== verification/OG_Scan.thy ===== *)
theory OG_Scan
  imports OG_Capabilities Complex_Main
begin

text \<open>
  The file scanner (\<^verbatim>\<open>openguard-detection/src/scan.rs\<close>) and the Windows signals that are added to
  its finding (\<^verbatim>\<open>apply_windows_scan_signals\<close> in \<^verbatim>\<open>openguard-windows/src/lib.rs\<close>).

  The file system, the process environment, the clock and the libraries (SHA-256, YARA-X, the PE
  import reader, Authenticode, AMSI) are parameters.  A path is its text.  \<open>None\<close> in the PE parser
  stands for an index out of bounds, so that the absence of panics can be stated.
\<close>

section \<open>Paths\<close>

definition is_separator :: "char \<Rightarrow> bool" where
  "is_separator c \<longleftrightarrow> c = backslash \<or> c = CHR ''/''"

definition ascii_alphabetic :: "char \<Rightarrow> bool" where
  "ascii_alphabetic c \<longleftrightarrow> CHR ''a'' \<le> lower_char c \<and> lower_char c \<le> CHR ''z''"

text \<open>\<^verbatim>\<open>Path::file_name\<close>: the last component, unless it is the parent directory or only a drive.\<close>

definition path_file_name :: "string \<Rightarrow> string option" where
  "path_file_name path =
     (let path = (case path of c # d # rest \<Rightarrow> if ascii_alphabetic c \<and> d = CHR '':'' then rest else path | _ \<Rightarrow> path);
          parts = filter (\<lambda>p. p \<noteq> [] \<and> p \<noteq> ''.'') (split_on is_separator path) in
      if parts = [] \<or> last parts = ''..'' then None else Some (last parts))"

text \<open>\<^verbatim>\<open>Path::extension\<close>: what follows the last dot of the name, unless the name starts with it.\<close>

definition path_extension :: "string \<Rightarrow> string option" where
  "path_extension path =
     (case path_file_name path of
        None \<Rightarrow> None
      | Some name \<Rightarrow>
          (let parts = split_on ((=) CHR ''.'') name in
           if length parts < 2 \<or> (length parts = 2 \<and> hd parts = []) then None else Some (last parts)))"

section \<open>Constants and types\<close>

definition DEFAULT_MAXIMUM_BYTES :: u64 where "DEFAULT_MAXIMUM_BYTES = 8 * 1024 * 1024 * 1024"
definition CONTENT_INSPECTION_BYTES :: nat where "CONTENT_INSPECTION_BYTES = 16 * 1024 * 1024"
definition EXECUTABLE_EXTENSIONS :: "string list" where
  "EXECUTABLE_EXTENSIONS = [''exe'', ''dll'', ''sys'', ''scr'', ''com'', ''cpl'', ''msi'']"
definition SCRIPT_EXTENSIONS :: "string list" where
  "SCRIPT_EXTENSIONS = [''ps1'', ''psm1'', ''bat'', ''cmd'', ''js'', ''jse'', ''vbs'', ''vbe'', ''hta'']"
definition LURE_EXTENSIONS :: "string list" where
  "LURE_EXTENSIONS = [''doc'', ''docx'', ''gif'', ''jpg'', ''jpeg'', ''pdf'', ''png'', ''txt'', ''xls'', ''xlsx'']"

record hash_outcome =
  ho_sha256 :: string
  ho_size_bytes :: u64

datatype scan_error = TooLarge u64 | ScanCancelled | NotAFile string | RuleCompilation string
  | RuleScan string | ScanIo string

datatype meta_value = MetaString string | MetaOther

definition scan_error_display :: "scan_error \<Rightarrow> string" where
  "scan_error_display e = (case e of
     TooLarge maximum \<Rightarrow> ''file exceeds the configured '' @ show_nat (unat maximum) @ '' byte limit''
   | ScanCancelled \<Rightarrow> ''scan cancelled''
   | NotAFile p \<Rightarrow> ''target is not a regular file: '' @ p
   | RuleCompilation m \<Rightarrow> ''YARA-X rule compilation failed: '' @ m
   | RuleScan m \<Rightarrow> ''YARA-X scan failed: '' @ m
   | ScanIo m \<Rightarrow> ''file I/O error: '' @ m)"

text \<open>What YARA-X reports for one matching rule: its identifier and its metadata.\<close>

type_synonym yara_match = "string \<times> (string \<times> meta_value) list"

text \<open>The compiled rules are the sources they were compiled from; what they match is up to the library.\<close>

record file_scanner =
  fs_rules :: "string list"
  fs_known_hashes :: "(string \<times> string) list"
  fs_maximum_bytes :: u64

text \<open>
  \<^verbatim>\<open>with_rule_sources\<close>: \<open>compile\<close> is the rule compiler; the first source it refuses is the error.
\<close>

fun compile_sources :: "(string \<Rightarrow> string option) \<Rightarrow> string list \<Rightarrow> scan_error + unit" where
  "compile_sources compile [] = Inr ()"
| "compile_sources compile (s # ss) =
     (case compile s of Some e \<Rightarrow> Inl (RuleCompilation e) | None \<Rightarrow> compile_sources compile ss)"

definition with_rule_sources :: "(string \<Rightarrow> string option) \<Rightarrow> string list \<Rightarrow> scan_error + file_scanner" where
  "with_rule_sources compile sources =
     and_then (compile_sources compile sources) (\<lambda>_. Inr
       \<lparr>fs_rules = sources,
        fs_known_hashes = [(''275a021bbfb6489e54d471899f7db9d1663fc695ec2fe2a2c4538aabf651fd0f'',
                            ''EICAR-Test-File'')],
        fs_maximum_bytes = DEFAULT_MAXIMUM_BYTES\<rparr>)"

definition with_maximum_bytes :: "u64 \<Rightarrow> file_scanner \<Rightarrow> file_scanner" where
  "with_maximum_bytes n s = s\<lparr>fs_maximum_bytes := n\<rparr>"

section \<open>Reading a file\<close>

text \<open>
  One iteration of the read loop: the cancellation flag was found set, or the read failed, or it
  gave bytes; no bytes is the end of the file, and so is the end of the list.
\<close>

datatype read_step = StepCancelled | StepError string | StepBytes bytes

fun read_loop :: "read_step list \<Rightarrow> bytes \<Rightarrow> bytes \<Rightarrow> scan_error + bytes \<times> bytes" where
  "read_loop [] digest content = Inr (digest, content)"
| "read_loop (StepCancelled # steps) digest content = Inl ScanCancelled"
| "read_loop (StepError e # steps) digest content = Inl (ScanIo e)"
| "read_loop (StepBytes bs # steps) digest content =
     (if bs = [] then Inr (digest, content)
      else let remaining = CONTENT_INSPECTION_BYTES - length content in
           read_loop steps (digest @ bs) (content @ take (min (length bs) remaining) bs))"

text \<open>\<open>opened\<close> is the outcome of opening the file and reading its size.\<close>

definition read_hash_and_content ::
  "(bytes \<Rightarrow> string) \<Rightarrow> string + u64 \<Rightarrow> read_step list \<Rightarrow> u64 \<Rightarrow> scan_error + hash_outcome \<times> bytes" where
  "read_hash_and_content sha256 opened steps maximum_bytes =
     and_then (map_err ScanIo opened) (\<lambda>size_bytes.
       if maximum_bytes < size_bytes then Inl (TooLarge maximum_bytes)
       else and_then (read_loop steps [] []) (\<lambda>(digest, content).
         Inr (\<lparr>ho_sha256 = sha256 digest, ho_size_bytes = size_bytes\<rparr>, content)))"

definition hash_file ::
  "(bytes \<Rightarrow> string) \<Rightarrow> string + u64 \<Rightarrow> read_step list \<Rightarrow> u64 \<Rightarrow> scan_error + hash_outcome" where
  "hash_file sha256 opened steps maximum_bytes =
     and_then (read_hash_and_content sha256 opened steps maximum_bytes) (\<lambda>(h, _). Inr h)"

section \<open>Static inspections\<close>

definition eicar_bytes :: bytes where
  "eicar_bytes = concat [''X5O!P%@AP[4'' @ [backslash] @ ''PZX54(P^)7CC)7}$'',
     ''EICAR-STANDARD-ANTIVIRUS-TEST-FILE!$H+H*'']"

definition contains_bytes :: "bytes \<Rightarrow> bytes \<Rightarrow> bool" where
  "contains_bytes haystack needle \<longleftrightarrow> needle \<noteq> [] \<and>
     list_ex (\<lambda>i. take (length needle) (drop i haystack) = needle)
       [0..<length haystack + 1 - length needle]"

definition extension :: "string \<Rightarrow> string" where
  "extension path = to_ascii_lowercase (case path_extension path of None \<Rightarrow> [] | Some e \<Rightarrow> e)"

definition deceptive_double_extension :: "string \<Rightarrow> string option" where
  "deceptive_double_extension path =
     (case path_file_name path of
        None \<Rightarrow> None
      | Some name \<Rightarrow>
          (let parts = split_on ((=) CHR ''.'') (to_ascii_lowercase name) in
           if length parts < 3 then None
           else let lure = parts ! (length parts - 2); executable = parts ! (length parts - 1) in
             if lure \<in> set LURE_EXTENSIONS \<and> executable \<in> set EXECUTABLE_EXTENSIONS
             then Some (''.'' @ lure @ ''.'' @ executable) else None))"

definition trimmed_root :: "string \<Rightarrow> string" where
  "trimmed_root value = to_ascii_lowercase (trim_end_matches ((=) backslash) (to_backslashes value))"

text \<open>\<open>canonical\<close> is the outcome of \<^verbatim>\<open>canonicalize\<close>.\<close>

fun in_temporary :: "(string \<Rightarrow> string option) \<Rightarrow> string \<Rightarrow> string list \<Rightarrow> bool" where
  "in_temporary env lowered [] = False"
| "in_temporary env lowered (v # vs) =
     (case env v of
        None \<Rightarrow> in_temporary env lowered vs
      | Some value \<Rightarrow>
          (let root = trimmed_root value in
           if root \<noteq> [] \<and> (lowered = root \<or> starts_with lowered (root @ [backslash])) then True
           else in_temporary env lowered vs))"

definition location_risk ::
  "(string \<Rightarrow> string option) \<Rightarrow> string option \<Rightarrow> string \<Rightarrow> u16 \<times> string option" where
  "location_risk env canonical path =
     (let lowered = to_ascii_lowercase (to_backslashes (case canonical of None \<Rightarrow> path | Some p \<Rightarrow> p)) in
      if in_temporary env lowered [''TEMP'', ''TMP''] then
        (30, Some ''Executable is stored in a temporary directory'')
      else (case env ''USERPROFILE'' of
          None \<Rightarrow> (0, None)
        | Some value \<Rightarrow>
            if starts_with lowered (trimmed_root value @ to_backslashes ''/downloads/'')
            then (18, Some ''Executable is stored in Downloads'') else (0, None)))"

definition script_signals :: "(string list \<times> u16 \<times> string) list" where
  "script_signals =
     [([''-enc'', ''-encodedcommand''], 28, ''Encoded command execution''),
      ([''frombase64string(''], 18, ''Base64 payload decoding''),
      ([''invoke-expression'', ''iex '', ''iex(''], 20, ''Dynamic expression execution''),
      ([''downloadstring(''], 28, ''Downloads executable script content''),
      ([''virtualalloc'', ''writeprocessmemory'', ''createremotethread''], 35,
       ''Process injection API reference''),
      ([''mshta'', ''mshta.exe''], 16, ''HTML application host execution'')]"

definition signal_if :: "bool \<Rightarrow> u16 \<Rightarrow> string \<Rightarrow> u16 \<times> string list \<Rightarrow> u16 \<times> string list" where
  "signal_if b weight reason acc =
     (if b then (sat_add (fst acc) weight, snd acc @ [reason]) else acc)"

definition inspect_script :: "bytes \<Rightarrow> u16 \<times> string list" where
  "inspect_script content =
     (let text = to_ascii_lowercase (utf8_lossy content);
          acc = fold (\<lambda>(needles, weight, reason). signal_if (list_ex (str_contains text) needles) weight reason)
                  script_signals (0, []);
          acc = signal_if (str_contains text ''regsvr32'' \<and> (str_contains text ''/i:'' \<or> str_contains text ''/u''))
                  18 ''Regsvr32 scriptlet-style execution'' acc;
          acc = signal_if (str_contains text ''rundll32'' \<and> (str_contains text ''javascript:'' \<or> str_contains text ''http''))
                  22 ''Rundll32 remote/script execution'' acc
      in (min (fst acc) 80, snd acc))"

definition looks_like_script :: "bytes \<Rightarrow> bool" where
  "looks_like_script content =
     (let prefix = to_ascii_lowercase (trim_start (utf8_lossy (take 256 content))) in
      starts_with prefix ''#!'' \<or> starts_with prefix ''<script'' \<or> starts_with prefix ''<?xml'')"

text \<open>
  The byte entropy in bits.  The arithmetic of \<^verbatim>\<open>f64\<close> is taken without rounding, on rational
  numbers; the logarithm \<^verbatim>\<open>f64::log2\<close> is the parameter \<open>log2\<close>.
\<close>

definition entropy :: "(rat \<Rightarrow> rat) \<Rightarrow> bytes \<Rightarrow> rat" where
  "entropy log2 content =
     (if content = [] then 0
      else - (\<Sum>b \<leftarrow> filter (\<lambda>b. 0 < count_list content b) (map char_of [0..<256::nat]).
                (let p = rat_of_nat (count_list content b) / rat_of_nat (length content) in p * log2 p)))"

text \<open>A slice of the content; \<open>None\<close> is the panic of an index out of bounds.\<close>

definition slice :: "bytes \<Rightarrow> nat \<Rightarrow> nat \<Rightarrow> bytes option" where
  "slice content i n = (if i + n \<le> length content then Some (take n (drop i content)) else None)"

definition inspect_pe ::
  "(rat \<Rightarrow> rat) \<Rightarrow> (rat \<Rightarrow> string) \<Rightarrow> bytes \<Rightarrow> u64 \<Rightarrow> (u16 \<times> string list) option" where
  "inspect_pe log2 show_f64 content file_size =
     (if length content < 64 then Some (25, [''Truncated DOS/PE header''])
      else case slice content 0x3c 4 of None \<Rightarrow> None | Some e_lfanew \<Rightarrow>
       (let pe_offset = from_le_bytes e_lfanew in
        if pe_offset < 64 \<or> length content < pe_offset + 24
           \<or> slice content pe_offset 4 \<noteq> Some (''PE'' @ [CHR 0x00, CHR 0x00])
        then Some (25, [''Malformed PE header''])
        else case slice content (pe_offset + 6) 2 of None \<Rightarrow> None | Some sections \<Rightarrow>
             case slice content (pe_offset + 8) 4 of None \<Rightarrow> None | Some stamp \<Rightarrow>
          (let section_count = from_le_bytes sections;
               timestamp = from_le_bytes stamp;
               sample = take (2 * 1024 * 1024) content;
               acc = (0, []);
               acc = (if section_count = 0 \<or> 32 < section_count then
                        (fst acc + 20, snd acc @ [''Unusual PE section count ('' @ show_nat section_count @ '')''])
                      else acc);
               acc = (if timestamp = 0 then (fst acc + 5, snd acc @ [''PE build timestamp is zero'']) else acc);
               acc = (if 4096 \<le> length sample then
                        (if 7.65 \<le> entropy log2 sample then
                           (fst acc + 18, snd acc @ [''High file entropy may indicate packing or encryption (''
                              @ show_f64 (entropy log2 sample) @ '')''])
                         else acc)
                      else acc);
               acc = (if file_size < 512 then (fst acc + 10, snd acc @ [''PE file is unusually small'']) else acc)
           in Some acc)))"

definition verdict :: "u8 \<Rightarrow> scan_verdict" where
  "verdict score = (if 85 \<le> score then Malicious else if 45 \<le> score then Suspicious
     else if 15 \<le> score then LowRisk else Clean)"

definition deduplicate :: "string list \<Rightarrow> string list" where
  "deduplicate values = keep_first [] values"

section \<open>Scanning one file\<close>

text \<open>Everything the scanner reads from outside: the file, the environment and the libraries.\<close>

record scan_world =
  sw_metadata :: "string + bool \<times> u64"
  sw_opened :: "string + u64"
  sw_steps :: "read_step list"
  sw_canonical :: "string option"
  sw_env :: "string \<Rightarrow> string option"
  sw_sha256 :: "bytes \<Rightarrow> string"
  sw_yara :: "string list \<Rightarrow> bytes \<Rightarrow> string + yara_match list"
  sw_pe_parse :: "bytes \<Rightarrow> string list option"
  sw_log2 :: "rat \<Rightarrow> rat"
  sw_show_f64 :: "rat \<Rightarrow> string"
  sw_now :: string

fun rule_metadata :: "(string \<times> meta_value) list \<Rightarrow> string \<times> string \<Rightarrow> string \<times> string" where
  "rule_metadata [] (description, severity) = (description, severity)"
| "rule_metadata ((key, v) # rest) (description, severity) =
     rule_metadata rest
       (case v of MetaOther \<Rightarrow> (description, severity)
        | MetaString t \<Rightarrow>
            if key = ''description'' then (t, severity)
            else if key = ''severity'' then (description, to_ascii_lowercase t)
            else (description, severity))"

definition yara_score :: "string \<Rightarrow> u16 \<Rightarrow> u16" where
  "yara_score severity score =
     (if severity \<in> {''malicious'', ''critical''} then 100
      else if severity \<in> {''high'', ''suspicious''} then max score 65
      else if severity \<in> {''medium'', ''low''} then max score 25
      else score)"

definition yara_step ::
  "yara_match \<Rightarrow> u16 \<times> string list \<times> string list \<Rightarrow> u16 \<times> string list \<times> string list" where
  "yara_step rule acc =
     (case acc of (score, reasons, matches) \<Rightarrow>
       (let (identifier, metadata) = rule;
            (description, severity) = rule_metadata metadata (''Local content rule matched'', ''suspicious'') in
        (yara_score severity score,
         reasons @ [''YARA-X '' @ identifier @ '': '' @ description],
         matches @ [identifier])))"

definition capability_reason :: "threat_capability \<Rightarrow> string" where
  "capability_reason c = ''Capability '' @ tc_category c @ '' ('' @ tc_mitre_technique c @ '', confidence ''
     @ show_nat (unat (tc_confidence c)) @ ''%)''"

text \<open>
  The stages of \<^verbatim>\<open>scan_file\<close> after the content was read, each on the score and the reasons: known
  signatures, the file name and location, the PE header, capabilities, script text.
\<close>

definition known_stage :: "file_scanner \<Rightarrow> hash_outcome \<Rightarrow> bytes \<Rightarrow> u16 \<times> string list" where
  "known_stage scanner hash content =
     (let acc = (case map_of (fs_known_hashes scanner) (ho_sha256 hash) of
                   None \<Rightarrow> (0, []) | Some name \<Rightarrow> (100, [''Known signature match: '' @ name])) in
      if contains_bytes content eicar_bytes
      then (100, snd acc @ [''EICAR antivirus test signature detected'']) else acc)"

definition name_stage :: "scan_world \<Rightarrow> string \<Rightarrow> u16 \<times> string list \<Rightarrow> u16 \<times> string list" where
  "name_stage w path acc =
     (let acc = (case deceptive_double_extension path of None \<Rightarrow> acc
                 | Some d \<Rightarrow> signal_if True 25 (''Executable uses a deceptive double extension ('' @ d @ '')'') acc) in
      if extension path \<in> set EXECUTABLE_EXTENSIONS then
        (let acc = signal_if True 8 ''Authenticode trust has not yet been evaluated'' acc;
             (location_score, location_reason) = location_risk (sw_env w) (sw_canonical w) path in
         (sat_add (fst acc) location_score,
          snd acc @ (case location_reason of None \<Rightarrow> [] | Some r \<Rightarrow> [r])))
      else acc)"

definition pe_stage :: "scan_world \<Rightarrow> u64 \<Rightarrow> bytes \<Rightarrow> u16 \<times> string list \<Rightarrow> (u16 \<times> string list) option" where
  "pe_stage w len content acc =
     (if starts_with content ''MZ'' then
        (case inspect_pe (sw_log2 w) (sw_show_f64 w) content len of
           None \<Rightarrow> None
         | Some (pe_score, pe_reasons) \<Rightarrow> Some (sat_add (fst acc) pe_score, snd acc @ pe_reasons))
      else Some acc)"

definition capability_stage ::
  "scan_world \<Rightarrow> bool \<Rightarrow> bytes \<Rightarrow> u16 \<times> string list \<Rightarrow> (u16 \<times> string list) \<times> threat_capability list" where
  "capability_stage w applies content acc =
     (if applies then
        (let assessment = inspect_capabilities (sw_pe_parse w) content in
         ((sat_add (fst acc) (ca_score assessment),
           snd acc @ map capability_reason (ca_capabilities assessment)), ca_capabilities assessment))
      else (acc, []))"

definition script_stage :: "bool \<Rightarrow> bytes \<Rightarrow> u16 \<times> string list \<Rightarrow> u16 \<times> string list" where
  "script_stage is_script content acc =
     (if is_script then
        (let (script_score, script_reasons) = inspect_script content in
         (sat_add (fst acc) script_score, snd acc @ script_reasons))
      else acc)"

text \<open>
  The rest of \<^verbatim>\<open>scan_file\<close>; the outer option is \<open>None\<close> when the PE inspection would index out of
  bounds.
\<close>

definition scan_content ::
  "file_scanner \<Rightarrow> scan_world \<Rightarrow> string \<Rightarrow> u64 \<Rightarrow> hash_outcome \<Rightarrow> bytes \<Rightarrow> (scan_error + scan_finding) option" where
  "scan_content scanner w path len hash content =
     (let acc = known_stage scanner hash content in
      case sw_yara w (fs_rules scanner) content of Inl e \<Rightarrow> Some (Inl (RuleScan e)) | Inr rules \<Rightarrow>
      (let (score, reasons, yara_matches) = fold yara_step rules (fst acc, snd acc, []);
           acc = name_stage w path (score, reasons);
           is_pe = starts_with content ''MZ'';
           is_script = (extension path \<in> set SCRIPT_EXTENSIONS \<or> looks_like_script content) in
       case pe_stage w len content acc of None \<Rightarrow> None | Some acc \<Rightarrow>
       (let (acc, capabilities) = capability_stage w (is_pe \<or> is_script) content acc;
            acc = script_stage is_script content acc;
            score = ucast (min (fst acc) 100);
            reasons = (if snd acc = [] then [''No configured local detection signal matched''] else snd acc)
        in Some (Inr \<lparr>sf_path = (case sw_canonical w of None \<Rightarrow> path | Some p \<Rightarrow> p),
             sf_verdict = verdict score, sf_score = score, sf_reasons = deduplicate reasons,
             sf_sha256 = ho_sha256 hash, sf_size_bytes = ho_size_bytes hash,
             sf_signature = (if extension path \<in> set EXECUTABLE_EXTENSIONS then SignatureUnknown else NotApplicable),
             sf_amsi_result = ''not_scanned'', sf_yara_status = ''active'', sf_yara_matches = yara_matches,
             sf_capabilities = capabilities, sf_scanned_at = sw_now w\<rparr>))))"

definition scan_file ::
  "file_scanner \<Rightarrow> scan_world \<Rightarrow> string \<Rightarrow> (scan_error + scan_finding) option" where
  "scan_file scanner w path =
     (case sw_metadata w of
        Inl e \<Rightarrow> Some (Inl (ScanIo e))
      | Inr (is_file, len) \<Rightarrow>
          if \<not> is_file then Some (Inl (NotAFile path))
          else if fs_maximum_bytes scanner < len then Some (Inl (TooLarge (fs_maximum_bytes scanner)))
          else (case read_hash_and_content (sw_sha256 w) (sw_opened w) (sw_steps w) (fs_maximum_bytes scanner) of
                  Inl e \<Rightarrow> Some (Inl e)
                | Inr (hash, content) \<Rightarrow> scan_content scanner w path len hash content))"

section \<open>Windows signals\<close>

definition AMSI_MAXIMUM_BYTES :: u64 where "AMSI_MAXIMUM_BYTES = 16 * 1024 * 1024"

text \<open>What Windows answers about the file: trust, size, content and the AMSI provider, if present.\<close>

record windows_signals =
  ws_signature :: signature_status
  ws_size :: "u64 option"
  ws_content :: "bytes option"
  ws_amsi :: "(bytes \<Rightarrow> string) option"

definition trust_stage :: "windows_signals \<Rightarrow> scan_finding \<Rightarrow> scan_finding" where
  "trust_stage w f =
     (if sf_signature f = SignatureUnknown then
        (let f = f\<lparr>sf_reasons := filter (\<lambda>r. r \<noteq> ''Authenticode trust has not yet been evaluated'')
                     (sf_reasons f), sf_signature := ws_signature w\<rparr> in
         (case sf_signature f of
            Trusted \<Rightarrow> f\<lparr>sf_score := sat_sub (sf_score f) 8\<rparr>
          | Untrusted \<Rightarrow> f\<lparr>sf_score := min (sat_add (sf_score f) 22) 100,
              sf_reasons := sf_reasons f @ [''Authenticode trust verification failed'']\<rparr>
          | SignatureUnknown \<Rightarrow> f\<lparr>sf_reasons := sf_reasons f
              @ [''No trusted Authenticode signature was confirmed'']\<rparr>
          | NotApplicable \<Rightarrow> f))
      else f)"

definition amsi_stage :: "windows_signals \<Rightarrow> scan_finding \<Rightarrow> scan_finding" where
  "amsi_stage w f =
     (if (case ws_size w of None \<Rightarrow> False | Some n \<Rightarrow> AMSI_MAXIMUM_BYTES < n)
      then f\<lparr>sf_amsi_result := ''skipped_size_limit''\<rparr>
      else (case ws_content w of
          None \<Rightarrow> f\<lparr>sf_amsi_result := ''read_error''\<rparr>
        | Some content \<Rightarrow> (case ws_amsi w of
            None \<Rightarrow> f\<lparr>sf_amsi_result := ''unavailable''\<rparr>
          | Some amsi \<Rightarrow>
              (let status = amsi content;
                   f = (if status = ''detected'' then f\<lparr>sf_score := 100, sf_reasons := sf_reasons f
                          @ [''The installed Windows AMSI provider detected malware'']\<rparr>
                        else if status = ''blocked_by_admin'' then f\<lparr>sf_score := max (sf_score f) 75,
                          sf_reasons := sf_reasons f
                          @ [''The installed Windows AMSI provider blocked this content by policy'']\<rparr>
                        else f)
               in f\<lparr>sf_amsi_result := status\<rparr>))))"

definition apply_windows_scan_signals :: "windows_signals \<Rightarrow> scan_finding \<Rightarrow> scan_finding" where
  "apply_windows_scan_signals w f =
     (let f = amsi_stage w (trust_stage w f);
          score = min (sf_score f) 100
      in f\<lparr>sf_score := score, sf_verdict := verdict score, sf_reasons := keep_first [] (sf_reasons f)\<rparr>)"

section \<open>Streaming\<close>

lemma read_loop_chunks:
  "[] \<notin> set chunks \<Longrightarrow> read_loop (map StepBytes chunks @ steps) d c
     = read_loop steps (d @ concat chunks) (c @ take (CONTENT_INSPECTION_BYTES - length c) (concat chunks))"
proof (induction chunks arbitrary: d c)
  case Nil
  then show ?case by simp
next
  case (Cons b bs)
  let ?n = "CONTENT_INSPECTION_BYTES - length c"
  have t: "take (min (length b) ?n) b = take ?n b"
    by (simp add: min_def)
  have "take ?n (b @ concat bs) = take ?n b
      @ take (CONTENT_INSPECTION_BYTES - length (c @ take ?n b)) (concat bs)"
    by (cases "length b \<le> ?n") auto
  with Cons t show ?case by (auto simp: Let_def)
qed

text \<open>
  C28. Streaming does not depend on how the file arrives.  When the size found at opening is within
  the limit and the reads deliver non-empty chunks and then the end of the file, the digest covers
  exactly the delivered bytes and the inspected content is their first 16 MiB; when the reads end
  with a cancellation or an error, that is the result.  The number of bytes that arrive after
  opening is not compared with the limit.
\<close>

theorem streaming_is_chunk_independent:
  assumes "[] \<notin> set chunks" "len \<le> maximum"
  shows "read_hash_and_content sha256 (Inr len) (map StepBytes chunks @ StepBytes [] # rest) maximum
      = Inr (\<lparr>ho_sha256 = sha256 (concat chunks), ho_size_bytes = len\<rparr>,
             take CONTENT_INSPECTION_BYTES (concat chunks))
    \<and> read_hash_and_content sha256 (Inr len) (map StepBytes chunks @ StepCancelled # rest) maximum
      = Inl ScanCancelled
    \<and> read_hash_and_content sha256 (Inr len) (map StepBytes chunks @ StepError e # rest) maximum
      = Inl (ScanIo e)"
  using assms by (simp add: read_hash_and_content_def read_loop_chunks)

theorem streaming_is_chunk_independent_witness:
  "read_hash_and_content id (Inr 3) [StepBytes ''ab'', StepBytes ''cdef'', StepBytes []] 4
     = Inr (\<lparr>ho_sha256 = ''abcdef'', ho_size_bytes = 3\<rparr>, ''abcdef'')"
  using streaming_is_chunk_independent [of "[''ab'', ''cdef'']" 3 4 id "[]"]
  by (simp add: CONTENT_INSPECTION_BYTES_def)

section \<open>Content search\<close>

lemma contains_bytes_iff: "contains_bytes h n \<longleftrightarrow> n \<noteq> [] \<and> (\<exists>u v. h = u @ n @ v)"
proof (cases "n = []")
  case False
  have "(\<exists>i \<in> {0..<length h + 1 - length n}. take (length n) (drop i h) = n) \<longleftrightarrow> (\<exists>u v. h = u @ n @ v)"
  proof
    assume "\<exists>i \<in> {0..<length h + 1 - length n}. take (length n) (drop i h) = n"
    then obtain i where "take (length n) (drop i h) = n" by blast
    then have "h = take i h @ n @ drop (length n) (drop i h)"
      by (metis append_take_drop_id)
    then show "\<exists>u v. h = u @ n @ v" by blast
  next
    assume "\<exists>u v. h = u @ n @ v"
    then obtain u v where "h = u @ n @ v" by blast
    then have "take (length n) (drop (length u) h) = n \<and> length u \<in> {0..<length h + 1 - length n}"
      by simp
    then show "\<exists>i \<in> {0..<length h + 1 - length n}. take (length n) (drop i h) = n" by blast
  qed
  with False show ?thesis by (simp add: contains_bytes_def list_ex_iff)
qed (simp add: contains_bytes_def)

section \<open>PE headers\<close>

lemma slice_Some: "i + n \<le> length c \<Longrightarrow> slice c i n = Some (take n (drop i c))"
  by (simp add: slice_def)

lemma inspect_pe_total:
  "\<exists>score reasons. inspect_pe log2 show_f64 content file_size = Some (score, reasons)
     \<and> score \<le> 53 \<and> (score = 0 \<longleftrightarrow> reasons = [])"
proof (cases "length content < 64")
  case True
  then show ?thesis by (simp add: inspect_pe_def)
next
  case False
  let ?off = "from_le_bytes (take 4 (drop 60 content))"
  have a: "slice content 60 4 = Some (take 4 (drop 60 content))"
    using False by (simp add: slice_Some)
  show ?thesis
  proof (cases "?off < 64 \<or> length content < ?off + 24
      \<or> slice content ?off 4 \<noteq> Some (''PE'' @ [CHR 0x00, CHR 0x00])")
    case True
    with a False show ?thesis by (simp add: inspect_pe_def Let_def)
  next
    case ok: False
    then have b: "slice content (?off + 6) 2 = Some (take 2 (drop (?off + 6) content))"
      "slice content (?off + 8) 4 = Some (take 4 (drop (?off + 8) content))"
      by (simp_all add: slice_Some)
    have c: "\<not> length content < 64" "(?off < 64 \<or> length content < ?off + 24
      \<or> slice content ?off 4 \<noteq> Some (''PE'' @ [CHR 0x00, CHR 0x00])) = False"
      using False ok by blast+
    show ?thesis
      unfolding inspect_pe_def if_not_P [OF c(1)] a option.case Let_def c(2) if_False b
      by (simp add: word_le_nat_alt)
  qed
qed

section \<open>Findings\<close>

lemma signal_if_le: "n \<le> fst acc \<Longrightarrow> n \<le> fst (signal_if b w r acc)"
  using le_sat_add [of "fst acc" w] by (auto simp: signal_if_def)

lemma le_sat_addI: "n \<le> a \<Longrightarrow> n \<le> sat_add a b"
  using le_sat_add [of a b] order.trans by blast

lemma yara_score_ge: "100 \<le> score \<Longrightarrow> 100 \<le> yara_score sev score"
  by (simp add: yara_score_def le_max_iff_disj)

lemma fst_yara_step: "fst (yara_step r acc) = yara_score (snd (rule_metadata (snd r)
    (''Local content rule matched'', ''suspicious''))) (fst acc)"
  by (simp add: yara_step_def case_prod_beta Let_def)

lemma fold_yara_ge: "100 \<le> fst acc \<Longrightarrow> 100 \<le> fst (fold yara_step rules acc)"
  by (induction rules arbitrary: acc) (auto simp: fst_yara_step yara_score_ge)

lemma name_stage_ge: "fst acc \<le> fst (name_stage w path acc)"
  by (auto simp: name_stage_def Let_def case_prod_beta intro!: le_sat_addI signal_if_le split: option.splits)

lemma pe_stage_ge: "\<exists>acc'. pe_stage w len content acc = Some acc' \<and> fst acc \<le> fst acc'"
  using inspect_pe_total [of "sw_log2 w" "sw_show_f64 w" content len]
  by (cases acc) (auto simp: pe_stage_def intro!: le_sat_addI)

lemma capability_stage_ge: "fst acc \<le> fst (fst (capability_stage w b content acc))"
  by (auto simp: capability_stage_def Let_def intro!: le_sat_addI)

lemma script_stage_ge: "fst acc \<le> fst (script_stage b content acc)"
  by (auto simp: script_stage_def case_prod_beta intro!: le_sat_addI)

text \<open>
  The shape of every finding: a score of at least that of the content rules, capped at 100, the
  verdict of that score, and at least one reason.
\<close>

definition finding_shape :: "file_scanner \<Rightarrow> string \<Rightarrow> hash_outcome \<Rightarrow> u16 \<Rightarrow> scan_finding \<Rightarrow> bool" where
  "finding_shape scanner path hash least f \<longleftrightarrow>
     (\<exists>raw. least \<le> raw \<and> sf_score f = ucast (min raw (100 :: u16)))
     \<and> sf_verdict f = verdict (sf_score f) \<and> sf_reasons f \<noteq> [] \<and> distinct (sf_reasons f)
     \<and> sf_sha256 f = ho_sha256 hash \<and> sf_size_bytes f = ho_size_bytes hash
     \<and> sf_signature f = (if extension path \<in> set EXECUTABLE_EXTENSIONS then SignatureUnknown
                            else NotApplicable)"

lemma deduplicate_simps: "deduplicate rs = [] \<longleftrightarrow> rs = []" "distinct (deduplicate rs)"
  using set_keep_first [of "[]" rs] by (auto simp: deduplicate_def distinct_keep_first)

lemma scan_content_shape:
  "(\<exists>e. sw_yara w (fs_rules scanner) content = Inl e \<and> scan_content scanner w path len hash content = Some (Inl (RuleScan e)))
   \<or> (\<exists>rules f. sw_yara w (fs_rules scanner) content = Inr rules
        \<and> scan_content scanner w path len hash content = Some (Inr f)
        \<and> finding_shape scanner path hash (fst (fold yara_step rules
            (fst (known_stage scanner hash content), snd (known_stage scanner hash content), []))) f)"
proof (cases "sw_yara w (fs_rules scanner) content")
  case (Inl e)
  then show ?thesis by (simp add: scan_content_def Let_def)
next
  case (Inr rules)
  define y where "y = fold yara_step rules (fst (known_stage scanner hash content),
                snd (known_stage scanner hash content), [])"
  define script where "script = (extension path \<in> set SCRIPT_EXTENSIONS \<or> looks_like_script content)"
  let ?n = "name_stage w path (fst y, fst (snd y))"
  obtain a where pe: "pe_stage w len content ?n = Some a" and ge: "fst ?n \<le> fst a"
    using pe_stage_ge by blast
  define c where "c = capability_stage w (starts_with content ''MZ'' \<or> script) content a"
  define t where "t = script_stage script content (fst c)"
  have "fst y \<le> fst t"
    using name_stage_ge [of "(fst y, fst (snd y))" w path] ge
      capability_stage_ge [of a w "starts_with content ''MZ'' \<or> script" content]
      script_stage_ge [of "fst c" script content]
    by (simp add: c_def t_def)
  moreover have "scan_content scanner w path len hash content = Some (Inr
      \<lparr>sf_path = (case sw_canonical w of None \<Rightarrow> path | Some p \<Rightarrow> p),
       sf_verdict = verdict (ucast (min (fst t) 100)), sf_score = ucast (min (fst t) 100),
       sf_reasons = deduplicate (if snd t = [] then [''No configured local detection signal matched''] else snd t),
       sf_sha256 = ho_sha256 hash, sf_size_bytes = ho_size_bytes hash,
       sf_signature = (if extension path \<in> set EXECUTABLE_EXTENSIONS then SignatureUnknown else NotApplicable),
       sf_amsi_result = ''not_scanned'', sf_yara_status = ''active'', sf_yara_matches = snd (snd y),
       sf_capabilities = snd c, sf_scanned_at = sw_now w\<rparr>)"
    unfolding scan_content_def Let_def Inr sum.case y_def [symmetric] case_prod_beta
      script_def [symmetric] pe option.case c_def [symmetric] t_def [symmetric] ..
  ultimately show ?thesis
    using Inr by (auto simp: finding_shape_def deduplicate_simps y_def [symmetric])
qed

text \<open>
  The PE inspection never indexes outside of the content, whatever offset the header claims:
  it always returns, with a score of at most 53 that is zero exactly when it gives no reason.
\<close>

theorem inspect_pe_never_out_of_bounds:
  "\<exists>score reasons. inspect_pe log2 show_f64 content file_size = Some (score, reasons)
     \<and> score \<le> 53 \<and> (score = 0 \<longleftrightarrow> reasons = [])"
  by (rule inspect_pe_total)

lemma unat_ucast_capped: "unat (ucast (min raw (100 :: u16)) :: u8) = min (unat raw) 100"
proof -
  have m: "unat (min raw (100 :: u16)) = min (unat raw) 100"
    by (simp only: unat_min_word) simp
  have "unat (ucast (min raw (100 :: u16)) :: u8) = unat (min raw (100 :: u16)) mod 2 ^ 8"
    by (simp add: unsigned_ucast_eq take_bit_eq_mod)
  with m show ?thesis by simp
qed

lemma finding_shape_score: "finding_shape scanner path hash least f \<Longrightarrow> sf_score f \<le> 100"
  by (auto simp: finding_shape_def word_le_nat_alt unat_ucast_capped)

lemma scan_file_cases:
  "(\<exists>e. scan_file scanner w path = Some (Inl e))
   \<or> (\<exists>hash content rules f. scan_file scanner w path = Some (Inr f)
        \<and> read_hash_and_content (sw_sha256 w) (sw_opened w) (sw_steps w) (fs_maximum_bytes scanner)
            = Inr (hash, content)
        \<and> finding_shape scanner path hash (fst (fold yara_step rules
            (fst (known_stage scanner hash content), snd (known_stage scanner hash content), []))) f)"
proof -
  have "(\<exists>e. scan_content scanner w path len hash content = Some (Inl e))
   \<or> (\<exists>rules f. scan_content scanner w path len hash content = Some (Inr f)
        \<and> finding_shape scanner path hash (fst (fold yara_step rules
            (fst (known_stage scanner hash content), snd (known_stage scanner hash content), []))) f)"
    for len hash content
    using scan_content_shape [of w scanner content path len hash] by blast
  then show ?thesis
    by (auto simp: scan_file_def split: sum.splits prod.splits)
qed

text \<open>
  Every scan returns a result, and every finding is consistent: its score is at most 100, its
  verdict is the one of its score, it gives at least one reason and none twice, and executables
  are left with signature status unknown for the Windows stage.
\<close>

theorem scan_finding_consistent:
  "\<exists>r. scan_file scanner w path = Some r \<and>
     (\<forall>f. r = Inr f \<longrightarrow> sf_score f \<le> 100 \<and> sf_verdict f = verdict (sf_score f)
        \<and> sf_reasons f \<noteq> [] \<and> distinct (sf_reasons f)
        \<and> sf_signature f = (if extension path \<in> set EXECUTABLE_EXTENSIONS then SignatureUnknown
                            else NotApplicable))"
  using scan_file_cases [of scanner w path]
proof (elim disjE exE conjE)
  fix hash content rules f
  assume f: "scan_file scanner w path = Some (Inr f)" "finding_shape scanner path hash (fst (fold yara_step rules
            (fst (known_stage scanner hash content), snd (known_stage scanner hash content), []))) f"
  from finding_shape_score [OF f(2)] f show ?thesis unfolding finding_shape_def by simp
qed simp

definition sample_scanner :: file_scanner where
  "sample_scanner = \<lparr>fs_rules = [], fs_known_hashes = [(''abc'', ''Sample'')], fs_maximum_bytes = 1000\<rparr>"

definition sample_world :: "bytes \<Rightarrow> scan_world" where
  "sample_world content = \<lparr>sw_metadata = Inr (True, of_nat (length content)),
     sw_opened = Inr (of_nat (length content)),
     sw_steps = [StepBytes content], sw_canonical = None, sw_env = (\<lambda>_. None), sw_sha256 = id,
     sw_yara = (\<lambda>_ _. Inr []), sw_pe_parse = (\<lambda>_. None), sw_log2 = id, sw_show_f64 = (\<lambda>_. []), sw_now = []\<rparr>"

theorem scan_finding_consistent_witness:
  "\<exists>f. scan_file sample_scanner (sample_world ''abc'') ''note.pdf.exe'' = Some (Inr f)
     \<and> sf_verdict f = verdict (sf_score f) \<and> distinct (sf_reasons f)"
proof -
  have "(case scan_file sample_scanner (sample_world ''abc'') ''note.pdf.exe'' of
      Some (Inr f) \<Rightarrow> True | _ \<Rightarrow> False)"
    by code_simp
  then obtain f where "scan_file sample_scanner (sample_world ''abc'') ''note.pdf.exe'' = Some (Inr f)"
    by (auto split: option.splits sum.splits)
  then show ?thesis
    using scan_finding_consistent [of sample_scanner "sample_world ''abc''" "''note.pdf.exe''"] by auto
qed

text \<open>
  C7. Known malware is always reported as malicious: when the digest is in the table of known
  hashes or the inspected content holds the EICAR test string, no later rule, not even a rule of
  lower severity, lowers the verdict.
\<close>

theorem known_malware_is_malicious:
  assumes "read_hash_and_content (sw_sha256 w) (sw_opened w) (sw_steps w) (fs_maximum_bytes scanner)
      = Inr (hash, content)"
    and "ho_sha256 hash \<in> fst ` set (fs_known_hashes scanner) \<or> contains_bytes content eicar_bytes"
    and "scan_file scanner w path = Some (Inr f)"
  shows "sf_score f = 100 \<and> sf_verdict f = Malicious"
proof -
  obtain rules where shape: "finding_shape scanner path hash (fst (fold yara_step rules
            (fst (known_stage scanner hash content), snd (known_stage scanner hash content), []))) f"
    using scan_file_cases [of scanner w path] assms(1,3) by auto
  have "100 \<le> fst (known_stage scanner hash content)"
    using assms(2) by (auto simp: known_stage_def Let_def map_of_eq_None_iff split: option.splits)
  then have "100 \<le> fst (fold yara_step rules
      (fst (known_stage scanner hash content), snd (known_stage scanner hash content), []))"
    by (intro fold_yara_ge) simp
  with shape obtain raw :: u16 where "100 \<le> raw" "sf_score f = ucast (min raw 100)"
    unfolding finding_shape_def using order.trans by blast
  then have "sf_score f = 100"
    by (simp add: word_unat_eq_iff unat_ucast_capped word_le_nat_alt)
  with shape show ?thesis by (simp add: finding_shape_def verdict_def)
qed

theorem known_malware_is_malicious_witness:
  "\<exists>f. scan_file sample_scanner (sample_world ''abc'') ''note.txt'' = Some (Inr f)
     \<and> sf_verdict f = Malicious"
proof -
  have a: "read_hash_and_content (sw_sha256 (sample_world ''abc'')) (sw_opened (sample_world ''abc''))
      (sw_steps (sample_world ''abc'')) (fs_maximum_bytes sample_scanner)
    = Inr (\<lparr>ho_sha256 = ''abc'', ho_size_bytes = 3\<rparr>, ''abc'')"
    by code_simp
  have b: "ho_sha256 \<lparr>ho_sha256 = ''abc'', ho_size_bytes = 3\<rparr> \<in> fst ` set (fs_known_hashes sample_scanner)
      \<or> contains_bytes ''abc'' eicar_bytes"
    by (simp add: sample_scanner_def)
  have "(case scan_file sample_scanner (sample_world ''abc'') ''note.txt'' of
      Some (Inr f) \<Rightarrow> True | _ \<Rightarrow> False)"
    by code_simp
  then obtain f where "scan_file sample_scanner (sample_world ''abc'') ''note.txt'' = Some (Inr f)"
    by (auto split: option.splits sum.splits)
  with known_malware_is_malicious [OF a b] show ?thesis by blast
qed

section \<open>Consistency after the Windows signals\<close>

lemma amsi_stage_detected: "sf_amsi_result (amsi_stage w f) = ''detected'' \<Longrightarrow> sf_score (amsi_stage w f) = 100"
  by (auto simp: amsi_stage_def Let_def split: if_splits option.splits)

lemma amsi_stage_blocked:
  "sf_amsi_result (amsi_stage w f) = ''blocked_by_admin'' \<Longrightarrow> 75 \<le> sf_score (amsi_stage w f)"
  by (auto simp: amsi_stage_def Let_def split: if_splits option.splits)

lemma amsi_stage_score_ge: "sf_score f \<le> 100 \<Longrightarrow> sf_score f \<le> sf_score (amsi_stage w f)"
  by (auto simp: amsi_stage_def Let_def split: option.splits)

lemma apply_windows_simps:
  "sf_score (apply_windows_scan_signals w f) = min (sf_score (amsi_stage w (trust_stage w f))) 100"
  "sf_verdict (apply_windows_scan_signals w f) = verdict (sf_score (apply_windows_scan_signals w f))"
  "sf_reasons (apply_windows_scan_signals w f) = keep_first [] (sf_reasons (amsi_stage w (trust_stage w f)))"
  "sf_amsi_result (apply_windows_scan_signals w f) = sf_amsi_result (amsi_stage w (trust_stage w f))"
  by (simp_all add: apply_windows_scan_signals_def Let_def)

text \<open>
  The Windows stage keeps findings consistent and honours the installed provider: the score
  stays at most 100 and the verdict is the one of the score, no reason appears twice; content that
  the AMSI provider detects is malicious whatever the local rules said, and content it blocks by
  policy scores at least 75.
\<close>

theorem windows_signals_consistent:
  "sf_score (apply_windows_scan_signals w f) \<le> 100
   \<and> sf_verdict (apply_windows_scan_signals w f) = verdict (sf_score (apply_windows_scan_signals w f))
   \<and> distinct (sf_reasons (apply_windows_scan_signals w f))
   \<and> (sf_amsi_result (apply_windows_scan_signals w f) = ''detected'' \<longrightarrow>
        sf_verdict (apply_windows_scan_signals w f) = Malicious)
   \<and> (sf_amsi_result (apply_windows_scan_signals w f) = ''blocked_by_admin'' \<longrightarrow>
        75 \<le> sf_score (apply_windows_scan_signals w f))"
  using amsi_stage_detected [of w "trust_stage w f"] amsi_stage_blocked [of w "trust_stage w f"]
  by (auto simp: apply_windows_simps verdict_def distinct_keep_first)

definition sample_finding :: scan_finding where
  "sample_finding = \<lparr>sf_path = ''a.exe'', sf_verdict = Clean, sf_score = 8,
     sf_reasons = [''Authenticode trust has not yet been evaluated''], sf_sha256 = [], sf_size_bytes = 3,
     sf_signature = SignatureUnknown, sf_amsi_result = ''not_scanned'', sf_yara_status = ''active'',
     sf_yara_matches = [], sf_capabilities = [], sf_scanned_at = []\<rparr>"

definition sample_signals :: "string \<Rightarrow> windows_signals" where
  "sample_signals status = \<lparr>ws_signature = Trusted, ws_size = Some 3, ws_content = Some ''abc'',
     ws_amsi = Some (\<lambda>_. status)\<rparr>"

theorem windows_signals_consistent_witness:
  "sf_verdict (apply_windows_scan_signals (sample_signals ''detected'') sample_finding) = Malicious
   \<and> 75 \<le> sf_score (apply_windows_scan_signals (sample_signals ''blocked_by_admin'') sample_finding)"
proof -
  have "sf_amsi_result (apply_windows_scan_signals (sample_signals ''detected'') sample_finding) = ''detected''"
    "sf_amsi_result (apply_windows_scan_signals (sample_signals ''blocked_by_admin'') sample_finding)
       = ''blocked_by_admin''"
    by code_simp+
  then show ?thesis using windows_signals_consistent by blast
qed

section \<open>Location risk and verbatim paths\<close>

lemma lower_char_backslash: "lower_char c = backslash \<longleftrightarrow> c = backslash"
proof (cases "CHR ''A'' \<le> c \<and> c \<le> CHR ''Z''")
  case True
  then have "65 \<le> (of_char c :: nat)" "(of_char c :: nat) \<le> 90"
    by (auto simp: less_eq_char_def)
  then have "of_char (lower_char c) = (of_char c + 32 :: nat)" "(of_char backslash :: nat) = 92"
    using True by (simp_all add: lower_char_def)
  with \<open>65 \<le> (of_char c :: nat)\<close> have "(of_char (lower_char c) :: nat) \<noteq> of_char backslash" by linarith
  then have "lower_char c \<noteq> backslash" by metis
  with True show ?thesis by auto
next
  case False
  then show ?thesis by (auto simp: lower_char_def)
qed

lemma trim_end_prefix: "\<exists>t. s = trim_end_matches p s @ t"
proof -
  have "rev s = takeWhile p (rev s) @ dropWhile p (rev s)" by simp
  then have "s = rev (dropWhile p (rev s)) @ rev (takeWhile p (rev s))"
    by (metis rev_append rev_rev_ident)
  then show ?thesis unfolding trim_end_matches_def by blast
qed

text \<open>A root whose text does not begin with a separator is no prefix of a text that does.\<close>

lemma trimmed_root_no_prefix:
  assumes "dir = [] \<or> \<not> is_separator (hd dir)" "starts_with (backslash # lowered) (trimmed_root dir @ suffix)"
  shows "trimmed_root dir = []"
proof (rule ccontr)
  assume ne: "trimmed_root dir \<noteq> []"
  obtain t where t: "to_backslashes dir = trim_end_matches ((=) backslash) (to_backslashes dir) @ t"
    using trim_end_prefix by blast
  from ne obtain c cs where tm: "trim_end_matches ((=) backslash) (to_backslashes dir) = c # cs"
    by (cases "trim_end_matches ((=) backslash) (to_backslashes dir)")
      (auto simp: trimmed_root_def to_ascii_lowercase_def)
  with t obtain v vs where v: "dir = v # vs" and c: "c = (if v = CHR ''/'' then backslash else v)"
    by (cases dir) (auto simp: to_backslashes_def)
  with assms(1) have "c \<noteq> backslash" by (auto simp: is_separator_def)
  moreover have "hd (trimmed_root dir) = lower_char c"
    by (simp add: trimmed_root_def tm to_ascii_lowercase_def)
  ultimately have "hd (trimmed_root dir) \<noteq> backslash" by (simp add: lower_char_backslash)
  with assms(2) ne show False by (cases "trimmed_root dir") auto
qed

definition drive_root :: "string option \<Rightarrow> bool" where
  "drive_root v = (case v of None \<Rightarrow> True | Some dir \<Rightarrow> dir = [] \<or> \<not> is_separator (hd dir))"

lemma in_temporary_drive:
  assumes "\<forall>v \<in> set vs. drive_root (env v)"
  shows "\<not> in_temporary env (backslash # lowered) vs"
  using assms
proof (induction vs)
  case (Cons v vs)
  show ?case
  proof (cases "env v")
    case None
    with Cons show ?thesis by simp
  next
    case (Some dir)
    with Cons.prems have r: "dir = [] \<or> \<not> is_separator (hd dir)" by (simp add: drive_root_def)
    have "starts_with (backslash # lowered) (trimmed_root dir @ [])"
      if "backslash # lowered = trimmed_root dir"
      using that by (simp add: starts_with_prefix)
    with trimmed_root_no_prefix [OF r] have "\<not> (trimmed_root dir \<noteq> [] \<and>
        (backslash # lowered = trimmed_root dir
         \<or> starts_with (backslash # lowered) (trimmed_root dir @ [backslash])))"
      by blast
    with Cons Some show ?thesis by (simp only: in_temporary.simps option.case Let_def if_False) simp
  qed
qed simp

text \<open>
  A verbatim path is never in a risky location.  On Windows the canonical form of an existing
  path begins with two separators, a question mark and a separator, and the temporary and profile
  directories are given as drive paths: then no comparison of the location check matches, so an
  executable in the temporary directory or in Downloads gets no location score at all.
\<close>

theorem verbatim_path_has_no_location_risk:
  assumes "\<forall>v \<in> {''TEMP'', ''TMP'', ''USERPROFILE''}. drive_root (env v)"
  shows "location_risk env (Some (to_backslashes ''//?/'' @ rest)) path = (0, None)"
proof -
  let ?l = "to_ascii_lowercase (to_backslashes (to_backslashes ''//?/'' @ rest))"
  have hd: "?l = backslash # tl ?l"
    by (simp add: to_backslashes_def to_ascii_lowercase_def lower_char_backslash)
  have temp: "\<not> in_temporary env ?l [''TEMP'', ''TMP'']"
    using assms by (subst hd) (rule in_temporary_drive, simp)
  have down: "\<not> starts_with ?l (trimmed_root dir @ to_backslashes ''/downloads/'')"
    if "env ''USERPROFILE'' = Some dir" for dir
  proof
    assume s: "starts_with ?l (trimmed_root dir @ to_backslashes ''/downloads/'')"
    have "dir = [] \<or> \<not> is_separator (hd dir)"
      using assms that by (auto simp: drive_root_def)
    with s hd have "trimmed_root dir = []"
      using trimmed_root_no_prefix by metis
    moreover have "lower_char CHR ''?'' = CHR ''?''" by code_simp
    ultimately show False
      using s by (simp add: to_backslashes_def to_ascii_lowercase_def lower_char_backslash)
  qed
  show ?thesis
    using temp down by (simp add: location_risk_def Let_def split: option.splits)
qed

theorem verbatim_path_has_no_location_risk_witness:
  "location_risk (map_of [(''TEMP'', to_backslashes ''C:/Temp''), (''USERPROFILE'', to_backslashes ''C:/Users/A'')])
     (Some (to_backslashes ''//?/'' @ to_backslashes ''C:/Temp/a.exe'')) (to_backslashes ''C:/Temp/a.exe'') = (0, None)
   \<and> location_risk (map_of [(''TEMP'', to_backslashes ''C:/Temp'')])
     None (to_backslashes ''C:/Temp/a.exe'') \<noteq> (0, None)"
proof -
  have a: "\<forall>v \<in> {''TEMP'', ''TMP'', ''USERPROFILE''}. drive_root (map_of
      [(''TEMP'', to_backslashes ''C:/Temp''), (''USERPROFILE'', to_backslashes ''C:/Users/A'')] v)"
    by (simp add: drive_root_def to_backslashes_def is_separator_def)
  have b: "location_risk (map_of [(''TEMP'', to_backslashes ''C:/Temp'')])
     None (to_backslashes ''C:/Temp/a.exe'') \<noteq> (0, None)"
    by code_simp
  show ?thesis by (intro conjI verbatim_path_has_no_location_risk [OF a] b)
qed

end
