(* ===== verification/OG_Reputation.thy ===== *)
theory OG_Reputation
  imports OG_Domain OG_Net
begin

text \<open>
  The signed reputation feed of the network collector (\<^verbatim>\<open>openguard-windows/src/lib.rs\<close>): parsing of
  its entries, the first match that classifies an address, the text form of
  the IPv4 addresses that are classified, and the asynchronous reverse-DNS cache.  The JSON decoder
  is a parameter.
\<close>

unbundle bit_operations_syntax

datatype windows_error = WinApi string | WinStatus string u32 | WinInvalidTable

section \<open>Integer parsing errors\<close>

text \<open>The text of \<^verbatim>\<open>ParseIntError\<close> for an input that an unsigned parse refuses.\<close>

fun digits_error :: "nat \<Rightarrow> nat \<Rightarrow> string \<Rightarrow> string" where
  "digits_error width acc [] = []"
| "digits_error width acc (c # cs) =
     (case to_digit 10 c of
        None \<Rightarrow> ''invalid digit found in string''
      | Some d \<Rightarrow>
          if 2 ^ width \<le> acc * 10 + d then ''number too large to fit in target type''
          else digits_error width (acc * 10 + d) cs)"

definition parse_int_error :: "nat \<Rightarrow> string \<Rightarrow> string" where
  "parse_int_error width s =
     (if s = [] then ''cannot parse integer from empty string''
      else if s = ''+'' then ''invalid digit found in string''
      else digits_error width 0 (if hd s = CHR ''+'' then tl s else s))"

definition parse_u8 :: "string \<Rightarrow> string + u8" where
  "parse_u8 s = (case from_str_radix 8 10 s of None \<Rightarrow> Inl (parse_int_error 8 s) | Some v \<Rightarrow> Inr (of_nat v))"

section \<open>The feed\<close>

record reputation_indicator =
  ri_network :: ip_addr
  ri_prefix :: u8
  ri_verdict :: string
  ri_label :: string

record reputation_feed =
  rf_version :: string
  rf_indicators :: "reputation_indicator list"

record reputation_entry =
  rn_indicator :: string
  rn_verdict :: string
  rn_label :: string

record reputation_document =
  rd_schema :: u32
  rd_version :: string
  rd_entries :: "reputation_entry list"

definition split_once :: "char \<Rightarrow> string \<Rightarrow> (string \<times> string) option" where
  "split_once c s =
     (if c \<in> set s then Some (takeWhile (\<lambda>d. d \<noteq> c) s, tl (dropWhile (\<lambda>d. d \<noteq> c) s)) else None)"

definition is_ipv4 :: "ip_addr \<Rightarrow> bool" where
  "is_ipv4 a = (case a of V4 _ \<Rightarrow> True | V6 _ \<Rightarrow> False)"

definition reputation_verdicts :: "string list" where
  "reputation_verdicts = [''suspicious'', ''malicious'']"

text \<open>One pass of the loop over the entries: \<open>None\<close> is the \<^verbatim>\<open>continue\<close> of an unknown verdict.\<close>

definition parse_entry :: "reputation_entry \<Rightarrow> windows_error + reputation_indicator option" where
  "parse_entry entry =
     (let verdict = to_ascii_lowercase (trim (rn_verdict entry)) in
      if verdict \<notin> set reputation_verdicts then Inr None
      else
        (let (address_text, prefix_text) =
               (case split_once CHR ''/'' (rn_indicator entry) of
                  None \<Rightarrow> (rn_indicator entry, None) | Some (a, p) \<Rightarrow> (a, Some p)) in
         and_then (ok_or (WinApi (''invalid reputation indicator '' @ quoted (rn_indicator entry)
             @ '': invalid IP address syntax'')) (parse_ip_addr address_text)) (\<lambda>network.
         let maximum_prefix = (if is_ipv4 network then 32 else 128) in
         and_then (map_err (\<lambda>e. WinApi (''invalid reputation prefix '' @ quoted (rn_indicator entry) @ '': '' @ e))
             (case prefix_text of None \<Rightarrow> Inr maximum_prefix | Some p \<Rightarrow> parse_u8 p)) (\<lambda>prefix.
         if maximum_prefix < prefix then
           Inl (WinApi (''reputation prefix is out of range: '' @ rn_indicator entry))
         else Inr (Some \<lparr>ri_network = network, ri_prefix = prefix, ri_verdict = verdict,
                ri_label = (if trim (rn_label entry) = [] then rn_indicator entry else rn_label entry)\<rparr>)))))"

fun parse_entries :: "reputation_entry list \<Rightarrow> windows_error + reputation_indicator list" where
  "parse_entries [] = Inr []"
| "parse_entries (e # es) =
     and_then (parse_entry e) (\<lambda>i.
       and_then (parse_entries es) (\<lambda>xs.
         Inr (case i of None \<Rightarrow> xs | Some i \<Rightarrow> i # xs)))"

definition from_json ::
  "(bytes \<Rightarrow> string + reputation_document) \<Rightarrow> bytes \<Rightarrow> windows_error + reputation_feed" where
  "from_json json data =
     and_then (map_err (\<lambda>e. WinApi (''parse reputation feed: '' @ e)) (json data)) (\<lambda>document.
       if rd_schema document \<noteq> 1 then
         Inl (WinApi (''unsupported reputation schema '' @ show_nat (unat (rd_schema document))))
       else and_then (parse_entries (rd_entries document)) (\<lambda>indicators.
         Inr \<lparr>rf_version = rd_version document, rf_indicators = indicators\<rparr>))"

definition network_contains :: "ip_addr \<Rightarrow> u8 \<Rightarrow> ip_addr \<Rightarrow> bool" where
  "network_contains network prefix candidate =
     (case (network, candidate) of
        (V4 n, V4 c) \<Rightarrow>
          (let m = (if prefix = 0 then 0 else push_bit (32 - unat prefix) (- 1)) in n AND m = c AND m)
      | (V6 n, V6 c) \<Rightarrow>
          (let m = (if prefix = 0 then 0 else push_bit (128 - unat prefix) (- 1)) in n AND m = c AND m)
      | _ \<Rightarrow> False)"

definition is_loopback :: "ip_addr \<Rightarrow> bool" where
  "is_loopback a = (case a of V4 v \<Rightarrow> is_loopback_v4 v | V6 v \<Rightarrow> is_loopback_v6 v)"

definition is_unspecified :: "ip_addr \<Rightarrow> bool" where
  "is_unspecified a = (case a of V4 v \<Rightarrow> is_unspecified_v4 v | V6 v \<Rightarrow> is_unspecified_v6 v)"

definition is_local :: "ip_addr \<Rightarrow> bool" where
  "is_local a = (case a of V4 v \<Rightarrow> is_private_v4 v \<or> is_link_local_v4 v
     | V6 v \<Rightarrow> is_unique_local_v6 v \<or> is_unicast_link_local_v6 v)"

definition classify_address :: "reputation_feed \<Rightarrow> string \<Rightarrow> string \<times> string" where
  "classify_address feed address =
     (let normalized = hd (split_on ((=) CHR ''%'') address) in
      case parse_ip_addr normalized of
        None \<Rightarrow> (''unknown'', ''No remote IP address'')
      | Some a \<Rightarrow>
          (case find (\<lambda>i. network_contains (ri_network i) (ri_prefix i) a) (rf_indicators feed) of
             Some i \<Rightarrow> (ri_verdict i, ''Signed local reputation feed: '' @ ri_label i)
           | None \<Rightarrow>
               if is_loopback a then (''local'', ''Loopback address'')
               else if is_local a then (''local'', ''Private or link-local address'')
               else if is_unspecified a then (''local'', ''Unspecified/listening address'')
               else (''unknown'', ''No match in the signed local reputation feed'')))"

text \<open>\<^verbatim>\<open>ipv4\<close>: the address of a TCP table row, in memory order.\<close>

definition ipv4 :: "u32 \<Rightarrow> string" where
  "ipv4 v = join ''.'' (map (\<lambda>c. show_nat (of_char c)) (le_bytes 4 (unat v)))"

section \<open>Entries\<close>

definition indicator_ok :: "reputation_indicator \<Rightarrow> bool" where
  "indicator_ok i \<longleftrightarrow> ri_prefix i \<le> (if is_ipv4 (ri_network i) then 32 else 128)
     \<and> ri_verdict i \<in> set reputation_verdicts"

lemma parse_entry_ok: "parse_entry e = Inr (Some i) \<Longrightarrow> indicator_ok i"
  by (auto simp: parse_entry_def indicator_ok_def Let_def result_iffs not_less
      split: if_splits prod.splits)

lemma parse_entry_known:
  "parse_entry e = Inr i \<Longrightarrow>
     (if to_ascii_lowercase (trim (rn_verdict e)) \<in> set reputation_verdicts
      then \<exists>x. i = Some x \<and> ri_verdict x = to_ascii_lowercase (trim (rn_verdict e)) else i = None)"
  by (auto simp: parse_entry_def Let_def result_iffs split: if_splits prod.splits)

lemma parse_entries_ok: "parse_entries es = Inr xs \<Longrightarrow> list_all indicator_ok xs"
  by (induction es arbitrary: xs) (auto simp: result_iffs split: option.splits dest: parse_entry_ok)

lemma parse_entries_verdicts:
  "parse_entries es = Inr xs \<Longrightarrow>
     map ri_verdict xs = filter (\<lambda>v. v \<in> set reputation_verdicts)
       (map (\<lambda>e. to_ascii_lowercase (trim (rn_verdict e))) es)"
proof (induction es arbitrary: xs)
  case (Cons e es)
  then obtain i js where p: "parse_entry e = Inr i" "parse_entries es = Inr js"
    "xs = (case i of None \<Rightarrow> js | Some x \<Rightarrow> x # js)"
    by (auto simp: result_iffs)
  from parse_entry_known [OF p(1)] Cons.IH [OF p(2)] p(3) show ?case
    by (auto split: if_splits)
qed simp

text \<open>
  A parsed feed holds exactly the usable entries of the document: one indicator per entry with
  a known verdict, in order, and every prefix length fits its address family, so that the masks of
  the matching never shift by more than the width.
\<close>

theorem feed_entries_valid:
  assumes "from_json json data = Inr feed"
  shows "(\<forall>i \<in> set (rf_indicators feed). indicator_ok i)
    \<and> (\<exists>document. json data = Inr document \<and> rd_schema document = 1
        \<and> rf_version feed = rd_version document
        \<and> map ri_verdict (rf_indicators feed) = filter (\<lambda>v. v \<in> set reputation_verdicts)
            (map (\<lambda>e. to_ascii_lowercase (trim (rn_verdict e))) (rd_entries document)))"
proof -
  from assms obtain document xs where j: "json data = Inr document" "rd_schema document = 1"
    and p: "parse_entries (rd_entries document) = Inr xs"
    and feed: "feed = \<lparr>rf_version = rd_version document, rf_indicators = xs\<rparr>"
    by (auto simp: from_json_def result_iffs split: if_splits)
  from parse_entries_ok [OF p] parse_entries_verdicts [OF p] j feed show ?thesis
    by (auto simp: list_all_iff)
qed

definition sample_document :: reputation_document where
  "sample_document = \<lparr>rd_schema = 1, rd_version = ''t'', rd_entries =
     [\<lparr>rn_indicator = ''203.0.113.0/24'', rn_verdict = '' Malicious'', rn_label = ''range''\<rparr>,
      \<lparr>rn_indicator = ''bad'', rn_verdict = ''other'', rn_label = []\<rparr>,
      \<lparr>rn_indicator = ''2001:db8::/32'', rn_verdict = ''suspicious'', rn_label = []\<rparr>]\<rparr>"

definition sample_feed :: reputation_feed where
  "sample_feed = (case from_json (\<lambda>_. Inr sample_document) [] of Inr f \<Rightarrow> f | Inl _ \<Rightarrow> \<lparr>rf_version = [], rf_indicators = []\<rparr>)"

lemma sample_feed_ok: "from_json (\<lambda>_. Inr sample_document) [] = Inr sample_feed"
proof -
  have "is_ok (from_json (\<lambda>_. Inr sample_document) [])" by code_simp
  then show ?thesis by (auto simp: is_ok_iff sample_feed_def)
qed

theorem feed_entries_valid_witness:
  "map ri_verdict (rf_indicators sample_feed) = [''malicious'', ''suspicious'']
   \<and> list_all indicator_ok (rf_indicators sample_feed)"
proof -
  have "filter (\<lambda>v. v \<in> set reputation_verdicts)
      (map (\<lambda>e. to_ascii_lowercase (trim (rn_verdict e))) (rd_entries sample_document))
    = [''malicious'', ''suspicious'']"
    by code_simp
  then show ?thesis using feed_entries_valid [OF sample_feed_ok] by (auto simp: list_all_iff)
qed

section \<open>Matching\<close>

lemma and_high_mask_eq:
  fixes a b :: "'a::len word"
  shows "a AND push_bit k (- 1) = b AND push_bit k (- 1) \<longleftrightarrow> drop_bit k a = drop_bit k b"
proof
  assume e: "a AND push_bit k (- 1) = b AND push_bit k (- 1)"
  show "drop_bit k a = drop_bit k b"
  proof (rule bit_word_eqI)
    fix n
    have "bit (a AND push_bit k (- 1)) (k + n) = bit (b AND push_bit k (- 1)) (k + n)" using e by simp
    then show "bit (drop_bit k a) n = bit (drop_bit k b) n"
      by (auto simp: bit_simps dest: bit_imp_le_length)
  qed
next
  assume e: "drop_bit k a = drop_bit k b"
  show "a AND push_bit k (- 1) = b AND push_bit k (- 1)"
  proof (rule bit_word_eqI)
    fix n
    have "bit (drop_bit k a) (n - k) = bit (drop_bit k b) (n - k)" using e by simp
    then show "bit (a AND push_bit k (- 1)) n = bit (b AND push_bit k (- 1)) n"
      by (auto simp: bit_simps)
  qed
qed

lemma drop_bit_all: "LENGTH('a) \<le> k \<Longrightarrow> drop_bit k (a :: 'a::len word) = 0"
  by (rule bit_word_eqI) (auto simp: bit_simps dest: bit_imp_le_length)

lemma network_contains_v4:
  "network_contains (V4 n) p (V4 c) \<longleftrightarrow> drop_bit (32 - unat p) n = drop_bit (32 - unat p) c"
  using and_high_mask_eq [of n "32 - unat p" c]
  by (auto simp: network_contains_def Let_def drop_bit_all)

lemma network_contains_v6:
  "network_contains (V6 n) p (V6 c) \<longleftrightarrow> drop_bit (128 - unat p) n = drop_bit (128 - unat p) c"
  using and_high_mask_eq [of n "128 - unat p" c]
  by (auto simp: network_contains_def Let_def drop_bit_all)

definition same_prefix :: "ip_addr \<Rightarrow> nat \<Rightarrow> ip_addr \<Rightarrow> bool" where
  "same_prefix a p b =
     (case (a, b) of (V4 n, V4 c) \<Rightarrow> drop_bit (32 - p) n = drop_bit (32 - p) c
      | (V6 n, V6 c) \<Rightarrow> drop_bit (128 - p) n = drop_bit (128 - p) c
      | _ \<Rightarrow> False)"

lemma network_contains_same_prefix: "network_contains a p b \<longleftrightarrow> same_prefix a (unat p) b"
  by (cases a; cases b)
    (simp_all add: network_contains_v4 network_contains_v6 same_prefix_def, simp_all add: network_contains_def)

text \<open>
  Classification is first match over the feed, then the local ranges: the result is the verdict
  of the first indicator whose network has the same leading bits as the address, whatever range the
  address is in; without a match the verdict is \<open>local\<close> for loopback, private, link-local and
  unspecified addresses and \<open>unknown\<close> otherwise, and text that is no address is \<open>unknown\<close>.
\<close>

theorem classification_is_first_match:
  "fst (classify_address feed address) =
     (case parse_ip_addr (hd (split_on ((=) CHR ''%'') address)) of
        None \<Rightarrow> ''unknown''
      | Some a \<Rightarrow>
          (case filter (\<lambda>i. same_prefix (ri_network i) (unat (ri_prefix i)) a) (rf_indicators feed) of
             i # _ \<Rightarrow> ri_verdict i
           | [] \<Rightarrow> if is_loopback a \<or> is_local a \<or> is_unspecified a then ''local'' else ''unknown''))"
proof -
  have "find p xs = (case filter p xs of [] \<Rightarrow> None | x # _ \<Rightarrow> Some x)" for p and xs :: "reputation_indicator list"
    by (induction xs) auto
  then show ?thesis
    by (simp add: classify_address_def Let_def network_contains_same_prefix split: option.splits list.splits)
qed

section \<open>IPv4 addresses as text\<close>

lemma to_digit_show: "c \<in> set (show_nat n) \<Longrightarrow> to_digit 10 c \<noteq> None"
proof (induction n rule: less_induct)
  case (less n)
  show ?case
  proof (cases "n < 10")
    case True
    with less.prems show ?thesis by (simp add: show_nat.simps [of n] to_digit_decimal)
  next
    case False
    with less.prems have "c \<in> set (show_nat (n div 10)) \<or> c = char_of (48 + n mod 10)"
      by (auto simp: show_nat.simps [of n])
    then show ?thesis
    proof
      assume "c \<in> set (show_nat (n div 10))"
      with less.IH [of "n div 10"] False show ?thesis by simp
    next
      assume "c = char_of (48 + n mod 10)"
      then show ?thesis by (simp add: to_digit_decimal)
    qed
  qed
qed

lemma length_show_nat_le: "n < 10 ^ Suc k \<Longrightarrow> length (show_nat n) \<le> Suc k"
proof (induction k arbitrary: n)
  case 0
  then show ?case by (simp add: show_nat.simps [of n])
next
  case (Suc k)
  show ?case
  proof (cases "n < 10")
    case True
    then show ?thesis by (simp add: show_nat.simps [of n])
  next
    case False
    have "n div 10 < 10 ^ Suc k" using Suc.prems by simp
    with Suc.IH [of "n div 10"] False show ?thesis by (simp add: show_nat.simps [of n])
  qed
qed

lemma hd_show_nat: "10 \<le> n \<Longrightarrow> hd (show_nat n) \<noteq> CHR ''0''"
proof (induction n rule: less_induct)
  case (less n)
  have s: "show_nat n = show_nat (n div 10) @ [char_of (48 + n mod 10)]"
    using less.prems by (subst show_nat.simps) simp
  show ?case
  proof (cases "n div 10 < 10")
    case True
    have "n div 10 \<noteq> 0" using less.prems by simp
    have "hd (show_nat n) = char_of (48 + n div 10)"
      using s True by (simp add: show_nat.simps [of "n div 10"])
    moreover have "(of_char (char_of (48 + n div 10) :: char) :: nat) = 48 + n div 10"
      using True by simp
    moreover have "(of_char CHR ''0'' :: nat) = 48" by simp
    ultimately show ?thesis using \<open>n div 10 \<noteq> 0\<close> by (metis add_cancel_left_right)
  next
    case False
    have "hd (show_nat n) = hd (show_nat (n div 10))"
      using s show_nat_nonempty [of "n div 10"] by simp
    with less.IH [of "n div 10"] less.prems False show ?thesis by simp
  qed
qed

lemma read_octet:
  assumes "d < 256" "rest = [] \<or> hd rest = CHR ''.''"
  shows "read_number 10 3 False 8 (show_nat d @ rest) = Some (d, rest)"
proof -
  have dot: "to_digit 10 CHR ''.'' = None" by (simp add: to_digit_def)
  have tw: "takeWhile (\<lambda>c. to_digit 10 c \<noteq> None) (show_nat d @ rest) = show_nat d"
    using to_digit_show [of _ d] assms(2) dot by (cases rest) (auto simp: takeWhile_append2)
  have len: "length (show_nat d) \<le> 3" using length_show_nat_le [of d 2] assms(1) by simp
  have zero: "\<not> (hd (show_nat d) = CHR ''0'' \<and> 1 < length (show_nat d))"
    using hd_show_nat [of d] by (cases "10 \<le> d") (auto simp: show_nat.simps [of d])
  show ?thesis
    using assms(1) len zero show_nat_nonempty [of d] digits_value_show_nat [of d]
    unfolding read_number_def Let_def tw by simp
qed

lemma read_octets_join:
  assumes "list_all (\<lambda>d. d < 256) ds" "ds \<noteq> []"
  shows "read_octets (length ds) i acc ((if i = 0 then [] else ''.'') @ join ''.'' (map show_nat ds))
    = Some (fold (\<lambda>d acc. acc * 256 + d) ds acc, [])"
  using assms
proof (induction ds arbitrary: i acc)
  case (Cons d ds)
  let ?rest = "if ds = [] then [] else ''.'' @ join ''.'' (map show_nat ds)"
  have j: "join ''.'' (map show_nat (d # ds)) = show_nat d @ ?rest"
    by (cases ds) auto
  have "read_separator CHR ''.'' i (read_number 10 3 False 8)
      ((if i = 0 then [] else ''.'') @ show_nat d @ ?rest) = Some (d, ?rest)"
    using read_octet [of d ?rest] Cons.prems(1)
    by (auto simp: read_separator_def read_given_char_def)
  then have step: "read_octets (length (d # ds)) i acc
      ((if i = 0 then [] else ''.'') @ join ''.'' (map show_nat (d # ds)))
    = read_octets (length ds) (Suc i) (acc * 256 + d) ?rest"
    unfolding j length_Cons read_octets.simps by simp
  show ?case
  proof (cases "ds = []")
    case True
    with step show ?thesis by simp
  next
    case False
    with Cons.IH [of "Suc i" "acc * 256 + d"] Cons.prems step show ?thesis by simp
  qed
qed simp

lemma length_le_bytes_map: "list_all (\<lambda>d. d < 256) (map of_char (le_bytes k n) :: nat list)"
  by (simp add: list_all_iff)

lemma split_on_none: "(\<forall>c \<in> set s. \<not> p c) \<Longrightarrow> split_on p s = [s]"
  by (induction s) auto

lemma set_join: "set (join sep ws) \<subseteq> set sep \<union> (\<Union>w \<in> set ws. set w)"
  by (induction sep ws rule: join.induct) auto

text \<open>
  Every IPv4 address of the connection table is readable: the text that the collector prints
  for it parses back as the address whose octets are its bytes in memory order, so an IPv4 endpoint
  is never classified as having no remote address.
\<close>

theorem ipv4_text_parses_back:
  "parse_ip_addr (ipv4 v) = Some (V4 (of_nat (fold (\<lambda>d acc. acc * 256 + d)
      (map of_char (le_bytes 4 (unat v))) 0)))
   \<and> snd (classify_address feed (ipv4 v)) \<noteq> ''No remote IP address''"
proof -
  let ?ds = "map of_char (le_bytes 4 (unat v)) :: nat list"
  have len: "length ?ds = 4" by simp
  then have ne: "?ds \<noteq> []" by (metis length_0_conv zero_neq_numeral)
  have "read_ipv4_addr (ipv4 v) = Some (fold (\<lambda>d acc. acc * 256 + d) ?ds 0, [])"
    using read_octets_join [OF length_le_bytes_map ne, of 0 0]
    unfolding read_ipv4_addr_def ipv4_def len by (simp add: comp_def)
  then have p: "parse_ip_addr (ipv4 v) = Some (V4 (of_nat (fold (\<lambda>d acc. acc * 256 + d) ?ds 0)))"
    by (simp add: parse_ip_addr_def)
  have "to_digit 10 CHR ''%'' = None" by (simp add: to_digit_def)
  then have "CHR ''%'' \<notin> set (show_nat n)" for n
    using to_digit_show by metis
  then have "CHR ''%'' \<notin> set ''.'' \<union> (\<Union>w \<in> set (map (\<lambda>c. show_nat (of_char c)) (le_bytes 4 (unat v))). set w)"
    by simp
  then have "CHR ''%'' \<notin> set (ipv4 v)"
    unfolding ipv4_def using set_join by blast
  then have "split_on ((=) CHR ''%'') (ipv4 v) = [ipv4 v]" by (intro split_on_none) auto
  with p show ?thesis
    by (simp add: classify_address_def Let_def split: option.splits)
qed

end
