(* ===== verification/OG_Dns.thy ===== *)
theory OG_Dns
  imports OG_Reputation
begin

text \<open>
  The reverse-DNS cache of the network collector (\<^verbatim>\<open>DnsResolver\<close> in \<^verbatim>\<open>openguard-windows/src/lib.rs\<close>):
  the collector thread asks for names and never waits; one worker thread resolves addresses from a
  bounded channel.  The two threads share the cache and the set of pending addresses, each under
  its own lock, so a step of the model is one critical section or one channel operation, and the
  threads interleave in any order.  Time is in seconds; the resolver itself is a parameter.
\<close>

section \<open>State and steps\<close>

datatype dns_client = ClientIdle | ClientMiss string | ClientSend string | ClientUndo string

datatype dns_worker = WorkerWait | WorkerResolve string | WorkerCached string

record dns_state =
  dn_cache :: "(string \<times> nat \<times> string) list"
  dn_pending :: "string set"
  dn_queue :: "string list"
  dn_client :: dns_client
  dn_worker :: dns_worker

definition dns_default :: dns_state where
  "dns_default = \<lparr>dn_cache = [], dn_pending = {}, dn_queue = [], dn_client = ClientIdle, dn_worker = WorkerWait\<rparr>"

definition DNS_CHANNEL_CAPACITY :: nat where "DNS_CHANNEL_CAPACITY = 256"

text \<open>\<^verbatim>\<open>hostname\<close>: the lookup in the cache, which answers or leaves a miss to be queued.\<close>

definition dns_hostname :: "nat \<Rightarrow> string \<Rightarrow> dns_state \<Rightarrow> string \<times> dns_state" where
  "dns_hostname now address s =
     (let normalized = hd (split_on ((=) CHR ''%'') address) in
      case parse_ip_addr normalized of
        None \<Rightarrow> ([], s)
      | Some parsed \<Rightarrow>
          if is_unspecified parsed then ([], s)
          else
            (let cache = (if 4096 < length (dn_cache s)
                          then filter (\<lambda>(_, expires, _). now < expires) (dn_cache s) else dn_cache s);
                 s = s\<lparr>dn_cache := cache\<rparr> in
             case map_of cache normalized of
               Some (expires, hostname) \<Rightarrow>
                 if now < expires then (hostname, s) else ([], s\<lparr>dn_client := ClientMiss normalized\<rparr>)
             | None \<Rightarrow> ([], s\<lparr>dn_client := ClientMiss normalized\<rparr>)))"

text \<open>The insertion into the pending set decides whether the address has to be sent.\<close>

definition dns_mark :: "string \<Rightarrow> dns_state \<Rightarrow> dns_state" where
  "dns_mark a s =
     (if a \<in> dn_pending s then s\<lparr>dn_client := ClientIdle\<rparr>
      else s\<lparr>dn_pending := insert a (dn_pending s), dn_client := ClientSend a\<rparr>)"

text \<open>\<^verbatim>\<open>try_send\<close>, and the removal from the pending set when the channel is full.\<close>

definition dns_try_send :: "string \<Rightarrow> dns_state \<Rightarrow> dns_state" where
  "dns_try_send a s =
     (if length (dn_queue s) < DNS_CHANNEL_CAPACITY
      then s\<lparr>dn_queue := dn_queue s @ [a], dn_client := ClientIdle\<rparr>
      else s\<lparr>dn_client := ClientUndo a\<rparr>)"

definition dns_undo :: "string \<Rightarrow> dns_state \<Rightarrow> dns_state" where
  "dns_undo a s = s\<lparr>dn_pending := dn_pending s - {a}, dn_client := ClientIdle\<rparr>"

text \<open>The worker: receive, resolve and cache, remove from the pending set.\<close>

definition dns_recv :: "dns_state \<Rightarrow> dns_state" where
  "dns_recv s = (case dn_queue s of [] \<Rightarrow> s | a # q \<Rightarrow> s\<lparr>dn_queue := q, dn_worker := WorkerResolve a\<rparr>)"

definition dns_store :: "nat \<Rightarrow> (string \<Rightarrow> string) \<Rightarrow> string \<Rightarrow> dns_state \<Rightarrow> dns_state" where
  "dns_store now resolve a s =
     s\<lparr>dn_cache := AList.update a (now + 600, resolve a) (dn_cache s), dn_worker := WorkerCached a\<rparr>"

definition dns_finish :: "string \<Rightarrow> dns_state \<Rightarrow> dns_state" where
  "dns_finish a s = s\<lparr>dn_pending := dn_pending s - {a}, dn_worker := WorkerWait\<rparr>"

inductive dns_step :: "dns_state \<Rightarrow> dns_state \<Rightarrow> bool" where
  ask: "dn_client s = ClientIdle \<Longrightarrow> dns_step s (snd (dns_hostname now address s))"
| mark: "dn_client s = ClientMiss a \<Longrightarrow> dns_step s (dns_mark a s)"
| send: "dn_client s = ClientSend a \<Longrightarrow> dns_step s (dns_try_send a s)"
| undo: "dn_client s = ClientUndo a \<Longrightarrow> dns_step s (dns_undo a s)"
| recv: "dn_worker s = WorkerWait \<Longrightarrow> dns_step s (dns_recv s)"
| store: "dn_worker s = WorkerResolve a \<Longrightarrow> dns_step s (dns_store now resolve a s)"
| finish: "dn_worker s = WorkerCached a \<Longrightarrow> dns_step s (dns_finish a s)"

inductive dns_reachable :: "dns_state \<Rightarrow> bool" where
  start: "dns_reachable dns_default"
| step: "dns_reachable s \<Longrightarrow> dns_step s t \<Longrightarrow> dns_reachable t"

section \<open>Invariant\<close>

fun client_holds :: "dns_client \<Rightarrow> string list" where
  "client_holds ClientIdle = []"
| "client_holds (ClientMiss a) = []"
| "client_holds (ClientSend a) = [a]"
| "client_holds (ClientUndo a) = [a]"

fun worker_holds :: "dns_worker \<Rightarrow> string list" where
  "worker_holds WorkerWait = []"
| "worker_holds (WorkerResolve a) = [a]"
| "worker_holds (WorkerCached a) = [a]"

text \<open>Every address on its way: held by the worker, in the channel or held by the client.\<close>

definition in_flight :: "dns_state \<Rightarrow> string list" where
  "in_flight s = worker_holds (dn_worker s) @ dn_queue s @ client_holds (dn_client s)"

definition dns_ok :: "dns_state \<Rightarrow> bool" where
  "dns_ok s \<longleftrightarrow> distinct (in_flight s) \<and> set (in_flight s) = dn_pending s
     \<and> length (dn_queue s) \<le> DNS_CHANNEL_CAPACITY"

lemma dns_ok_default: "dns_ok dns_default"
  by (simp add: dns_ok_def in_flight_def dns_default_def)

lemma dns_hostname_ok: "dns_ok s \<Longrightarrow> dn_client s = ClientIdle \<Longrightarrow> dns_ok (snd (dns_hostname now address s))"
  by (auto simp: dns_ok_def in_flight_def dns_hostname_def Let_def split: option.splits)

lemma dns_step_ok:
  assumes "dns_step s t" "dns_ok s"
  shows "dns_ok t"
  using assms(1)
proof (cases rule: dns_step.cases)
  case (ask now address)
  with assms(2) show ?thesis by (simp add: dns_hostname_ok)
next
  case (mark a)
  with assms(2) show ?thesis by (auto simp: dns_ok_def in_flight_def dns_mark_def)
next
  case (send a)
  with assms(2) show ?thesis by (auto simp: dns_ok_def in_flight_def dns_try_send_def)
next
  case (undo a)
  with assms(2) show ?thesis by (auto simp: dns_ok_def in_flight_def dns_undo_def)
next
  case recv
  with assms(2) show ?thesis by (auto simp: dns_ok_def in_flight_def dns_recv_def split: list.splits)
next
  case (store a now resolve)
  with assms(2) show ?thesis by (auto simp: dns_ok_def in_flight_def dns_store_def)
next
  case (finish a)
  with assms(2) show ?thesis by (auto simp: dns_ok_def in_flight_def dns_finish_def)
qed

lemma dns_reachable_ok: "dns_reachable s \<Longrightarrow> dns_ok s"
  by (induction rule: dns_reachable.induct) (auto intro: dns_ok_default dns_step_ok)

text \<open>
  Reverse lookups are never duplicated, lost or stuck: in every interleaving of the collector
  and the worker the channel stays within its capacity, no address is on its way twice, and an
  address is marked as pending exactly while it is on its way, so that nothing stays pending once
  both threads rest with an empty channel.
\<close>

theorem dns_lookups_never_stuck:
  assumes "dns_reachable s"
  shows "length (dn_queue s) \<le> DNS_CHANNEL_CAPACITY \<and> distinct (in_flight s)
    \<and> set (in_flight s) = dn_pending s
    \<and> (dn_queue s = [] \<and> dn_client s = ClientIdle \<and> dn_worker s = WorkerWait \<longrightarrow> dn_pending s = {})"
  using dns_reachable_ok [OF assms] by (auto simp: dns_ok_def in_flight_def)

theorem dns_lookups_never_stuck_witness:
  "set (in_flight (dns_try_send ''8.8.8.8'' (dns_mark ''8.8.8.8''
      (snd (dns_hostname 1 ''8.8.8.8'' dns_default))))) = {''8.8.8.8''}"
proof -
  let ?s = "snd (dns_hostname 1 ''8.8.8.8'' dns_default)"
  let ?t = "dns_mark ''8.8.8.8'' ?s"
  have c: "dn_client dns_default = ClientIdle" by (simp add: dns_default_def)
  have r: "dns_reachable ?s" by (rule dns_reachable.step [OF dns_reachable.start dns_step.ask [OF c]])
  have m: "dn_client ?s = ClientMiss ''8.8.8.8''" by code_simp
  have r': "dns_reachable ?t" by (rule dns_reachable.step [OF r dns_step.mark [OF m]])
  have c': "dn_client ?t = ClientSend ''8.8.8.8''" by code_simp
  have r'': "dns_reachable (dns_try_send ''8.8.8.8'' ?t)"
    by (rule dns_reachable.step [OF r' dns_step.send [OF c']])
  have "dn_pending (dns_try_send ''8.8.8.8'' ?t) = {''8.8.8.8''}" by code_simp
  with dns_lookups_never_stuck [OF r''] show ?thesis by simp
qed

end
