(* ===== verification/OG_Table.thy ===== *)
theory OG_Table
  imports OG_Text "HOL-Library.Product_Lexorder"
begin

text \<open>
  Tables of the service database in the form the SQL statements of \<^verbatim>\<open>openguard-storage/src/lib.rs\<close>
  use them: logs with an \<^verbatim>\<open>AUTOINCREMENT\<close> row number, and tables keyed by the owner and a text.
  Each kind is stated as an interface (a locale) with the laws that the storage operations rely on.
\<close>

section \<open>Logs\<close>

record 'r log_table =
  lt_sequence :: nat
  lt_rows :: "(nat \<times> 'r) list"

definition log_empty :: "'r log_table" where
  "log_empty = \<lparr>lt_sequence = 0, lt_rows = []\<rparr>"

text \<open>\<^verbatim>\<open>AUTOINCREMENT\<close>: the row number is one more than the largest ever used.\<close>

definition log_insert :: "'r \<Rightarrow> 'r log_table \<Rightarrow> nat \<times> 'r log_table" where
  "log_insert r t =
     (let i = Suc (lt_sequence t) in (i, \<lparr>lt_sequence = i, lt_rows = lt_rows t @ [(i, r)]\<rparr>))"

text \<open>
  \<^verbatim>\<open>DELETE .. WHERE id IN (SELECT id .. ORDER BY id DESC LIMIT -1 OFFSET n)\<close>, with the number of
  deleted rows.
\<close>

definition log_prune :: "nat \<Rightarrow> 'r log_table \<Rightarrow> nat \<times> 'r log_table" where
  "log_prune n t =
     (let old = set (drop n (rev (sort (map fst (lt_rows t)))));
          kept = filter (\<lambda>(i, _). i \<notin> old) (lt_rows t) in
      (length (lt_rows t) - length kept, t\<lparr>lt_rows := kept\<rparr>))"

definition log_ok :: "'r log_table \<Rightarrow> bool" where
  "log_ok t \<longleftrightarrow> sorted_wrt (<) (map fst (lt_rows t)) \<and> (\<forall>i \<in> fst ` set (lt_rows t). i \<le> lt_sequence t)"

lemma sorted_wrt_less_distinct: "sorted_wrt (<) (xs :: nat list) \<longleftrightarrow> sorted xs \<and> distinct xs"
  using strict_sorted_iff by auto

lemma filter_suffix:
  "distinct (map fst rows) \<Longrightarrow>
     filter (\<lambda>(i, _). i \<notin> set (take k (map fst rows))) rows = drop k rows"
proof (induction rows arbitrary: k)
  case (Cons r rows)
  show ?case
  proof (cases k)
    case 0
    then show ?thesis by simp
  next
    case (Suc m)
    have "filter (\<lambda>(i, _). i \<notin> set (take k (map fst (r # rows)))) rows
        = filter (\<lambda>(i, _). i \<notin> set (take m (map fst rows))) rows"
      using Cons.prems Suc by (intro filter_cong) (auto simp: rev_image_eqI)
    with Cons Suc show ?thesis by (cases r) simp
  qed
qed simp

text \<open>On a log in order, pruning keeps exactly the last rows.\<close>

lemma log_prune_rows:
  assumes "log_ok t"
  shows "lt_rows (snd (log_prune n t)) = drop (length (lt_rows t) - n) (lt_rows t)"
proof -
  let ?ids = "map fst (lt_rows t)"
  have s: "sorted ?ids" and d: "distinct ?ids"
    using assms by (auto simp: log_ok_def sorted_wrt_less_distinct)
  have "set (drop n (rev (sort ?ids))) = set (take (length ?ids - n) ?ids)"
    using s by (simp add: sorted_sort_id drop_rev)
  with filter_suffix [OF d, of "length ?ids - n"] show ?thesis
    by (simp add: log_prune_def Let_def)
qed

lemma log_prune_sequence [simp]: "lt_sequence (snd (log_prune n t)) = lt_sequence t"
  by (simp add: log_prune_def Let_def)

lemma log_prune_count:
  "log_ok t \<Longrightarrow> fst (log_prune n t) = length (lt_rows t) - n"
  using log_prune_rows [of t n] by (simp add: log_prune_def Let_def)

lemma log_ok_empty [simp]: "log_ok log_empty"
  by (simp add: log_ok_def log_empty_def)

lemma log_ok_insert: "log_ok t \<Longrightarrow> log_ok (snd (log_insert r t))"
  by (fastforce simp: log_ok_def log_insert_def Let_def sorted_wrt_append)

lemma log_ok_prune: "log_ok t \<Longrightarrow> log_ok (snd (log_prune n t))"
  by (auto simp: log_ok_def log_prune_def Let_def sorted_wrt_map sorted_wrt_filter)

lemma log_insert_fresh: "log_ok t \<Longrightarrow> fst (log_insert r t) \<notin> fst ` set (lt_rows t)"
  by (fastforce simp: log_ok_def log_insert_def Let_def)

lemma log_ok_lookup: "log_ok t \<Longrightarrow> map_of (lt_rows t) i = Some r \<longleftrightarrow> (i, r) \<in> set (lt_rows t)"
  by (intro map_of_eq_Some_iff) (simp add: log_ok_def sorted_wrt_less_distinct)

section \<open>The interface of a log\<close>

locale event_log =
  fixes rows :: "'t \<Rightarrow> (nat \<times> 'r) list"
    and sequence :: "'t \<Rightarrow> nat"
    and insert_row :: "'r \<Rightarrow> 't \<Rightarrow> nat \<times> 't"
    and prune_rows :: "nat \<Rightarrow> 't \<Rightarrow> nat \<times> 't"
    and ok :: "'t \<Rightarrow> bool"
  assumes ok_insert: "ok t \<Longrightarrow> ok (snd (insert_row r t))"
    and ok_prune: "ok t \<Longrightarrow> ok (snd (prune_rows n t))"
    and ok_order: "ok t \<Longrightarrow> sorted_wrt (<) (map fst (rows t))"
    and ok_bound: "ok t \<Longrightarrow> i \<in> fst ` set (rows t) \<Longrightarrow> i \<le> sequence t"
    and insert_rows: "rows (snd (insert_row r t)) = rows t @ [(fst (insert_row r t), r)]"
    and insert_number: "fst (insert_row r t) = Suc (sequence t)"
    and insert_sequence: "sequence (snd (insert_row r t)) = fst (insert_row r t)"
    and prune_rows: "ok t \<Longrightarrow> rows (snd (prune_rows n t)) = drop (length (rows t) - n) (rows t)"
    and prune_sequence: "sequence (snd (prune_rows n t)) = sequence t"
begin

lemma prune_newest:
  assumes "ok t" "n < length (rows t)"
  shows "length (rows (snd (prune_rows n t))) = n"
    and "i \<in> fst ` set (rows (snd (prune_rows n t))) \<Longrightarrow> j \<in> fst ` set (take (length (rows t) - n) (rows t)) \<Longrightarrow> j < i"
proof -
  show "length (rows (snd (prune_rows n t))) = n" using assms by (simp add: prune_rows)
  have "sorted_wrt (<) (map fst (take (length (rows t) - n) (rows t)) @ map fst (drop (length (rows t) - n) (rows t)))"
    using ok_order [OF assms(1)] by (simp flip: map_append)
  then show "j < i" if "i \<in> fst ` set (rows (snd (prune_rows n t)))"
    "j \<in> fst ` set (take (length (rows t) - n) (rows t))"
    using that assms by (auto simp: prune_rows sorted_wrt_append)
qed

text \<open>A row number is never used twice, not even for a row that was pruned.\<close>

lemma insert_after_prune_fresh:
  assumes "ok t" "i \<in> fst ` set (rows t)"
  shows "i < fst (insert_row r (snd (prune_rows n t)))"
  using ok_bound [OF assms] by (simp add: insert_number prune_sequence)

end

interpretation log: event_log lt_rows lt_sequence log_insert log_prune log_ok
proof unfold_locales
  show "log_ok t \<Longrightarrow> lt_rows (snd (log_prune n t)) = drop (length (lt_rows t) - n) (lt_rows t)"
    for t :: "'r log_table" and n
    by (rule log_prune_rows)
  show "log_ok t \<Longrightarrow> log_ok (snd (log_insert r t))" for t and r :: 'r
    by (rule log_ok_insert)
  show "log_ok t \<Longrightarrow> log_ok (snd (log_prune n t))" for t :: "'r log_table" and n
    by (rule log_ok_prune)
  show "log_ok t \<Longrightarrow> sorted_wrt (<) (map fst (lt_rows t))" for t :: "'r log_table"
    by (simp add: log_ok_def)
  show "log_ok t \<Longrightarrow> i \<in> fst ` set (lt_rows t) \<Longrightarrow> i \<le> lt_sequence t" for t :: "'r log_table" and i
    by (auto simp: log_ok_def)
qed (simp_all add: log_insert_def Let_def)

section \<open>Tables with an owner\<close>

text \<open>The interface of a table whose primary key is the owner and a text key.\<close>

locale owner_table =
  fixes get :: "'db \<Rightarrow> string \<Rightarrow> string \<Rightarrow> 'v option"
    and put :: "string \<Rightarrow> string \<Rightarrow> 'v \<Rightarrow> 'db \<Rightarrow> 'db"
    and del :: "string \<Rightarrow> string \<Rightarrow> 'db \<Rightarrow> bool \<times> 'db"
    and ok :: "'db \<Rightarrow> bool"
  assumes ok_put: "ok d \<Longrightarrow> ok (put o1 k v d)"
    and ok_del: "ok d \<Longrightarrow> ok (snd (del o1 k d))"
    and get_put: "get (put o1 k v d) o2 j = (if o1 = o2 \<and> k = j then Some v else get d o2 j)"
    and get_del: "ok d \<Longrightarrow> get (snd (del o1 k d)) o2 j = (if o1 = o2 \<and> k = j then None else get d o2 j)"
    and del_result: "ok d \<Longrightarrow> fst (del o1 k d) \<longleftrightarrow> get d o1 k \<noteq> None"
begin

lemma put_isolated: "o1 \<noteq> o2 \<Longrightarrow> get (put o1 k v d) o2 j = get d o2 j"
  by (simp add: get_put)

lemma del_isolated: "ok d \<Longrightarrow> o1 \<noteq> o2 \<Longrightarrow> get (snd (del o1 k d)) o2 j = get d o2 j"
  by (simp add: get_del)

lemma del_put: "ok d \<Longrightarrow> get (snd (del o1 k (put o1 k v d))) o2 j = (if o1 = o2 \<and> k = j then None else get d o2 j)"
  by (simp add: get_del ok_put get_put)

lemma del_twice: "ok d \<Longrightarrow> \<not> fst (del o1 k (snd (del o1 k d)))"
  by (simp add: del_result ok_del get_del)

end

text \<open>Association lists with distinct keys implement the interface.\<close>

definition keyed_put :: "string \<Rightarrow> string \<Rightarrow> 'v \<Rightarrow> ((string \<times> string) \<times> 'v) list \<Rightarrow> ((string \<times> string) \<times> 'v) list" where
  "keyed_put o1 k v t = AList.update (o1, k) v t"

definition keyed_del :: "string \<Rightarrow> string \<Rightarrow> ((string \<times> string) \<times> 'v) list \<Rightarrow> bool \<times> ((string \<times> string) \<times> 'v) list" where
  "keyed_del o1 k t =
     (let t' = filter (\<lambda>(key, _). key \<noteq> (o1, k)) t in (length t - length t' = 1, t'))"

definition keyed_ok :: "((string \<times> string) \<times> 'v) list \<Rightarrow> bool" where
  "keyed_ok t \<longleftrightarrow> distinct (map fst t)"

lemma keyed_del_eq: "filter (\<lambda>(key, _). key \<noteq> k) t = AList.delete k t"
  by (auto simp: AList.delete_eq intro!: filter_cong)

lemma length_delete:
  "distinct (map fst t) \<Longrightarrow> length t - length (AList.delete k t) = (if k \<in> fst ` set t then 1 else 0)"
proof (induction t)
  case (Cons a t)
  then show ?case
  proof (cases "fst a = k")
    case True
    with Cons.prems have "k \<notin> fst ` set t" by auto
    with True show ?thesis by (cases a) (simp add: delete_idem)
  next
    case False
    have "length (AList.delete k t) \<le> length t" by (simp add: AList.delete_eq)
    with False Cons show ?thesis by (cases a) (auto simp: Suc_diff_le)
  qed
qed simp

lemma keyed_ok_put: "keyed_ok t \<Longrightarrow> keyed_ok (keyed_put o1 k v t)"
  by (simp add: keyed_ok_def keyed_put_def distinct_update)

lemma keyed_ok_del: "keyed_ok t \<Longrightarrow> keyed_ok (snd (keyed_del o1 k t))"
  by (simp add: keyed_ok_def keyed_del_def Let_def keyed_del_eq distinct_delete)

lemma keyed_get_put: "map_of (keyed_put o1 k v t) (o2, j) = (if o1 = o2 \<and> k = j then Some v else map_of t (o2, j))"
  by (auto simp: keyed_put_def update_conv')

lemma keyed_get_del:
  "map_of (snd (keyed_del o1 k t)) (o2, j) = (if o1 = o2 \<and> k = j then None else map_of t (o2, j))"
  by (auto simp: keyed_del_def Let_def keyed_del_eq delete_conv')

lemma keyed_del_result: "keyed_ok t \<Longrightarrow> fst (keyed_del o1 k t) \<longleftrightarrow> map_of t (o1, k) \<noteq> None"
  using length_delete [of t "(o1, k)"]
  by (auto simp: keyed_del_def Let_def keyed_del_eq keyed_ok_def map_of_eq_None_iff)

lemmas keyed_laws = keyed_ok_put keyed_ok_del keyed_get_put keyed_get_del keyed_del_result

interpretation keyed: owner_table "\<lambda>t o1 k. map_of t (o1, k)" keyed_put keyed_del keyed_ok
  by unfold_locales (auto simp: keyed_laws)

section \<open>Text matching\<close>

text \<open>SQL \<^verbatim>\<open>LIKE\<close>: percent and underscore are wildcards, ASCII letters match in either case.\<close>

function (sequential) like :: "string \<Rightarrow> string \<Rightarrow> bool" where
  "like [] s = (s = [])"
| "like (p # ps) [] = (p = CHR ''%'' \<and> like ps [])"
| "like (p # ps) (c # cs) =
     (if p = CHR ''%'' then like ps (c # cs) \<or> like (p # ps) cs
      else if p = CHR ''_'' then like ps (dropWhile (\<lambda>b. 128 \<le> (of_char b :: nat) \<and> (of_char b :: nat) < 192) cs)
      else lower_char p = lower_char c \<and> like ps cs)"
  by pat_completeness auto
termination
  by (relation "measure (\<lambda>(p, s). length p + length s)")
    (auto simp: less_Suc_eq_le length_dropWhile_le trans_le_add2 intro: le_SucI add_mono)

end
