(* ===== verification/OG_Storage.thy ===== *)
theory OG_Storage
  imports OG_Domain OG_Table
begin

text \<open>
  The service database (\<^verbatim>\<open>openguard-storage/src/lib.rs\<close>).  One \<^verbatim>\<open>Database\<close> value is the record of its
  tables; every method is a function on it, with the statements of one transaction taken together.
  JSON columns hold the decoded value, and failures of SQLite itself are not modelled: an error is
  a constraint or a conversion that the statements themselves can violate.
\<close>

section \<open>Rows\<close>

datatype storage_error = StorageDatabase string | StorageIo string | StorageJson string
  | StorageInvalidSeverity string

definition storage_error_display :: "storage_error \<Rightarrow> string" where
  "storage_error_display e = (case e of
     StorageDatabase m \<Rightarrow> ''database error: '' @ m
   | StorageIo m \<Rightarrow> ''filesystem error: '' @ m
   | StorageJson m \<Rightarrow> ''stored JSON error: '' @ m
   | StorageInvalidSeverity m \<Rightarrow> ''database contains invalid severity '' @ quoted m)"

record seen_executable =
  sx_identity :: string
  sx_path :: string
  sx_name :: string
  sx_signature :: string
  sx_risk_score :: u8
  sx_observed_at :: string

record seen_row =
  sw_row_path :: string
  sw_row_name :: string
  sw_row_first_seen :: string
  sw_row_last_seen :: string
  sw_row_signature :: string
  sw_row_risk_score :: u8

record response_rollback =
  rb_id :: string
  rb_action :: string
  rb_target :: string
  rb_payload :: string
  rb_created_at :: string
  rb_expires_at :: "string option"
  rb_restored_at :: "string option"

record stored_quarantine =
  sq_record :: quarantine_record
  sq_path :: string

text \<open>The severity column is text; the other columns keep the value.\<close>

record event_row =
  er_owner :: string
  er_severity :: string
  er_event :: security_event

record timeline_row =
  tr_owner :: string
  tr_severity :: string
  tr_event :: timeline_event

record persistence_row =
  pw_item :: persistence_item
  pw_risk :: string
  pw_first_seen :: string
  pw_last_seen :: string
  pw_active :: bool

record database =
  db_metadata :: "(string \<times> string) list"
  db_seen :: "((string \<times> string) \<times> seen_row) list"
  db_events :: "event_row log_table"
  db_timeline :: "timeline_row log_table"
  db_scans :: "(string \<times> scan_finding) log_table"
  db_quarantines :: "(string \<times> string \<times> stored_quarantine) list"
  db_exclusions :: "((string \<times> string) \<times> exclusion_record) list"
  db_hashes :: "((string \<times> string) \<times> allowed_hash_record) list"
  db_persistence :: "((string \<times> string) \<times> persistence_row) list"
  db_rollbacks :: "(string \<times> string \<times> response_rollback) list"

definition db_empty :: database where
  "db_empty = \<lparr>db_metadata = [], db_seen = [], db_events = log_empty, db_timeline = log_empty,
     db_scans = log_empty, db_quarantines = [], db_exclusions = [], db_hashes = [],
     db_persistence = [], db_rollbacks = []\<rparr>"

section \<open>Metadata\<close>

definition get_metadata :: "string \<Rightarrow> database \<Rightarrow> string option" where
  "get_metadata key d = map_of (db_metadata d) key"

definition set_metadata :: "string \<Rightarrow> string \<Rightarrow> database \<Rightarrow> database" where
  "set_metadata key v d = d\<lparr>db_metadata := AList.update key v (db_metadata d)\<rparr>"

definition activate_content_version :: "string \<Rightarrow> string option \<Rightarrow> database \<Rightarrow> database" where
  "activate_content_version active_version previous_version d =
     set_metadata ''previous_content_version'' (case previous_version of None \<Rightarrow> [] | Some v \<Rightarrow> v)
       (set_metadata ''active_content_version'' active_version d)"

section \<open>Executables\<close>

function chunks :: "nat \<Rightarrow> 'a list \<Rightarrow> 'a list list" where
  "chunks n xs = (if n = 0 \<or> xs = [] then [] else take n xs # chunks n (drop n xs))"
  by pat_completeness auto
termination by (relation "measure (\<lambda>(n, xs). length xs)") auto

declare chunks.simps [simp del]

text \<open>The unique identities are queried in chunks of 500.\<close>

definition known_executable_identities :: "string \<Rightarrow> string list \<Rightarrow> database \<Rightarrow> string set" where
  "known_executable_identities owner_sid identities d =
     (let unique = remdups (filter (\<lambda>i. i \<noteq> []) identities) in
      fold (\<lambda>chunk known. known \<union>
          set (map (snd \<circ> fst) (filter (\<lambda>((o1, i), _). o1 = owner_sid \<and> i \<in> set chunk) (db_seen d))))
        (chunks 500 unique) {})"

text \<open>One upsert; the row of a conflict keeps its first sighting.  A score over 100 is refused.\<close>

definition upsert_executable ::
  "string \<Rightarrow> seen_executable \<Rightarrow> database \<Rightarrow> storage_error + database" where
  "upsert_executable owner_sid x d =
     (if 100 < sx_risk_score x then Inl (StorageDatabase ''CHECK constraint failed: risk_score BETWEEN 0 AND 100'')
      else
        (let first = (case map_of (db_seen d) (owner_sid, sx_identity x) of
               None \<Rightarrow> sx_observed_at x | Some row \<Rightarrow> sw_row_first_seen row) in
         Inr (d\<lparr>db_seen := AList.update (owner_sid, sx_identity x)
           \<lparr>sw_row_path = sx_path x, sw_row_name = sx_name x, sw_row_first_seen = first,
            sw_row_last_seen = sx_observed_at x, sw_row_signature = sx_signature x,
            sw_row_risk_score = sx_risk_score x\<rparr> (db_seen d)\<rparr>)))"

fun upsert_executables :: "string \<Rightarrow> seen_executable list \<Rightarrow> database \<Rightarrow> storage_error + database" where
  "upsert_executables owner_sid [] d = Inr d"
| "upsert_executables owner_sid (x # xs) d =
     and_then (upsert_executable owner_sid x d) (upsert_executables owner_sid xs)"

text \<open>A failed statement rolls the whole batch back.\<close>

definition record_executables ::
  "string \<Rightarrow> seen_executable list \<Rightarrow> database \<Rightarrow> (storage_error + unit) \<times> database" where
  "record_executables owner_sid observations d =
     (case upsert_executables owner_sid (filter (\<lambda>x. sx_identity x \<noteq> []) observations) d of
        Inl e \<Rightarrow> (Inl e, d) | Inr d' \<Rightarrow> (Inr (), d'))"

section \<open>Events and timeline\<close>

definition insert_timeline :: "string \<Rightarrow> timeline_event \<Rightarrow> database \<Rightarrow> nat \<times> database" where
  "insert_timeline owner_sid event d =
     (let (i, t) = log_insert \<lparr>tr_owner = owner_sid, tr_severity = severity_display (te_severity event),
                     tr_event = event\<rparr> (db_timeline d) in
      (i, d\<lparr>db_timeline := t\<rparr>))"

definition record_timeline :: "string \<Rightarrow> timeline_event \<Rightarrow> database \<Rightarrow> nat \<times> database" where
  "record_timeline owner_sid event d = insert_timeline owner_sid event d"

definition event_correlation :: "nat \<Rightarrow> string" where
  "event_correlation i = ''security-event-'' @ show_nat i"

definition record_event :: "string \<Rightarrow> security_event \<Rightarrow> database \<Rightarrow> nat \<times> database" where
  "record_event owner_sid event d =
     (let (i, t) = log_insert \<lparr>er_owner = owner_sid, er_severity = severity_display (se_severity event),
                     er_event = event\<rparr> (db_events d);
          d = d\<lparr>db_events := t\<rparr>;
          (_, d) = insert_timeline owner_sid
            \<lparr>te_id = None, te_category = ''detection'', te_action = se_event_type event,
             te_severity = se_severity event, te_title = se_title event, te_detail = se_detail event,
             te_process_id = se_process_id event, te_path = se_path event, te_remote_address = [],
             te_correlation_id = event_correlation i, te_occurred_at = se_created_at event\<rparr> d
      in (i, d))"

definition read_severity :: "string \<Rightarrow> storage_error + severity" where
  "read_severity text = ok_or (StorageDatabase (''invalid severity '' @ text)) (severity_parse text)"

fun collect_rows :: "('a \<Rightarrow> storage_error + 'b) \<Rightarrow> 'a list \<Rightarrow> storage_error + 'b list" where
  "collect_rows f [] = Inr []"
| "collect_rows f (x # xs) = and_then (f x) (\<lambda>y. and_then (collect_rows f xs) (\<lambda>ys. Inr (y # ys)))"

definition event_from_row :: "nat \<times> event_row \<Rightarrow> storage_error + security_event" where
  "event_from_row row =
     and_then (read_severity (er_severity (snd row))) (\<lambda>s.
       Inr (er_event (snd row)\<lparr>se_id := Some (int (fst row)), se_severity := s\<rparr>))"

definition recent_events :: "string \<Rightarrow> u32 \<Rightarrow> database \<Rightarrow> storage_error + security_event list" where
  "recent_events owner_sid limit d =
     (let safe_limit = unat (min (max limit 1) 2000);
          visible = filter (\<lambda>(_, r). er_owner r = owner_sid \<or> er_owner r = []) (lt_rows (db_events d));
          ordered = rev (sort_key (\<lambda>(i, r). (se_created_at (er_event r), i)) visible) in
      collect_rows event_from_row (take safe_limit ordered))"

definition prune_event_history :: "u32 \<Rightarrow> u32 \<Rightarrow> database \<Rightarrow> (nat \<times> nat) \<times> database" where
  "prune_event_history maximum_security_events maximum_timeline_events d =
     (let (security_deleted, e) = log_prune (unat (max maximum_security_events 1)) (db_events d);
          (timeline_deleted, t) = log_prune (unat (max maximum_timeline_events 1)) (db_timeline d) in
      ((security_deleted, timeline_deleted), d\<lparr>db_events := e, db_timeline := t\<rparr>))"

definition timeline_from_row :: "nat \<times> timeline_row \<Rightarrow> storage_error + timeline_event" where
  "timeline_from_row row =
     and_then (read_severity (tr_severity (snd row))) (\<lambda>s.
       Inr (tr_event (snd row)\<lparr>te_id := Some (int (fst row)), te_severity := s\<rparr>))"

definition timeline_matches ::
  "string \<Rightarrow> string option \<Rightarrow> u32 option \<Rightarrow> string option \<Rightarrow> timeline_row \<Rightarrow> bool" where
  "timeline_matches owner_sid category process_id search r \<longleftrightarrow>
     (tr_owner r = owner_sid \<or> tr_owner r = [])
     \<and> (case category of None \<Rightarrow> True | Some c \<Rightarrow> te_category (tr_event r) = c)
     \<and> (case process_id of None \<Rightarrow> True | Some p \<Rightarrow> te_process_id (tr_event r) = Some p)
     \<and> (case search of None \<Rightarrow> True
        | Some q \<Rightarrow> (let pattern = ''%'' @ q @ ''%'' in
            like pattern (te_title (tr_event r)) \<or> like pattern (te_detail (tr_event r))
            \<or> like pattern (te_path (tr_event r)) \<or> like pattern (te_remote_address (tr_event r))))"

definition timeline ::
  "string \<Rightarrow> int option \<Rightarrow> u32 \<Rightarrow> string option \<Rightarrow> u32 option \<Rightarrow> string option \<Rightarrow> database
   \<Rightarrow> storage_error + timeline_page" where
  "timeline owner_sid before_id limit category process_id search d =
     (let safe_limit = unat (min (max limit 1) 500);
          fetch_limit = safe_limit + 1;
          search = (case map_option trim search of None \<Rightarrow> None | Some q \<Rightarrow> if q = [] then None else Some q);
          selected = filter (\<lambda>(i, r). timeline_matches owner_sid category process_id search r
              \<and> (case before_id of None \<Rightarrow> True | Some b \<Rightarrow> int i < b)) (lt_rows (db_timeline d));
          ordered = rev (sort_key fst selected) in
      and_then (collect_rows timeline_from_row (take fetch_limit ordered)) (\<lambda>events.
        let has_more = safe_limit < length events;
            events = (if has_more then take safe_limit events else events);
            next_before_id = (if has_more \<and> events \<noteq> [] then te_id (last events) else None) in
        Inr \<lparr>tp_events = events, tp_next_before_id = next_before_id\<rparr>))"

section \<open>Persistence inventory\<close>

text \<open>What changed for one item: nothing, or the action, severity and title of the timeline entry.\<close>

definition item_change ::
  "persistence_row option \<Rightarrow> persistence_item \<Rightarrow> (string \<times> severity \<times> string) option" where
  "item_change old item =
     (case old of
        None \<Rightarrow> Some (''added'', Info, ''Persistence entry discovered'')
      | Some row \<Rightarrow>
          if \<not> pw_active row \<or> pi_command (pw_item row) \<noteq> pi_command item
             \<or> pi_state (pw_item row) \<noteq> pi_state item
          then Some (''changed'', Medium, ''Persistence entry changed'') else None)"

definition upsert_persistence :: "string \<Rightarrow> string \<Rightarrow> persistence_item \<Rightarrow> database \<Rightarrow> database" where
  "upsert_persistence owner_sid observed_at item d =
     (let first = (case map_of (db_persistence d) (owner_sid, pi_id item) of
            None \<Rightarrow> observed_at | Some row \<Rightarrow> pw_first_seen row) in
      d\<lparr>db_persistence := AList.update (owner_sid, pi_id item)
          \<lparr>pw_item = item, pw_risk = severity_display (pi_risk item), pw_first_seen = first,
           pw_last_seen = observed_at, pw_active = True\<rparr> (db_persistence d)\<rparr>)"

definition persistence_event ::
  "string \<Rightarrow> string \<Rightarrow> string \<times> severity \<times> string \<Rightarrow> string \<Rightarrow> string \<Rightarrow> timeline_event" where
  "persistence_event item_id observed_at change detail path =
     \<lparr>te_id = None, te_category = ''persistence'', te_action = fst change, te_severity = fst (snd change),
      te_title = snd (snd change), te_detail = detail, te_process_id = None, te_path = path,
      te_remote_address = [], te_correlation_id = ''persistence:'' @ item_id @ '':'' @ observed_at,
      te_occurred_at = observed_at\<rparr>"

definition item_event :: "string \<Rightarrow> persistence_item \<Rightarrow> string \<times> severity \<times> string \<Rightarrow> timeline_event" where
  "item_event observed_at item change =
     persistence_event (pi_id item) observed_at change
       (pi_category item @ '': '' @ pi_name item @ '' ('' @ pi_state item @ '')'') (pi_command item)"

text \<open>The first loop, over the collected items; \<open>existing\<close> is the table before the transaction.\<close>

fun sync_items ::
  "string \<Rightarrow> string \<Rightarrow> (string \<Rightarrow> persistence_row option) \<Rightarrow> persistence_item list \<Rightarrow> database
   \<Rightarrow> timeline_event list \<times> database" where
  "sync_items owner_sid observed_at existing [] d = ([], d)"
| "sync_items owner_sid observed_at existing (item # items) d =
     (let d = upsert_persistence owner_sid observed_at item d;
          (changes, d) = sync_items owner_sid observed_at existing items d in
      ((case item_change (existing (pi_id item)) item of
          None \<Rightarrow> changes | Some c \<Rightarrow> item_event observed_at item c # changes), d))"

text \<open>The second loop, over the rows that were there before, in the order of the hash map.\<close>

fun sync_removed ::
  "string \<Rightarrow> string \<Rightarrow> string set \<Rightarrow> (string \<times> persistence_row) list \<Rightarrow> database
   \<Rightarrow> timeline_event list \<times> database" where
  "sync_removed owner_sid observed_at active [] d = ([], d)"
| "sync_removed owner_sid observed_at active ((i, row) # rows) d =
     (if pw_active row \<and> i \<notin> active then
        (let d = (case map_of (db_persistence d) (owner_sid, i) of
               None \<Rightarrow> d
             | Some current \<Rightarrow> d\<lparr>db_persistence := AList.update (owner_sid, i)
                 (current\<lparr>pw_active := False, pw_last_seen := observed_at\<rparr>) (db_persistence d)\<rparr>);
             (changes, d) = sync_removed owner_sid observed_at active rows d in
         (persistence_event i observed_at (''removed'', Info, ''Persistence entry removed'') i [] # changes, d))
      else sync_removed owner_sid observed_at active rows d)"

fun insert_timelines :: "string \<Rightarrow> timeline_event list \<Rightarrow> database \<Rightarrow> database" where
  "insert_timelines owner_sid [] d = d"
| "insert_timelines owner_sid (e # es) d = insert_timelines owner_sid es (snd (insert_timeline owner_sid e d))"

definition existing_rows :: "string \<Rightarrow> database \<Rightarrow> (string \<times> persistence_row) list" where
  "existing_rows owner_sid d =
     map (\<lambda>((_, i), row). (i, row)) (filter (\<lambda>((o1, _), _). o1 = owner_sid) (db_persistence d))"

definition sync_persistence_inventory ::
  "((string \<times> persistence_row) list \<Rightarrow> (string \<times> persistence_row) list) \<Rightarrow> string
   \<Rightarrow> persistence_item list \<Rightarrow> string \<Rightarrow> database \<Rightarrow> timeline_event list \<times> database" where
  "sync_persistence_inventory iter owner_sid items observed_at d =
     (let existing = existing_rows owner_sid d;
          (changed, d) = sync_items owner_sid observed_at (map_of existing) items d;
          (removed, d) = sync_removed owner_sid observed_at (set (map pi_id items)) (iter existing) d;
          changes = changed @ removed in
      (changes, insert_timelines owner_sid changes d))"

definition persistence_lookup :: "string \<Rightarrow> string \<Rightarrow> database \<Rightarrow> storage_error + persistence_item option" where
  "persistence_lookup owner_sid i d =
     (case map_of (db_persistence d) (owner_sid, i) of
        None \<Rightarrow> Inr None
      | Some row \<Rightarrow>
          if pw_active row then
            and_then (read_severity (pw_risk row)) (\<lambda>s.
              Inr (Some (pw_item row\<lparr>pi_risk := s, pi_detected_at := pw_last_seen row\<rparr>)))
          else Inr None)"

section \<open>Rollbacks\<close>

text \<open>The identifier is the primary key of the whole table, whatever the owner.\<close>

definition record_response_rollback ::
  "string \<Rightarrow> response_rollback \<Rightarrow> database \<Rightarrow> (storage_error + unit) \<times> database" where
  "record_response_rollback owner_sid rollback d =
     (if rb_id rollback \<in> fst ` set (db_rollbacks d)
      then (Inl (StorageDatabase ''UNIQUE constraint failed: response_rollbacks.id''), d)
      else (Inr (), d\<lparr>db_rollbacks := db_rollbacks d @ [(rb_id rollback, owner_sid, rollback)]\<rparr>))"

definition find_rollback :: "string \<Rightarrow> string \<Rightarrow> database \<Rightarrow> response_rollback option" where
  "find_rollback owner_sid i d =
     (case find (\<lambda>(j, o1, r). o1 = owner_sid \<and> j = i \<and> rb_restored_at r = None) (db_rollbacks d) of
        None \<Rightarrow> None | Some (_, _, r) \<Rightarrow> Some r)"

definition active_response_rollbacks :: "string \<Rightarrow> database \<Rightarrow> (string \<times> response_rollback) list" where
  "active_response_rollbacks action d =
     map snd (filter (\<lambda>(_, _, r). rb_action r = action \<and> rb_restored_at r = None) (db_rollbacks d))"

definition mark_response_restored :: "string \<Rightarrow> string \<Rightarrow> string \<Rightarrow> database \<Rightarrow> bool \<times> database" where
  "mark_response_restored owner_sid i restored_at d =
     (let hit = (\<lambda>(j, o1, r). o1 = owner_sid \<and> j = i \<and> rb_restored_at r = None) in
      (length (filter hit (db_rollbacks d)) = 1,
       d\<lparr>db_rollbacks := map (\<lambda>(j, o1, r).
           (j, o1, if hit (j, o1, r) then r\<lparr>rb_restored_at := Some restored_at\<rparr> else r)) (db_rollbacks d)\<rparr>))"

section \<open>Scans\<close>

definition record_scan :: "string \<Rightarrow> scan_finding \<Rightarrow> database \<Rightarrow> (storage_error + nat) \<times> database" where
  "record_scan owner_sid finding d =
     (if 2 ^ 63 \<le> unat (sf_size_bytes finding) then
        (Inl (StorageIo ''out of range integral type conversion attempted''), d)
      else if 100 < sf_score finding then
        (Inl (StorageDatabase ''CHECK constraint failed: score BETWEEN 0 AND 100''), d)
      else (let (i, t) = log_insert (owner_sid, finding) (db_scans d) in (Inr i, d\<lparr>db_scans := t\<rparr>)))"

section \<open>Exclusions and allowed hashes\<close>

definition add_exclusion :: "string \<Rightarrow> string \<Rightarrow> exclusion_record \<Rightarrow> database \<Rightarrow> database" where
  "add_exclusion owner_sid path_key r d =
     d\<lparr>db_exclusions := keyed_put owner_sid path_key r (db_exclusions d)\<rparr>"

definition remove_exclusion :: "string \<Rightarrow> string \<Rightarrow> database \<Rightarrow> bool \<times> database" where
  "remove_exclusion owner_sid path_key d =
     (let (found, t) = keyed_del owner_sid path_key (db_exclusions d) in (found, d\<lparr>db_exclusions := t\<rparr>))"

definition list_exclusions :: "string \<Rightarrow> database \<Rightarrow> exclusion_record list" where
  "list_exclusions owner_sid d =
     sort_key (\<lambda>r. to_ascii_lowercase (ex_path r))
       (map snd (filter (\<lambda>((o1, _), _). o1 = owner_sid) (db_exclusions d)))"

definition path_excluded :: "string \<Rightarrow> string \<Rightarrow> database \<Rightarrow> bool" where
  "path_excluded owner_sid candidate_key d =
     list_ex (\<lambda>(key, recursive).
        candidate_key = key \<or>
        (recursive \<and> (case strip_prefix candidate_key key of
                         None \<Rightarrow> False | Some suffix \<Rightarrow> starts_with suffix [backslash])))
       (map (\<lambda>((_, key), r). (key, ex_recursive r))
          (filter (\<lambda>((o1, _), _). o1 = owner_sid) (db_exclusions d)))"

definition db_allow_hash :: "string \<Rightarrow> allowed_hash_record \<Rightarrow> database \<Rightarrow> database" where
  "db_allow_hash owner_sid r d = d\<lparr>db_hashes := keyed_put owner_sid (ah_sha256 r) r (db_hashes d)\<rparr>"

definition allowed_hash :: "string \<Rightarrow> string \<Rightarrow> database \<Rightarrow> string option" where
  "allowed_hash owner_sid sha256 d = map_option ah_label (map_of (db_hashes d) (owner_sid, sha256))"

definition list_allowed_hashes :: "string \<Rightarrow> database \<Rightarrow> allowed_hash_record list" where
  "list_allowed_hashes owner_sid d =
     (let mine = map snd (filter (\<lambda>((o1, _), _). o1 = owner_sid) (db_hashes d)) in
      rev (sort_key ah_created_at (rev (sort_key ah_sha256 mine))))"

definition db_remove_allowed_hash :: "string \<Rightarrow> string \<Rightarrow> database \<Rightarrow> bool \<times> database" where
  "db_remove_allowed_hash owner_sid sha256 d =
     (let (found, t) = keyed_del owner_sid sha256 (db_hashes d) in (found, d\<lparr>db_hashes := t\<rparr>))"

section \<open>Quarantine records\<close>

definition record_quarantine ::
  "string \<Rightarrow> quarantine_record \<Rightarrow> string \<Rightarrow> database \<Rightarrow> (storage_error + unit) \<times> database" where
  "record_quarantine owner_sid r quarantine_path d =
     (if qr_id r \<in> fst ` set (db_quarantines d)
      then (Inl (StorageDatabase ''UNIQUE constraint failed: quarantines.id''), d)
      else if quarantine_path \<in> (\<lambda>(_, _, q). sq_path q) ` set (db_quarantines d)
      then (Inl (StorageDatabase ''UNIQUE constraint failed: quarantines.quarantine_path''), d)
      else (Inr (), d\<lparr>db_quarantines := db_quarantines d
              @ [(qr_id r, owner_sid, \<lparr>sq_record = r, sq_path = quarantine_path\<rparr>)]\<rparr>))"

definition list_quarantines :: "string \<Rightarrow> u32 \<Rightarrow> database \<Rightarrow> quarantine_record list" where
  "list_quarantines owner_sid limit d =
     take (unat (min (max limit 1) 2000))
       (rev (sort_key (\<lambda>r. (qr_created_at r, qr_id r))
          (map (\<lambda>(_, _, q). sq_record q) (filter (\<lambda>(_, o1, _). o1 = owner_sid) (db_quarantines d)))))"

definition find_quarantine :: "string \<Rightarrow> string \<Rightarrow> database \<Rightarrow> stored_quarantine option" where
  "find_quarantine owner_sid i d =
     (case find (\<lambda>(j, o1, _). o1 = owner_sid \<and> j = i) (db_quarantines d) of
        None \<Rightarrow> None | Some (_, _, q) \<Rightarrow> Some q)"

definition mark_quarantine_restored ::
  "string \<Rightarrow> string \<Rightarrow> string \<Rightarrow> string \<Rightarrow> database \<Rightarrow> bool \<times> database" where
  "mark_quarantine_restored owner_sid i restored_at restored_path d =
     (let hit = (\<lambda>(j, o1, q). o1 = owner_sid \<and> j = i \<and> qr_restored_at (sq_record q) = None) in
      (length (filter hit (db_quarantines d)) = 1,
       d\<lparr>db_quarantines := map (\<lambda>(j, o1, q).
           (j, o1, if hit (j, o1, q) then q\<lparr>sq_record := (sq_record q)\<lparr>qr_restored_at := Some restored_at,
               qr_restored_path := Some restored_path\<rparr>\<rparr> else q)) (db_quarantines d)\<rparr>))"

definition delete_quarantine :: "string \<Rightarrow> string \<Rightarrow> database \<Rightarrow> bool \<times> database" where
  "delete_quarantine owner_sid i d =
     (let kept = filter (\<lambda>(j, o1, _). \<not> (o1 = owner_sid \<and> j = i)) (db_quarantines d) in
      (length (db_quarantines d) - length kept = 1, d\<lparr>db_quarantines := kept\<rparr>))"

section \<open>Opening the database\<close>

text \<open>
  \<^verbatim>\<open>initialize\<close> on a database of the current schema: the tables are there, and every stored event
  without a timeline entry gets one.  The statement reads the timeline before it inserts.
\<close>

definition backfill_event :: "nat \<times> event_row \<Rightarrow> timeline_event" where
  "backfill_event row =
     (let e = er_event (snd row) in
      \<lparr>te_id = None, te_category = ''detection'', te_action = se_event_type e, te_severity = se_severity e,
       te_title = se_title e, te_detail = se_detail e, te_process_id = se_process_id e, te_path = se_path e,
       te_remote_address = [], te_correlation_id = event_correlation (fst row),
       te_occurred_at = se_created_at e\<rparr>)"

fun backfill :: "(nat \<times> event_row) list \<Rightarrow> timeline_row log_table \<Rightarrow> timeline_row log_table" where
  "backfill [] t = t"
| "backfill (row # rows) t =
     backfill rows (snd (log_insert \<lparr>tr_owner = er_owner (snd row), tr_severity = er_severity (snd row),
        tr_event = backfill_event row\<rparr> t))"

definition db_initialize :: "database \<Rightarrow> database" where
  "db_initialize d =
     (let present = (\<lambda>c. list_ex (\<lambda>(_, r). te_correlation_id (tr_event r) = c) (lt_rows (db_timeline d)));
          missing = filter (\<lambda>(i, _). \<not> present (event_correlation i)) (lt_rows (db_events d)) in
      set_metadata ''schema_version'' (show_nat 6) (d\<lparr>db_timeline := backfill missing (db_timeline d)\<rparr>))"

section \<open>Invariant\<close>

text \<open>
  What every database keeps: logs in order, keys unique, and severity columns that read back.
\<close>

definition event_row_ok :: "event_row \<Rightarrow> bool" where
  "event_row_ok r \<longleftrightarrow> er_severity r = severity_display (se_severity (er_event r))"

definition timeline_row_ok :: "timeline_row \<Rightarrow> bool" where
  "timeline_row_ok r \<longleftrightarrow> tr_severity r = severity_display (te_severity (tr_event r))"

definition log_rows_ok :: "('r \<Rightarrow> bool) \<Rightarrow> 'r log_table \<Rightarrow> bool" where
  "log_rows_ok p t \<longleftrightarrow> log_ok t \<and> (\<forall>r \<in> snd ` set (lt_rows t). p r)"

definition history_ok :: "database \<Rightarrow> bool" where
  "history_ok d \<longleftrightarrow> log_rows_ok event_row_ok (db_events d) \<and> log_rows_ok timeline_row_ok (db_timeline d)"

lemma log_rows_ok_empty [simp]: "log_rows_ok p log_empty"
  by (simp add: log_rows_ok_def) (simp add: log_empty_def)

lemma log_rows_ok_insert: "log_rows_ok p t \<Longrightarrow> p r \<Longrightarrow> log_rows_ok p (snd (log_insert r t))"
  by (auto simp: log_rows_ok_def log_ok_insert log.insert_rows)

lemma log_rows_ok_prune: "log_rows_ok p t \<Longrightarrow> log_rows_ok p (snd (log_prune n t))"
  by (auto simp: log_rows_ok_def log_ok_prune log_prune_rows dest: in_set_dropD)

lemma history_ok_empty [simp]: "history_ok db_empty"
  by (simp add: history_ok_def db_empty_def)

lemma insert_timeline_simps:
  "fst (insert_timeline o1 e d) = Suc (lt_sequence (db_timeline d))"
  "snd (insert_timeline o1 e d) = d\<lparr>db_timeline := snd (log_insert
     \<lparr>tr_owner = o1, tr_severity = severity_display (te_severity e), tr_event = e\<rparr> (db_timeline d))\<rparr>"
  by (simp_all add: insert_timeline_def log_insert_def Let_def)

lemma history_ok_insert_timeline: "history_ok d \<Longrightarrow> history_ok (snd (insert_timeline o1 e d))"
  by (simp add: history_ok_def insert_timeline_simps log_rows_ok_insert timeline_row_ok_def)

lemma history_ok_insert_timelines: "history_ok d \<Longrightarrow> history_ok (insert_timelines o1 es d)"
  by (induction es arbitrary: d) (auto simp: history_ok_insert_timeline)

definition detection_event :: "nat \<Rightarrow> security_event \<Rightarrow> timeline_event" where
  "detection_event i event =
     \<lparr>te_id = None, te_category = ''detection'', te_action = se_event_type event,
      te_severity = se_severity event, te_title = se_title event, te_detail = se_detail event,
      te_process_id = se_process_id event, te_path = se_path event, te_remote_address = [],
      te_correlation_id = event_correlation i, te_occurred_at = se_created_at event\<rparr>"

lemma record_event_simps:
  "fst (record_event o1 e d) = Suc (lt_sequence (db_events d))"
  "snd (record_event o1 e d) = snd (insert_timeline o1 (detection_event (Suc (lt_sequence (db_events d))) e)
     (d\<lparr>db_events := snd (log_insert \<lparr>er_owner = o1, er_severity = severity_display (se_severity e),
        er_event = e\<rparr> (db_events d))\<rparr>))"
  by (simp_all add: record_event_def Let_def case_prod_beta log_insert_def detection_event_def)

lemma history_ok_record_event: "history_ok d \<Longrightarrow> history_ok (snd (record_event o1 e d))"
  unfolding record_event_simps
  by (intro history_ok_insert_timeline)
    (simp add: history_ok_def log_rows_ok_insert event_row_ok_def)

lemma history_ok_prune: "history_ok d \<Longrightarrow> history_ok (snd (prune_event_history m n d))"
  by (simp add: history_ok_def prune_event_history_def case_prod_beta Let_def log_rows_ok_prune)

section \<open>Paging through the timeline\<close>

text \<open>Everything an owner can see through one filter, newest first.\<close>

definition read_row :: "nat \<times> timeline_row \<Rightarrow> timeline_event" where
  "read_row row = tr_event (snd row)\<lparr>te_id := Some (int (fst row))\<rparr>"

definition search_text :: "string option \<Rightarrow> string option" where
  "search_text search =
     (case map_option trim search of None \<Rightarrow> None | Some q \<Rightarrow> if q = [] then None else Some q)"

definition visible_rows ::
  "string \<Rightarrow> string option \<Rightarrow> u32 option \<Rightarrow> string option \<Rightarrow> database \<Rightarrow> (nat \<times> timeline_row) list" where
  "visible_rows o1 category process_id search d =
     rev (filter (\<lambda>(_, r). timeline_matches o1 category process_id (search_text search) r) (lt_rows (db_timeline d)))"

definition before_cursor :: "int option \<Rightarrow> (nat \<times> 'r) list \<Rightarrow> (nat \<times> 'r) list" where
  "before_cursor b rows = filter (\<lambda>(i, _). case b of None \<Rightarrow> True | Some n \<Rightarrow> int i < n) rows"

lemma timeline_from_row_ok:
  "timeline_row_ok (snd row) \<Longrightarrow> timeline_from_row row = Inr (read_row row)"
  by (simp add: timeline_from_row_def timeline_row_ok_def read_row_def read_severity_def)

lemma collect_rows_ok: "\<forall>x \<in> set xs. f x = Inr (g x) \<Longrightarrow> collect_rows f xs = Inr (map g xs)"
  by (induction xs) auto

lemma sort_key_sorted_rows: "sorted (map fst rows) \<Longrightarrow> sort_key fst rows = (rows :: (nat \<times> 'r) list)"
  by (rule sort_key_id_if_sorted) simp

lemma before_cursor_rev_filter:
  "before_cursor b (rev (filter (\<lambda>(_, r). p r) rows))
     = rev (filter (\<lambda>(i, r). p r \<and> (case b of None \<Rightarrow> True | Some n \<Rightarrow> int i < n)) rows)"
  by (auto simp: before_cursor_def rev_filter [symmetric] intro!: filter_cong arg_cong [where f = rev])

lemma timeline_page:
  assumes "history_ok d"
  shows "timeline o1 b limit category process_id search d =
    (let rows = before_cursor b (visible_rows o1 category process_id search d);
         n = unat (min (max limit 1) 500) in
     Inr \<lparr>tp_events = map read_row (take n rows),
          tp_next_before_id = (if n < length rows then Some (int (fst (rows ! (n - 1)))) else None)\<rparr>)"
proof -
  let ?rows = "before_cursor b (visible_rows o1 category process_id search d)"
  let ?n = "unat (min (max limit 1) 500)"
  let ?sel = "filter (\<lambda>(i, r). timeline_matches o1 category process_id (search_text search) r
      \<and> (case b of None \<Rightarrow> True | Some m \<Rightarrow> int i < m)) (lt_rows (db_timeline d))"
  have log: "log_ok (db_timeline d)" "\<forall>r \<in> snd ` set (lt_rows (db_timeline d)). timeline_row_ok r"
    using assms by (auto simp: history_ok_def log_rows_ok_def)
  then have "sorted (map fst (lt_rows (db_timeline d)))"
    by (simp add: log_ok_def sorted_wrt_less_distinct)
  then have "sorted (map fst ?sel)" by (rule sorted_filter)
  then have ord: "rev (sort_key fst ?sel) = ?rows"
    by (simp add: sort_key_sorted_rows visible_rows_def before_cursor_rev_filter)
  have "\<forall>x \<in> set (take (?n + 1) ?rows). timeline_from_row x = Inr (read_row x)"
    using log(2) by (fastforce dest!: in_set_takeD simp: before_cursor_def visible_rows_def intro!: timeline_from_row_ok)
  then have col: "collect_rows timeline_from_row (take (?n + 1) ?rows) = Inr (map read_row (take (?n + 1) ?rows))"
    by (rule collect_rows_ok)
  have pos: "0 < ?n" by (simp add: word_nat del: min_def max_def)
  have tk: "take ?n (take (?n + 1) xs) = take ?n xs" for xs :: "(nat \<times> timeline_row) list" by simp
  have more: "?n < length (map read_row (take (?n + 1) ?rows)) \<longleftrightarrow> ?n < length ?rows" by auto
  have last: "te_id (last (map read_row (take ?n ?rows))) = Some (int (fst (?rows ! (?n - 1))))"
    "take ?n ?rows \<noteq> []" if "?n < length ?rows"
  proof -
    show ne: "take ?n ?rows \<noteq> []" using that pos by auto
    have "last (take ?n ?rows) = ?rows ! (?n - 1)"
      using that pos ne by (simp add: last_conv_nth)
    then show "te_id (last (map read_row (take ?n ?rows))) = Some (int (fst (?rows ! (?n - 1))))"
      using ne by (simp add: last_map read_row_def)
  qed
  show ?thesis
    unfolding timeline_def Let_def search_text_def [symmetric] ord col and_then.simps more
    using last by (auto simp: take_map tk)
qed

text \<open>A client that follows the cursors, with a bound on the number of pages it asks for.\<close>

fun read_all ::
  "nat \<Rightarrow> string \<Rightarrow> int option \<Rightarrow> u32 \<Rightarrow> string option \<Rightarrow> u32 option \<Rightarrow> string option \<Rightarrow> database
   \<Rightarrow> storage_error + timeline_event list" where
  "read_all 0 o1 b limit c p q d = Inr []"
| "read_all (Suc n) o1 b limit c p q d =
     and_then (timeline o1 b limit c p q d) (\<lambda>page.
       case tp_next_before_id page of
         None \<Rightarrow> Inr (tp_events page)
       | Some i \<Rightarrow> and_then (read_all n o1 (Some i) limit c p q d) (\<lambda>es. Inr (tp_events page @ es)))"

lemma before_cursor_nth:
  assumes "sorted_wrt (>) (map fst rows)" "k < length rows"
  shows "filter (\<lambda>(i, _). int i < int (fst (rows ! k))) rows = drop (Suc k) rows"
proof -
  have "filter (\<lambda>(i, _). i < fst (rows ! k)) rows = drop (Suc k) rows"
    if "sorted_wrt (>) (map fst rows)" "k < length rows" for rows :: "(nat \<times> 'a) list" and k
    using that
  proof (induction rows arbitrary: k)
    case (Cons r rows)
    show ?case
    proof (cases k)
      case 0
      with Cons.prems show ?thesis by (cases r) (auto simp: filter_id_conv)
    next
      case (Suc m)
      with Cons.prems have "rows ! m \<in> set rows" by simp
      with Cons.prems(1) have "fst (rows ! m) < fst r" by simp
      then have lt: "\<not> fst r < fst (rows ! m)" by simp
      show ?thesis using Cons.IH [of m] Cons.prems Suc lt by (cases r) simp
    qed
  qed simp
  from this [OF assms] show ?thesis by simp
qed

lemma before_cursor_trans:
  "int i \<le> n \<Longrightarrow> before_cursor (Some (int i)) (before_cursor (Some n) rows) = before_cursor (Some (int i)) rows"
  by (auto simp: before_cursor_def intro!: filter_cong)

lemma visible_rows_sorted: "history_ok d \<Longrightarrow> sorted_wrt (>) (map fst (visible_rows o1 c p q d))"
  by (simp add: visible_rows_def history_ok_def log_rows_ok_def log_ok_def rev_map [symmetric]
      sorted_wrt_rev sorted_wrt_map sorted_wrt_filter case_prod_beta)

lemma read_all_cursor:
  assumes ok: "history_ok d"
  shows "length (before_cursor b (visible_rows o1 c p q d)) < n \<Longrightarrow>
    read_all n o1 b limit c p q d = Inr (map read_row (before_cursor b (visible_rows o1 c p q d)))"
proof (induction n arbitrary: b)
  case (Suc n)
  let ?rows = "before_cursor b (visible_rows o1 c p q d)"
  let ?k = "unat (min (max limit 1) 500)"
  have pos: "0 < ?k" by (simp add: word_nat del: min_def max_def)
  have sorted: "sorted_wrt (>) (map fst ?rows)"
    using visible_rows_sorted [OF ok, of o1 c p q]
    by (simp add: before_cursor_def sorted_wrt_map sorted_wrt_filter)
  show ?case
  proof (cases "?k < length ?rows")
    case False
    then show ?thesis by (simp add: timeline_page [OF ok] Let_def)
  next
    case True
    let ?i = "int (fst (?rows ! (?k - 1)))"
    have k: "?k - 1 < length ?rows" "Suc (?k - 1) = ?k" using True pos by auto
    have "?rows ! (?k - 1) \<in> set ?rows" using k(1) by simp
    then have le: "case b of None \<Rightarrow> True | Some m \<Rightarrow> ?i \<le> m"
      by (auto simp: before_cursor_def split: option.splits)
    have "before_cursor (Some ?i) (visible_rows o1 c p q d) = before_cursor (Some ?i) ?rows"
    proof (cases b)
      case None
      then show ?thesis by (simp add: before_cursor_def)
    next
      case (Some m)
      with le show ?thesis by (simp only: option.case before_cursor_trans)
    qed
    also have "\<dots> = drop ?k ?rows"
      using before_cursor_nth [OF sorted k(1)] k(2) by (simp add: before_cursor_def case_prod_beta)
    finally have rest: "before_cursor (Some ?i) (visible_rows o1 c p q d) = drop ?k ?rows" .
    then have "length (before_cursor (Some ?i) (visible_rows o1 c p q d)) < n"
      using Suc.prems True pos by simp
    from Suc.IH [OF this] True rest show ?thesis
      by (simp add: timeline_page [OF ok] Let_def flip: map_append)
  qed
qed simp

text \<open>
  C27. Paging loses and repeats nothing: whatever page size is asked for, following the cursors from
  the start returns exactly the events of the timeline that the owner may see and that match the
  filters, each once and newest first, within one page request more than there are events.
\<close>

theorem timeline_paging_complete:
  assumes "history_ok d" "length (lt_rows (db_timeline d)) < n"
  shows "read_all n o1 None limit category process_id search d
    = Inr (map read_row (visible_rows o1 category process_id search d))"
proof -
  have "before_cursor None rows = rows" for rows :: "(nat \<times> timeline_row) list"
    by (simp add: before_cursor_def)
  moreover have "length (visible_rows o1 category process_id search d) < n"
    using assms(2) by (simp add: visible_rows_def le_less_trans [OF length_filter_le])
  ultimately show ?thesis
    using read_all_cursor [OF assms(1), of None o1 category process_id search n limit] by simp
qed

definition sample_event :: "string \<Rightarrow> security_event" where
  "sample_event title = \<lparr>se_id = None, se_event_type = ''behavior'', se_severity = High, se_title = title,
     se_detail = [], se_process_id = Some 7, se_path = [], se_created_at = ''unix:1'', se_resolved = False\<rparr>"

definition sample_db :: database where
  "sample_db = snd (record_event ''u'' (sample_event ''c'') (snd (record_event ''v'' (sample_event ''b'')
     (snd (record_event ''u'' (sample_event ''a'') db_empty)))))"

lemma history_ok_sample: "history_ok sample_db"
  unfolding sample_db_def by (intro history_ok_record_event history_ok_empty)

theorem timeline_paging_complete_witness:
  "map_err (\<lambda>_. ()) (and_then (read_all 4 ''u'' None 1 (Some ''detection'') None None sample_db)
     (\<lambda>es. Inr (map te_title es))) = Inr [''c'', ''a'']"
proof -
  have "length (lt_rows (db_timeline sample_db)) < 4" by code_simp
  from timeline_paging_complete [OF history_ok_sample this, of "''u''" 1 "Some ''detection''" None None]
  have "read_all 4 ''u'' None 1 (Some ''detection'') None None sample_db
    = Inr (map read_row (visible_rows ''u'' (Some ''detection'') None None sample_db))" .
  moreover have "map te_title (map read_row (visible_rows ''u'' (Some ''detection'') None None sample_db))
      = [''c'', ''a'']"
    by code_simp
  ultimately show ?thesis by simp
qed

end
