(* ===== verification/OG_History.thy ===== *)
theory OG_History
  imports OG_Storage
begin

text \<open>
  What the event history of the database (\<^verbatim>\<open>openguard-storage/src/lib.rs\<close>) guarantees beyond paging:
  detections are visible in both tables, pruning keeps the newest rows, and what opening the
  database again does to the timeline.
\<close>

section \<open>Recording\<close>

definition recent_rows :: "string \<Rightarrow> database \<Rightarrow> (nat \<times> event_row) list" where
  "recent_rows o1 d = rev (sort_key (\<lambda>(i, r). (se_created_at (er_event r), i))
     (filter (\<lambda>(_, r). er_owner r = o1 \<or> er_owner r = []) (lt_rows (db_events d))))"

definition read_event :: "nat \<times> event_row \<Rightarrow> security_event" where
  "read_event row = er_event (snd row)\<lparr>se_id := Some (int (fst row))\<rparr>"

lemma event_from_row_ok: "event_row_ok (snd row) \<Longrightarrow> event_from_row row = Inr (read_event row)"
  by (simp add: event_from_row_def event_row_ok_def read_event_def read_severity_def)

lemma recent_events_ok:
  assumes "history_ok d"
  shows "recent_events o1 limit d = Inr (map read_event (take (unat (min (max limit 1) 2000)) (recent_rows o1 d)))"
proof -
  have "\<forall>r \<in> snd ` set (lt_rows (db_events d)). event_row_ok r"
    using assms by (auto simp: history_ok_def log_rows_ok_def)
  then have "\<forall>x \<in> set (take n (recent_rows o1 d)). event_from_row x = Inr (read_event x)" for n
    by (fastforce dest!: in_set_takeD simp: recent_rows_def intro!: event_from_row_ok)
  then show ?thesis
    unfolding recent_events_def Let_def recent_rows_def [symmetric] by (intro collect_rows_ok)
qed

lemma visible_rows_insert_timeline:
  "visible_rows o1 c p q (snd (insert_timeline o2 e d)) =
     (let r = \<lparr>tr_owner = o2, tr_severity = severity_display (te_severity e), tr_event = e\<rparr> in
      if timeline_matches o1 c p (search_text q) r
      then (Suc (lt_sequence (db_timeline d)), r) # visible_rows o1 c p q d else visible_rows o1 c p q d)"
  by (simp add: visible_rows_def insert_timeline_simps log_insert_def Let_def)

lemma visible_rows_events [simp]: "visible_rows o1 c p q (d\<lparr>db_events := t\<rparr>) = visible_rows o1 c p q d"
  by (simp add: visible_rows_def)

text \<open>
  A detection is recorded in both histories of its owner and of nobody else: the next unfiltered
  timeline of the owner begins with the new entry, linked to the event row by its correlation
  identifier, every other owner's timeline is unchanged, and the event list gains exactly that row.
\<close>

theorem detection_recorded_for_owner:
  assumes "history_ok d" "owner \<noteq> []"
  shows "map read_row (visible_rows owner None None None (snd (record_event owner e d)))
      = (detection_event (fst (record_event owner e d)) e)\<lparr>te_id := Some (int (Suc (lt_sequence (db_timeline d))))\<rparr>
        # map read_row (visible_rows owner None None None d)
    \<and> (other \<noteq> owner \<longrightarrow> visible_rows other c p q (snd (record_event owner e d)) = visible_rows other c p q d
        \<and> recent_events other limit (snd (record_event owner e d)) = recent_events other limit d)
    \<and> set (recent_rows owner (snd (record_event owner e d)))
      = insert (fst (record_event owner e d), \<lparr>er_owner = owner, er_severity = severity_display (se_severity e),
          er_event = e\<rparr>) (set (recent_rows owner d))"
proof (intro conjI impI)
  show "map read_row (visible_rows owner None None None (snd (record_event owner e d)))
      = (detection_event (fst (record_event owner e d)) e)\<lparr>te_id := Some (int (Suc (lt_sequence (db_timeline d))))\<rparr>
        # map read_row (visible_rows owner None None None d)"
    by (simp add: record_event_simps visible_rows_insert_timeline Let_def timeline_matches_def
        search_text_def read_row_def)
  show "visible_rows other c p q (snd (record_event owner e d)) = visible_rows other c p q d" if "other \<noteq> owner"
    using that assms(2) by (simp add: record_event_simps visible_rows_insert_timeline Let_def timeline_matches_def)
  have same: "db_events (snd (record_event owner e d)) = snd (log_insert \<lparr>er_owner = owner,
      er_severity = severity_display (se_severity e), er_event = e\<rparr> (db_events d))"
    by (simp add: record_event_simps insert_timeline_simps)
  show "recent_events other limit (snd (record_event owner e d)) = recent_events other limit d" if "other \<noteq> owner"
    using that assms(2) by (simp add: recent_events_def same log.insert_rows)
  show "set (recent_rows owner (snd (record_event owner e d)))
      = insert (fst (record_event owner e d), \<lparr>er_owner = owner, er_severity = severity_display (se_severity e),
          er_event = e\<rparr>) (set (recent_rows owner d))"
    by (auto simp: recent_rows_def same log.insert_rows log.insert_number record_event_simps(1))
qed

theorem detection_recorded_for_owner_witness:
  "map te_title (map read_row (visible_rows ''u'' None None None
      (snd (record_event ''u'' (sample_event ''d'') sample_db)))) = [''d'', ''c'', ''a'']
   \<and> recent_events ''v'' 10 (snd (record_event ''u'' (sample_event ''d'') sample_db)) = recent_events ''v'' 10 sample_db"
proof -
  have n: "''u'' \<noteq> ([] :: string)" "''v'' \<noteq> ''u''" by simp_all
  have "map te_title (map read_row (visible_rows ''u'' None None None sample_db)) = [''c'', ''a'']" by code_simp
  moreover have "te_title (detection_event i (sample_event ''d'')) = ''d''" for i
    by (simp add: detection_event_def sample_event_def)
  ultimately show ?thesis
    using detection_recorded_for_owner [OF history_ok_sample n(1), of "sample_event ''d''" "''v''"] n(2) by simp
qed

section \<open>Pruning\<close>

text \<open>
  Pruning bounds both histories and forgets only the oldest rows: afterwards each table has at
  most the requested number of rows (at least one is allowed), they are the rows with the largest
  numbers, the returned counts are the numbers of rows that went, and no later row ever gets the
  number of a forgotten one.
\<close>

theorem prune_keeps_newest:
  assumes "history_ok d" "prune_event_history m n d = ((a, b), d')"
  shows "lt_rows (db_events d') = drop a (lt_rows (db_events d))
    \<and> lt_rows (db_timeline d') = drop b (lt_rows (db_timeline d))
    \<and> length (lt_rows (db_events d')) = min (length (lt_rows (db_events d))) (max (unat m) 1)
    \<and> length (lt_rows (db_timeline d')) = min (length (lt_rows (db_timeline d))) (max (unat n) 1)
    \<and> (\<forall>i \<in> fst ` set (lt_rows (db_events d)). i < fst (record_event owner e d'))
    \<and> history_ok d'"
proof -
  have ok: "log_ok (db_events d)" "log_ok (db_timeline d)"
    using assms(1) by (auto simp: history_ok_def log_rows_ok_def)
  have one: "unat (max k (1::u32)) = max (unat k) 1" for k
    by (simp only: unat_max_word) simp
  have d': "db_events d' = snd (log_prune (max (unat m) 1) (db_events d))"
    "db_timeline d' = snd (log_prune (max (unat n) 1) (db_timeline d))"
    "a = fst (log_prune (max (unat m) 1) (db_events d))"
    "b = fst (log_prune (max (unat n) 1) (db_timeline d))"
    using assms(2) by (auto simp: prune_event_history_def Let_def case_prod_beta one)
  have fresh: "i < fst (record_event owner e d')" if "i \<in> fst ` set (lt_rows (db_events d))" for i
    using log.insert_after_prune_fresh [OF ok(1) that] d'(1) by (simp add: record_event_simps log.insert_number)
  have "history_ok (snd (prune_event_history m n d))" by (rule history_ok_prune [OF assms(1)])
  with assms(2) have "history_ok d'" by simp
  with ok fresh show ?thesis
    by (simp add: d' log_prune_rows log_prune_count min_def)
qed

theorem prune_keeps_newest_witness:
  "map (te_title \<circ> tr_event \<circ> snd) (lt_rows (db_timeline (snd (prune_event_history 0 2 sample_db)))) = [''b'', ''c'']
   \<and> length (lt_rows (db_events (snd (prune_event_history 0 2 sample_db)))) = 1"
proof -
  have f: "fst (prune_event_history 0 2 sample_db) = (2, 1)" by code_simp
  have p: "prune_event_history 0 2 sample_db = ((2, 1), snd (prune_event_history 0 2 sample_db))"
    by (simp add: prod_eq_iff f)
  have "map (te_title \<circ> tr_event \<circ> snd) (drop 1 (lt_rows (db_timeline sample_db))) = [''b'', ''c'']"
    "length (lt_rows (db_events sample_db)) = 3"
    by code_simp+
  with prune_keeps_newest [OF history_ok_sample p] show ?thesis by simp
qed

section \<open>Opening the database again\<close>

lemma backfill_rows:
  "lt_rows (backfill rows t) = lt_rows t @ map (\<lambda>(n, row). (Suc (lt_sequence t + n),
      \<lparr>tr_owner = er_owner (snd row), tr_severity = er_severity (snd row), tr_event = backfill_event row\<rparr>))
    (enumerate 0 rows)"
proof (induction rows arbitrary: t)
  case (Cons row rows)
  from Cons [of "snd (log_insert \<lparr>tr_owner = er_owner (snd row), tr_severity = er_severity (snd row),
        tr_event = backfill_event row\<rparr> t)"]
  show ?case by (simp add: log_insert_def Let_def comp_def case_prod_beta enumerate_Suc_eq)
qed simp

lemma correlation_inj: "event_correlation i = event_correlation j \<Longrightarrow> i = j"
  by (simp add: event_correlation_def show_nat_inj)

definition has_timeline :: "nat \<Rightarrow> database \<Rightarrow> bool" where
  "has_timeline i d \<longleftrightarrow> (\<exists>(_, r) \<in> set (lt_rows (db_timeline d)). te_correlation_id (tr_event r) = event_correlation i)"

definition missing_events :: "database \<Rightarrow> (nat \<times> event_row) list" where
  "missing_events d = filter (\<lambda>(i, _). \<not> has_timeline i d) (lt_rows (db_events d))"

lemma db_initialize_eq:
  "db_initialize d = set_metadata ''schema_version'' (show_nat 6)
     (d\<lparr>db_timeline := backfill (missing_events d) (db_timeline d)\<rparr>)"
  by (simp add: db_initialize_def missing_events_def has_timeline_def list_ex_iff case_prod_beta Let_def)

lemma set_metadata_tables [simp]:
  "db_timeline (set_metadata k v d) = db_timeline d" "db_events (set_metadata k v d) = db_events d"
  by (simp_all add: set_metadata_def)

text \<open>
  Opening the database completes the timeline and is idempotent, but it also resurrects: after
  opening, every stored detection has a timeline entry, opening again changes neither history, and
  a detection whose timeline entry had been pruned comes back as a new entry with a number above
  all earlier ones, so it reappears as the newest event.
\<close>

theorem reopening_completes_timeline:
  assumes "history_ok d" "(i, r) \<in> set (lt_rows (db_events d))"
  shows "has_timeline i (db_initialize d)
    \<and> db_timeline (db_initialize (db_initialize d)) = db_timeline (db_initialize d)
    \<and> (\<not> has_timeline i d \<longrightarrow> (\<exists>j t. (j, t) \<in> set (lt_rows (db_timeline (db_initialize d)))
        \<and> te_correlation_id (tr_event t) = event_correlation i
        \<and> (\<forall>k \<in> fst ` set (lt_rows (db_timeline d)). k < j)))"
proof -
  have rows: "lt_rows (db_timeline (db_initialize d)) = lt_rows (db_timeline d) @
      map (\<lambda>(n, row). (Suc (lt_sequence (db_timeline d) + n), \<lparr>tr_owner = er_owner (snd row),
        tr_severity = er_severity (snd row), tr_event = backfill_event row\<rparr>)) (enumerate 0 (missing_events d))"
    by (simp add: db_initialize_eq backfill_rows)
  have bound: "k \<le> lt_sequence (db_timeline d)" if "k \<in> fst ` set (lt_rows (db_timeline d))" for k
    using assms(1) that by (auto simp: history_ok_def log_rows_ok_def log_ok_def)
  have new: "\<exists>j t. (j, t) \<in> set (lt_rows (db_timeline (db_initialize d)))
        \<and> te_correlation_id (tr_event t) = event_correlation k
        \<and> (\<forall>l \<in> fst ` set (lt_rows (db_timeline d)). l < j)"
    if k: "(k, s) \<in> set (lt_rows (db_events d))" "\<not> has_timeline k d" for k s
  proof -
    from k have "(k, s) \<in> set (missing_events d)" by (simp add: missing_events_def)
    then have "(k, s) \<in> snd ` set (enumerate 0 (missing_events d))"
      by (simp flip: set_map)
    then obtain n where n: "(n, k, s) \<in> set (enumerate 0 (missing_events d))" by auto
    let ?t = "\<lparr>tr_owner = er_owner s, tr_severity = er_severity s, tr_event = backfill_event (k, s)\<rparr>"
    have "(Suc (lt_sequence (db_timeline d) + n), ?t) \<in> set (lt_rows (db_timeline (db_initialize d)))"
      using n by (force simp: rows)
    moreover have "te_correlation_id (tr_event ?t) = event_correlation k"
      by (simp add: backfill_event_def Let_def)
    ultimately show ?thesis using bound by (intro exI conjI) (assumption+, fastforce simp: less_Suc_eq_le trans_le_add1)
  qed
  have all: "has_timeline k (db_initialize d)" if k: "(k, s) \<in> set (lt_rows (db_events d))" for k s
  proof (cases "has_timeline k d")
    case True
    then show ?thesis by (auto simp: has_timeline_def rows)
  next
    case False
    with new [OF k] show ?thesis unfolding has_timeline_def by fast
  qed
  then have "missing_events (db_initialize d) = []"
    by (auto simp: missing_events_def filter_empty_conv db_initialize_eq)
  then have "db_timeline (db_initialize (db_initialize d)) = db_timeline (db_initialize d)"
    by (simp add: db_initialize_eq [of "db_initialize d"])
  with all [OF assms(2)] new [OF assms(2)] show ?thesis by blast
qed

theorem reopening_completes_timeline_witness:
  "has_timeline 1 (db_initialize (snd (prune_event_history 3 2 sample_db)))
   \<and> \<not> has_timeline 1 (snd (prune_event_history 3 2 sample_db))"
proof -
  let ?d = "snd (prune_event_history 3 2 sample_db)"
  have "list_ex (\<lambda>(i, _). i = 1) (lt_rows (db_events ?d))" by code_simp
  then obtain r where "(1, r) \<in> set (lt_rows (db_events ?d))" by (auto simp: list_ex_iff)
  moreover have "\<not> has_timeline 1 ?d" unfolding has_timeline_def by code_simp
  ultimately show ?thesis
    using reopening_completes_timeline [OF history_ok_prune [OF history_ok_sample]] by blast
qed

section \<open>Older schemas\<close>

text \<open>
  A database of an earlier version: its table of executables was keyed by the identity alone, with the
  owner as a column, and its scan results had no column for capabilities.
\<close>

datatype seen_table =
    KeyedByIdentity "(string \<times> string \<times> seen_row) list"
  | KeyedByOwner "((string \<times> string) \<times> seen_row) list"

text \<open>\<^verbatim>\<open>INSERT OR IGNORE\<close>: a row that violates the key or the bound of the score is left out.\<close>

fun copy_seen :: "string \<times> string \<times> seen_row \<Rightarrow> ((string \<times> string) \<times> seen_row) list
    \<Rightarrow> ((string \<times> string) \<times> seen_row) list" where
  "copy_seen (identity, owner, row) t =
     (if (owner, identity) \<in> set (map fst t) \<or> 100 < sw_row_risk_score row then t
      else t @ [((owner, identity), row)])"

fun migrate_seen_executables :: "seen_table \<Rightarrow> ((string \<times> string) \<times> seen_row) list" where
  "migrate_seen_executables (KeyedByIdentity rows) = fold copy_seen rows []"
| "migrate_seen_executables (KeyedByOwner t) = t"

definition migrate_scan_capabilities ::
  "bool \<Rightarrow> (string \<times> scan_finding) log_table \<Rightarrow> (string \<times> scan_finding) log_table" where
  "migrate_scan_capabilities has_column t =
     (if has_column then t
      else t\<lparr>lt_rows := map (\<lambda>(i, owner, f). (i, owner, f\<lparr>sf_capabilities := []\<rparr>)) (lt_rows t)\<rparr>)"

text \<open>\<open>d\<close> holds the tables that have not changed; the migrations run before the timeline is completed.\<close>

definition db_upgrade :: "seen_table \<Rightarrow> bool \<Rightarrow> database \<Rightarrow> database" where
  "db_upgrade seen has_column d =
     db_initialize (d\<lparr>db_seen := migrate_seen_executables seen,
       db_scans := migrate_scan_capabilities has_column (db_scans d)\<rparr>)"

lemma copied_rows:
  assumes "distinct (map fst rows)" "\<forall>(i, owner, row) \<in> set rows. sw_row_risk_score row \<le> 100"
    and "\<forall>i \<in> fst ` set rows. \<forall>owner. (owner, i) \<notin> fst ` set t"
  shows "fold copy_seen rows t = t @ map (\<lambda>(i, owner, row). ((owner, i), row)) rows"
  using assms
proof (induction rows arbitrary: t)
  case (Cons r rows)
  obtain i owner row where r: "r = (i, owner, row)" by (cases r) auto
  have "copy_seen r t = t @ [((owner, i), row)]" using Cons.prems by (auto simp: r not_less)
  moreover have "\<forall>j \<in> fst ` set rows. \<forall>o1. (o1, j) \<notin> fst ` set (t @ [((owner, i), row)])"
    using Cons.prems by (auto simp: r)
  ultimately show ?case using Cons by (auto simp: r)
qed simp

text \<open>
  Upgrading an older database keeps every recorded executable, now found under its owner and its
  identity, with the date of its first sighting, and the keys of the new table are unique.
\<close>

lemma upgrade_keeps_executables:
  assumes "distinct (map fst rows)" "\<forall>(i, owner, row) \<in> set rows. sw_row_risk_score row \<le> 100"
  shows "set (db_seen (db_upgrade (KeyedByIdentity rows) c d)) = (\<lambda>(i, owner, row). ((owner, i), row)) ` set rows
    \<and> distinct (map fst (db_seen (db_upgrade (KeyedByIdentity rows) c d)))"
proof -
  have "db_seen (db_upgrade (KeyedByIdentity rows) c d) = map (\<lambda>(i, owner, row). ((owner, i), row)) rows"
    using copied_rows [OF assms, of "[]"] by (simp add: db_upgrade_def db_initialize_def Let_def set_metadata_def)
  moreover have "distinct (map (\<lambda>(i, owner, row). (owner, i)) rows)"
    using assms(1) by (induction rows) force+
  moreover have "map fst (map (\<lambda>(i, owner, row). ((owner, i), row)) rows) = map (\<lambda>(i, owner, row). (owner, i)) rows"
    by (simp add: case_prod_beta)
  ultimately show ?thesis by (metis list.set_map)
qed

end
