(* ===== verification/OG_Records.thy ===== *)
theory OG_Records
  imports OG_Storage
begin

text \<open>
  What the other tables of the database (\<^verbatim>\<open>openguard-storage/src/lib.rs\<close>) guarantee: user policy is
  scoped to its owner, rollbacks and quarantines are restored once, the executable baseline keeps
  the first sighting, and the persistence inventory follows what was collected.
\<close>

section \<open>User policy\<close>

definition get_exclusion :: "database \<Rightarrow> string \<Rightarrow> string \<Rightarrow> exclusion_record option" where
  "get_exclusion d o1 k = map_of (db_exclusions d) (o1, k)"

definition get_hash :: "database \<Rightarrow> string \<Rightarrow> string \<Rightarrow> allowed_hash_record option" where
  "get_hash d o1 k = map_of (db_hashes d) (o1, k)"

text \<open>Adding under a key that is not the one of the record does not happen: the key is its digest.\<close>

definition put_hash :: "string \<Rightarrow> string \<Rightarrow> allowed_hash_record \<Rightarrow> database \<Rightarrow> database" where
  "put_hash o1 k r d = d\<lparr>db_hashes := keyed_put o1 k r (db_hashes d)\<rparr>"

definition policy_ok :: "database \<Rightarrow> bool" where
  "policy_ok d \<longleftrightarrow> keyed_ok (db_exclusions d) \<and> keyed_ok (db_hashes d)"

interpretation exclusions: owner_table get_exclusion add_exclusion remove_exclusion policy_ok
  by unfold_locales
    (auto simp: get_exclusion_def add_exclusion_def remove_exclusion_def policy_ok_def case_prod_beta
      Let_def keyed_laws)

interpretation hashes: owner_table get_hash put_hash db_remove_allowed_hash policy_ok
  by unfold_locales
    (auto simp: get_hash_def put_hash_def db_remove_allowed_hash_def policy_ok_def case_prod_beta
      Let_def keyed_laws)

lemma db_allow_hash_put: "db_allow_hash o1 r = put_hash o1 (ah_sha256 r) r"
  by (rule ext) (simp add: db_allow_hash_def put_hash_def)

lemma allowed_hash_get: "allowed_hash o1 h d = map_option ah_label (get_hash d o1 h)"
  by (simp add: allowed_hash_def get_hash_def)

lemma path_excluded_iff:
  assumes "policy_ok d"
  shows "path_excluded o1 candidate d \<longleftrightarrow>
    (\<exists>key r. get_exclusion d o1 key = Some r
       \<and> (candidate = key \<or> ex_recursive r \<and> (\<exists>rest. candidate = key @ [backslash] @ rest)))"
proof -
  have "get_exclusion d o1 key = Some r \<longleftrightarrow> ((o1, key), r) \<in> set (db_exclusions d)" for key r
    using assms by (auto simp: get_exclusion_def policy_ok_def keyed_ok_def intro: map_of_eq_Some_iff)
  note lookup = this
  let ?m = "\<lambda>key r. candidate = key \<or> ex_recursive r \<and> (\<exists>rest. candidate = key @ [backslash] @ rest)"
  have m: "(candidate = key \<or> recursive \<and> (case strip_prefix candidate key of
      None \<Rightarrow> False | Some suffix \<Rightarrow> starts_with suffix [backslash]))
    \<longleftrightarrow> candidate = key \<or> recursive \<and> (\<exists>rest. candidate = key @ [backslash] @ rest)" for key recursive
    by (auto simp: strip_prefix_Some_iff starts_with_prefix strip_prefix_def split: option.splits)
  have "path_excluded o1 candidate d \<longleftrightarrow>
      (\<exists>key r. ((o1, key), r) \<in> set (db_exclusions d) \<and> ?m key r)"
    unfolding path_excluded_def list_ex_iff
    by (simp only: set_map set_filter bex_simps case_prod_beta m fst_conv snd_conv) auto
  then show ?thesis unfolding lookup .
qed

datatype policy_op = AddExclusion string string exclusion_record | RemoveExclusion string string
  | AllowHash string allowed_hash_record | RemoveHash string string

fun policy_owner :: "policy_op \<Rightarrow> string" where
  "policy_owner (AddExclusion o1 k r) = o1"
| "policy_owner (RemoveExclusion o1 k) = o1"
| "policy_owner (AllowHash o1 r) = o1"
| "policy_owner (RemoveHash o1 h) = o1"

fun policy_step :: "policy_op \<Rightarrow> database \<Rightarrow> database" where
  "policy_step (AddExclusion o1 k r) d = add_exclusion o1 k r d"
| "policy_step (RemoveExclusion o1 k) d = snd (remove_exclusion o1 k d)"
| "policy_step (AllowHash o1 r) d = db_allow_hash o1 r d"
| "policy_step (RemoveHash o1 h) d = snd (db_remove_allowed_hash o1 h d)"

lemma other_table [simp]:
  "get_hash (add_exclusion o1 k r d) o2 h = get_hash d o2 h"
  "get_hash (snd (remove_exclusion o1 k d)) o2 h = get_hash d o2 h"
  "get_exclusion (put_hash o1 h a d) o2 k = get_exclusion d o2 k"
  "get_exclusion (snd (db_remove_allowed_hash o1 h d)) o2 k = get_exclusion d o2 k"
  by (simp_all add: get_hash_def get_exclusion_def add_exclusion_def remove_exclusion_def put_hash_def
      db_remove_allowed_hash_def case_prod_beta Let_def)

lemma policy_step_isolated:
  assumes "policy_ok d" "policy_owner op \<noteq> o2"
  shows "policy_ok (policy_step op d)" "get_hash (policy_step op d) o2 h = get_hash d o2 h"
    "get_exclusion (policy_step op d) o2 k = get_exclusion d o2 k"
  using assms
  by (cases op; simp add: db_allow_hash_put exclusions.ok_put exclusions.ok_del hashes.ok_put hashes.ok_del
      exclusions.put_isolated exclusions.del_isolated hashes.put_isolated hashes.del_isolated)+

text \<open>
  User policy is private to its owner.  Whatever other users add or remove, in any order, the
  allowed hashes of a user and the decision whether one of the user's paths is excluded stay the
  same.
\<close>

theorem policy_is_owner_scoped:
  assumes "policy_ok d" "\<forall>op \<in> set ops. policy_owner op \<noteq> user"
  shows "allowed_hash user sha256 (fold policy_step ops d) = allowed_hash user sha256 d
    \<and> path_excluded user candidate (fold policy_step ops d) = path_excluded user candidate d"
proof -
  have "policy_ok (fold policy_step ops d) \<and> (\<forall>h. get_hash (fold policy_step ops d) user h = get_hash d user h)
      \<and> (\<forall>k. get_exclusion (fold policy_step ops d) user k = get_exclusion d user k)"
    using assms by (induction ops arbitrary: d) (auto simp: policy_step_isolated)
  then show ?thesis
    using assms(1) by (simp add: allowed_hash_get path_excluded_iff)
qed

definition sample_policy :: database where
  "sample_policy = add_exclusion ''u'' ''c:'' \<lparr>ex_path = ''C:'', ex_recursive = True, ex_created_at = []\<rparr> db_empty"

theorem policy_is_owner_scoped_witness:
  "path_excluded ''u'' (''c:'' @ [backslash] @ ''x'') (fold policy_step
     [RemoveExclusion ''v'' ''c:'', AllowHash ''v'' \<lparr>ah_sha256 = ''h'', ah_label = [], ah_created_at = []\<rparr>] sample_policy)
   \<and> allowed_hash ''u'' ''h'' (fold policy_step
     [RemoveExclusion ''v'' ''c:'', AllowHash ''v'' \<lparr>ah_sha256 = ''h'', ah_label = [], ah_created_at = []\<rparr>] sample_policy) = None"
proof -
  let ?ops = "[RemoveExclusion ''v'' ''c:'', AllowHash ''v'' \<lparr>ah_sha256 = ''h'', ah_label = [], ah_created_at = []\<rparr>]"
  have "policy_ok sample_policy"
    unfolding sample_policy_def
    by (rule exclusions.ok_put) (simp add: policy_ok_def keyed_ok_def db_empty_def)
  moreover have "\<forall>op \<in> set ?ops. policy_owner op \<noteq> ''u''" by simp
  moreover have "path_excluded ''u'' (''c:'' @ [backslash] @ ''x'') sample_policy"
    "allowed_hash ''u'' ''h'' sample_policy = None"
    by code_simp+
  ultimately show ?thesis using policy_is_owner_scoped by metis
qed

section \<open>Rollbacks and quarantines\<close>

definition rollbacks_ok :: "database \<Rightarrow> bool" where
  "rollbacks_ok d \<longleftrightarrow> distinct (map fst (db_rollbacks d)) \<and> distinct (map fst (db_quarantines d))"

lemma length_filter_unique:
  "distinct (map fst xs) \<Longrightarrow> (\<forall>x \<in> set xs. p x \<longrightarrow> fst x = k) \<Longrightarrow>
     length (filter p xs) = (if \<exists>x \<in> set xs. p x then 1 else 0)"
proof (induction xs)
  case (Cons x xs)
  show ?case
  proof (cases "p x")
    case True
    then have "\<forall>y \<in> set xs. \<not> p y" using Cons.prems by (auto simp: rev_image_eqI)
    then have "filter p xs = []" by (simp add: filter_empty_conv)
    with True show ?thesis by simp
  next
    case False
    with Cons show ?thesis by auto
  qed
qed simp

lemma rollbacks_ok_record:
  "rollbacks_ok d \<Longrightarrow> rollbacks_ok (snd (record_response_rollback o1 r d))"
  "rollbacks_ok d \<Longrightarrow> rollbacks_ok (snd (record_quarantine o1 q path d))"
  by (auto simp: rollbacks_ok_def record_response_rollback_def record_quarantine_def)

lemma find_rollback_iff:
  "find_rollback o1 i d = None \<longleftrightarrow>
     \<not> (\<exists>x \<in> set (db_rollbacks d). case x of (j, o2, r) \<Rightarrow> o2 = o1 \<and> j = i \<and> rb_restored_at r = None)"
proof -
  have "find_rollback o1 i d = None \<longleftrightarrow>
      find (\<lambda>(j, o2, r). o2 = o1 \<and> j = i \<and> rb_restored_at r = None) (db_rollbacks d) = None"
    by (simp add: find_rollback_def split: option.splits)
  then show ?thesis by (auto simp: find_None_iff)
qed

lemma mark_response_result:
  assumes "rollbacks_ok d"
  shows "fst (mark_response_restored o1 i now d) \<longleftrightarrow> find_rollback o1 i d \<noteq> None"
proof -
  let ?p = "\<lambda>(j, o2, r). o2 = o1 \<and> j = i \<and> rb_restored_at r = None"
  have "length (filter ?p (db_rollbacks d)) = (if \<exists>x \<in> set (db_rollbacks d). ?p x then 1 else 0)"
    using assms by (intro length_filter_unique [where k = i]) (auto simp: rollbacks_ok_def)
  then show ?thesis
    unfolding find_rollback_iff by (simp add: mark_response_restored_def Let_def)
qed

lemma mark_response_find:
  "find_rollback o1 i (snd (mark_response_restored o1 i now d)) = None"
  by (auto simp: find_rollback_iff mark_response_restored_def Let_def split: if_splits)

lemma find_map_same:
  "(\<And>x. x \<in> set xs \<Longrightarrow> p (f x) = p x) \<Longrightarrow> (\<And>x. x \<in> set xs \<Longrightarrow> p x \<Longrightarrow> f x = x) \<Longrightarrow> find p (map f xs) = find p xs"
  by (induction xs) auto

lemma mark_response_others:
  "(o2, j) \<noteq> (o1, i) \<Longrightarrow> find_rollback o2 j (snd (mark_response_restored o1 i now d)) = find_rollback o2 j d"
  unfolding find_rollback_def mark_response_restored_def Let_def
  by (simp, subst find_map_same) auto

lemma mark_response_ok: "rollbacks_ok d \<Longrightarrow> rollbacks_ok (snd (mark_response_restored o1 i now d))"
  by (simp add: rollbacks_ok_def mark_response_restored_def Let_def comp_def case_prod_beta)

text \<open>
  A recorded rollback is available to its owner until it is marked restored, and it can be
  marked restored exactly once: a first mark succeeds precisely when the rollback was available,
  afterwards it is not, a second mark fails, and the rollbacks of other owners and with other
  identifiers are not touched.
\<close>

theorem rollback_restored_once:
  assumes "rollbacks_ok d"
  shows "(fst (mark_response_restored o1 i now d) \<longleftrightarrow> find_rollback o1 i d \<noteq> None)
    \<and> find_rollback o1 i (snd (mark_response_restored o1 i now d)) = None
    \<and> \<not> fst (mark_response_restored o1 i later (snd (mark_response_restored o1 i now d)))
    \<and> ((o2, j) \<noteq> (o1, i) \<longrightarrow>
        find_rollback o2 j (snd (mark_response_restored o1 i now d)) = find_rollback o2 j d)
    \<and> rollbacks_ok (snd (mark_response_restored o1 i now d))"
  using mark_response_result [OF assms] mark_response_result [OF mark_response_ok [OF assms]]
    mark_response_find mark_response_others mark_response_ok [OF assms]
  by simp

definition sample_rollback :: response_rollback where
  "sample_rollback = \<lparr>rb_id = ''r1'', rb_action = ''block_remote_address'', rb_target = ''1.2.3.4'',
     rb_payload = [], rb_created_at = [], rb_expires_at = None, rb_restored_at = None\<rparr>"

theorem rollback_restored_once_witness:
  "fst (mark_response_restored ''u'' ''r1'' ''t'' (snd (record_response_rollback ''u'' sample_rollback db_empty)))
   \<and> \<not> fst (mark_response_restored ''v'' ''r1'' ''t'' (snd (record_response_rollback ''u'' sample_rollback db_empty)))"
proof -
  let ?d = "snd (record_response_rollback ''u'' sample_rollback db_empty)"
  have ok: "rollbacks_ok ?d"
    by (rule rollbacks_ok_record) (simp add: rollbacks_ok_def db_empty_def)
  have "find_rollback ''u'' ''r1'' ?d \<noteq> None" "find_rollback ''v'' ''r1'' ?d = None" by code_simp+
  then show ?thesis using rollback_restored_once [OF ok] by blast
qed

section \<open>Executable baseline\<close>

lemma set_chunks: "0 < n \<Longrightarrow> \<Union> (set ` set (chunks n xs)) = set xs"
proof (induction n xs rule: chunks.induct)
  case (1 n xs)
  show ?case
  proof (cases "xs = []")
    case True
    then show ?thesis by (simp add: chunks.simps)
  next
    case False
    with 1 have "\<Union> (set ` set (chunks n (drop n xs))) = set (drop n xs)" by simp
    with False 1 show ?thesis
      by (subst chunks.simps) (simp flip: set_append)
  qed
qed

lemma known_identities_eq:
  "known_executable_identities o1 ids d = {i \<in> set ids. i \<noteq> [] \<and> (o1, i) \<in> fst ` set (db_seen d)}"
proof -
  let ?hit = "\<lambda>chunk. set (map (snd \<circ> fst) (filter (\<lambda>((o2, i), _). o2 = o1 \<and> i \<in> set chunk) (db_seen d)))"
  have "fold (\<lambda>chunk known. known \<union> ?hit chunk) cs k = k \<union> (\<Union>c \<in> set cs. ?hit c)" for cs k
    by (induction cs arbitrary: k) auto
  then have "known_executable_identities o1 ids d =
      (\<Union>c \<in> set (chunks 500 (remdups (filter (\<lambda>i. i \<noteq> []) ids))). ?hit c)"
    by (simp add: known_executable_identities_def Let_def)
  also have "\<dots> = {i \<in> \<Union> (set ` set (chunks 500 (remdups (filter (\<lambda>i. i \<noteq> []) ids)))). (o1, i) \<in> fst ` set (db_seen d)}"
    by (auto simp: image_iff case_prod_beta) force+
  finally show ?thesis by (auto simp: set_chunks)
qed

lemma upsert_executables_keys:
  "upsert_executables o1 xs d = Inr d' \<Longrightarrow>
     fst ` set (db_seen d') = fst ` set (db_seen d) \<union> Pair o1 ` sx_identity ` set xs"
  by (induction xs arbitrary: d)
    (auto simp: result_iffs upsert_executable_def Let_def dom_update split: if_splits)

lemma upsert_executables_first:
  "upsert_executables o1 xs d = Inr d' \<Longrightarrow> map_of (db_seen d) k = Some row \<Longrightarrow>
     \<exists>row'. map_of (db_seen d') k = Some row' \<and> sw_row_first_seen row' = sw_row_first_seen row"
proof (induction xs arbitrary: d row)
  case (Cons x xs)
  from Cons.prems(1) obtain e where e: "upsert_executable o1 x d = Inr e" "upsert_executables o1 xs e = Inr d'"
    by (auto simp: result_iffs)
  from e(1) Cons.prems(2) obtain row1 where "map_of (db_seen e) k = Some row1"
    "sw_row_first_seen row1 = sw_row_first_seen row"
    by (cases "k = (o1, sx_identity x)") (auto simp: upsert_executable_def Let_def update_conv' split: if_splits)
  with Cons.IH [OF e(2)] show ?case by metis
qed simp

text \<open>
  The executable baseline learns every observation and forgets nothing: when a batch commits,
  exactly the identities known before and the non-empty identities of the batch are known, in
  whatever number they are queried, and an executable that was known keeps its first sighting; a
  batch that does not commit leaves the database as it was.
\<close>

theorem baseline_learns_batch:
  assumes "record_executables owner batch d = (result, d')"
  shows "(result = Inr () \<longrightarrow>
        known_executable_identities owner ids d' = known_executable_identities owner ids d
          \<union> {i \<in> set ids. i \<noteq> [] \<and> i \<in> sx_identity ` set batch}
        \<and> (\<forall>k row. map_of (db_seen d) k = Some row \<longrightarrow>
            (\<exists>row'. map_of (db_seen d') k = Some row' \<and> sw_row_first_seen row' = sw_row_first_seen row)))
    \<and> (result \<noteq> Inr () \<longrightarrow> d' = d \<and> (\<exists>x \<in> set batch. 100 < sx_risk_score x))"
proof -
  have fail: "\<exists>x \<in> set xs. 100 < sx_risk_score x" if "upsert_executables owner xs d = Inl e" for xs d e
    using that by (induction xs arbitrary: d) (auto simp: result_iffs upsert_executable_def split: if_splits)
  show ?thesis
  proof (cases "upsert_executables owner (filter (\<lambda>x. sx_identity x \<noteq> []) batch) d")
    case (Inl e)
    with assms fail [OF Inl] show ?thesis by (auto simp: record_executables_def)
  next
    case (Inr e)
    with assms have "result = Inr ()" "d' = e" by (auto simp: record_executables_def)
    with upsert_executables_keys [OF Inr] upsert_executables_first [OF Inr] show ?thesis
      by (auto simp: known_identities_eq)
  qed
qed

definition sample_batch :: "seen_executable list" where
  "sample_batch = [\<lparr>sx_identity = ''a'', sx_path = [], sx_name = [], sx_signature = ''trusted'',
     sx_risk_score = 9, sx_observed_at = ''t''\<rparr>]"

theorem baseline_learns_batch_witness:
  "known_executable_identities ''u'' [''a'', ''b''] (snd (record_executables ''u'' sample_batch db_empty)) = {''a''}"
proof -
  have f: "fst (record_executables ''u'' sample_batch db_empty) = Inr ()" by code_simp
  have p: "record_executables ''u'' sample_batch db_empty
      = (Inr (), snd (record_executables ''u'' sample_batch db_empty))"
    by (simp add: prod_eq_iff f)
  have "known_executable_identities ''u'' [''a'', ''b''] db_empty = {}"
    by (simp add: known_identities_eq db_empty_def)
  with baseline_learns_batch [OF p, of "[''a'', ''b'']"] show ?thesis
    by (auto simp: sample_batch_def)
qed

section \<open>Persistence inventory\<close>

definition persistence_ok :: "database \<Rightarrow> bool" where
  "persistence_ok d \<longleftrightarrow> distinct (map fst (db_persistence d))
     \<and> (\<forall>row \<in> snd ` set (db_persistence d). pw_risk row = severity_display (pi_risk (pw_item row)))"

lemma persistence_upsert:
  "db_persistence (upsert_persistence o1 now item d) = AList.update (o1, pi_id item)
     \<lparr>pw_item = item, pw_risk = severity_display (pi_risk item),
      pw_first_seen = (case map_of (db_persistence d) (o1, pi_id item) of None \<Rightarrow> now | Some row \<Rightarrow> pw_first_seen row),
      pw_last_seen = now, pw_active = True\<rparr> (db_persistence d)"
  by (simp add: upsert_persistence_def Let_def)

definition fresh_row :: "string \<Rightarrow> persistence_item \<Rightarrow> persistence_row \<Rightarrow> bool" where
  "fresh_row now item row \<longleftrightarrow> pw_item row = item \<and> pw_risk row = severity_display (pi_risk item)
     \<and> pw_last_seen row = now \<and> pw_active row"

lemma sync_items_other:
  "k \<notin> Pair o1 ` pi_id ` set items \<Longrightarrow>
     map_of (db_persistence (snd (sync_items o1 now ex items d))) k = map_of (db_persistence d) k"
  by (induction items arbitrary: d) (auto simp: Let_def case_prod_beta persistence_upsert update_conv')

lemma sync_items_fresh:
  "distinct (map pi_id items) \<Longrightarrow> item \<in> set items \<Longrightarrow>
     \<exists>row. map_of (db_persistence (snd (sync_items o1 now ex items d))) (o1, pi_id item) = Some row
       \<and> fresh_row now item row"
proof (induction items arbitrary: d)
  case (Cons x items)
  show ?case
  proof (cases "item = x")
    case True
    with Cons.prems have "(o1, pi_id item) \<notin> Pair o1 ` pi_id ` set items" by auto
    with True show ?thesis
      by (simp add: Let_def case_prod_beta sync_items_other persistence_upsert update_conv' fresh_row_def)
  next
    case False
    with Cons show ?thesis by (simp add: Let_def case_prod_beta)
  qed
qed simp

lemma sync_items_changes:
  "fst (sync_items o1 now ex items d) =
     map (\<lambda>item. item_event now item (the (item_change (ex (pi_id item)) item)))
       (filter (\<lambda>item. item_change (ex (pi_id item)) item \<noteq> None) items)"
  by (induction items arbitrary: d) (auto simp: Let_def case_prod_beta split: option.splits)

definition deactivated :: "string \<Rightarrow> persistence_row \<Rightarrow> persistence_row" where
  "deactivated now row = row\<lparr>pw_active := False, pw_last_seen := now\<rparr>"

lemma deactivated_idem: "deactivated now (deactivated now row) = deactivated now row"
  by (simp add: deactivated_def)

lemma sync_removed_lookup:
  "map_of (db_persistence (snd (sync_removed o1 now act rows d))) (o2, j) =
     (if o2 = o1 \<and> j \<notin> act \<and> (\<exists>row. (j, row) \<in> set rows \<and> pw_active row)
      then map_option (deactivated now) (map_of (db_persistence d) (o2, j))
      else map_of (db_persistence d) (o2, j))"
proof (induction rows arbitrary: d)
  case (Cons x rows)
  obtain i row where x: "x = (i, row)" by (cases x)
  show ?case
  proof (cases "pw_active row \<and> i \<notin> act")
    case True
    with Cons x show ?thesis
      by (auto simp: Let_def case_prod_beta update_conv' deactivated_def [symmetric] deactivated_idem
          option.map_comp comp_def split: option.splits)
  next
    case False
    with Cons x show ?thesis by auto
  qed
qed simp

lemma sync_removed_changes:
  "fst (sync_removed o1 now act rows d) =
     map (\<lambda>(i, _). persistence_event i now (''removed'', Info, ''Persistence entry removed'') i [])
       (filter (\<lambda>(i, row). pw_active row \<and> i \<notin> act) rows)"
  by (induction rows arbitrary: d) (auto simp: Let_def case_prod_beta)

lemma insert_timelines_persistence [simp]: "db_persistence (insert_timelines o1 es d) = db_persistence d"
  by (induction es arbitrary: d) (auto simp: insert_timeline_simps)

lemma existing_rows_lookup: "map_of (existing_rows o1 d) j = map_of (db_persistence d) (o1, j)"
proof -
  have "map_of (map (\<lambda>((_, i), row). (i, row)) (filter (\<lambda>((o2, _), _). o2 = o1) t)) j = map_of t (o1, j)"
    for t :: "((string \<times> string) \<times> persistence_row) list"
    by (induction t) auto
  then show ?thesis by (simp add: existing_rows_def)
qed

lemma existing_rows_mem: "(j, row) \<in> set (existing_rows o1 d) \<longleftrightarrow> ((o1, j), row) \<in> set (db_persistence d)"
  by (force simp: existing_rows_def)

text \<open>The table after a synchronisation, and the changes it reports.\<close>

lemma sync_table:
  assumes "persistence_ok d" "distinct (map pi_id items)" "\<And>xs. set (iter xs) = set xs"
    and "sync_persistence_inventory iter o1 items now d = (changes, d')"
  shows "o2 \<noteq> o1 \<Longrightarrow> map_of (db_persistence d') (o2, j) = map_of (db_persistence d) (o2, j)"
    and "item \<in> set items \<Longrightarrow> \<exists>row. map_of (db_persistence d') (o1, pi_id item) = Some row \<and> fresh_row now item row"
    and "j \<notin> pi_id ` set items \<Longrightarrow> map_of (db_persistence d') (o1, j) = Some row \<Longrightarrow> \<not> pw_active row"
proof -
  let ?items = "sync_items o1 now (map_of (existing_rows o1 d)) items d"
  let ?removed = "sync_removed o1 now (set (map pi_id items)) (iter (existing_rows o1 d)) (snd ?items)"
  have table: "db_persistence d' = db_persistence (snd ?removed)"
    using assms(4) by (auto simp: sync_persistence_inventory_def Let_def case_prod_beta)
  note look = sync_removed_lookup [of o1 now "pi_id ` set items" "iter (existing_rows o1 d)" "snd ?items"]
  show "map_of (db_persistence d') (o2, j) = map_of (db_persistence d) (o2, j)" if "o2 \<noteq> o1"
    using that by (simp add: table look sync_items_other image_iff)
  show "\<exists>row. map_of (db_persistence d') (o1, pi_id item) = Some row \<and> fresh_row now item row" if "item \<in> set items"
    using sync_items_fresh [OF assms(2) that] that by (simp add: table look)
  show "\<not> pw_active row" if j: "j \<notin> pi_id ` set items" and r: "map_of (db_persistence d') (o1, j) = Some row"
  proof (cases "\<exists>row. (j, row) \<in> set (existing_rows o1 d) \<and> pw_active row")
    case True
    with j r show ?thesis by (auto simp: table look assms(3) deactivated_def)
  next
    case False
    have "map_of (db_persistence d) (o1, j) = Some row"
      using j r False by (simp add: table look assms(3) sync_items_other image_iff)
    then have "(j, row) \<in> set (existing_rows o1 d)"
      by (simp add: existing_rows_mem map_of_SomeD)
    with False show ?thesis by blast
  qed
qed

lemma sync_distinct:
  "distinct (map fst (db_persistence d)) \<Longrightarrow>
     distinct (map fst (db_persistence (snd (sync_persistence_inventory iter o1 items now d))))"
proof -
  have a: "distinct (map fst (db_persistence (snd (sync_items o1 now ex items d))))"
    if "distinct (map fst (db_persistence d))" for ex d
    using that by (induction items arbitrary: d) (auto simp: Let_def case_prod_beta persistence_upsert distinct_update)
  have b: "distinct (map fst (db_persistence (snd (sync_removed o1 now act rows d))))"
    if "distinct (map fst (db_persistence d))" for act rows d
    using that
    by (induction rows arbitrary: d) (auto simp: Let_def case_prod_beta distinct_update split: option.splits)
  show "distinct (map fst (db_persistence d)) \<Longrightarrow> ?thesis"
    by (simp add: sync_persistence_inventory_def Let_def case_prod_beta a b)
qed

lemma sync_changes:
  "fst (sync_persistence_inventory iter o1 items now d) =
     map (\<lambda>item. item_event now item (the (item_change (map_of (db_persistence d) (o1, pi_id item)) item)))
       (filter (\<lambda>item. item_change (map_of (db_persistence d) (o1, pi_id item)) item \<noteq> None) items)
     @ map (\<lambda>(i, _). persistence_event i now (''removed'', Info, ''Persistence entry removed'') i [])
       (filter (\<lambda>(i, row). pw_active row \<and> i \<notin> pi_id ` set items) (iter (existing_rows o1 d)))"
  by (simp add: sync_persistence_inventory_def Let_def case_prod_beta sync_items_changes sync_removed_changes
      existing_rows_lookup [abs_def])

text \<open>
  The persistence inventory is what was collected last.  After synchronising a collection with
  distinct identifiers, an owner's lookup finds exactly the collected items, stamped with the time
  of the collection; other owners' rows are untouched; and synchronising the same collection again
  reports no change, whatever the order in which the hash map lists the stored rows.
\<close>

theorem persistence_sync_tracks_collection:
  assumes "persistence_ok d" "distinct (map pi_id items)" "\<And>xs. set (iter xs) = set xs"
    and "sync_persistence_inventory iter owner items now d = (changes, d')"
  shows "persistence_lookup owner j d' =
      Inr (map_option (\<lambda>item. item\<lparr>pi_detected_at := now\<rparr>) (find (\<lambda>item. pi_id item = j) items))
    \<and> (other \<noteq> owner \<longrightarrow> persistence_lookup other j d' = persistence_lookup other j d)
    \<and> fst (sync_persistence_inventory iter owner items later d') = []"
proof (intro conjI impI)
  note table = sync_table [OF assms]
  show "persistence_lookup other j d' = persistence_lookup other j d" if "other \<noteq> owner"
    using table(1) [OF that] by (simp add: persistence_lookup_def)
  show "persistence_lookup owner j d' =
      Inr (map_option (\<lambda>item. item\<lparr>pi_detected_at := now\<rparr>) (find (\<lambda>item. pi_id item = j) items))"
  proof (cases "find (\<lambda>item. pi_id item = j) items")
    case None
    then have "j \<notin> pi_id ` set items" by (auto simp: find_None_iff)
    with None table(3) [of j] show ?thesis
      by (auto simp: persistence_lookup_def split: option.splits)
  next
    case (Some item)
    then have "item \<in> set items" "pi_id item = j" by (auto simp: find_Some_iff)
    with table(2) [of item] Some show ?thesis
      by (auto simp: persistence_lookup_def fresh_row_def read_severity_def)
  qed
  have same: "item_change (map_of (db_persistence d') (owner, pi_id item)) item = None" if "item \<in> set items" for item
    using table(2) [OF that] by (auto simp: item_change_def fresh_row_def)
  have d': "d' = snd (sync_persistence_inventory iter owner items now d)"
    by (simp add: assms(4))
  have dist: "distinct (map fst (db_persistence d'))"
    unfolding d' using assms(1) by (intro sync_distinct) (simp add: persistence_ok_def)
  have "\<not> (pw_active row \<and> i \<notin> pi_id ` set items)" if "(i, row) \<in> set (iter (existing_rows owner d'))" for i row
  proof -
    have "((owner, i), row) \<in> set (db_persistence d')"
      using that by (simp add: assms(3) existing_rows_mem)
    then have "map_of (db_persistence d') (owner, i) = Some row"
      using dist by (simp add: map_of_eq_Some_iff)
    with table(3) show ?thesis by blast
  qed
  with same show "fst (sync_persistence_inventory iter owner items later d') = []"
    by (auto simp: sync_changes filter_empty_conv)
qed

definition sample_item :: "string \<Rightarrow> persistence_item" where
  "sample_item i = \<lparr>pi_id = i, pi_category = ''run_key'', pi_name = i, pi_command = ''x.exe'', pi_location = [],
     pi_state = ''enabled'', pi_risk = Medium, pi_evidence = [], pi_detected_at = [], pi_response_capability = ''none''\<rparr>"

theorem persistence_sync_tracks_collection_witness:
  "map_option pi_detected_at (case persistence_lookup ''u'' ''b''
      (snd (sync_persistence_inventory id ''u'' [sample_item ''a'', sample_item ''b''] ''t1'' db_empty)) of Inr v \<Rightarrow> v)
    = Some ''t1''
   \<and> fst (sync_persistence_inventory id ''u'' [sample_item ''a'', sample_item ''b''] ''t2''
      (snd (sync_persistence_inventory id ''u'' [sample_item ''a'', sample_item ''b''] ''t1'' db_empty))) = []"
proof -
  let ?items = "[sample_item ''a'', sample_item ''b'']"
  let ?s = "sync_persistence_inventory id ''u'' ?items ''t1'' db_empty"
  have a: "persistence_ok db_empty" by (simp add: persistence_ok_def db_empty_def)
  have b: "distinct (map pi_id ?items)" by (simp add: sample_item_def)
  have c: "\<And>xs :: (string \<times> persistence_row) list. set (id xs) = set xs" by simp
  have d: "?s = (fst ?s, snd ?s)" by simp
  have f: "find (\<lambda>item. pi_id item = ''b'') ?items = Some (sample_item ''b'')" by (simp add: sample_item_def)
  show ?thesis
    using persistence_sync_tracks_collection [OF a b c d, of "''b''" "''v''" "''t2''"] f by simp
qed

end
