(* ===== verification/OG_Host.thy ===== *)
theory OG_Host
  imports OG_Storage
begin

text \<open>
  What the service's handlers act on: the files, the database and a client whose identity they
  borrow (\<^verbatim>\<open>openguard-service/src/main.rs\<close>).

  A handler that changes state is a function from the host to its result and the new host.  The
  environment decides the outcome of every call that can fail: the host carries the outcomes of the
  calls to come, one is used up by each call, and after the last one every call works.  A failed
  write says how many bytes it had written before.
\<close>

section \<open>The host\<close>

datatype outcome = Works | Fails string nat

record host =
  hs_files :: "string \<Rightarrow> bytes option"
  hs_outcomes :: "outcome list"
  hs_db :: database

record client_context =
  cc_sid :: string
  cc_process_id :: u32
  cc_token :: bool

definition take_outcome :: "host \<Rightarrow> outcome \<times> host" where
  "take_outcome s =
     (case hs_outcomes s of [] \<Rightarrow> (Works, s) | r # rs \<Rightarrow> (r, s\<lparr>hs_outcomes := rs\<rparr>))"

text \<open>The \<^verbatim>\<open>?\<close> operator and \<^verbatim>\<open>map_err\<close> on operations of a state.\<close>

definition run_then ::
  "('s \<Rightarrow> ('e + 'a) \<times> 's) \<Rightarrow> ('a \<Rightarrow> 's \<Rightarrow> ('e + 'b) \<times> 's) \<Rightarrow> 's \<Rightarrow> ('e + 'b) \<times> 's" where
  "run_then m f s = (case m s of (Inl e, s') \<Rightarrow> (Inl e, s') | (Inr a, s') \<Rightarrow> f a s')"

definition map_fail :: "('e \<Rightarrow> 'f) \<Rightarrow> ('s \<Rightarrow> ('e + 'a) \<times> 's) \<Rightarrow> 's \<Rightarrow> ('f + 'a) \<times> 's" where
  "map_fail g m s = (case m s of (r, s') \<Rightarrow> (map_err g r, s'))"

text \<open>\<^verbatim>\<open>let _ = \<dots>\<close>: the result is dropped.\<close>

definition ignoring :: "('s \<Rightarrow> 'r \<times> 's) \<Rightarrow> 's \<Rightarrow> 's" where
  "ignoring m s = snd (m s)"

text \<open>A call that only succeeds or fails.\<close>

definition plain_call :: "host \<Rightarrow> (string + unit) \<times> host" where
  "plain_call s = (case take_outcome s of (Works, s') \<Rightarrow> (Inr (), s') | (Fails e _, s') \<Rightarrow> (Inl e, s'))"

definition db_call ::
  "(database \<Rightarrow> (storage_error + 'a) \<times> database) \<Rightarrow> host \<Rightarrow> (storage_error + 'a) \<times> host" where
  "db_call f s =
     (case take_outcome s of
        (Fails e _, s') \<Rightarrow> (Inl (StorageDatabase e), s')
      | (Works, s') \<Rightarrow> (case f (hs_db s') of (r, d) \<Rightarrow> (r, s'\<lparr>hs_db := d\<rparr>)))"

section \<open>Files\<close>

text \<open>\<^verbatim>\<open>OpenOptions::new().create_new(true).write(true).open(path)\<close>.\<close>

definition create_new :: "string \<Rightarrow> host \<Rightarrow> (string + unit) \<times> host" where
  "create_new path s =
     (case take_outcome s of
        (Fails e _, s') \<Rightarrow> (Inl e, s')
      | (Works, s') \<Rightarrow>
          if hs_files s' path \<noteq> None then (Inl ''The file exists.'', s')
          else (Inr (), s'\<lparr>hs_files := (hs_files s')(path \<mapsto> [])\<rparr>))"

definition append_file :: "string \<Rightarrow> bytes \<Rightarrow> host \<Rightarrow> host" where
  "append_file path bs s =
     s\<lparr>hs_files := (hs_files s)(path := map_option (\<lambda>c. c @ bs) (hs_files s path))\<rparr>"

definition write_file :: "string \<Rightarrow> bytes \<Rightarrow> host \<Rightarrow> (string + unit) \<times> host" where
  "write_file path bs s =
     (case take_outcome s of
        (Fails e n, s') \<Rightarrow> (Inl e, append_file path (take n bs) s')
      | (Works, s') \<Rightarrow> (Inr (), append_file path bs s'))"

definition open_file :: "string \<Rightarrow> host \<Rightarrow> (string + bytes) \<times> host" where
  "open_file path s =
     (case take_outcome s of
        (Fails e _, s') \<Rightarrow> (Inl e, s')
      | (Works, s') \<Rightarrow>
          (case hs_files s' path of
             None \<Rightarrow> (Inl ''The system cannot find the file specified.'', s')
           | Some c \<Rightarrow> (Inr c, s')))"

definition remove_file :: "string \<Rightarrow> host \<Rightarrow> (string + unit) \<times> host" where
  "remove_file path s =
     (case take_outcome s of
        (Fails e _, s') \<Rightarrow> (Inl e, s')
      | (Works, s') \<Rightarrow>
          if hs_files s' path = None then (Inl ''The system cannot find the file specified.'', s')
          else (Inr (), s'\<lparr>hs_files := (hs_files s')(path := None)\<rparr>))"

section \<open>Client impersonation\<close>

text \<open>
  \<^verbatim>\<open>with_client_impersonation(token, op)?\<close> for an operation that itself returns a result: the guard
  reverts on every path, so only the failure to impersonate is visible.
\<close>

definition with_client_impersonation ::
  "client_context \<Rightarrow> (host \<Rightarrow> (string + 'a) \<times> host) \<Rightarrow> host \<Rightarrow> (string + 'a) \<times> host" where
  "with_client_impersonation client operation s =
     (if \<not> cc_token client then operation s
      else run_then (map_fail (\<lambda>e. ''impersonate authenticated client: '' @ e) plain_call)
             (\<lambda>_. operation) s)"

section \<open>Copying\<close>

text \<open>
  \<^verbatim>\<open>hash_copy(source, destination)\<close> is generic in the writer, and so is the model.  Each step is
  what one read returned; no bytes, or the end of the list, is the end of the source.
\<close>

datatype copy_step = CopyFails | CopyBytes bytes

fun hash_copy ::
  "(bytes \<Rightarrow> 's \<Rightarrow> (string + unit) \<times> 's) \<Rightarrow> copy_step list \<Rightarrow> bytes \<Rightarrow> 's \<Rightarrow> (string + bytes) \<times> 's" where
  "hash_copy put [] digest s = (Inr digest, s)"
| "hash_copy put (CopyFails # steps) digest s = (Inl ''read file payload'', s)"
| "hash_copy put (CopyBytes bs # steps) digest s =
     (if bs = [] then (Inr digest, s)
      else run_then (map_fail (\<lambda>_. ''write file payload'') (put bs))
             (\<lambda>_. hash_copy put steps (digest @ bs)) s)"

text \<open>What a reader delivers until the first failure or the end.\<close>

fun delivered :: "copy_step list \<Rightarrow> bytes option" where
  "delivered [] = Some []"
| "delivered (CopyFails # steps) = None"
| "delivered (CopyBytes bs # steps) =
     (if bs = [] then Some [] else map_option ((@) bs) (delivered steps))"

text \<open>
  The interface of a writer: it changes one observed content, a success appends exactly the given
  bytes, and everything \<open>frame\<close> reads is left alone.
\<close>

locale appending_writer =
  fixes put :: "bytes \<Rightarrow> 's \<Rightarrow> (string + unit) \<times> 's"
    and content :: "'s \<Rightarrow> bytes option"
    and frame :: "'s \<Rightarrow> 'f"
  assumes appends: "put bs s = (Inr u, s') \<Longrightarrow> content s' = map_option (\<lambda>c. c @ bs) (content s)"
    and keeps: "frame (snd (put bs s)) = frame s"
    and exists: "content (snd (put bs s)) = None \<longleftrightarrow> content s = None"
begin

lemma copy_step_cases:
  obtains (failed) e s' where "put bs s = (Inl e, s')" "frame s' = frame s"
      "content s' = None \<longleftrightarrow> content s = None"
  | (written) s' where "put bs s = (Inr (), s')" "frame s' = frame s"
      "content s' = map_option (\<lambda>c. c @ bs) (content s)"
proof (cases "put bs s")
  case (Pair r s')
  show thesis
  proof (cases r)
    case (Inl e)
    with Pair keeps [of bs s] exists [of bs s] show thesis by (intro failed [of e s']) auto
  next
    case (Inr u)
    with Pair keeps [of bs s] appends [of bs s u s'] show thesis by (intro written [of s']) auto
  qed
qed

lemma copy_effect:
  "frame (snd (hash_copy put steps d s)) = frame s
   \<and> (content (snd (hash_copy put steps d s)) = None \<longleftrightarrow> content s = None)
   \<and> (\<forall>d' s'. hash_copy put steps d s = (Inr d', s') \<longrightarrow>
        (\<exists>bs. delivered steps = Some bs \<and> d' = d @ bs
           \<and> content s' = map_option (\<lambda>c. c @ bs) (content s)))"
proof (induction steps arbitrary: d s)
  case Nil
  then show ?case by (simp add: option.map_ident)
next
  case (Cons step steps)
  show ?case
  proof (cases step)
    case CopyFails
    then show ?thesis by simp
  next
    case (CopyBytes bs)
    show ?thesis
    proof (cases "bs = []")
      case True
      with CopyBytes show ?thesis by (simp add: option.map_ident)
    next
      case False
      show ?thesis
      proof (cases rule: copy_step_cases [of bs s])
        case (failed e s')
        with CopyBytes False show ?thesis by (simp add: run_then_def map_fail_def)
      next
        case (written s')
        have r: "hash_copy put (step # steps) d s = hash_copy put steps (d @ bs) s'"
          using CopyBytes False written by (simp add: run_then_def map_fail_def)
        from Cons.IH [of "d @ bs" s'] written CopyBytes False show ?thesis
          unfolding r by (auto simp: option.map_comp comp_def)
      qed
    qed
  qed
qed

lemmas copy_keeps = copy_effect [THEN conjunct1]
lemmas copy_exists = copy_effect [THEN conjunct2, THEN conjunct1]

lemma copy_success:
  assumes "hash_copy put steps d s = (Inr d', s')"
  obtains bs where "delivered steps = Some bs" "d' = d @ bs"
    "content s' = map_option (\<lambda>c. c @ bs) (content s)"
  using copy_effect [of steps d s] assms by blast

end

text \<open>Everything but one file: the other files and the database.\<close>

definition besides :: "string \<Rightarrow> host \<Rightarrow> (string \<Rightarrow> bytes option) \<times> database" where
  "besides path s = ((hs_files s)(path := None), hs_db s)"

lemma besides_iff:
  "besides p s = besides p t \<longleftrightarrow> (\<forall>q. q \<noteq> p \<longrightarrow> hs_files s q = hs_files t q) \<and> hs_db s = hs_db t"
  by (auto simp: besides_def fun_eq_iff)

lemma take_outcome_keeps:
  assumes "take_outcome s = (r, s')"
  shows "hs_files s' = hs_files s" "hs_db s' = hs_db s"
  using assms by (auto simp: take_outcome_def split: list.splits)

interpretation file_writer: appending_writer "write_file p" "\<lambda>s. hs_files s p" "besides p" for p
  by unfold_locales
    (auto simp: write_file_def append_file_def besides_def take_outcome_keeps
      split: prod.splits outcome.splits)

section \<open>Laws of the host operations\<close>

lemma create_new_laws:
  "besides p (snd (create_new p s)) = besides p s"
  "create_new p s = (Inr u, s') \<Longrightarrow> hs_files s p = None \<and> hs_files s' p = Some []"
  "create_new p s = (Inl e, s') \<Longrightarrow> hs_files s' p = hs_files s p"
  "hs_files s p \<noteq> None \<Longrightarrow> \<exists>e s'. create_new p s = (Inl e, s') \<and> hs_files s' = hs_files s"
  by (auto simp: create_new_def besides_def take_outcome_keeps split: prod.splits outcome.splits if_splits)

lemma write_file_laws:
  "besides p (snd (write_file p bs s)) = besides p s"
  "write_file p bs s = (Inr u, s') \<Longrightarrow> hs_files s' p = map_option (\<lambda>c. c @ bs) (hs_files s p)"
  by (rule file_writer.keeps) (rule file_writer.appends)

lemma open_file_laws:
  "hs_files (snd (open_file p s)) = hs_files s" "hs_db (snd (open_file p s)) = hs_db s"
  "open_file p s = (Inr c, s') \<Longrightarrow> hs_files s p = Some c"
  by (auto simp: open_file_def take_outcome_keeps split: prod.splits outcome.splits option.splits)

lemma remove_file_laws:
  "besides p (snd (remove_file p s)) = besides p s"
  "remove_file p s = (Inr u, s') \<Longrightarrow> hs_files s p \<noteq> None \<and> hs_files s' p = None"
  "remove_file p s = (Inl e, s') \<Longrightarrow> hs_files s' = hs_files s"
  "hs_files (snd (remove_file p s)) p = None \<or> hs_files (snd (remove_file p s)) p = hs_files s p"
  by (auto simp: remove_file_def besides_def take_outcome_keeps split: prod.splits outcome.splits if_splits)

lemma plain_call_laws:
  "hs_files (snd (plain_call s)) = hs_files s" "hs_db (snd (plain_call s)) = hs_db s"
  by (auto simp: plain_call_def take_outcome_keeps split: prod.splits outcome.splits)

lemma db_call_laws:
  "hs_files (snd (db_call f s)) = hs_files s"
  "db_call f s = (Inr a, s') \<Longrightarrow> f (hs_db s) = (Inr a, hs_db s')"
  "hs_db (snd (db_call f s)) = hs_db s \<or> hs_db (snd (db_call f s)) = snd (f (hs_db s))"
  by (auto simp: db_call_def take_outcome_keeps split: prod.splits outcome.splits)

text \<open>An operation under impersonation keeps what the operation keeps.\<close>

lemma with_client_impersonation_keeps:
  assumes "\<And>s. F (snd (operation s)) = F s" "\<And>s. F (snd (plain_call s)) = F s"
  shows "F (snd (with_client_impersonation client operation s)) = F s"
  using assms by (auto simp: with_client_impersonation_def run_then_def map_fail_def
      split: prod.splits sum.splits) (metis snd_conv)+

lemma run_then_keeps:
  assumes "\<And>s. F (snd (m s)) = F s" "\<And>a s. F (snd (f a s)) = F s"
  shows "F (snd (run_then m f s)) = F s"
  using assms(1) [of s] assms(2) by (auto simp: run_then_def split: prod.splits sum.splits)

lemma map_fail_keeps:
  assumes "\<And>s. F (snd (m s)) = F s"
  shows "F (snd (map_fail g m s)) = F s"
  using assms [of s] by (auto simp: map_fail_def split: prod.splits)

lemma run_then_Inr_iff:
  "run_then m f s = (Inr b, s') \<longleftrightarrow> (\<exists>a t. m s = (Inr a, t) \<and> f a t = (Inr b, s'))"
  by (auto simp: run_then_def split: prod.splits sum.splits)

lemma map_fail_Inr_iff: "map_fail g m s = (Inr b, s') \<longleftrightarrow> m s = (Inr b, s')"
  by (auto simp: map_fail_def result_iffs split: prod.splits)

lemma with_client_impersonation_Inr:
  "with_client_impersonation client operation s = (Inr a, s') \<Longrightarrow>
     \<exists>t. operation t = (Inr a, s') \<and> hs_files t = hs_files s \<and> hs_db t = hs_db s"
  using plain_call_laws [of s]
  by (auto simp: with_client_impersonation_def run_then_Inr_iff map_fail_Inr_iff split: if_splits)

lemma db_call_Inl:
  assumes "db_call f s = (Inl e, s')"
  shows "hs_db s' = hs_db s \<or> (\<exists>e'. f (hs_db s) = (Inl e', hs_db s'))"
proof (cases "take_outcome s")
  case (Pair a t)
  show ?thesis
  proof (cases a)
    case Works
    with assms Pair take_outcome_keeps [OF Pair] show ?thesis
      by (simp add: db_call_def split: prod.splits) auto
  next
    case (Fails m n)
    with assms Pair take_outcome_keeps [OF Pair] show ?thesis by (simp add: db_call_def)
  qed
qed

lemma plain_call_cases:
  obtains (fails) e t where "plain_call s = (Inl e, t)" "hs_files t = hs_files s" "hs_db t = hs_db s"
  | (works) t where "plain_call s = (Inr (), t)" "hs_files t = hs_files s" "hs_db t = hs_db s"
proof (cases "plain_call s")
  case (Pair a t)
  with plain_call_laws [of s] show thesis by (cases a) (auto intro: fails works)
qed

text \<open>An impersonated operation fails before it starts or runs on the same files and database.\<close>

lemma with_client_impersonation_cases:
  assumes "with_client_impersonation client operation s = (r, s')"
  obtains (refused) e where "r = Inl e" "hs_files s' = hs_files s" "hs_db s' = hs_db s"
  | (runs) t where "operation t = (r, s')" "hs_files t = hs_files s" "hs_db t = hs_db s"
proof (cases "cc_token client")
  case False
  with assms show thesis by (intro runs [of s]) (simp_all add: with_client_impersonation_def)
next
  case True
  show thesis
  proof (cases rule: plain_call_cases [of s])
    case (fails e t)
    with assms True show thesis
      by (intro refused [of "''impersonate authenticated client: '' @ e"])
        (auto simp: with_client_impersonation_def run_then_def map_fail_def)
  next
    case (works t)
    with assms True show thesis
      by (intro runs [of t]) (auto simp: with_client_impersonation_def run_then_def map_fail_def)
  qed
qed

lemma db_read_cases:
  obtains (fails) e t where "db_call (\<lambda>d. (Inr (f d), d)) s = (Inl e, t)"
      "hs_files t = hs_files s" "hs_db t = hs_db s"
  | (works) t where "db_call (\<lambda>d. (Inr (f d), d)) s = (Inr (f (hs_db s)), t)"
      "hs_files t = hs_files s" "hs_db t = hs_db s"
proof (cases "take_outcome s")
  case (Pair a t)
  from take_outcome_keeps [OF Pair] Pair show thesis
    by (cases a) (auto simp: db_call_def intro: fails works)
qed

lemmas run_iffs = run_then_Inr_iff map_fail_Inr_iff

end
