(* ===== verification/OG_Quarantine.thy ===== *)
theory OG_Quarantine
  imports OG_Host OG_Scan OG_Records
begin

text \<open>
  Quarantine (\<^verbatim>\<open>openguard-service/src/main.rs\<close>): a suspicious file is verified again, copied behind
  a header into the service's directory, recorded and only then removed; restoring copies the
  payload back without overwriting.  An \<^verbatim>\<open>anyhow\<close> error is its outermost text, which is what the
  handlers print.
\<close>

section \<open>Operations\<close>

definition QUARANTINE_MAGIC :: bytes where
  "QUARANTINE_MAGIC = ''OPENGUARD-QUARANTINE-V1'' @ [CHR 0x00]"

text \<open>
  What the handlers find outside: the file's type (symbolic link, regular file), what the scan and
  the Windows signals see, how a file's content arrives in reads, the fresh identifier and the clock.
\<close>

record quarantine_world =
  qw_metadata :: "string + bool \<times> bool"
  qw_scan :: scan_world
  qw_signals :: windows_signals
  qw_reads :: "bytes \<Rightarrow> copy_step list"
  qw_id :: string
  qw_now :: string

definition conflict :: "string \<Rightarrow> api_error" where
  "conflict message = \<lparr>ae_code = Conflict, ae_message = message, ae_retryable = False\<rparr>"

definition internal :: "string \<Rightarrow> api_error" where
  "internal message = \<lparr>ae_code = Internal, ae_message = message, ae_retryable = True\<rparr>"

definition quarantinable :: "scan_verdict \<Rightarrow> bool" where
  "quarantinable v \<longleftrightarrow> v = Suspicious \<or> v = Malicious"

text \<open>The scan inside the impersonated closure; its outer \<open>None\<close> does not occur (\<open>scan_file_total\<close>).\<close>

definition rescan ::
  "file_scanner \<Rightarrow> quarantine_world \<Rightarrow> string \<Rightarrow> host \<Rightarrow> (string + scan_finding) \<times> host" where
  "rescan scanner w path s =
     (case qw_metadata w of
        Inl e \<Rightarrow> (Inl ''inspect quarantine candidate'', s)
      | Inr (is_symlink, is_file) \<Rightarrow>
          if is_symlink \<or> \<not> is_file
          then (Inl ''only regular non-symbolic-link files can be quarantined'', s)
          else (case scan_file scanner (qw_scan w) path of
                  None \<Rightarrow> (Inl ''panic'', s)
                | Some (Inl e) \<Rightarrow> (Inl (''rescan quarantine candidate: '' @ scan_error_display e), s)
                | Some (Inr finding) \<Rightarrow> (Inr (apply_windows_scan_signals (qw_signals w) finding), s)))"

definition verify_quarantine_candidate ::
  "file_scanner \<Rightarrow> quarantine_world \<Rightarrow> client_context \<Rightarrow> scan_finding \<Rightarrow> host
   \<Rightarrow> (api_error + scan_finding) \<times> host" where
  "verify_quarantine_candidate scanner w client requested s =
     (if \<not> quarantinable (sf_verdict requested) \<or> sf_sha256 requested = [] then
        (Inl \<lparr>ae_code = InvalidRequest, ae_message =
           ''Only a suspicious or malicious hash-identified finding can be quarantined'',
           ae_retryable = False\<rparr>, s)
      else run_then (map_fail (\<lambda>e. conflict (''Verify quarantine candidate: '' @ e))
          (with_client_impersonation client (rescan scanner w (sf_path requested))))
        (\<lambda>verified s.
           if sf_sha256 verified \<noteq> sf_sha256 requested \<or> \<not> quarantinable (sf_verdict verified)
           then (Inl (conflict ''The file no longer matches the suspicious scan finding; scan it again''), s)
           else (Inr verified, s)) s)"

definition write_quarantine_payload ::
  "quarantine_world \<Rightarrow> client_context \<Rightarrow> string \<Rightarrow> string \<Rightarrow> host \<Rightarrow> (string + string) \<times> host" where
  "write_quarantine_payload w client source_path quarantine_path =
     run_then (map_fail (\<lambda>_. ''create defanged quarantine payload'') (create_new quarantine_path))
       (\<lambda>_. run_then (map_fail (\<lambda>_. ''write quarantine header'')
                (write_file quarantine_path QUARANTINE_MAGIC))
       (\<lambda>_ s. case with_client_impersonation client
                 (run_then (map_fail (\<lambda>_. ''open quarantine source as client'') (open_file source_path))
                    (\<lambda>content. hash_copy (write_file quarantine_path) (qw_reads w content) [])) s of
                 (Inl e, s) \<Rightarrow> (Inl e, ignoring (remove_file quarantine_path) s)
               | (Inr digest, s) \<Rightarrow> (Inr (sw_sha256 (qw_scan w) digest), s)))"

text \<open>The impersonated closure of \<^verbatim>\<open>restore_quarantine_payload\<close>.\<close>

definition restore_body ::
  "quarantine_world \<Rightarrow> string \<Rightarrow> bytes \<Rightarrow> host \<Rightarrow> (string + string) \<times> host" where
  "restore_body w destination_path rest =
     run_then (map_fail (\<lambda>_. ''create restore destination directory'') plain_call)
       (\<lambda>_. run_then (map_fail (\<lambda>_. ''create restore destination without overwriting'')
               (create_new destination_path))
       (\<lambda>_. run_then (hash_copy (write_file destination_path) (qw_reads w rest) [])
       (\<lambda>digest. run_then (map_fail (\<lambda>_. ''flush restored file'') plain_call)
       (\<lambda>_ s. (Inr (sw_sha256 (qw_scan w) digest), s)))))"

definition restore_quarantine_payload ::
  "quarantine_world \<Rightarrow> client_context \<Rightarrow> string \<Rightarrow> string \<Rightarrow> host \<Rightarrow> (string + string) \<times> host" where
  "restore_quarantine_payload w client quarantine_path destination_path =
     run_then (map_fail (\<lambda>_. ''open quarantine payload'') (open_file quarantine_path))
       (\<lambda>payload. run_then (map_fail (\<lambda>_. ''read quarantine header'') plain_call)
       (\<lambda>_ s. let header = take (length QUARANTINE_MAGIC) payload;
                  rest = drop (length QUARANTINE_MAGIC) payload in
          if length payload < length QUARANTINE_MAGIC then (Inl ''read quarantine header'', s)
          else if header \<noteq> QUARANTINE_MAGIC
          then (Inl ''invalid or unsupported quarantine payload header'', s)
          else with_client_impersonation client (restore_body w destination_path rest) s))"

definition quarantine_path_of :: "string \<Rightarrow> string \<Rightarrow> string" where
  "quarantine_path_of quarantine_root i = quarantine_root @ [backslash] @ i @ ''.quarantine''"

text \<open>The end of \<^verbatim>\<open>quarantine_finding\<close>: record the copy, then remove the original as the client.\<close>

definition quarantine_record_of :: "quarantine_world \<Rightarrow> scan_finding \<Rightarrow> quarantine_record" where
  "quarantine_record_of w verified =
     \<lparr>qr_id = qw_id w, qr_original_path = sf_path verified, qr_sha256 = sf_sha256 verified,
      qr_reason = join ''; '' (sf_reasons verified), qr_created_at = qw_now w,
      qr_restored_at = None, qr_restored_path = None\<rparr>"

definition commit_quarantine ::
  "client_context \<Rightarrow> quarantine_record \<Rightarrow> string \<Rightarrow> host \<Rightarrow> (api_error + quarantine_record) \<times> host" where
  "commit_quarantine client r quarantine_path s =
     (case db_call (record_quarantine (cc_sid client) r quarantine_path) s of
        (Inl e, s) \<Rightarrow> (Inl (internal (''Record quarantine operation: '' @ storage_error_display e)),
                      ignoring (remove_file quarantine_path) s)
      | (Inr _, s) \<Rightarrow>
          (case with_client_impersonation client (remove_file (qr_original_path r)) s of
             (Inl e, s) \<Rightarrow>
               (Inl (conflict (''Remove original after verified quarantine copy: '' @ e)),
                ignoring (remove_file quarantine_path)
                  (ignoring (db_call (\<lambda>d. case delete_quarantine (cc_sid client) (qr_id r) d of
                     (b, d') \<Rightarrow> (Inr b, d'))) s))
           | (Inr _, s) \<Rightarrow> (Inr r, s)))"

definition quarantine_finding ::
  "file_scanner \<Rightarrow> string \<Rightarrow> quarantine_world \<Rightarrow> client_context \<Rightarrow> scan_finding \<Rightarrow> host
   \<Rightarrow> (api_error + quarantine_record) \<times> host" where
  "quarantine_finding scanner quarantine_root w client requested =
     run_then (verify_quarantine_candidate scanner w client requested) (\<lambda>verified.
     run_then (map_fail (\<lambda>e. internal (''Create quarantine directory: '' @ e)) plain_call) (\<lambda>_.
     let quarantine_path = quarantine_path_of quarantine_root (qw_id w) in
     run_then (map_fail (\<lambda>e. conflict (''Copy file into quarantine: '' @ e))
         (write_quarantine_payload w client (sf_path verified) quarantine_path)) (\<lambda>copied_hash s.
       if copied_hash \<noteq> sf_sha256 verified then
         (Inl (conflict ''The file changed while it was being quarantined; scan it again''),
          ignoring (remove_file quarantine_path) s)
       else commit_quarantine client (quarantine_record_of w verified) quarantine_path s)))"

text \<open>The end of \<^verbatim>\<open>restore_quarantine\<close>: compare the digest, mark the record, drop the payload.\<close>

definition finish_restore ::
  "quarantine_world \<Rightarrow> client_context \<Rightarrow> string \<Rightarrow> stored_quarantine \<Rightarrow> string \<Rightarrow> string \<Rightarrow> host
   \<Rightarrow> (api_error + quarantine_record) \<times> host" where
  "finish_restore w client quarantine_id stored destination restored_hash s =
     (if restored_hash \<noteq> qr_sha256 (sq_record stored) then
        (Inl (conflict ''Quarantine payload failed its SHA-256 integrity check''),
         ignoring (with_client_impersonation client (remove_file destination)) s)
      else
        run_then (map_fail (\<lambda>e. internal (''Record quarantine restore: '' @ storage_error_display e))
          (db_call (\<lambda>d. case mark_quarantine_restored (cc_sid client) quarantine_id (qw_now w)
               destination d of (b, d') \<Rightarrow> (Inr b, d')))) (\<lambda>_ s.
        (Inr ((sq_record stored)\<lparr>qr_restored_at := Some (qw_now w),
                qr_restored_path := Some destination\<rparr>),
         ignoring (remove_file (sq_path stored)) s)) s)"

definition restore_quarantine ::
  "quarantine_world \<Rightarrow> client_context \<Rightarrow> string \<Rightarrow> string option \<Rightarrow> host
   \<Rightarrow> (api_error + quarantine_record) \<times> host" where
  "restore_quarantine w client quarantine_id requested_destination =
     run_then (map_fail (\<lambda>e. internal (''Read quarantine record: '' @ storage_error_display e))
       (db_call (\<lambda>d. (Inr (find_quarantine (cc_sid client) quarantine_id d), d)))) (\<lambda>found s.
     case found of
       None \<Rightarrow> (Inl \<lparr>ae_code = NotFound, ae_message = ''Quarantine item '' @ quoted quarantine_id
                      @ '' was not found'', ae_retryable = False\<rparr>, s)
     | Some stored \<Rightarrow>
         if qr_restored_at (sq_record stored) \<noteq> None
         then (Inl (conflict ''This quarantine item has already been restored''), s)
         else
           (let destination = (case requested_destination of
                  None \<Rightarrow> qr_original_path (sq_record stored) | Some p \<Rightarrow> p) in
            run_then (map_fail (\<lambda>e. conflict (''Restore quarantine item: '' @ e))
              (restore_quarantine_payload w client (sq_path stored) destination))
              (finish_restore w client quarantine_id stored destination) s))"

section \<open>What the steps keep\<close>

lemma plain_call_besides: "besides p (snd (plain_call s)) = besides p s"
  by (simp add: besides_iff plain_call_laws)

lemma open_file_besides: "besides p (snd (open_file q s)) = besides p s"
  by (simp add: besides_iff open_file_laws)

lemmas host_keeps = create_new_laws(1) write_file_laws(1) remove_file_laws(1) plain_call_besides
  open_file_besides file_writer.copy_keeps

lemma rescan_same [simp]: "snd (rescan scanner w path s) = s"
  by (auto simp: rescan_def split: sum.splits option.splits prod.splits)

lemma client_rescan_keeps [simp]:
  "hs_files (snd (with_client_impersonation client (rescan scanner w path) s)) = hs_files s"
  "hs_db (snd (with_client_impersonation client (rescan scanner w path) s)) = hs_db s"
  by (auto intro!: with_client_impersonation_keeps [where F = hs_files]
      with_client_impersonation_keeps [where F = hs_db] simp: plain_call_laws)

lemma verify_keeps:
  "hs_files (snd (verify_quarantine_candidate scanner w client requested s)) = hs_files s"
  "hs_db (snd (verify_quarantine_candidate scanner w client requested s)) = hs_db s"
  unfolding verify_quarantine_candidate_def
  by (auto intro!: run_then_keeps [where F = hs_files] run_then_keeps [where F = hs_db]
      map_fail_keeps [where F = hs_files] map_fail_keeps [where F = hs_db])

lemma verify_Inr:
  assumes "verify_quarantine_candidate scanner w client requested s = (Inr verified, s')"
  shows "quarantinable (sf_verdict requested) \<and> sf_sha256 requested \<noteq> []
    \<and> sf_sha256 verified = sf_sha256 requested \<and> quarantinable (sf_verdict verified)
    \<and> (\<exists>finding. scan_file scanner (qw_scan w) (sf_path requested) = Some (Inr finding)
         \<and> verified = apply_windows_scan_signals (qw_signals w) finding)"
  using assms
  by (auto simp: verify_quarantine_candidate_def run_iffs rescan_def split: if_splits sum.splits option.splits
      dest!: with_client_impersonation_Inr)

lemma payload_keeps:
  "besides q (snd (write_quarantine_payload w client source q s)) = besides q s"
proof -
  let ?m = "run_then (map_fail (\<lambda>_. ''open quarantine source as client'') (open_file source))
              (\<lambda>content. hash_copy (write_file q) (qw_reads w content) [])"
  have m: "besides q (snd (with_client_impersonation client ?m t)) = besides q t" for t
    by (rule with_client_impersonation_keeps [where F = "besides q"])
      (auto intro!: run_then_keeps map_fail_keeps simp: host_keeps)
  have "besides q (snd (case with_client_impersonation client ?m t of
        (Inl e, s) \<Rightarrow> (Inl e, ignoring (remove_file q) s)
      | (Inr digest, s) \<Rightarrow> (Inr (sw_sha256 (qw_scan w) digest), s))) = besides q t" for t
    using m [of t] by (auto simp: ignoring_def host_keeps split: prod.splits sum.splits)
  then show ?thesis
    unfolding write_quarantine_payload_def
    by (intro run_then_keeps map_fail_keeps) (simp_all add: host_keeps)
qed

text \<open>A result whose error branch stays an error.\<close>

lemma handled_Inr_iff:
  "(case m of (Inl e, s) \<Rightarrow> (Inl (f e), k e s) | (Inr a, s) \<Rightarrow> g a s) = (Inr b, s')
     \<longleftrightarrow> (\<exists>a t. m = (Inr a, t) \<and> g a t = (Inr b, s'))"
  by (auto split: prod.splits sum.splits)

lemma payload_Inr:
  assumes "write_quarantine_payload w client source q s = (Inr h, s')" "source \<noteq> q"
  obtains content copied where "hs_files s q = None" "hs_files s source = Some content"
    "delivered (qw_reads w content) = Some copied" "h = sw_sha256 (qw_scan w) copied"
    "hs_files s' q = Some (QUARANTINE_MAGIC @ copied)"
proof -
  from assms(1) obtain s1 s2 s3 digest where
    1: "create_new q s = (Inr (), s1)" "write_file q QUARANTINE_MAGIC s1 = (Inr (), s2)"
    and 2: "with_client_impersonation client
       (run_then (map_fail (\<lambda>_. ''open quarantine source as client'') (open_file source))
          (\<lambda>content. hash_copy (write_file q) (qw_reads w content) [])) s2 = (Inr digest, s3)"
    and 3: "h = sw_sha256 (qw_scan w) digest" "s3 = s'"
    by (auto simp: write_quarantine_payload_def run_iffs handled_Inr_iff [where f = "\<lambda>e. e"])
  from with_client_impersonation_Inr [OF 2] 3 obtain t u content where
    t: "hs_files t = hs_files s2" "open_file source t = (Inr content, u)"
    and c: "hash_copy (write_file q) (qw_reads w content) [] u = (Inr digest, s')"
    by (auto simp: run_iffs)
  have u: "hs_files u = hs_files s2"
    using open_file_laws(1) [of source t] t by simp
  have q: "hs_files s q = None" "hs_files s1 q = Some []" using create_new_laws(2) [OF 1(1)] by simp_all
  have q2: "hs_files s2 q = Some QUARANTINE_MAGIC" using write_file_laws(2) [OF 1(2)] q by simp
  have src: "hs_files s source = Some content"
  proof -
    have "besides q s1 = besides q s" "besides q s2 = besides q s1"
      using create_new_laws(1) [of q s] write_file_laws(1) [of q QUARANTINE_MAGIC s1] 1 by simp_all
    then have "hs_files s2 source = hs_files s source" using assms(2) by (simp add: besides_iff)
    then show ?thesis using open_file_laws(3) [OF t(2)] t(1) by simp
  qed
  from file_writer.copy_success [OF c] obtain copied where
    "delivered (qw_reads w content) = Some copied" "digest = copied"
    "hs_files s' q = map_option (\<lambda>c. c @ copied) (hs_files u q)" by auto
  with q src u q2 3 show thesis by (intro that [of content copied]) simp_all
qed

lemma delete_after_record:
  assumes "record_quarantine o1 r path d = (Inr x, d')"
  shows "snd (delete_quarantine o1 (qr_id r) d') = d"
proof -
  from assms have f: "qr_id r \<notin> fst ` set (db_quarantines d)"
    and d': "d' = d\<lparr>db_quarantines := db_quarantines d
              @ [(qr_id r, o1, \<lparr>sq_record = r, sq_path = path\<rparr>)]\<rparr>"
    by (auto simp: record_quarantine_def split: if_splits)
  have "filter (\<lambda>(j, o2, _). \<not> (o2 = o1 \<and> j = qr_id r)) (db_quarantines d) = db_quarantines d"
    using f by (auto intro!: filter_True simp: image_iff)
  then show ?thesis by (simp add: delete_quarantine_def d')
qed

lemma find_append: "find P (xs @ ys) = (case find P xs of None \<Rightarrow> find P ys | Some x \<Rightarrow> Some x)"
  by (induction xs) auto

lemma find_after_record:
  assumes "record_quarantine o1 r path d = (Inr x, d')"
  shows "find_quarantine o1 (qr_id r) d' = Some \<lparr>sq_record = r, sq_path = path\<rparr>"
proof -
  from assms have f: "qr_id r \<notin> fst ` set (db_quarantines d)"
    and d': "d' = d\<lparr>db_quarantines := db_quarantines d
              @ [(qr_id r, o1, \<lparr>sq_record = r, sq_path = path\<rparr>)]\<rparr>"
    by (auto simp: record_quarantine_def split: if_splits)
  have "find (\<lambda>(j, o2, _). o2 = o1 \<and> j = qr_id r) (db_quarantines d) = None"
    using f by (force simp: find_None_iff)
  then show ?thesis by (simp add: find_quarantine_def d' find_append)
qed

section \<open>Quarantining a finding\<close>

text \<open>The canonical path the scan reports.\<close>

definition scanned_path :: "quarantine_world \<Rightarrow> string \<Rightarrow> string" where
  "scanned_path w path = (case sw_canonical (qw_scan w) of None \<Rightarrow> path | Some p \<Rightarrow> p)"

lemma ignoring_remove_keeps [simp]:
  "p \<noteq> q \<Longrightarrow> hs_files (ignoring (remove_file q) s) p = hs_files s p"
  "hs_db (ignoring (remove_file q) s) = hs_db s"
  using remove_file_laws(1) [of q s] by (simp_all add: ignoring_def besides_iff)

lemma client_remove_keeps:
  "besides q (snd (with_client_impersonation client (remove_file q) s)) = besides q s"
  by (rule with_client_impersonation_keeps [where F = "besides q"]) (simp_all add: host_keeps)

lemma client_remove_Inl:
  assumes "with_client_impersonation client (remove_file q) s = (Inl e, s')"
  shows "hs_files s' = hs_files s \<and> hs_db s' = hs_db s"
proof -
  have r: "remove_file q t = (Inl e', t') \<Longrightarrow> hs_files t' = hs_files t \<and> hs_db t' = hs_db t" for t e' t'
    using remove_file_laws(1) [of q t] remove_file_laws(3) [of q t e' t'] by (simp add: besides_iff)
  show ?thesis
  proof (cases "cc_token client")
    case False
    with assms r [of s e s'] show ?thesis by (simp add: with_client_impersonation_def)
  next
    case True
    show ?thesis
    proof (cases "plain_call s")
      case (Pair a t)
      have t: "hs_files t = hs_files s" "hs_db t = hs_db s" using plain_call_laws [of s] Pair by simp_all
      from assms True Pair t r [of t e s'] show ?thesis
        by (cases a) (simp_all add: with_client_impersonation_def run_then_def map_fail_def)
    qed
  qed
qed

lemma client_remove_Inr:
  assumes "with_client_impersonation client (remove_file q) s = (Inr u, s')"
  shows "hs_files s' = (hs_files s)(q := None) \<and> hs_db s' = hs_db s \<and> hs_files s q \<noteq> None"
proof -
  from with_client_impersonation_Inr [OF assms] obtain t where
    t: "remove_file q t = (Inr u, s')" "hs_files t = hs_files s" "hs_db t = hs_db s" by blast
  have "besides q s' = besides q t" using remove_file_laws(1) [of q t] t(1) by simp
  with remove_file_laws(2) [OF t(1)] t(2,3) show ?thesis by (auto simp: besides_iff)
qed

lemma commit_Inr:
  assumes "commit_quarantine client r q s = (Inr qr, s')"
  shows "qr = r \<and> hs_files s' = (hs_files s)(qr_original_path r := None)
    \<and> record_quarantine (cc_sid client) r q (hs_db s) = (Inr (), hs_db s')"
proof -
  from assms obtain t u where
    d: "db_call (record_quarantine (cc_sid client) r q) s = (Inr (), t)"
    and c: "with_client_impersonation client (remove_file (qr_original_path r)) t = (Inr u, s')"
    and r: "qr = r"
    by (auto simp: commit_quarantine_def handled_Inr_iff)
  have "hs_files t = hs_files s" using db_call_laws(1) [of _ s] d by (metis snd_conv)
  with client_remove_Inr [OF c] db_call_laws(2) [OF d] r show ?thesis by simp
qed

lemma record_quarantine_Inl: "record_quarantine o1 r path d = (Inl e, d') \<Longrightarrow> d' = d"
  by (auto simp: record_quarantine_def split: if_splits)

lemma commit_Inl:
  assumes "commit_quarantine client r q s = (Inl e, s')"
  shows "(\<forall>p. p \<noteq> q \<longrightarrow> hs_files s' p = hs_files s p)
    \<and> (hs_db s' = hs_db s \<or> record_quarantine (cc_sid client) r q (hs_db s) = (Inr (), hs_db s'))"
proof (cases "db_call (record_quarantine (cc_sid client) r q) s")
  case (Pair a t)
  have f: "hs_files t = hs_files s" using db_call_laws(1) [of _ s] Pair by (metis snd_conv)
  show ?thesis
  proof (cases a)
    case (Inl e1)
    then have s': "s' = ignoring (remove_file q) t"
      using assms Pair by (simp add: commit_quarantine_def)
    have "hs_db t = hs_db s"
      using db_call_Inl [of "record_quarantine (cc_sid client) r q" s e1 t] Pair Inl
        record_quarantine_Inl [of "cc_sid client" r q "hs_db s"] by auto
    with f s' show ?thesis by simp
  next
    case (Inr u)
    then have rec: "record_quarantine (cc_sid client) r q (hs_db s) = (Inr (), hs_db t)"
      using db_call_laws(2) [of "record_quarantine (cc_sid client) r q" s u t] Pair by simp
    let ?del = "\<lambda>d. case delete_quarantine (cc_sid client) (qr_id r) d of (b, d') \<Rightarrow> (Inr b, d')"
    from assms Pair Inr obtain e1 v where
      c: "with_client_impersonation client (remove_file (qr_original_path r)) t = (Inl e1, v)"
      and s': "s' = ignoring (remove_file q) (ignoring (db_call ?del) v)"
      by (auto simp: commit_quarantine_def split: prod.splits sum.splits)
    have v: "hs_files v = hs_files t" "hs_db v = hs_db t" using client_remove_Inl [OF c] by simp_all
    have "hs_db (ignoring (db_call ?del) v) = hs_db s \<or> hs_db (ignoring (db_call ?del) v) = hs_db t"
      using db_call_laws(3) [of ?del v] delete_after_record [OF rec] v(2)
      by (auto simp: ignoring_def case_prod_beta)
    moreover have "hs_files (ignoring (db_call ?del) v) = hs_files s"
      using db_call_laws(1) [of ?del v] v f by (simp add: ignoring_def)
    ultimately show ?thesis
      using s' rec by auto
  qed
qed

lemma scan_content_path:
  assumes "scan_content scanner w path len hash content = Some (Inr f)"
  shows "sf_path f = (case sw_canonical w of None \<Rightarrow> path | Some p \<Rightarrow> p)"
proof (cases "sw_yara w (fs_rules scanner) content")
  case (Inl e)
  with assms show ?thesis by (simp add: scan_content_def Let_def)
next
  case (Inr rules)
  let ?y = "fold yara_step rules (fst (known_stage scanner hash content), snd (known_stage scanner hash content), [])"
  obtain a where pe: "pe_stage w len content (name_stage w path (fst ?y, fst (snd ?y))) = Some a"
    using pe_stage_ge by blast
  have "\<exists>g. scan_content scanner w path len hash content = Some (Inr g)
     \<and> sf_path g = (case sw_canonical w of None \<Rightarrow> path | Some p \<Rightarrow> p)"
    unfolding scan_content_def Let_def Inr sum.case case_prod_beta pe option.case by simp
  with assms show ?thesis by auto
qed

lemma scan_file_path:
  "scan_file scanner w path = Some (Inr f) \<Longrightarrow>
     sf_path f = (case sw_canonical w of None \<Rightarrow> path | Some p \<Rightarrow> p)"
  by (auto simp: scan_file_def split: sum.splits if_splits prod.splits dest: scan_content_path)

lemma trust_stage_path [simp]: "sf_path (trust_stage ws f) = sf_path f"
  by (cases "ws_signature ws") (simp_all add: trust_stage_def Let_def)

lemma amsi_stage_path [simp]: "sf_path (amsi_stage ws f) = sf_path f"
  unfolding amsi_stage_def Let_def by (split option.split if_split)+ simp

lemma windows_signals_path [simp]: "sf_path (apply_windows_scan_signals ws f) = sf_path f"
  by (simp add: apply_windows_scan_signals_def Let_def)

lemma verified_path:
  "verify_quarantine_candidate scanner w client requested s = (Inr verified, s')
     \<Longrightarrow> sf_path verified = scanned_path w (sf_path requested)"
  by (drule verify_Inr) (auto simp: scanned_path_def dest!: scan_file_path split: option.splits)

text \<open>How a call ends: without touching the client's files, or in the commit of a verified copy.\<close>

lemma quarantine_cases:
  assumes "quarantine_finding scanner quarantine_root w client requested s = (r, s')"
    and q: "q = quarantine_path_of quarantine_root (qw_id w)"
  obtains (failed) e where "r = Inl e" "hs_db s' = hs_db s"
      "\<And>p. p \<noteq> q \<Longrightarrow> hs_files s' p = hs_files s p"
  | (committed) verified t u v where
      "verify_quarantine_candidate scanner w client requested s = (Inr verified, t)"
      "hs_files u = hs_files s" "hs_db u = hs_db s"
      "write_quarantine_payload w client (sf_path verified) q u = (Inr (sf_sha256 verified), v)"
      "commit_quarantine client (quarantine_record_of w verified) q v = (r, s')"
proof -
  obtain a t where a: "verify_quarantine_candidate scanner w client requested s = (a, t)" by force
  have t: "hs_files t = hs_files s" "hs_db t = hs_db s"
    using verify_keeps [of scanner w client requested s] a by simp_all
  show thesis
  proof (cases a)
    case (Inl e)
    with assms a t show thesis
      by (intro failed [of e]) (auto simp: q quarantine_finding_def run_then_def)
  next
    case (Inr verified)
    obtain b u where b: "plain_call t = (b, u)" by force
    have u: "hs_files u = hs_files s" "hs_db u = hs_db s"
      using plain_call_laws [of t] b t by simp_all
    show thesis
    proof (cases b)
      case (Inl e)
      with assms a b u \<open>a = Inr verified\<close> show thesis
        by (intro failed [of "internal (''Create quarantine directory: '' @ e)"])
          (auto simp: q quarantine_finding_def run_then_def map_fail_def)
    next
      case (Inr x)
      obtain c v where c: "write_quarantine_payload w client (sf_path verified) q u = (c, v)" by force
      have v: "besides q v = besides q s"
        using payload_keeps [of q w client "sf_path verified" u] c u by (simp add: besides_iff)
      have r: "(r, s') = (case c of
          Inl e \<Rightarrow> (Inl (conflict (''Copy file into quarantine: '' @ e)), v)
        | Inr copied_hash \<Rightarrow> if copied_hash \<noteq> sf_sha256 verified then
         (Inl (conflict ''The file changed while it was being quarantined; scan it again''),
          ignoring (remove_file q) v)
       else commit_quarantine client (quarantine_record_of w verified) q v)"
        using assms a b c \<open>a = Inr verified\<close> Inr
        by (auto simp: q quarantine_finding_def run_then_def map_fail_def Let_def split: sum.splits)
      show thesis
      proof (cases "c = Inr (sf_sha256 verified)")
        case True
        with r a u c \<open>a = Inr verified\<close> show thesis by (intro committed [of verified t u v]) simp_all
      next
        case False
        then have "\<exists>e. r = Inl e" "s' = v \<or> s' = ignoring (remove_file q) v"
          using r by (auto split: sum.splits if_splits)
        with v show thesis by (auto intro: failed simp: besides_iff)
      qed
    qed
  qed
qed

lemma quarantine_success:
  assumes "quarantine_finding scanner quarantine_root w client requested s = (Inr qr, s')"
    and "q = quarantine_path_of quarantine_root (qw_id w)"
    and "scanned_path w (sf_path requested) \<noteq> q"
  shows "quarantinable (sf_verdict requested)
    \<and> qr_sha256 qr = sf_sha256 requested \<and> qr_restored_at qr = None
    \<and> qr_original_path qr = scanned_path w (sf_path requested)
    \<and> (\<exists>content copied. hs_files s (qr_original_path qr) = Some content
         \<and> delivered (qw_reads w content) = Some copied
         \<and> sw_sha256 (qw_scan w) copied = qr_sha256 qr
         \<and> hs_files s q = None
         \<and> hs_files s' = (hs_files s)(q \<mapsto> QUARANTINE_MAGIC @ copied, qr_original_path qr := None))
    \<and> find_quarantine (cc_sid client) (qr_id qr) (hs_db s') = Some \<lparr>sq_record = qr, sq_path = q\<rparr>"
  using assms(1,2)
proof (cases rule: quarantine_cases)
  case (failed e)
  then show ?thesis by simp
next
  case (committed verified t u v)
  have src: "sf_path verified = scanned_path w (sf_path requested)"
    using verified_path [OF committed(1)] by simp
  obtain content copied where c: "hs_files u q = None" "hs_files u (sf_path verified) = Some content"
    "delivered (qw_reads w content) = Some copied" "sf_sha256 verified = sw_sha256 (qw_scan w) copied"
    "hs_files v q = Some (QUARANTINE_MAGIC @ copied)"
    using payload_Inr [OF committed(4)] src assms(3) by auto
  have uv: "hs_files v = (hs_files u)(q \<mapsto> QUARANTINE_MAGIC @ copied)"
    using payload_keeps [of q w client "sf_path verified" u] committed(4) c(5)
    by (auto simp: besides_iff fun_eq_iff)
  have k: "qr = quarantine_record_of w verified"
    "hs_files s' = (hs_files v)(sf_path verified := None)"
    "record_quarantine (cc_sid client) qr q (hs_db v) = (Inr (), hs_db s')"
    using commit_Inr [OF committed(5)] by (auto simp: quarantine_record_of_def)
  from find_after_record [OF k(3)] k(1,2) verify_Inr [OF committed(1)] c src uv committed(2)
  show ?thesis by (auto simp: quarantine_record_of_def)
qed

lemma quarantine_failure:
  assumes "quarantine_finding scanner quarantine_root w client requested s = (Inl e, s')"
    and "q = quarantine_path_of quarantine_root (qw_id w)"
  shows "(\<forall>p. p \<noteq> q \<longrightarrow> hs_files s' p = hs_files s p)
    \<and> (hs_db s' = hs_db s
       \<or> (\<exists>qr. record_quarantine (cc_sid client) qr q (hs_db s) = (Inr (), hs_db s')))"
  using assms
proof (cases rule: quarantine_cases)
  case (failed e)
  then show ?thesis by simp
next
  case (committed verified t u v)
  have "besides q v = besides q u"
    using payload_keeps [of q w client "sf_path verified" u] committed(4) by simp
  with commit_Inl [OF committed(5)] committed(2,3) show ?thesis by (auto simp: besides_iff)
qed

text \<open>
  C9. Quarantine is all or nothing for the client's file.  When the call fails, at whatever step,
  every file but the new payload is as it was and the database differs at most by the record of this
  attempt.  When it succeeds, the requested finding was suspicious or malicious, exactly the
  original was removed, the payload holds the header and the bytes whose digest is the one of the
  request, and the record of the client leads to it.
\<close>

theorem quarantine_all_or_nothing:
  assumes "quarantine_finding scanner quarantine_root w client requested s = (r, s')"
    and "q = quarantine_path_of quarantine_root (qw_id w)"
    and "scanned_path w (sf_path requested) \<noteq> q"
  shows "(\<forall>e. r = Inl e \<longrightarrow> (\<forall>p. p \<noteq> q \<longrightarrow> hs_files s' p = hs_files s p)
         \<and> (hs_db s' = hs_db s
            \<or> (\<exists>qr. record_quarantine (cc_sid client) qr q (hs_db s) = (Inr (), hs_db s'))))
    \<and> (\<forall>qr. r = Inr qr \<longrightarrow> quarantinable (sf_verdict requested)
         \<and> qr_sha256 qr = sf_sha256 requested
         \<and> qr_original_path qr = scanned_path w (sf_path requested)
         \<and> (\<exists>content copied. hs_files s (qr_original_path qr) = Some content
              \<and> delivered (qw_reads w content) = Some copied
              \<and> sw_sha256 (qw_scan w) copied = qr_sha256 qr
              \<and> hs_files s q = None
              \<and> hs_files s' = (hs_files s)(q \<mapsto> QUARANTINE_MAGIC @ copied, qr_original_path qr := None))
         \<and> find_quarantine (cc_sid client) (qr_id qr) (hs_db s') = Some \<lparr>sq_record = qr, sq_path = q\<rparr>)"
  using assms quarantine_success [of scanner quarantine_root w client requested s _ s' q]
    quarantine_failure [of scanner quarantine_root w client requested s _ s' q]
  by (intro conjI allI impI) blast+

section \<open>Restoring\<close>

text \<open>Everything works once the outcomes are used up.\<close>

lemma calm_calls:
  assumes "hs_outcomes s = []"
  shows "take_outcome s = (Works, s)" "plain_call s = (Inr (), s)"
    "with_client_impersonation client operation s = operation s"
  using assms by (simp_all add: take_outcome_def plain_call_def with_client_impersonation_def
      run_then_def map_fail_def)

lemma calm_copy:
  assumes "hs_outcomes s = []" "hs_files s p = Some c" "delivered steps = Some bs"
  shows "hash_copy (write_file p) steps d s
    = (Inr (d @ bs), s\<lparr>hs_files := (hs_files s)(p \<mapsto> c @ bs)\<rparr>)"
  using assms
proof (induction steps arbitrary: d s c bs)
  case Nil
  then show ?case by (simp add: fun_upd_idem)
next
  case (Cons step steps)
  show ?case
  proof (cases step)
    case CopyFails
    with Cons.prems show ?thesis by simp
  next
    case (CopyBytes b)
    show ?thesis
    proof (cases "b = []")
      case True
      with Cons.prems CopyBytes show ?thesis by (simp add: fun_upd_idem)
    next
      case False
      with Cons.prems CopyBytes obtain bs' where b: "delivered steps = Some bs'" "bs = b @ bs'" by auto
      let ?t = "s\<lparr>hs_files := (hs_files s)(p \<mapsto> c @ b)\<rparr>"
      have "write_file p b s = (Inr (), ?t)"
        using Cons.prems(1,2) by (simp add: write_file_def calm_calls append_file_def)
      then have step: "hash_copy (write_file p) (step # steps) d s = hash_copy (write_file p) steps (d @ b) ?t"
        using CopyBytes False by (simp add: run_then_def map_fail_def)
      have "hash_copy (write_file p) steps (d @ b) ?t
          = (Inr ((d @ b) @ bs'), ?t\<lparr>hs_files := (hs_files ?t)(p \<mapsto> (c @ b) @ bs')\<rparr>)"
        using Cons.prems(1) b by (intro Cons.IH) simp_all
      moreover have "?t\<lparr>hs_files := (hs_files ?t)(p \<mapsto> (c @ b) @ bs')\<rparr>
          = s\<lparr>hs_files := (hs_files s)(p \<mapsto> c @ bs)\<rparr>"
        using b(2) by simp
      ultimately show ?thesis using step b(2) by (simp only: append_assoc)
    qed
  qed
qed

lemma restore_body_keeps: "besides p (snd (restore_body w p rest s)) = besides p s"
  unfolding restore_body_def
  by (intro run_then_keeps map_fail_keeps) (simp_all add: host_keeps)

lemma restore_body_Inr:
  assumes "restore_body w p rest s = (Inr h, s')"
  obtains copied where "hs_files s p = None" "delivered (qw_reads w rest) = Some copied"
    "h = sw_sha256 (qw_scan w) copied" "hs_files s' p = Some copied"
proof -
  from assms obtain t u v digest where
    1: "plain_call s = (Inr (), t)" "create_new p t = (Inr (), u)"
    and c: "hash_copy (write_file p) (qw_reads w rest) [] u = (Inr digest, v)"
    and 2: "plain_call v = (Inr (), s')" "h = sw_sha256 (qw_scan w) digest"
    by (auto simp: restore_body_def run_iffs)
  have "hs_files t = hs_files s" "hs_files s' = hs_files v"
    using plain_call_laws(1) [of s] plain_call_laws(1) [of v] 1 2 by simp_all
  moreover from file_writer.copy_success [OF c] obtain copied where
    "delivered (qw_reads w rest) = Some copied" "digest = copied"
    "hs_files v p = map_option (\<lambda>c. c @ copied) (hs_files u p)" by auto
  ultimately show thesis using create_new_laws(2) [OF 1(2)] 2 by (intro that [of copied]) simp_all
qed

lemma restore_body_occupied:
  assumes "hs_files s p \<noteq> None" "restore_body w p rest s = (r, s')"
  shows "(\<exists>e. r = Inl e) \<and> hs_files s' p = hs_files s p"
proof -
  obtain a t where a: "plain_call s = (a, t)" by force
  have t: "hs_files t = hs_files s" using plain_call_laws(1) [of s] a by simp
  obtain e u where "create_new p t = (Inl e, u)" "hs_files u = hs_files t"
    using create_new_laws(4) [of t p] assms(1) t by auto
  with assms(2) a t show ?thesis
    by (cases a) (auto simp: restore_body_def run_then_def map_fail_def)
qed

lemma restore_payload_cases:
  assumes "restore_quarantine_payload w client q p s = (r, s')"
  obtains (kept) e where "r = Inl e" "hs_files s' = hs_files s" "hs_db s' = hs_db s"
  | (ran) t rest where "restore_body w p rest t = (r, s')" "hs_files t = hs_files s" "hs_db t = hs_db s"
      "hs_files s q = Some (QUARANTINE_MAGIC @ rest)"
proof -
  obtain a t where a: "open_file q s = (a, t)" by force
  have t: "hs_files t = hs_files s" "hs_db t = hs_db s" using open_file_laws(1,2) [of q s] a by simp_all
  show thesis
  proof (cases a)
    case (Inl e)
    with assms a t show thesis
      by (intro kept) (auto simp: restore_quarantine_payload_def run_then_def map_fail_def)
  next
    case (Inr payload)
    then have f: "hs_files s q = Some payload" using open_file_laws(3) a by simp
    show thesis
    proof (cases rule: plain_call_cases [of t])
      case (fails e u)
      with assms a Inr t show thesis
        by (intro kept) (auto simp: restore_quarantine_payload_def run_then_def map_fail_def)
    next
      case (works u)
      let ?n = "length QUARANTINE_MAGIC"
      have r: "restore_quarantine_payload w client q p s =
         (if length payload < ?n then (Inl ''read quarantine header'', u)
          else if take ?n payload \<noteq> QUARANTINE_MAGIC
          then (Inl ''invalid or unsupported quarantine payload header'', u)
          else with_client_impersonation client (restore_body w p (drop ?n payload)) u)"
        using a Inr works by (simp add: restore_quarantine_payload_def run_then_def map_fail_def Let_def)
      show thesis
      proof (cases "length payload < ?n \<or> take ?n payload \<noteq> QUARANTINE_MAGIC")
        case True
        then obtain e where "r = Inl e" "s' = u" using r assms by (auto split: if_splits)
        with works t show thesis by (intro kept) simp_all
      next
        case False
        then have p: "payload = QUARANTINE_MAGIC @ drop ?n payload"
          by (metis append_take_drop_id)
        from False have "with_client_impersonation client (restore_body w p (drop ?n payload)) u = (r, s')"
          using r assms by (simp split: if_splits)
        then show thesis
        proof (cases rule: with_client_impersonation_cases)
          case (refused e)
          with works t show thesis by (intro kept) simp_all
        next
          case (runs v)
          with works t f p show thesis by (intro ran [of "drop ?n payload" v]) simp_all
        qed
      qed
    qed
  qed
qed

lemma restore_cases:
  assumes "restore_quarantine w client i requested s = (r, s')"
    and "find_quarantine (cc_sid client) i (hs_db s) = Some stored"
    and "destination = (case requested of None \<Rightarrow> qr_original_path (sq_record stored) | Some p \<Rightarrow> p)"
  obtains (kept) e where "r = Inl e" "hs_files s' = hs_files s" "hs_db s' = hs_db s"
  | (copied) t rest a u where "hs_files t = hs_files s" "hs_db t = hs_db s"
      "qr_restored_at (sq_record stored) = None"
      "hs_files s (sq_path stored) = Some (QUARANTINE_MAGIC @ rest)"
      "restore_body w destination rest t = (a, u)"
      "(r, s') = (case a of Inl e \<Rightarrow> (Inl (conflict (''Restore quarantine item: '' @ e)), u)
                 | Inr h \<Rightarrow> finish_restore w client i stored destination h u)"
proof (cases rule: db_read_cases [of "find_quarantine (cc_sid client) i" s])
  case (fails e t)
  with assms(1) show thesis
    by (intro kept) (auto simp: restore_quarantine_def run_then_def map_fail_def)
next
  case (works t)
  show thesis
  proof (cases "qr_restored_at (sq_record stored) = None")
    case False
    with works assms show thesis
      by (intro kept) (auto simp: restore_quarantine_def run_then_def map_fail_def)
  next
    case True
    obtain a u where p: "restore_quarantine_payload w client (sq_path stored) destination t = (a, u)"
      by force
    have r: "(r, s') = (case a of Inl e \<Rightarrow> (Inl (conflict (''Restore quarantine item: '' @ e)), u)
                 | Inr h \<Rightarrow> finish_restore w client i stored destination h u)"
      using works assms True p
      by (auto simp: restore_quarantine_def run_then_def map_fail_def Let_def split: sum.splits)
    from p show thesis
    proof (cases rule: restore_payload_cases)
      case (kept e)
      with r works show thesis by (intro \<open>\<And>e. r = Inl e \<Longrightarrow> _ \<Longrightarrow> _ \<Longrightarrow> thesis\<close>) auto
    next
      case (ran v rest)
      with r works True show thesis by (intro copied [of v rest a u]) simp_all
    qed
  qed
qed

lemma finish_restore_effect:
  assumes "finish_restore w client i stored destination h s = (r, s')"
  shows "(\<forall>p. p \<noteq> destination \<and> p \<noteq> sq_path stored \<longrightarrow> hs_files s' p = hs_files s p)
    \<and> (\<forall>e. r = Inl e \<longrightarrow> (\<forall>p. p \<noteq> destination \<longrightarrow> hs_files s' p = hs_files s p))
    \<and> (\<forall>qr. r = Inr qr \<longrightarrow> h = qr_sha256 (sq_record stored)
         \<and> (\<forall>p. p \<noteq> sq_path stored \<longrightarrow> hs_files s' p = hs_files s p)
         \<and> hs_db s' = snd (mark_quarantine_restored (cc_sid client) i (qw_now w) destination (hs_db s)))"
proof (cases "h = qr_sha256 (sq_record stored)")
  case False
  with assms have "r = Inl (conflict ''Quarantine payload failed its SHA-256 integrity check'')"
    "s' = snd (with_client_impersonation client (remove_file destination) s)"
    by (auto simp: finish_restore_def ignoring_def)
  with client_remove_keeps [of destination client s] show ?thesis by (simp add: besides_iff)
next
  case True
  let ?op = "\<lambda>d. case mark_quarantine_restored (cc_sid client) i (qw_now w) destination d of
      (b, d') \<Rightarrow> (Inr b, d')"
  obtain a t where a: "db_call ?op s = (a, t)" by force
  have t: "hs_files t = hs_files s" using db_call_laws(1) [of ?op s] a by simp
  show ?thesis
  proof (cases a)
    case (Inl e)
    with assms True a t show ?thesis by (auto simp: finish_restore_def run_then_def map_fail_def)
  next
    case (Inr b)
    with db_call_laws(2) [of ?op s b t] a have "hs_db t = snd (mark_quarantine_restored (cc_sid client) i
        (qw_now w) destination (hs_db s))"
      by (simp add: case_prod_beta)
    with assms True a t Inr show ?thesis
      by (auto simp: finish_restore_def run_then_def map_fail_def)
  qed
qed

text \<open>
  C30. Restoring never overwrites and never loses the payload.  Only the destination and the payload
  can change; an occupied destination makes the call fail with every file as it was; a failed call
  keeps the payload; a successful one found the record not yet restored, put at the destination the
  bytes whose digest is the recorded one, and marked the record.
\<close>

theorem restore_never_overwrites:
  assumes "restore_quarantine w client i requested s = (r, s')"
    and "find_quarantine (cc_sid client) i (hs_db s) = Some stored"
    and "destination = (case requested of None \<Rightarrow> qr_original_path (sq_record stored) | Some p \<Rightarrow> p)"
    and "sq_path stored \<noteq> destination"
  shows "(\<forall>p. p \<noteq> destination \<and> p \<noteq> sq_path stored \<longrightarrow> hs_files s' p = hs_files s p)
    \<and> (hs_files s destination \<noteq> None \<longrightarrow> (\<exists>e. r = Inl e) \<and> hs_files s' = hs_files s)
    \<and> (\<forall>e. r = Inl e \<longrightarrow> hs_files s' (sq_path stored) = hs_files s (sq_path stored))
    \<and> (\<forall>qr. r = Inr qr \<longrightarrow> qr_restored_at (sq_record stored) = None
         \<and> (\<exists>content copied. hs_files s (sq_path stored) = Some (QUARANTINE_MAGIC @ content)
              \<and> delivered (qw_reads w content) = Some copied
              \<and> sw_sha256 (qw_scan w) copied = qr_sha256 (sq_record stored)
              \<and> hs_files s' destination = Some copied)
         \<and> hs_db s' = snd (mark_quarantine_restored (cc_sid client) i (qw_now w) destination (hs_db s)))"
  using assms(1,2,3)
proof (cases rule: restore_cases)
  case (kept e)
  then show ?thesis by simp
next
  case (copied t rest a u)
  have u: "\<And>p. p \<noteq> destination \<Longrightarrow> hs_files u p = hs_files s p" "hs_db u = hs_db s"
    using restore_body_keeps [of destination w rest t] copied by (simp_all add: besides_iff)
  have o: "hs_files s destination \<noteq> None \<longrightarrow> (\<exists>e. a = Inl e) \<and> hs_files u = hs_files s"
  proof
    assume "hs_files s destination \<noteq> None"
    with restore_body_occupied [of t destination w rest a u] copied
    have "\<exists>e. a = Inl e" "hs_files u destination = hs_files s destination" by simp_all
    moreover from this(2) u(1) have "hs_files u p = hs_files s p" for p by (cases "p = destination") simp_all
    ultimately show "(\<exists>e. a = Inl e) \<and> hs_files u = hs_files s" by (simp add: fun_eq_iff)
  qed
  show ?thesis
  proof (cases a)
    case (Inl e)
    with copied(6) u o assms(4) show ?thesis by auto
  next
    case (Inr h)
    obtain bytes where b: "hs_files s destination = None" "delivered (qw_reads w rest) = Some bytes"
      "h = sw_sha256 (qw_scan w) bytes" "hs_files u destination = Some bytes"
      using restore_body_Inr [of w destination rest t h u] copied Inr by auto
    have f: "finish_restore w client i stored destination h u = (r, s')" using copied(6) Inr by simp
    from finish_restore_effect [OF f] b u copied(3,4) assms(4) show ?thesis by auto
  qed
qed

section \<open>Quarantine and restore\<close>

lemma find_SomeD: "find P xs = Some x \<Longrightarrow> P x"
  by (induction xs) (auto split: if_splits)

lemma mark_found_quarantine:
  assumes "find_quarantine o1 i d = Some stored" "qr_restored_at (sq_record stored) = None"
  shows "find_quarantine o1 i (snd (mark_quarantine_restored o1 i now to d)) = Some (stored\<lparr>sq_record :=
    (sq_record stored)\<lparr>qr_restored_at := Some now, qr_restored_path := Some to\<rparr>\<rparr>)"
proof -
  let ?upd = "\<lambda>(j, o2, q). (j, o2, if o2 = o1 \<and> j = i \<and> qr_restored_at (sq_record q) = None
      then q\<lparr>sq_record := (sq_record q)\<lparr>qr_restored_at := Some now, qr_restored_path := Some to\<rparr>\<rparr> else q)"
  have f: "find (\<lambda>(j, o2, _). o2 = o1 \<and> j = i) (map ?upd xs)
      = map_option ?upd (find (\<lambda>(j, o2, _). o2 = o1 \<and> j = i) xs)" for xs
    by (induction xs) auto
  have d: "db_quarantines (snd (mark_quarantine_restored o1 i now to d)) = map ?upd (db_quarantines d)"
    by (simp add: mark_quarantine_restored_def Let_def)
  from assms(1) obtain j o2 where "find (\<lambda>(j, o2, _). o2 = o1 \<and> j = i) (db_quarantines d) = Some (j, o2, stored)"
    by (auto simp: find_quarantine_def split: option.splits)
  with find_SomeD [OF this] assms(2) show ?thesis
    by (simp add: find_quarantine_def d f del: map_map)
qed

text \<open>
  C29. Quarantine and restore are inverse.  After a successful quarantine, when every further call
  works, the reads deliver what the files hold and the digest is the same function, restoring the
  item to its original path succeeds, leaves every file exactly as it was before the quarantine, and
  leaves the record marked as restored.
\<close>

theorem quarantine_restore_roundtrip:
  assumes "quarantine_finding scanner quarantine_root w client requested s = (Inr qr, s1)"
    and "scanned_path w (sf_path requested) \<noteq> quarantine_path_of quarantine_root (qw_id w)"
    and "\<And>content. delivered (qw_reads w content) = Some content"
    and "\<And>content. delivered (qw_reads w' content) = Some content"
    and "sw_sha256 (qw_scan w') = sw_sha256 (qw_scan w)"
    and "hs_outcomes s1 = []"
  shows "\<exists>s2. restore_quarantine w' client (qr_id qr) None s1
      = (Inr (qr\<lparr>qr_restored_at := Some (qw_now w'), qr_restored_path := Some (qr_original_path qr)\<rparr>), s2)
    \<and> hs_files s2 = hs_files s
    \<and> find_quarantine (cc_sid client) (qr_id qr) (hs_db s2) = Some
        \<lparr>sq_record = qr\<lparr>qr_restored_at := Some (qw_now w'), qr_restored_path := Some (qr_original_path qr)\<rparr>,
         sq_path = quarantine_path_of quarantine_root (qw_id w)\<rparr>"
proof -
  let ?q = "quarantine_path_of quarantine_root (qw_id w)" and ?p = "qr_original_path qr"
  from quarantine_success [OF assms(1) refl assms(2)] assms(3) obtain content where
    n: "qr_restored_at qr = None" "?p = scanned_path w (sf_path requested)"
    and f: "hs_files s ?p = Some content" "sw_sha256 (qw_scan w) content = qr_sha256 qr"
      "hs_files s ?q = None" "hs_files s1 = (hs_files s)(?q \<mapsto> QUARANTINE_MAGIC @ content, ?p := None)"
    and found: "find_quarantine (cc_sid client) (qr_id qr) (hs_db s1) = Some \<lparr>sq_record = qr, sq_path = ?q\<rparr>"
    by auto
  have ne: "?p \<noteq> ?q" using n assms(2) by simp
  let ?s2 = "s1\<lparr>hs_files := (hs_files s1)(?p \<mapsto> content)\<rparr>"
  let ?db = "snd (mark_quarantine_restored (cc_sid client) (qr_id qr) (qw_now w') ?p (hs_db s1))"
  let ?s3 = "?s2\<lparr>hs_db := ?db\<rparr>"
  have body: "restore_body w' ?p content s1 = (Inr (qr_sha256 qr), ?s2)"
  proof -
    have "create_new ?p s1 = (Inr (), s1\<lparr>hs_files := (hs_files s1)(?p \<mapsto> [])\<rparr>)"
      using assms(6) f ne by (simp add: create_new_def calm_calls)
    moreover have "hash_copy (write_file ?p) (qw_reads w' content) [] (s1\<lparr>hs_files := (hs_files s1)(?p \<mapsto> [])\<rparr>)
        = (Inr content, ?s2)"
      using calm_copy [of "s1\<lparr>hs_files := (hs_files s1)(?p \<mapsto> [])\<rparr>" ?p "[]" "qw_reads w' content" content "[]"]
        assms(4,6) by simp
    ultimately show ?thesis
      using assms(5,6) f by (simp add: restore_body_def run_then_def map_fail_def calm_calls)
  qed
  have payload: "restore_quarantine_payload w' client ?q ?p s1 = (Inr (qr_sha256 qr), ?s2)"
    using assms(6) f ne body
    by (simp add: restore_quarantine_payload_def run_then_def map_fail_def open_file_def calm_calls)
  have finish: "finish_restore w' client (qr_id qr) \<lparr>sq_record = qr, sq_path = ?q\<rparr> ?p (qr_sha256 qr) ?s2
     = (Inr (qr\<lparr>qr_restored_at := Some (qw_now w'), qr_restored_path := Some ?p\<rparr>),
        ?s3\<lparr>hs_files := (hs_files ?s3)(?q := None)\<rparr>)"
    using assms(6) f ne
    by (simp add: finish_restore_def run_then_def map_fail_def db_call_def calm_calls ignoring_def
        remove_file_def case_prod_beta)
  have "restore_quarantine w' client (qr_id qr) None s1
     = (Inr (qr\<lparr>qr_restored_at := Some (qw_now w'), qr_restored_path := Some ?p\<rparr>),
        ?s3\<lparr>hs_files := (hs_files ?s3)(?q := None)\<rparr>)"
    using assms(6) found n(1) payload finish
    by (simp add: restore_quarantine_def run_then_def map_fail_def db_call_def calm_calls Let_def)
  moreover have "hs_files (?s3\<lparr>hs_files := (hs_files ?s3)(?q := None)\<rparr>) = hs_files s"
    using f ne by (auto simp: fun_eq_iff)
  ultimately show ?thesis
    using mark_found_quarantine [OF found, of "qw_now w'" ?p] n(1) by auto
qed

section \<open>Concrete runs\<close>

definition sample_quarantine_world :: "(bytes \<Rightarrow> copy_step list) \<Rightarrow> quarantine_world" where
  "sample_quarantine_world reads =
     \<lparr>qw_metadata = Inr (False, True), qw_scan = sample_world ''abc'',
      qw_signals = \<lparr>ws_signature = SignatureUnknown, ws_size = None, ws_content = None, ws_amsi = None\<rparr>,
      qw_reads = reads, qw_id = ''1'', qw_now = ''unix:1''\<rparr>"

definition sample_request :: scan_finding where
  "sample_request = \<lparr>sf_path = ''note.txt'', sf_verdict = Malicious, sf_score = 100, sf_reasons = [],
     sf_sha256 = ''abc'', sf_size_bytes = 3, sf_signature = NotApplicable, sf_amsi_result = [],
     sf_yara_status = [], sf_yara_matches = [], sf_capabilities = [], sf_scanned_at = []\<rparr>"

definition sample_host :: "outcome list \<Rightarrow> host" where
  "sample_host outcomes = \<lparr>hs_files = [''note.txt'' \<mapsto> ''abc''], hs_outcomes = outcomes, hs_db = db_empty\<rparr>"

definition sample_client :: client_context where
  "sample_client = \<lparr>cc_sid = ''S-1'', cc_process_id = 7, cc_token = True\<rparr>"

definition sample_quarantine :: "outcome list \<Rightarrow> (api_error + quarantine_record) \<times> host" where
  "sample_quarantine outcomes =
     quarantine_finding sample_scanner ''Q'' (sample_quarantine_world (\<lambda>c. [CopyBytes c])) sample_client
       sample_request (sample_host outcomes)"

lemma sample_quarantine_ok:
  "case sample_quarantine [] of (Inr qr, s) \<Rightarrow> hs_outcomes s = [] | (Inl e, s) \<Rightarrow> False"
  by code_simp

theorem quarantine_all_or_nothing_witness:
  "\<exists>qr s. sample_quarantine [] = (Inr qr, s) \<and> hs_files s ''note.txt'' = None
     \<and> find_quarantine ''S-1'' (qr_id qr) (hs_db s) \<noteq> None"
proof -
  obtain qr s where r: "sample_quarantine [] = (Inr qr, s)"
    using sample_quarantine_ok by (auto split: prod.splits sum.splits)
  have p: "scanned_path (sample_quarantine_world (\<lambda>c. [CopyBytes c])) (sf_path sample_request)
      \<noteq> quarantine_path_of ''Q'' (qw_id (sample_quarantine_world (\<lambda>c. [CopyBytes c])))"
    by code_simp
  from quarantine_all_or_nothing [OF r [unfolded sample_quarantine_def] refl p] r show ?thesis
    by (auto simp: sample_client_def scanned_path_def sample_quarantine_world_def sample_world_def
        sample_request_def)
qed

definition sample_restore_host :: host where
  "sample_restore_host = \<lparr>hs_files = [''kept.txt'' \<mapsto> ''x''], hs_outcomes = [],
     hs_db = snd (record_quarantine ''S-1'' (quarantine_record_of
       (sample_quarantine_world (\<lambda>c. [CopyBytes c])) sample_request) ''Q1'' db_empty)\<rparr>"

theorem restore_never_overwrites_witness:
  "\<exists>e. fst (restore_quarantine (sample_quarantine_world (\<lambda>c. [CopyBytes c])) sample_client ''1''
     (Some ''kept.txt'') sample_restore_host) = Inl e"
proof -
  let ?w = "sample_quarantine_world (\<lambda>c. [CopyBytes c])"
  let ?out = "restore_quarantine ?w sample_client ''1'' (Some ''kept.txt'') sample_restore_host"
  let ?stored = "\<lparr>sq_record = quarantine_record_of ?w sample_request, sq_path = ''Q1''\<rparr>"
  have f: "find_quarantine (cc_sid sample_client) ''1'' (hs_db sample_restore_host) = Some ?stored"
    by code_simp
  show ?thesis
    using restore_never_overwrites [of ?w sample_client "''1''" "Some ''kept.txt''" sample_restore_host
        "fst ?out" "snd ?out" ?stored "''kept.txt''"] f
    by (simp add: sample_restore_host_def)
qed

theorem quarantine_restore_roundtrip_witness:
  "\<exists>qr s1 s2. sample_quarantine [] = (Inr qr, s1) \<and> hs_files s2 = [''note.txt'' \<mapsto> ''abc'']
     \<and> (\<exists>qr2. restore_quarantine (sample_quarantine_world (\<lambda>c. [CopyBytes c])) sample_client (qr_id qr) None s1
           = (Inr qr2, s2))"
proof -
  obtain qr s where r: "sample_quarantine [] = (Inr qr, s)" and o: "hs_outcomes s = []"
    using sample_quarantine_ok by (auto split: prod.splits sum.splits)
  have p: "scanned_path (sample_quarantine_world (\<lambda>c. [CopyBytes c])) (sf_path sample_request)
      \<noteq> quarantine_path_of ''Q'' (qw_id (sample_quarantine_world (\<lambda>c. [CopyBytes c])))"
    by code_simp
  have d: "delivered (qw_reads (sample_quarantine_world (\<lambda>c. [CopyBytes c])) c) = Some c" for c
    by (simp add: sample_quarantine_world_def)
  from quarantine_restore_roundtrip [OF r [unfolded sample_quarantine_def] p d d refl o] r show ?thesis
    by (auto simp: sample_host_def)
qed

text \<open>
  A restore that fails while copying leaves the partial file, and the occupied destination then
  refuses every later attempt.  A header that cannot be written leaves the empty payload.
\<close>

lemma failed_restore_blocks_retry:
  "case sample_quarantine [] of
     (Inl e, s) \<Rightarrow> False
   | (Inr qr, s) \<Rightarrow>
       (case restore_quarantine (sample_quarantine_world (\<lambda>c. [CopyBytes ''ab'', CopyFails])) sample_client
               (qr_id qr) None s of
          (Inl e, s2) \<Rightarrow> hs_files s2 ''note.txt'' = Some ''ab''
            \<and> (case restore_quarantine (sample_quarantine_world (\<lambda>c. [CopyBytes c])) sample_client
                  (qr_id qr) None s2 of
                 (Inl e2, _) \<Rightarrow> ae_message e2
                   = ''Restore quarantine item: create restore destination without overwriting''
               | (Inr _, _) \<Rightarrow> False)
        | (Inr _, s2) \<Rightarrow> False)"
  by code_simp

lemma failed_header_leaves_payload:
  "case sample_quarantine [Works, Works, Works, Fails ''disk full'' 4] of
     (Inl e, s) \<Rightarrow> hs_files s (''Q'' @ [backslash] @ ''1.quarantine'') = Some ''OPEN''
   | (Inr qr, s) \<Rightarrow> False"
  by code_simp

end
