(* ===== verification/OG_Updates.thy ===== *)
theory OG_Updates
  imports OG_Host OG_Scan "HOL-Library.Multiset"
begin

text \<open>
  Signed security content (\<^verbatim>\<open>openguard-updates/src/lib.rs\<close>): a manifest is verified, its files are
  fetched into a staging directory, validated and renamed into place.

  Ed25519, base64, SHA-256, the URL parser, the JSON reader and scalar writer, the HTTP agent and
  the rule compiler are parameters.  The store is the directory \<^verbatim>\<open>versions\<close>: each version is a
  directory of files, a file is named by its normal components.  File names are compared exactly;
  the case folding of NTFS is not modelled.
\<close>

section \<open>Data\<close>

datatype update_error = UpdateManifest string | InvalidSignature | UpdateNetwork string
  | UpdateContent string | UpdateIo string | UpdateJson string

record content_file =
  cf_path :: string
  cf_url :: string
  cf_sha256 :: string
  cf_size :: u64

record content_manifest =
  cm_schema :: u32
  cm_version :: string
  cm_published_at :: string
  cm_files :: "content_file list"
  cm_signature :: string

datatype json = JNull | JBool bool | JPosInt nat | JNegInt int | JFloat string | JString string
  | JArray "json list" | JObject "(string \<times> json) list"

record parsed_url =
  pu_scheme :: string
  pu_host :: "string option"
  pu_username :: string
  pu_password :: "string option"

text \<open>The agent answers a URL with the scheme it ended on and a body read up to a limit.\<close>

record update_world =
  uw_json :: "bytes \<Rightarrow> string + json"
  uw_from_value :: "json \<Rightarrow> string + content_manifest"
  uw_scalar :: "json \<Rightarrow> string + bytes"
  uw_base64 :: "string \<Rightarrow> bytes option"
  uw_verify_strict :: "bytes \<Rightarrow> bytes \<Rightarrow> bool"
  uw_url :: "string \<Rightarrow> string + parsed_url"
  uw_sha256 :: "bytes \<Rightarrow> string"
  uw_agent :: "string \<Rightarrow> string + string option \<times> (nat \<Rightarrow> string + bytes)"
  uw_compile :: "string \<Rightarrow> string option"
  uw_id :: string

type_synonym dir = "(string \<times> bytes) list"

record store =
  st_dirs :: "(string \<times> dir) list"
  st_outcomes :: "outcome list"

definition DEFAULT_MANIFEST_URL :: string where
  "DEFAULT_MANIFEST_URL = ''https://raw.githubusercontent.com/jordanw0204-rgb/OpenGuard/main/security-content/manifest.json''"
definition MANIFEST_LIMIT :: nat where "MANIFEST_LIMIT = 1024 * 1024"
definition FILE_LIMIT :: u64 where "FILE_LIMIT = 64 * 1024 * 1024"

section \<open>Validation\<close>

definition decode_public_key :: "(string \<Rightarrow> string + bytes) \<Rightarrow> string \<Rightarrow> update_error + bytes" where
  "decode_public_key base64 text =
     and_then (map_err (\<lambda>e. UpdateManifest (''public key encoding: '' @ e)) (base64 (trim text))) (\<lambda>key.
       if length key = 32 then Inr key else Inl (UpdateManifest ''public key must contain 32 bytes''))"

definition version_char :: "char \<Rightarrow> bool" where
  "version_char c \<longleftrightarrow> ascii_alphabetic c \<or> (CHR ''0'' \<le> c \<and> c \<le> CHR ''9'')
     \<or> c = CHR ''.'' \<or> c = CHR ''_'' \<or> c = CHR ''-''"

definition validate_version :: "string \<Rightarrow> update_error + unit" where
  "validate_version v =
     (if v = [] \<or> 64 < length v \<or> \<not> list_all version_char v
      then Inl (UpdateManifest ''invalid content version'') else Inr ())"

definition slashed :: "string \<Rightarrow> string" where
  "slashed s = map (\<lambda>c. if c = backslash then CHR ''/'' else c) s"

text \<open>
  The components of a path that only has forward slashes: a drive or a root, a leading \<^verbatim>\<open>.\<close> and
  every \<^verbatim>\<open>..\<close> are not normal; empty components and a later \<^verbatim>\<open>.\<close> do not count.
\<close>

definition pieces :: "string \<Rightarrow> string list" where
  "pieces p = split_on ((=) CHR ''/'') p"

definition normal_components :: "string \<Rightarrow> string list" where
  "normal_components p = filter (\<lambda>c. c \<noteq> [] \<and> c \<noteq> ''.'') (pieces p)"

definition only_normal :: "string \<Rightarrow> bool" where
  "only_normal p \<longleftrightarrow> \<not> starts_with p ''/''
     \<and> \<not> (case p of c # d # _ \<Rightarrow> ascii_alphabetic c \<and> d = CHR '':'' | _ \<Rightarrow> False)
     \<and> hd (pieces p) \<noteq> ''.'' \<and> ''..'' \<notin> set (pieces p)"

definition content_path :: "string \<Rightarrow> update_error + string" where
  "content_path v =
     (let normalized = slashed v in
      if \<not> only_normal normalized then Inl (UpdateManifest ''unsafe content path'')
      else if normalized = ''reputation.json'' \<or>
         (starts_with normalized ''rules/'' \<and>
          (case path_extension normalized of None \<Rightarrow> False | Some e \<Rightarrow> eq_ignore_ascii_case e ''yar''))
      then Inr normalized
      else Inl (UpdateManifest (''unsupported content path '' @ v)))"

text \<open>The name of the file a path of the store leads to.\<close>

definition file_key :: "string \<Rightarrow> string" where
  "file_key p = join ''/'' (normal_components p)"

definition validate_https_url :: "update_world \<Rightarrow> string \<Rightarrow> update_error + unit" where
  "validate_https_url w v =
     and_then (map_err (\<lambda>e. UpdateManifest (''invalid content URL: '' @ e)) (uw_url w v)) (\<lambda>url.
       if pu_scheme url \<noteq> ''https'' \<or> pu_host url = None \<or> pu_username url \<noteq> [] \<or> pu_password url \<noteq> None
       then Inl (UpdateManifest ''content URL must be credential-free HTTPS'') else Inr ())"

definition hex_digit :: "char \<Rightarrow> bool" where
  "hex_digit c \<longleftrightarrow> (CHR ''0'' \<le> c \<and> c \<le> CHR ''9'') \<or> (CHR ''a'' \<le> lower_char c \<and> lower_char c \<le> CHR ''f'')"

definition validate_item :: "update_world \<Rightarrow> string list \<Rightarrow> content_file \<Rightarrow> update_error + unit" where
  "validate_item w paths item =
     and_then (content_path (cf_path item)) (\<lambda>_.
     and_then (validate_https_url w (cf_url item)) (\<lambda>_.
       if FILE_LIMIT < cf_size item
       then Inl (UpdateManifest (cf_path item @ '' exceeds the 64 MiB file limit''))
       else if length (cf_sha256 item) \<noteq> 64 \<or> \<not> list_all hex_digit (cf_sha256 item)
       then Inl (UpdateManifest (cf_path item @ '' has an invalid SHA-256''))
       else if to_ascii_lowercase (cf_path item) \<in> set paths
       then Inl (UpdateManifest (''duplicate content path '' @ cf_path item))
       else Inr ()))"

fun validate_items :: "update_world \<Rightarrow> string list \<Rightarrow> content_file list \<Rightarrow> update_error + unit" where
  "validate_items w paths [] = Inr ()"
| "validate_items w paths (item # items) =
     and_then (validate_item w paths item) (\<lambda>_.
       validate_items w (to_ascii_lowercase (cf_path item) # paths) items)"

definition validate_manifest_fields :: "update_world \<Rightarrow> content_manifest \<Rightarrow> update_error + unit" where
  "validate_manifest_fields w m =
     (if cm_schema m \<noteq> 1 then Inl (UpdateManifest ''unsupported schema'')
      else and_then (validate_version (cm_version m)) (\<lambda>_.
        if cm_files m = [] then Inl (UpdateManifest ''manifest contains no files'')
        else validate_items w [] (cm_files m)))"

section \<open>The signed representation\<close>

text \<open>\<^verbatim>\<open>canonical_manifest_bytes\<close>: members in key order, scalars by the JSON writer.\<close>

fun joined :: "(string + bytes) list \<Rightarrow> string + bytes" where
  "joined [] = Inr []"
| "joined [r] = r"
| "joined (r # rs) = and_then r (\<lambda>b. and_then (joined rs) (\<lambda>bs. Inr (b @ '','' @ bs)))"

fun canonical :: "(json \<Rightarrow> string + bytes) \<Rightarrow> json \<Rightarrow> string + bytes" where
  "canonical scalar (JArray items) =
     and_then (joined (map (canonical scalar) items)) (\<lambda>b. Inr (''['' @ b @ '']''))"
| "canonical scalar (JObject members) =
     and_then (joined (map (\<lambda>(key, written).
         and_then (scalar (JString key)) (\<lambda>k. and_then written (\<lambda>v. Inr (k @ '':'' @ v))))
       (sort_key fst (map (\<lambda>(key, v). (key, canonical scalar v)) members))))
     (\<lambda>b. Inr (''{'' @ b @ ''}''))"
| "canonical scalar v = scalar v"

definition canonical_manifest_bytes :: "update_world \<Rightarrow> json \<Rightarrow> update_error + bytes" where
  "canonical_manifest_bytes w v = map_err UpdateJson (canonical (uw_scalar w) v)"

definition verify_manifest :: "update_world \<Rightarrow> bytes \<Rightarrow> update_error + content_manifest" where
  "verify_manifest w manifest_bytes =
     (if MANIFEST_LIMIT < length manifest_bytes then Inl (UpdateManifest ''manifest exceeds 1 MiB'')
      else and_then (map_err UpdateJson (uw_json w manifest_bytes)) (\<lambda>raw.
        case raw of
          JObject members \<Rightarrow>
            (case map_of members ''signature'' of
               Some (JString signature_text) \<Rightarrow>
                 (let unsigned = JObject (AList.delete ''signature'' members) in
                  case uw_base64 w signature_text of
                    None \<Rightarrow> Inl InvalidSignature
                  | Some signature \<Rightarrow>
                      if length signature \<noteq> 64 then Inl InvalidSignature
                      else and_then (canonical_manifest_bytes w unsigned) (\<lambda>message.
                        if \<not> uw_verify_strict w message signature then Inl InvalidSignature
                        else and_then (map_err UpdateJson (uw_from_value w (JObject
                               (AList.update ''signature'' (JString signature_text)
                                  (AList.delete ''signature'' members))))) (\<lambda>manifest.
                          and_then (validate_manifest_fields w manifest) (\<lambda>_. Inr manifest))))
             | _ \<Rightarrow> Inl (UpdateManifest ''missing signature''))
        | _ \<Rightarrow> Inl (UpdateManifest ''missing signature'')))"

section \<open>Content on disk\<close>

definition validate_content_bytes :: "update_world \<Rightarrow> content_file \<Rightarrow> bytes \<Rightarrow> update_error + unit" where
  "validate_content_bytes w item data =
     (if length data \<noteq> unat (cf_size item) then Inl (UpdateContent (cf_path item @ '' size mismatch''))
      else if \<not> eq_ignore_ascii_case (uw_sha256 w data) (cf_sha256 item)
      then Inl (UpdateContent (cf_path item @ '' SHA-256 mismatch''))
      else Inr ())"

text \<open>
  \<^verbatim>\<open>read_dir\<close> of \<^verbatim>\<open>rules\<close>: the names below it, which may be directories; a name that is not
  a file, or a file that is not UTF-8, cannot be read as a string.
\<close>

definition rules_entries :: "dir \<Rightarrow> string list" where
  "rules_entries d = remdups (concat (map (\<lambda>(key, _).
     (case normal_components key of r # name # _ \<Rightarrow> (if r = ''rules'' then [name] else []) | _ \<Rightarrow> [])) d))"

definition read_rule :: "dir \<Rightarrow> string \<Rightarrow> update_error + string" where
  "read_rule d name =
     (case map_of d (''rules/'' @ name) of
        None \<Rightarrow> Inl (UpdateIo ''Access is denied.'')
      | Some c \<Rightarrow> if utf8_lossy c = c then Inr c
                  else Inl (UpdateIo ''stream did not contain valid UTF-8''))"

fun read_rules :: "dir \<Rightarrow> string list \<Rightarrow> update_error + string list" where
  "read_rules d [] = Inr []"
| "read_rules d (n # ns) = and_then (read_rule d n) (\<lambda>c. and_then (read_rules d ns) (\<lambda>cs. Inr (c # cs)))"

definition scanner_from_directory :: "update_world \<Rightarrow> dir \<Rightarrow> update_error + file_scanner" where
  "scanner_from_directory w d =
     (if rules_entries d = []
      then Inl (UpdateContent ''read rules directory: The system cannot find the path specified.'')
      else (let names = sort (filter (\<lambda>n. path_extension n = Some ''yar'') (rules_entries d)) in
        if names = [] then Inl (UpdateContent ''content contains no YARA rules'')
        else and_then (read_rules d names) (\<lambda>sources.
          map_err (\<lambda>e. UpdateContent (''compile YARA-X rules: '' @ scan_error_display e))
            (with_rule_sources (uw_compile w) sources))))"

definition is_json_array :: "json \<Rightarrow> bool" where
  "is_json_array v = (case v of JArray _ \<Rightarrow> True | _ \<Rightarrow> False)"

definition json_get :: "string \<Rightarrow> json \<Rightarrow> json option" where
  "json_get key v = (case v of JObject members \<Rightarrow> map_of members key | _ \<Rightarrow> None)"

definition validate_content_directory :: "update_world \<Rightarrow> dir \<Rightarrow> update_error + unit" where
  "validate_content_directory w d =
     and_then (scanner_from_directory w d) (\<lambda>_.
       case map_of d ''reputation.json'' of
         None \<Rightarrow> Inr ()
       | Some content \<Rightarrow> and_then (map_err UpdateJson (uw_json w content)) (\<lambda>v.
           if json_get ''schema'' v \<noteq> Some (JPosInt 1)
              \<or> \<not> (case json_get ''entries'' v of None \<Rightarrow> False | Some e \<Rightarrow> is_json_array e)
           then Inl (UpdateContent ''reputation.json has an invalid schema'') else Inr ()))"

fun check_installed :: "update_world \<Rightarrow> dir \<Rightarrow> content_file list \<Rightarrow> update_error + unit" where
  "check_installed w d [] = Inr ()"
| "check_installed w d (item # items) =
     and_then (content_path (cf_path item)) (\<lambda>p.
     and_then (ok_or (UpdateIo ''The system cannot find the file specified.'') (map_of d (file_key p))) (\<lambda>data.
     and_then (validate_content_bytes w item data) (\<lambda>_. check_installed w d items)))"

definition validate_installed :: "update_world \<Rightarrow> dir \<Rightarrow> content_manifest \<Rightarrow> update_error + unit" where
  "validate_installed w d m =
     and_then (check_installed w d (cm_files m)) (\<lambda>_. validate_content_directory w d)"

section \<open>Installing\<close>

definition store_call :: "(store \<Rightarrow> (string + 'a) \<times> store) \<Rightarrow> store \<Rightarrow> (update_error + 'a) \<times> store" where
  "store_call f s =
     (case st_outcomes s of
        [] \<Rightarrow> map_fail UpdateIo f s
      | Works # rs \<Rightarrow> map_fail UpdateIo f (s\<lparr>st_outcomes := rs\<rparr>)
      | Fails e _ # rs \<Rightarrow> (Inl (UpdateIo e), s\<lparr>st_outcomes := rs\<rparr>))"

definition touch :: "store \<Rightarrow> (string + unit) \<times> store" where "touch s = (Inr (), s)"

definition create_dir :: "string \<Rightarrow> store \<Rightarrow> (string + unit) \<times> store" where
  "create_dir name s =
     (if map_of (st_dirs s) name \<noteq> None then (Inl ''Cannot create a file when that file already exists.'', s)
      else (Inr (), s\<lparr>st_dirs := AList.update name [] (st_dirs s)\<rparr>))"

definition write_in :: "string \<Rightarrow> string \<Rightarrow> bytes \<Rightarrow> store \<Rightarrow> (string + unit) \<times> store" where
  "write_in name key data s =
     (case map_of (st_dirs s) name of
        None \<Rightarrow> (Inl ''The system cannot find the path specified.'', s)
      | Some d \<Rightarrow> (Inr (), s\<lparr>st_dirs := AList.update name (AList.update key data d) (st_dirs s)\<rparr>))"

definition rename_dir :: "string \<Rightarrow> string \<Rightarrow> store \<Rightarrow> (string + unit) \<times> store" where
  "rename_dir a b s =
     (case (map_of (st_dirs s) a, map_of (st_dirs s) b) of
        (Some d, None) \<Rightarrow> (Inr (), s\<lparr>st_dirs := AList.update b d (AList.delete a (st_dirs s))\<rparr>)
      | _ \<Rightarrow> (Inl ''Access is denied.'', s))"

definition remove_dir_all :: "string \<Rightarrow> store \<Rightarrow> (string + unit) \<times> store" where
  "remove_dir_all name s = (Inr (), s\<lparr>st_dirs := AList.delete name (st_dirs s)\<rparr>)"

text \<open>One file: fetched within its declared size, validated, written.\<close>

definition fetch_limit :: "content_file \<Rightarrow> nat" where
  "fetch_limit item = unat (min (sat_add (cf_size item) 1024) (FILE_LIMIT + 1))"

definition stage_file ::
  "update_world \<Rightarrow> (string \<Rightarrow> nat \<Rightarrow> update_error + bytes) \<Rightarrow> string \<Rightarrow> content_file \<Rightarrow> store
   \<Rightarrow> (update_error + unit) \<times> store" where
  "stage_file w fetch staging item s =
     (case and_then (fetch (cf_url item) (fetch_limit item)) (\<lambda>data.
           and_then (validate_content_bytes w item data) (\<lambda>_.
           and_then (content_path (cf_path item)) (\<lambda>p. Inr (file_key p, data)))) of
        Inl e \<Rightarrow> (Inl e, s)
      | Inr (key, data) \<Rightarrow>
          run_then (store_call touch) (\<lambda>_. store_call (write_in staging key data)) s)"

fun stage_files ::
  "update_world \<Rightarrow> (string \<Rightarrow> nat \<Rightarrow> update_error + bytes) \<Rightarrow> string \<Rightarrow> content_file list \<Rightarrow> store
   \<Rightarrow> (update_error + unit) \<times> store" where
  "stage_files w fetch staging [] s = (Inr (), s)"
| "stage_files w fetch staging (item # items) s =
     run_then (stage_file w fetch staging item) (\<lambda>_. stage_files w fetch staging items) s"

definition staging_name :: "string \<Rightarrow> string \<Rightarrow> string" where
  "staging_name v i = ''.staging-'' @ v @ ''-'' @ i"

definition stage_and_publish ::
  "update_world \<Rightarrow> (string \<Rightarrow> nat \<Rightarrow> update_error + bytes) \<Rightarrow> bytes \<Rightarrow> content_manifest \<Rightarrow> string \<Rightarrow> store
   \<Rightarrow> (update_error + string) \<times> store" where
  "stage_and_publish w fetch manifest_bytes manifest staging =
     run_then (stage_files w fetch staging (cm_files manifest)) (\<lambda>_.
     run_then (\<lambda>s. (validate_content_directory w
                      (case map_of (st_dirs s) staging of None \<Rightarrow> [] | Some d \<Rightarrow> d), s)) (\<lambda>_.
     run_then (store_call (write_in staging ''manifest.json'' manifest_bytes)) (\<lambda>_.
     run_then (store_call (rename_dir staging (cm_version manifest))) (\<lambda>_ s.
     (Inr (cm_version manifest), s)))))"

text \<open>
  The directory of a version.  The names \<^verbatim>\<open>.\<close> and \<^verbatim>\<open>..\<close> are the directory of all versions and its parent:
  they exist, and hold none of the files that a version consists of.
\<close>

definition version_dir :: "string \<Rightarrow> store \<Rightarrow> dir option" where
  "version_dir v s = (if v = ''.'' \<or> v = ''..'' then Some [] else map_of (st_dirs s) v)"

definition install_with_fetcher ::
  "update_world \<Rightarrow> (string \<Rightarrow> nat \<Rightarrow> update_error + bytes) \<Rightarrow> bytes \<Rightarrow> store
   \<Rightarrow> (update_error + string) \<times> store" where
  "install_with_fetcher w fetch manifest_bytes s =
     (case verify_manifest w manifest_bytes of
        Inl e \<Rightarrow> (Inl e, s)
      | Inr manifest \<Rightarrow>
          run_then (store_call touch) (\<lambda>_ s.
            case version_dir (cm_version manifest) s of
              Some d \<Rightarrow> (and_then (validate_installed w d manifest) (\<lambda>_. Inr (cm_version manifest)), s)
            | None \<Rightarrow>
                (let staging = staging_name (cm_version manifest) (uw_id w) in
                 run_then (store_call (create_dir staging)) (\<lambda>_ s.
                   case stage_and_publish w fetch manifest_bytes manifest staging s of
                     (Inl e, s) \<Rightarrow> (Inl e, ignoring (store_call (remove_dir_all staging)) s)
                   | (Inr v, s) \<Rightarrow> (Inr v, s)) s)) s)"

definition download :: "update_world \<Rightarrow> string \<Rightarrow> nat \<Rightarrow> update_error + bytes" where
  "download w url limit =
     and_then (validate_https_url w url) (\<lambda>_.
     and_then (map_err UpdateNetwork (uw_agent w url)) (\<lambda>(scheme, body).
       if scheme \<noteq> Some ''https'' then Inl (UpdateNetwork ''redirected to a non-HTTPS content endpoint'')
       else map_err UpdateNetwork (body limit)))"

definition install_from_url :: "update_world \<Rightarrow> string \<Rightarrow> store \<Rightarrow> (update_error + string) \<times> store" where
  "install_from_url w manifest_url s =
     (case download w manifest_url MANIFEST_LIMIT of
        Inl e \<Rightarrow> (Inl e, s)
      | Inr manifest_bytes \<Rightarrow> install_with_fetcher w (download w) manifest_bytes s)"

definition install_official :: "update_world \<Rightarrow> store \<Rightarrow> (update_error + string) \<times> store" where
  "install_official w = install_from_url w DEFAULT_MANIFEST_URL"

definition scanner_for_version :: "update_world \<Rightarrow> string \<Rightarrow> store \<Rightarrow> update_error + file_scanner" where
  "scanner_for_version w v s =
     and_then (validate_version v) (\<lambda>_.
       scanner_from_directory w (case version_dir v s of None \<Rightarrow> [] | Some d \<Rightarrow> d))"

section \<open>What the store operations do\<close>

text \<open>The directories other than one.\<close>

definition other_dirs :: "string \<Rightarrow> store \<Rightarrow> string \<Rightarrow> dir option" where
  "other_dirs name s = (map_of (st_dirs s))(name := None)"

lemma other_dirs_iff:
  "other_dirs n s = other_dirs n t \<longleftrightarrow> (\<forall>m. m \<noteq> n \<longrightarrow> map_of (st_dirs s) m = map_of (st_dirs t) m)"
  by (auto simp: other_dirs_def fun_eq_iff)

lemma map_of_update [simp]: "map_of (AList.update k v al) = (map_of al)(k \<mapsto> v)"
  by (simp add: update_conv')

lemma map_of_delete [simp]: "map_of (AList.delete k al) = (map_of al)(k := None)"
  by (simp add: delete_conv')

lemma store_call_cases:
  obtains (runs) t where "store_call f s = map_fail UpdateIo f t" "st_dirs t = st_dirs s"
  | (fails) e t where "store_call f s = (Inl e, t)" "st_dirs t = st_dirs s"
proof (cases "st_outcomes s")
  case Nil
  then show thesis by (intro runs [of s]) (simp_all add: store_call_def)
next
  case (Cons r rs)
  show thesis
  proof (cases r)
    case Works
    with Cons show thesis by (intro runs [of "s\<lparr>st_outcomes := rs\<rparr>"]) (simp_all add: store_call_def)
  next
    case (Fails e n)
    with Cons show thesis
      by (intro fails [of "UpdateIo e" "s\<lparr>st_outcomes := rs\<rparr>"]) (simp_all add: store_call_def)
  qed
qed

lemma store_call_Inr:
  assumes "store_call f s = (Inr a, s')"
  obtains t where "st_dirs t = st_dirs s" "f t = (Inr a, s')"
proof (cases rule: store_call_cases [of f s])
  case (runs t)
  with assms that show thesis by (simp add: map_fail_Inr_iff)
next
  case (fails e t)
  with assms show thesis by simp
qed

lemma other_dirs_same: "st_dirs t = st_dirs s \<Longrightarrow> other_dirs n t = other_dirs n s"
  by (simp add: other_dirs_def)

lemma store_call_keeps:
  assumes "\<And>s. other_dirs n (snd (f s)) = other_dirs n s"
  shows "other_dirs n (snd (store_call f s)) = other_dirs n s"
proof (cases rule: store_call_cases [of f s])
  case (runs t)
  with assms [of t] show ?thesis by (simp add: map_fail_def case_prod_beta other_dirs_same [OF runs(2)])
next
  case (fails e t)
  then show ?thesis by (simp add: other_dirs_same [OF fails(2)])
qed

lemma store_ops_keep:
  "other_dirs n (snd (touch s)) = other_dirs n s"
  "other_dirs n (snd (create_dir n s)) = other_dirs n s"
  "other_dirs n (snd (write_in n k d s)) = other_dirs n s"
  "other_dirs n (snd (remove_dir_all n s)) = other_dirs n s"
  by (auto simp: touch_def create_dir_def write_in_def remove_dir_all_def other_dirs_def fun_eq_iff
      split: option.splits)

lemma stage_file_keeps: "other_dirs n (snd (stage_file w fetch n item s)) = other_dirs n s"
  unfolding stage_file_def
  by (auto intro!: run_then_keeps store_call_keeps simp: store_ops_keep split: sum.splits prod.splits)

lemma stage_files_keeps: "other_dirs n (snd (stage_files w fetch n items s)) = other_dirs n s"
proof (induction items arbitrary: s)
  case (Cons item items)
  then show ?case by (auto intro!: run_then_keeps simp: stage_file_keeps)
qed simp

text \<open>What a validated file looks like.\<close>

definition authentic :: "update_world \<Rightarrow> content_file \<Rightarrow> bytes \<Rightarrow> bool" where
  "authentic w item data \<longleftrightarrow> length data = unat (cf_size item)
     \<and> to_ascii_lowercase (uw_sha256 w data) = to_ascii_lowercase (cf_sha256 item)"

lemma validate_content_bytes_iff: "validate_content_bytes w item data = Inr u \<longleftrightarrow> authentic w item data"
  by (simp add: validate_content_bytes_def authentic_def eq_ignore_ascii_case_def)

definition item_key :: "content_file \<Rightarrow> string" where
  "item_key item = file_key (slashed (cf_path item))"

lemma content_path_Inr: "content_path v = Inr p \<Longrightarrow> p = slashed v"
  by (auto simp: content_path_def Let_def split: if_splits)

lemma stage_file_Inr:
  assumes "stage_file w fetch staging item s = (Inr u, s')"
  obtains data d where "authentic w item data" "map_of (st_dirs s) staging = Some d"
    "map_of (st_dirs s') = (map_of (st_dirs s))(staging \<mapsto> AList.update (item_key item) data d)"
proof -
  from assms obtain data p t where
    a: "validate_content_bytes w item data = Inr ()" "content_path (cf_path item) = Inr p"
    and t: "store_call touch s = (Inr (), t)"
    and x: "store_call (write_in staging (file_key p) data) t = (Inr u, s')"
    by (auto simp: stage_file_def result_iffs run_then_Inr_iff split: sum.splits prod.splits)
  have d: "st_dirs t = st_dirs s" by (rule store_call_Inr [OF t]) (simp add: touch_def)
  from store_call_Inr [OF x] obtain v where
    "st_dirs v = st_dirs t" "write_in staging (file_key p) data v = (Inr u, s')" by blast
  with d a content_path_Inr [OF a(2)] show thesis
    by (intro that [of data "the (map_of (st_dirs s) staging)"])
      (auto simp: write_in_def validate_content_bytes_iff item_key_def split: option.splits)
qed

text \<open>
  A directory holds what is declared: at the place of every file are the bytes of a declared file, which
  is the file itself unless two declared paths lead to the same place.
\<close>

definition holds_declared :: "update_world \<Rightarrow> dir \<Rightarrow> content_file list \<Rightarrow> bool" where
  "holds_declared w d items \<longleftrightarrow> (\<forall>item \<in> set items. \<exists>data other. map_of d (item_key item) = Some data
     \<and> other \<in> set items \<and> item_key other = item_key item \<and> authentic w other data
     \<and> (distinct (map item_key items) \<longrightarrow> other = item))"

lemma holds_declaredI:
  assumes "\<And>item. item \<in> set items \<Longrightarrow> \<exists>data other. map_of d (item_key item) = Some data
     \<and> other \<in> set items \<and> item_key other = item_key item \<and> authentic w other data"
  shows "holds_declared w d items"
proof -
  have "other = item" if "distinct (map item_key items)" "other \<in> set items" "item \<in> set items"
    "item_key other = item_key item" for other item
    using that by (auto simp: distinct_map dest: inj_onD)
  then show ?thesis using assms unfolding holds_declared_def by metis
qed

lemma holds_declared_other: "holds_declared w d items \<Longrightarrow> item \<in> set items \<Longrightarrow>
    \<exists>data other. map_of d (item_key item) = Some data
     \<and> other \<in> set items \<and> item_key other = item_key item \<and> authentic w other data"
  unfolding holds_declared_def by blast

lemma stage_files_Inr:
  assumes "stage_files w fetch staging items s = (Inr u, s')" "map_of (st_dirs s) staging = Some d"
  shows "\<exists>d'. map_of (st_dirs s') staging = Some d'
    \<and> (\<forall>k. k \<notin> item_key ` set items \<longrightarrow> map_of d' k = map_of d k) \<and> holds_declared w d' items"
  using assms
proof (induction items arbitrary: s d)
  case Nil
  then show ?case by (simp add: holds_declared_def)
next
  case (Cons item items)
  from Cons.prems(1) obtain t where t: "stage_file w fetch staging item s = (Inr (), t)"
    "stage_files w fetch staging items t = (Inr u, s')"
    by (auto simp: run_then_Inr_iff)
  obtain data d0 where a0: "authentic w item data" "map_of (st_dirs s) staging = Some d0"
    "map_of (st_dirs t) = (map_of (st_dirs s))(staging \<mapsto> AList.update (item_key item) data d0)"
    by (rule stage_file_Inr [OF t(1)])
  then have a: "authentic w item data" "map_of (st_dirs t) staging = Some (AList.update (item_key item) data d)"
    using Cons.prems(2) by simp_all
  from Cons.IH [OF t(2) a(2)] obtain d' where d': "map_of (st_dirs s') staging = Some d'"
    "\<forall>k. k \<notin> item_key ` set items \<longrightarrow> map_of d' k = map_of (AList.update (item_key item) data d) k"
    "holds_declared w d' items"
    by blast
  have "holds_declared w d' (item # items)"
  proof (rule holds_declaredI)
    fix x
    assume x: "x \<in> set (item # items)"
    show "\<exists>data other. map_of d' (item_key x) = Some data
     \<and> other \<in> set (item # items) \<and> item_key other = item_key x \<and> authentic w other data"
    proof (cases "item_key x \<in> item_key ` set items")
      case True
      then obtain y where "y \<in> set items" "item_key y = item_key x" by auto
      with holds_declared_other [OF d'(3)] show ?thesis by (metis list.set_intros(2))
    next
      case False
      with x have "x = item" by auto
      with False d'(2) a(1) show ?thesis by auto
    qed
  qed
  with d' show ?case by (intro exI [of _ d']) auto
qed

section \<open>Content paths\<close>

lemma pieces_rules: "pieces (''rules/'' @ rest) = ''rules'' # pieces rest"
  using split_on_nonempty [of "(=) CHR ''/''" rest] by (simp add: pieces_def)

lemma content_path_cases:
  assumes "content_path v = Inr p"
  obtains "p = ''reputation.json''" "normal_components p = [''reputation.json'']"
  | rest where "p = ''rules/'' @ rest" "normal_components p = ''rules'' # normal_components rest"
      "''..'' \<notin> set (normal_components p)"
proof -
  from assms have n: "only_normal p" "p = ''reputation.json'' \<or> starts_with p ''rules/''"
    by (auto simp: content_path_def Let_def split: if_splits)
  from n(2) show thesis
  proof
    assume p: "p = ''reputation.json''"
    show thesis by (rule that(1) [OF p]) (simp add: p normal_components_def pieces_def)
  next
    assume "starts_with p ''rules/''"
    then obtain rest where p: "p = ''rules/'' @ rest" unfolding starts_with_prefix by blast
    have "''..'' \<notin> set (pieces p)" using n(1) by (simp add: only_normal_def)
    moreover have "pieces p = ''rules'' # pieces rest" using pieces_rules p by (simp only:)
    ultimately show thesis
      by (intro that(2) [OF p]) (simp_all add: normal_components_def)
  qed
qed

lemma content_path_inside:
  assumes "content_path v = Inr p"
  shows "(normal_components p = [''reputation.json''] \<or> (\<exists>rest. normal_components p = ''rules'' # rest))
    \<and> ''..'' \<notin> set (normal_components p)"
  by (rule content_path_cases [OF assms]) simp_all

lemma file_key_manifest: "content_path v = Inr p \<Longrightarrow> file_key p \<noteq> ''manifest.json''"
  by (erule content_path_cases; simp add: file_key_def; cases "normal_components (drop 6 p)"; simp)

lemma rules_entries_manifest [simp]:
  "rules_entries (AList.update ''manifest.json'' data d) = rules_entries d"
proof -
  let ?f = "\<lambda>(key, _ :: bytes). (case normal_components key of r # name # _ \<Rightarrow>
      (if r = ''rules'' then [name] else []) | _ \<Rightarrow> [])"
  have n: "normal_components ''manifest.json'' = [''manifest.json'']" by code_simp
  have "concat (map ?f (AList.update ''manifest.json'' data d)) = concat (map ?f d)"
    by (induction d) (auto simp: n)
  then show ?thesis by (simp only: rules_entries_def)
qed

lemma read_rules_cong:
  "\<forall>n. map_of d (''rules/'' @ n) = map_of d' (''rules/'' @ n) \<Longrightarrow> read_rules d ns = read_rules d' ns"
  by (induction ns) (simp_all add: read_rule_def)

lemma validate_with_manifest [simp]:
  "scanner_from_directory w (AList.update ''manifest.json'' data d) = scanner_from_directory w d"
  "validate_content_directory w (AList.update ''manifest.json'' data d) = validate_content_directory w d"
proof -
  show s: "scanner_from_directory w (AList.update ''manifest.json'' data d) = scanner_from_directory w d"
    using read_rules_cong [of "AList.update ''manifest.json'' data d" d]
    by (simp add: scanner_from_directory_def Let_def)
  then show "validate_content_directory w (AList.update ''manifest.json'' data d) = validate_content_directory w d"
    by (simp add: validate_content_directory_def)
qed

section \<open>Publishing\<close>

lemma publish_keeps:
  assumes "stage_and_publish w fetch bytes m staging s = (Inl e, s')"
  shows "other_dirs staging s' = other_dirs staging s"
proof -
  obtain a t where a: "stage_files w fetch staging (cm_files m) s = (a, t)" by force
  have t: "other_dirs staging t = other_dirs staging s"
    using stage_files_keeps [of staging w fetch "cm_files m" s] a by simp
  obtain b u where b: "store_call (write_in staging ''manifest.json'' bytes) t = (b, u)" by force
  have u: "other_dirs staging u = other_dirs staging t"
    using store_call_keeps [of staging "write_in staging ''manifest.json'' bytes" t] b
    by (simp add: store_ops_keep)
  obtain c v where c: "store_call (rename_dir staging (cm_version m)) u = (c, v)" by force
  have v: "c = Inl e' \<Longrightarrow> st_dirs v = st_dirs u" for e'
    using c by (cases rule: store_call_cases [of "rename_dir staging (cm_version m)" u])
      (auto simp: map_fail_def rename_dir_def split: option.splits)
  show ?thesis
  proof (cases "validate_content_directory w (case map_of (st_dirs t) staging of None \<Rightarrow> [] | Some d \<Rightarrow> d)")
    case (Inl e1)
    with assms a t show ?thesis by (cases a) (auto simp: stage_and_publish_def run_then_def)
  next
    case (Inr x)
    with assms a b c t u v show ?thesis
      by (cases a; cases b; cases c) (auto simp: stage_and_publish_def run_then_def other_dirs_def)
  qed
qed

lemma publish_Inr:
  assumes "stage_and_publish w fetch bytes m staging s = (Inr v, s')" "map_of (st_dirs s) staging = Some []"
    and paths: "\<forall>item \<in> set (cm_files m). \<exists>p. content_path (cf_path item) = Inr p"
  obtains d where "v = cm_version m" "map_of (st_dirs s) v = None"
    "map_of (st_dirs s') = (map_of (st_dirs s))(staging := None, v \<mapsto> d)"
    "validate_content_directory w d = Inr ()"
    "holds_declared w d (cm_files m)"
proof -
  let ?staged = "\<lambda>t. case map_of (st_dirs t) staging of None \<Rightarrow> [] | Some d \<Rightarrow> d"
  from assms(1) obtain t u where
    1: "stage_files w fetch staging (cm_files m) s = (Inr (), t)"
    and 2: "validate_content_directory w (?staged t) = Inr ()"
    and 3: "store_call (write_in staging ''manifest.json'' bytes) t = (Inr (), u)"
    and 4: "store_call (rename_dir staging (cm_version m)) u = (Inr (), s')" "v = cm_version m"
    by (auto simp: stage_and_publish_def run_then_Inr_iff)
  from stage_files_Inr [OF 1 assms(2)] obtain d where d: "map_of (st_dirs t) staging = Some d"
    "holds_declared w d (cm_files m)"
    by blast
  obtain x where x: "st_dirs x = st_dirs t" "write_in staging ''manifest.json'' bytes x = (Inr (), u)"
    by (rule store_call_Inr [OF 3])
  obtain y where y: "st_dirs y = st_dirs u" "rename_dir staging (cm_version m) y = (Inr (), s')"
    by (rule store_call_Inr [OF 4(1)])
  let ?d = "AList.update ''manifest.json'' bytes d"
  have u: "map_of (st_dirs u) = (map_of (st_dirs t))(staging \<mapsto> ?d)"
    using x d by (auto simp: write_in_def)
  then have n: "map_of (st_dirs u) v = None"
    "map_of (st_dirs s') = (map_of (st_dirs u))(staging := None, v \<mapsto> ?d)"
    using y 4(2) by (auto simp: rename_dir_def split: option.splits)
  have o: "other_dirs staging t = other_dirs staging s"
    using stage_files_keeps [of staging w fetch "cm_files m" s] 1 by simp
  then have o2: "\<forall>n. n \<noteq> staging \<longrightarrow> map_of (st_dirs t) n = map_of (st_dirs s) n"
    by (simp only: other_dirs_iff)
  have v: "v \<noteq> staging" using n(1) u by auto
  have k: "item_key item \<noteq> ''manifest.json''" if "item \<in> set (cm_files m)" for item
    using paths that file_key_manifest content_path_Inr by (fastforce simp: item_key_def)
  show thesis
  proof (rule that [of ?d])
    show "v = cm_version m" by (rule 4(2))
    show "map_of (st_dirs s) v = None" using n(1) u o2 v by simp
    show "map_of (st_dirs s') = (map_of (st_dirs s))(staging := None, v \<mapsto> ?d)"
      using n(2) u o2 by (auto simp: fun_eq_iff)
    show "validate_content_directory w ?d = Inr ()" using 2 d(1) by simp
    show "holds_declared w ?d (cm_files m)"
      using d(2) k unfolding holds_declared_def by auto
  qed
qed

section \<open>Accepted manifests\<close>

definition item_ok :: "update_world \<Rightarrow> content_file \<Rightarrow> bool" where
  "item_ok w item \<longleftrightarrow> content_path (cf_path item) = Inr (slashed (cf_path item))
     \<and> (\<exists>url. uw_url w (cf_url item) = Inr url \<and> pu_scheme url = ''https'' \<and> pu_host url \<noteq> None
          \<and> pu_username url = [] \<and> pu_password url = None)
     \<and> cf_size item \<le> FILE_LIMIT \<and> length (cf_sha256 item) = 64 \<and> list_all hex_digit (cf_sha256 item)"

lemma validate_item_Inr:
  "validate_item w paths item = Inr u \<Longrightarrow> item_ok w item \<and> to_ascii_lowercase (cf_path item) \<notin> set paths"
  by (auto simp: validate_item_def item_ok_def validate_https_url_def result_iffs not_less
      split: if_splits dest: content_path_Inr)

lemma validate_items_Inr:
  "validate_items w paths items = Inr u \<Longrightarrow> list_all (item_ok w) items
     \<and> distinct (map (\<lambda>i. to_ascii_lowercase (cf_path i)) items)
     \<and> (\<forall>i \<in> set items. to_ascii_lowercase (cf_path i) \<notin> set paths)"
proof (induction items arbitrary: paths)
  case (Cons item items)
  from Cons.prems have i: "validate_item w paths item = Inr ()"
    and r: "validate_items w (to_ascii_lowercase (cf_path item) # paths) items = Inr u"
    by (auto simp: result_iffs)
  from Cons.IH [OF r] validate_item_Inr [OF i] show ?case by auto
qed simp

lemma verify_manifest_cases:
  assumes "verify_manifest w bytes = Inr m"
  obtains members encoded signature message where "length bytes \<le> MANIFEST_LIMIT"
    "uw_json w bytes = Inr (JObject members)" "map_of members ''signature'' = Some (JString encoded)"
    "uw_base64 w encoded = Some signature" "length signature = 64"
    "canonical_manifest_bytes w (JObject (AList.delete ''signature'' members)) = Inr message"
    "uw_verify_strict w message signature" "validate_manifest_fields w m = Inr ()"
proof -
  from assms obtain raw where raw: "uw_json w bytes = Inr raw" "length bytes \<le> MANIFEST_LIMIT"
    by (auto simp: verify_manifest_def result_iffs split: if_splits)
  with assms obtain members encoded where m: "raw = JObject members" "map_of members ''signature'' = Some (JString encoded)"
    by (auto simp: verify_manifest_def split: json.splits option.splits if_splits)
  with assms raw obtain signature message where
    "uw_base64 w encoded = Some signature" "length signature = 64"
    "canonical_manifest_bytes w (JObject (AList.delete ''signature'' members)) = Inr message"
    "uw_verify_strict w message signature" "validate_manifest_fields w m = Inr ()"
    by (auto simp: verify_manifest_def Let_def result_iffs split: option.splits if_splits)
  with raw m show thesis by (intro that) simp_all
qed

lemma validate_fields_Inr:
  assumes "validate_manifest_fields w m = Inr u"
  shows "cm_schema m = 1 \<and> validate_version (cm_version m) = Inr () \<and> cm_files m \<noteq> []
    \<and> list_all (item_ok w) (cm_files m)
    \<and> distinct (map (\<lambda>i. to_ascii_lowercase (cf_path i)) (cm_files m))"
  using assms validate_items_Inr [of w "[]" "cm_files m"]
  by (auto simp: validate_manifest_fields_def result_iffs split: if_splits)

text \<open>
  C10. An accepted manifest is authentic and bounded.  The document has at most 1 MiB, it carries a
  64-byte signature that the pinned key verifies over the canonical bytes of the document without
  the signature, and every declared file stays inside the version directory (the reputation feed or
  a YARA file below \<^verbatim>\<open>rules\<close>, no parent component), comes from a credential-free HTTPS URL and has
  at most 64 MiB and a 64-digit digest; no two paths agree up to case.
\<close>

theorem accepted_manifest_is_authentic:
  assumes "verify_manifest w bytes = Inr m"
  shows "length bytes \<le> MANIFEST_LIMIT
    \<and> (\<exists>members encoded signature message. uw_json w bytes = Inr (JObject members)
         \<and> map_of members ''signature'' = Some (JString encoded) \<and> uw_base64 w encoded = Some signature
         \<and> length signature = 64
         \<and> canonical_manifest_bytes w (JObject (AList.delete ''signature'' members)) = Inr message
         \<and> uw_verify_strict w message signature)
    \<and> cm_schema m = 1 \<and> list_all (item_ok w) (cm_files m)
    \<and> list_all (\<lambda>i. (normal_components (slashed (cf_path i)) = [''reputation.json'']
          \<or> (\<exists>rest. normal_components (slashed (cf_path i)) = ''rules'' # rest))
          \<and> ''..'' \<notin> set (normal_components (slashed (cf_path i)))) (cm_files m)
    \<and> distinct (map (\<lambda>i. to_ascii_lowercase (cf_path i)) (cm_files m))"
proof -
  have "(normal_components (slashed (cf_path i)) = [''reputation.json'']
          \<or> (\<exists>rest. normal_components (slashed (cf_path i)) = ''rules'' # rest))
          \<and> ''..'' \<notin> set (normal_components (slashed (cf_path i)))" if "item_ok w i" for i
    using that by (intro content_path_inside [of "cf_path i"]) (simp add: item_ok_def)
  note inside = this
  obtain members encoded signature message where
    l: "length bytes \<le> MANIFEST_LIMIT" and
    sig: "uw_json w bytes = Inr (JObject members)" "map_of members ''signature'' = Some (JString encoded)"
      "uw_base64 w encoded = Some signature" "length signature = 64"
      "canonical_manifest_bytes w (JObject (AList.delete ''signature'' members)) = Inr message"
      "uw_verify_strict w message signature" and
    v: "validate_manifest_fields w m = Inr ()"
    by (rule verify_manifest_cases [OF assms])
  note f = validate_fields_Inr [OF v]
  have part: "list_all (\<lambda>i. (normal_components (slashed (cf_path i)) = [''reputation.json'']
          \<or> (\<exists>rest. normal_components (slashed (cf_path i)) = ''rules'' # rest))
          \<and> ''..'' \<notin> set (normal_components (slashed (cf_path i)))) (cm_files m)"
    using f inside by (auto simp: list_all_iff)
  have signed: "\<exists>members text signature message. uw_json w bytes = Inr (JObject members)
         \<and> map_of members ''signature'' = Some (JString text) \<and> uw_base64 w text = Some signature
         \<and> length signature = 64
         \<and> canonical_manifest_bytes w (JObject (AList.delete ''signature'' members)) = Inr message
         \<and> uw_verify_strict w message signature"
    using sig by blast
  from l signed f part show ?thesis by (intro conjI) simp_all
qed

section \<open>Installing is atomic\<close>

lemma check_installed_Inr:
  "check_installed w d items = Inr u \<Longrightarrow>
     \<forall>item \<in> set items. \<exists>data. map_of d (item_key item) = Some data \<and> authentic w item data"
proof (induction items)
  case (Cons item items)
  from Cons.prems obtain p data where
    "content_path (cf_path item) = Inr p" "map_of d (file_key p) = Some data"
    "validate_content_bytes w item data = Inr ()" "check_installed w d items = Inr u"
    by (auto simp: result_iffs)
  with Cons.IH content_path_Inr [of "cf_path item" p] show ?case
    by (auto simp: item_key_def validate_content_bytes_iff)
qed simp

lemma empty_never_validates: "validate_installed w [] m \<noteq> Inr u"
  by (auto simp: validate_installed_def validate_content_directory_def scanner_from_directory_def
      rules_entries_def result_iffs)

lemma check_installed_holds: "check_installed w d items = Inr u \<Longrightarrow> holds_declared w d items"
  by (rule holds_declaredI) (use check_installed_Inr in blast)

lemma install_effect:
  assumes "install_with_fetcher w fetch bytes s = (r, s')"
  shows "(\<forall>e. r = Inl e \<longrightarrow> (\<exists>staging. \<forall>n. n \<noteq> staging \<longrightarrow> map_of (st_dirs s') n = map_of (st_dirs s) n))
    \<and> (\<forall>v. r = Inr v \<longrightarrow> (\<exists>m d. verify_manifest w bytes = Inr m \<and> v = cm_version m
         \<and> map_of (st_dirs s') v = Some d \<and> validate_content_directory w d = Inr ()
         \<and> (\<forall>n. n \<notin> {v, staging_name v (uw_id w)} \<longrightarrow> map_of (st_dirs s') n = map_of (st_dirs s) n)
         \<and> holds_declared w d (cm_files m)))
    \<and> (\<forall>n d. map_of (st_dirs s) n = Some d \<longrightarrow> map_of (st_dirs s') n = Some d)"
proof (cases "verify_manifest w bytes")
  case (Inl e)
  with assms show ?thesis by (auto simp: install_with_fetcher_def)
next
  case (Inr m)
  let ?v = "cm_version m" and ?st = "staging_name (cm_version m) (uw_id w)"
  have paths: "\<forall>item \<in> set (cm_files m). \<exists>p. content_path (cf_path item) = Inr p"
  proof (rule verify_manifest_cases [OF Inr])
    assume "validate_manifest_fields w m = Inr ()"
    from validate_fields_Inr [OF this] show ?thesis by (auto simp: item_ok_def list_all_iff)
  qed
  obtain a t where a: "store_call touch s = (a, t)" by force
  have t: "st_dirs t = st_dirs s"
    using a by (cases rule: store_call_cases [of touch s]) (auto simp: map_fail_def touch_def)
  show ?thesis
  proof (cases a)
    case (Inl e)
    with assms Inr a t show ?thesis by (auto simp: install_with_fetcher_def run_then_def)
  next
    case a2: (Inr x)
    show ?thesis
    proof (cases "version_dir ?v s")
      case (Some d)
      then have "version_dir ?v t = Some d" using Some t by (auto simp: version_dir_def)
      with assms Inr a a2 have i: "s' = t" "r = and_then (validate_installed w d m) (\<lambda>_. Inr ?v)"
        by (auto simp: install_with_fetcher_def run_then_def)
      show ?thesis
      proof (cases "validate_installed w d m")
        case (Inl e)
        with i t show ?thesis by auto
      next
        case valid: (Inr u)
        then have "map_of (st_dirs s) ?v = Some d"
          using Some empty_never_validates [of w m u] by (auto simp: version_dir_def split: if_splits)
        moreover have "holds_declared w d (cm_files m)" "validate_content_directory w d = Inr ()"
          using valid check_installed_holds by (auto simp: validate_installed_def result_iffs)
        ultimately show ?thesis using i t valid Inr by auto
      qed
    next
      case vdir: None
      then have None: "map_of (st_dirs s) ?v = None" by (simp add: version_dir_def split: if_splits)
      have absent: "version_dir ?v t = None" using vdir t by (simp add: version_dir_def split: if_splits)
      obtain b u where b: "store_call (create_dir ?st) t = (b, u)" by force
      have old: "b = Inr y \<Longrightarrow> map_of (st_dirs s) ?st = None" for y
        using b t
        by (cases rule: store_call_cases [of "create_dir ?st" t])
          (auto simp: map_fail_def create_dir_def split: if_splits)
      have keep: "b = Inl e \<Longrightarrow> st_dirs u = st_dirs s" for e
        using b t by (cases rule: store_call_cases [of "create_dir ?st" t])
          (auto simp: map_fail_def create_dir_def split: if_splits)
      have u: "other_dirs ?st u = other_dirs ?st s"
        using store_call_keeps [of ?st "create_dir ?st" t] b t
        by (simp add: store_ops_keep other_dirs_same [OF t])
      show ?thesis
      proof (cases b)
        case (Inl e)
        with assms Inr a a2 absent b have "r = Inl e" "s' = u"
          by (auto simp: install_with_fetcher_def run_then_def Let_def)
        with u keep Inl show ?thesis by (auto simp: other_dirs_iff)
      next
        case b2: (Inr y)
        obtain y2 where "st_dirs y2 = st_dirs t" "create_dir ?st y2 = (Inr y, u)"
          by (rule store_call_Inr [OF b [unfolded b2]])
        then have e: "map_of (st_dirs u) ?st = Some []"
          by (auto simp: create_dir_def split: if_splits)
        obtain c v where c: "stage_and_publish w fetch bytes m ?st u = (c, v)" by force
        have r: "(r, s') = (case c of Inl e \<Rightarrow> (Inl e, ignoring (store_call (remove_dir_all ?st)) v)
            | Inr v1 \<Rightarrow> (Inr v1, v))"
          using assms Inr a a2 absent b b2 c
          by (auto simp: install_with_fetcher_def run_then_def Let_def split: sum.splits)
        show ?thesis
        proof (cases c)
          case (Inl e)
          have "other_dirs ?st s' = other_dirs ?st v"
            using r Inl store_call_keeps [of ?st "remove_dir_all ?st" v]
            by (simp add: ignoring_def store_ops_keep)
          also have "\<dots> = other_dirs ?st u" using publish_keeps c Inl by blast
          finally have o: "other_dirs ?st s' = other_dirs ?st s" using u by simp
          then have "map_of (st_dirs s') n = Some d" if "map_of (st_dirs s) n = Some d" for n d
            using that old [OF b2] by (cases "n = ?st") (simp_all add: other_dirs_iff)
          with o r Inl show ?thesis by (auto simp: other_dirs_iff)
        next
          case c2: (Inr v1)
          obtain d where d: "v1 = ?v" "map_of (st_dirs v) = (map_of (st_dirs u))(?st := None, v1 \<mapsto> d)"
            "validate_content_directory w d = Inr ()"
            "holds_declared w d (cm_files m)"
            using publish_Inr [OF c [unfolded c2] e paths] by blast
          have "\<forall>n. n \<noteq> ?st \<longrightarrow> map_of (st_dirs u) n = map_of (st_dirs s) n"
            using u by (simp only: other_dirs_iff)
          then show ?thesis using d r c2 Inr old [OF b2] None by auto
        qed
      qed
    qed
  qed
qed


section \<open>The signed bytes\<close>

text \<open>The order in which a document lists the members of its objects does not reach the signature.\<close>

lemma canonical_ignores_member_order:
  assumes "mset members = mset members'" "distinct (map fst members)"
  shows "canonical scalar (JObject members) = canonical scalar (JObject members')"
proof -
  let ?w = "\<lambda>(key, v). (key, canonical scalar v)"
  have "mset (map ?w members) = mset (sort_key fst (map ?w members'))"
    using assms(1) by simp
  moreover have "distinct (map fst (map ?w members))"
    using assms(2) by (simp add: comp_def case_prod_beta)
  then have "inj_on fst (set (map ?w members))" by (simp only: distinct_map)
  ultimately have "sort_key fst (map ?w members) = sort_key fst (map ?w members')"
    by (rule sort_key_inj_key_eq) simp
  then show ?thesis by simp
qed

section \<open>Concrete runs and gaps\<close>

definition sample_file :: "string \<Rightarrow> content_file" where
  "sample_file p = \<lparr>cf_path = p, cf_url = ''https://host/'', cf_sha256 = replicate 64 CHR ''a'', cf_size = 4\<rparr>"

definition sample_manifest :: "string list \<Rightarrow> content_manifest" where
  "sample_manifest paths = \<lparr>cm_schema = 1, cm_version = ''v1'', cm_published_at = [],
     cm_files = map sample_file paths, cm_signature = ''s''\<rparr>"

definition sample_updates :: "string list \<Rightarrow> update_world" where
  "sample_updates paths = \<lparr>uw_json = (\<lambda>_. Inr (JObject [(''signature'', JString ''s'')])),
     uw_from_value = (\<lambda>_. Inr (sample_manifest paths)), uw_scalar = (\<lambda>_. Inr ''x''),
     uw_base64 = (\<lambda>_. Some (replicate 64 CHR ''b'')), uw_verify_strict = (\<lambda>_ _. True),
     uw_url = (\<lambda>_. Inr \<lparr>pu_scheme = ''https'', pu_host = Some ''host'', pu_username = [], pu_password = None\<rparr>),
     uw_sha256 = (\<lambda>_. replicate 64 CHR ''A''), uw_agent = (\<lambda>_. Inl ''offline''),
     uw_compile = (\<lambda>_. None), uw_id = ''1''\<rparr>"

definition sample_install :: "string list \<Rightarrow> outcome list \<Rightarrow> (update_error + string) \<times> store" where
  "sample_install paths outcomes =
     install_with_fetcher (sample_updates paths) (\<lambda>_ _. Inr ''rule'') [] \<lparr>st_dirs = [], st_outcomes = outcomes\<rparr>"

lemma sample_manifest_accepted:
  "verify_manifest (sample_updates [''rules/a.yar'']) [] = Inr (sample_manifest [''rules/a.yar''])"
  by code_simp

theorem accepted_manifest_is_authentic_witness:
  "list_all (item_ok (sample_updates [''rules/a.yar''])) [sample_file ''rules/a.yar'']"
  using accepted_manifest_is_authentic [OF sample_manifest_accepted] by (simp add: sample_manifest_def)

lemma sample_install_ok: "fst (sample_install [''rules/a.yar''] []) = Inr ''v1''"
  by code_simp


text \<open>Two spellings of one path pass the duplicate check, and the later file silently replaces the first.\<close>

lemma duplicate_check_misses_spellings:
  "is_ok (validate_manifest_fields (sample_updates []) (sample_manifest
       [''rules/a.yar'', ''rules'' @ [backslash] @ ''a.yar'', ''rules//a.yar'', ''rules/./a.yar'']))
   \<and> map item_key [sample_file ''rules/a.yar'', sample_file (''rules'' @ [backslash] @ ''a.yar''),
       sample_file ''rules//a.yar'', sample_file ''rules/./a.yar''] = replicate 4 ''rules/a.yar''"
  by code_simp

text \<open>Rules in a subdirectory or with an upper-case extension are accepted but never compiled.\<close>

lemma accepted_rules_not_compiled:
  "is_ok (content_path ''rules/a.YAR'') \<and> is_ok (content_path ''rules/sub/a.yar'')
   \<and> fst (sample_install [''rules/a.YAR''] []) = Inl (UpdateContent ''content contains no YARA rules'')
   \<and> fst (sample_install [''rules/sub/a.yar''] []) = Inl (UpdateContent ''content contains no YARA rules'')"
  by code_simp

text \<open>
  A version may be named as the parent directory: that directory exists, and what is looked for in it is
  not there, so that nothing is installed under such a name.
\<close>

lemma parent_directory_is_never_installed:
  assumes "verify_manifest w bytes = Inr m" "cm_version m = ''..'' \<or> cm_version m = ''.''"
  shows "\<exists>e. fst (install_with_fetcher w fetch bytes s) = Inl e"
proof -
  obtain a t where a: "store_call touch s = (a, t)" by force
  have "version_dir (cm_version m) t = Some []" using assms(2) by (auto simp: version_dir_def)
  moreover obtain e where "validate_installed w [] m = Inl e"
    using empty_never_validates [of w m] by (cases "validate_installed w [] m") auto
  ultimately show ?thesis using assms(1) a by (cases a) (auto simp: install_with_fetcher_def run_then_def)
qed

lemma parent_directory_is_a_version: "validate_version ''..'' = Inr () \<and> validate_version ''.'' = Inr ()"
  by code_simp

end
