(* ===== verification/OG_Content.thy ===== *)
theory OG_Content
  imports OG_Updates OG_Reputation
begin

text \<open>
  Activation of security content in the service (\<^verbatim>\<open>content_status\<close>, \<^verbatim>\<open>install_content_update\<close>,
  \<^verbatim>\<open>rollback_content_update\<close> and the choice of the initial content in \<^verbatim>\<open>openguard-service/src/main.rs\<close>).
  The state is what these functions read and write: the scanner and the feed in use, the commands
  sent to the protection monitor, the active version and its source, the version store and the host
  with the database.
\<close>

section \<open>State\<close>

record content_service =
  sv_scanner :: file_scanner
  sv_feed :: reputation_feed
  sv_commands :: "(file_scanner \<times> reputation_feed) list option"
  sv_version :: string
  sv_source :: string
  sv_store :: store
  sv_host :: host

definition on_host :: "(host \<Rightarrow> 'r \<times> host) \<Rightarrow> content_service \<Rightarrow> 'r \<times> content_service" where
  "on_host f s = (case f (sv_host s) of (r, h) \<Rightarrow> (r, s\<lparr>sv_host := h\<rparr>))"

definition on_store :: "(store \<Rightarrow> 'r \<times> store) \<Rightarrow> content_service \<Rightarrow> 'r \<times> content_service" where
  "on_store f s = (case f (sv_store s) of (r, st) \<Rightarrow> (r, s\<lparr>sv_store := st\<rparr>))"

section \<open>Operations\<close>

definition windows_error_display :: "windows_error \<Rightarrow> string" where
  "windows_error_display e = (case e of
     WinApi m \<Rightarrow> ''Windows API failed: '' @ m
   | WinStatus api status \<Rightarrow> api @ '' failed with Win32 status '' @ show_nat (unat status)
   | WinInvalidTable \<Rightarrow> ''Windows returned an invalid table size'')"

definition update_error_display :: "update_error \<Rightarrow> string" where
  "update_error_display e = (case e of
     UpdateManifest m \<Rightarrow> ''security-content manifest is invalid: '' @ m
   | InvalidSignature \<Rightarrow> ''security-content signature is invalid''
   | UpdateNetwork m \<Rightarrow> ''security-content download failed: '' @ m
   | UpdateContent m \<Rightarrow> ''security-content file failed validation: '' @ m
   | UpdateIo m \<Rightarrow> ''security-content I/O failed: '' @ m
   | UpdateJson m \<Rightarrow> ''security-content JSON failed: '' @ m)"

text \<open>\<^verbatim>\<open>ReputationFeed::from_path\<close> of the feed of a version; \<open>feed_json\<close> reads the document.\<close>

definition feed_from_path ::
  "(bytes \<Rightarrow> string + reputation_document) \<Rightarrow> string \<Rightarrow> store \<Rightarrow> windows_error + reputation_feed" where
  "feed_from_path feed_json v st =
     (case (case version_dir v st of None \<Rightarrow> None | Some d \<Rightarrow> map_of d ''reputation.json'') of
        None \<Rightarrow> Inl (WinApi (''read reputation feed '' @ v @ [backslash] @ ''reputation.json''))
      | Some data \<Rightarrow> from_json feed_json data)"

definition read_metadata :: "string \<Rightarrow> content_service \<Rightarrow> (storage_error + string option) \<times> content_service" where
  "read_metadata key = on_host (db_call (\<lambda>d. (Inr (get_metadata key d), d)))"

definition nonempty :: "string option \<Rightarrow> string option" where
  "nonempty v = (if v = Some [] then None else v)"

definition content_status_of ::
  "content_service \<Rightarrow> (api_error + content_status) \<times> content_service" where
  "content_status_of =
     run_then (map_fail (\<lambda>e. \<lparr>ae_code = Internal, ae_message = ''Read content activation state: ''
           @ storage_error_display e, ae_retryable = True\<rparr>) (read_metadata ''previous_content_version''))
       (\<lambda>previous s. (Inr \<lparr>ct_active_version = sv_version s, ct_previous_version = nonempty previous,
          ct_source = sv_source s, ct_manifest_url = DEFAULT_MANIFEST_URL\<rparr>, s))"

definition commit_activation ::
  "string \<Rightarrow> string \<Rightarrow> string option \<Rightarrow> content_service \<Rightarrow> (api_error + unit) \<times> content_service" where
  "commit_activation what version previous =
     map_fail (\<lambda>e. \<lparr>ae_code = Internal, ae_message = ''Commit security-content '' @ what @ '': ''
         @ storage_error_display e, ae_retryable = True\<rparr>)
       (on_host (db_call (\<lambda>d. (Inr (), activate_content_version version previous d))))"

text \<open>After the commit: the monitor, the scanner, the collector, the version and the source.\<close>

definition adopt :: "file_scanner \<Rightarrow> reputation_feed \<Rightarrow> string \<Rightarrow> content_service \<Rightarrow> content_service" where
  "adopt scanner feed version s =
     s\<lparr>sv_commands := map_option (\<lambda>q. q @ [(scanner, feed)]) (sv_commands s),
       sv_scanner := scanner, sv_feed := feed, sv_version := version, sv_source := ''signed_update''\<rparr>"

text \<open>\<open>verb\<close> and \<open>noun\<close> are the texts in which installing and rolling back differ.\<close>

definition load_version ::
  "update_world \<Rightarrow> (bytes \<Rightarrow> string + reputation_document) \<Rightarrow> string \<Rightarrow> string \<Rightarrow> string
   \<Rightarrow> content_service \<Rightarrow> (api_error + file_scanner \<times> reputation_feed) \<times> content_service" where
  "load_version w feed_json scanner_text feed_text version s =
     (and_then (map_err (\<lambda>e. \<lparr>ae_code = Conflict, ae_message = scanner_text @ update_error_display e,
           ae_retryable = False\<rparr>) (scanner_for_version w version (sv_store s))) (\<lambda>scanner.
        and_then (map_err (\<lambda>e. \<lparr>ae_code = Conflict, ae_message = feed_text @ windows_error_display e,
           ae_retryable = False\<rparr>) (feed_from_path feed_json version (sv_store s))) (\<lambda>feed.
        Inr (scanner, feed))), s)"

definition install_content_update ::
  "update_world \<Rightarrow> (bytes \<Rightarrow> string + reputation_document) \<Rightarrow> content_service
   \<Rightarrow> (api_error + content_status) \<times> content_service" where
  "install_content_update w feed_json =
     run_then (map_fail (\<lambda>e. \<lparr>ae_code = LimitedCoverage, ae_message = ''Install signed security content: ''
           @ update_error_display e, ae_retryable = True\<rparr>) (on_store (install_official w))) (\<lambda>version s.
       if version = sv_version s then content_status_of s
       else run_then (load_version w feed_json ''Activate validated security content: ''
                ''Activate validated network reputation: '' version) (\<lambda>(scanner, feed) s.
            run_then (commit_activation ''activation'' version
                (if sv_source s = ''signed_update'' then Some (sv_version s) else None))
              (\<lambda>_ s. content_status_of (adopt scanner feed version s)) s) s)"

definition rollback_content_update ::
  "update_world \<Rightarrow> (bytes \<Rightarrow> string + reputation_document) \<Rightarrow> content_service
   \<Rightarrow> (api_error + content_status) \<times> content_service" where
  "rollback_content_update w feed_json =
     run_then (map_fail (\<lambda>e. \<lparr>ae_code = Internal, ae_message = ''Read content rollback state: ''
           @ storage_error_display e, ae_retryable = True\<rparr>) (read_metadata ''previous_content_version''))
       (\<lambda>found s. case nonempty found of
          None \<Rightarrow> (Inl \<lparr>ae_code = NotFound, ae_message = ''No previous signed content version is available'',
                    ae_retryable = False\<rparr>, s)
        | Some previous \<Rightarrow>
            run_then (load_version w feed_json ''Validate rollback security content: ''
                ''Validate rollback network reputation: '' previous) (\<lambda>(scanner, feed) s.
            run_then (commit_activation ''rollback'' previous (Some (sv_version s)))
              (\<lambda>_ s. content_status_of (adopt scanner feed previous s)) s) s)"

definition BUNDLED_VERSION :: string where "BUNDLED_VERSION = ''bundled-2026.08.06.1''"

text \<open>The content a service starts with: the recorded version when it still loads, else the bundle.\<close>

definition initial_content ::
  "update_world \<Rightarrow> (bytes \<Rightarrow> string + reputation_document) \<Rightarrow> file_scanner \<times> reputation_feed \<Rightarrow> string option
   \<Rightarrow> store \<Rightarrow> (file_scanner \<times> reputation_feed) \<times> string \<times> string" where
  "initial_content w feed_json bundled active st =
     (case active of
        None \<Rightarrow> (bundled, BUNDLED_VERSION, ''bundled'')
      | Some version \<Rightarrow>
          (case (scanner_for_version w version st, feed_from_path feed_json version st) of
             (Inr scanner, Inr feed) \<Rightarrow> ((scanner, feed), version, ''signed_update'')
           | _ \<Rightarrow> (bundled, BUNDLED_VERSION, ''bundled'')))"

definition start_content ::
  "update_world \<Rightarrow> (bytes \<Rightarrow> string + reputation_document) \<Rightarrow> file_scanner \<times> reputation_feed
   \<Rightarrow> store \<Rightarrow> host \<Rightarrow> content_service" where
  "start_content w feed_json bundled st h =
     (case initial_content w feed_json bundled (get_metadata ''active_content_version'' (hs_db h)) st of
        ((scanner, feed), version, source) \<Rightarrow>
          \<lparr>sv_scanner = scanner, sv_feed = feed, sv_commands = Some [(scanner, feed)], sv_version = version,
           sv_source = source, sv_store = st, sv_host = h\<rparr>)"

section \<open>Memory, monitor and database agree\<close>

text \<open>
  A service runs either the content of a signed version, or the bundle.  The content of a version is
  what the scanner and the feed of its directory were loaded as, by one of the loaders that served
  calls so far (the rules engine and the document reader may change between calls); the version is
  the one of the database.  The bundle runs only in a service that started on it, because the
  database named no version then or one that did not load, and the database still names that one.
\<close>

type_synonym loader = "update_world \<times> (bytes \<Rightarrow> string + reputation_document)"

definition loads :: "loader \<Rightarrow> string \<Rightarrow> store \<Rightarrow> file_scanner \<times> reputation_feed \<Rightarrow> bool" where
  "loads l v st c \<longleftrightarrow> scanner_for_version (fst l) v st = Inr (fst c) \<and> feed_from_path (snd l) v st = Inr (snd c)"

definition starts_on_bundle :: "loader \<Rightarrow> string option \<Rightarrow> store \<Rightarrow> bool" where
  "starts_on_bundle l active st \<longleftrightarrow> (\<forall>v c. active = Some v \<longrightarrow> \<not> loads l v st c)"

text \<open>\<open>start\<close> is the bundle and the version of the database, of a service that started on the bundle.\<close>

definition content_ok ::
  "loader set \<Rightarrow> ((file_scanner \<times> reputation_feed) \<times> string option) option \<Rightarrow> content_service \<Rightarrow> bool" where
  "content_ok L start s \<longleftrightarrow>
     (if sv_source s = ''signed_update''
      then (\<exists>l \<in> L. loads l (sv_version s) (sv_store s) (sv_scanner s, sv_feed s))
        \<and> get_metadata ''active_content_version'' (hs_db (sv_host s)) = Some (sv_version s)
      else sv_source s = ''bundled'' \<and> sv_version s = BUNDLED_VERSION
        \<and> start = Some ((sv_scanner s, sv_feed s), get_metadata ''active_content_version'' (hs_db (sv_host s))))
     \<and> (\<exists>q. sv_commands s = Some q \<and> q \<noteq> [] \<and> last q = (sv_scanner s, sv_feed s))"

text \<open>What a service uses.\<close>

definition in_use :: "content_service \<Rightarrow> file_scanner \<times> reputation_feed \<times> string \<times> string \<times> database" where
  "in_use s = (sv_scanner s, sv_feed s, sv_version s, sv_source s, hs_db (sv_host s))"

definition bundle_start ::
  "loader \<Rightarrow> file_scanner \<times> reputation_feed \<Rightarrow> string option \<Rightarrow> store
   \<Rightarrow> ((file_scanner \<times> reputation_feed) \<times> string option) option" where
  "bundle_start l bundled active st = (if starts_on_bundle l active st then Some (bundled, active) else None)"

lemma initial_content_cases:
  obtains (on_bundle) "starts_on_bundle (w, feed_json) active st"
      "initial_content w feed_json bundled active st = (bundled, BUNDLED_VERSION, ''bundled'')"
  | (signed) v scanner feed where "active = Some v" "loads (w, feed_json) v st (scanner, feed)"
      "initial_content w feed_json bundled active st = ((scanner, feed), v, ''signed_update'')"
proof (cases active)
  case None
  then show thesis by (intro on_bundle) (simp_all add: starts_on_bundle_def initial_content_def)
next
  case (Some v)
  show thesis
  proof (cases "\<exists>scanner feed. loads (w, feed_json) v st (scanner, feed)")
    case True
    then obtain scanner feed where l: "loads (w, feed_json) v st (scanner, feed)" by blast
    with Some show thesis by (intro signed [OF _ l]) (simp_all add: loads_def initial_content_def)
  next
    case False
    with Some show thesis
      by (intro on_bundle) (auto simp: starts_on_bundle_def loads_def initial_content_def split: sum.splits)
  qed
qed

lemma start_content_ok:
  assumes "(w, feed_json) \<in> L" "active = get_metadata ''active_content_version'' (hs_db h)"
  shows "content_ok L (bundle_start (w, feed_json) bundled active st) (start_content w feed_json bundled st h)"
proof (cases w feed_json active st bundled rule: initial_content_cases)
  case on_bundle
  then show ?thesis
    by (cases bundled) (simp add: content_ok_def start_content_def bundle_start_def assms(2))
next
  case (signed v scanner feed)
  then show ?thesis
    using assms by (auto simp: content_ok_def start_content_def intro!: bexI [OF _ assms(1)])
qed

text \<open>The same service up to the outcomes still to come.\<close>

definition same_service :: "content_service \<Rightarrow> content_service \<Rightarrow> bool" where
  "same_service s t \<longleftrightarrow> t = s\<lparr>sv_host := sv_host t\<rparr> \<and> hs_db (sv_host t) = hs_db (sv_host s)"

lemma same_service_fields:
  assumes "same_service s t"
  shows "sv_scanner t = sv_scanner s" "sv_feed t = sv_feed s" "sv_commands t = sv_commands s"
    "sv_version t = sv_version s" "sv_source t = sv_source s" "sv_store t = sv_store s"
    "hs_db (sv_host t) = hs_db (sv_host s)"
  using assms unfolding same_service_def
  by (metis content_service.select_convs content_service.surjective content_service.update_convs(7))+

lemma same_service_refl [simp]: "same_service s s"
  by (simp add: same_service_def)

lemma content_ok_same: "same_service s t \<Longrightarrow> content_ok L start t \<longleftrightarrow> content_ok L start s"
  by (simp add: content_ok_def same_service_fields)

lemma in_use_same: "same_service s t \<Longrightarrow> in_use t = in_use s"
  by (simp add: in_use_def same_service_fields)

lemma read_metadata_cases:
  obtains (fails) e t where "read_metadata key s = (Inl e, t)" "same_service s t"
  | (works) t where "read_metadata key s = (Inr (get_metadata key (hs_db (sv_host s))), t)" "same_service s t"
proof (cases rule: db_read_cases [of "get_metadata key" "sv_host s"])
  case (fails e h)
  then show thesis
    by (intro that(1) [of e "s\<lparr>sv_host := h\<rparr>"]) (simp_all add: read_metadata_def on_host_def same_service_def)
next
  case (works h)
  then show thesis
    by (intro that(2) [of "s\<lparr>sv_host := h\<rparr>"]) (simp_all add: read_metadata_def on_host_def same_service_def)
qed

lemma content_status_same: "same_service s (snd (content_status_of s))"
  by (cases rule: read_metadata_cases [of "''previous_content_version''" s])
    (simp_all add: content_status_of_def run_then_def map_fail_def)

lemma commit_cases:
  obtains (fails) e t where "commit_activation what version previous s = (Inl e, t)" "same_service s t"
  | (works) h where "commit_activation what version previous s = (Inr (), s\<lparr>sv_host := h\<rparr>)"
      "hs_db h = activate_content_version version previous (hs_db (sv_host s))"
proof (cases "take_outcome (sv_host s)")
  case (Pair a h)
  note k = take_outcome_keeps [OF Pair]
  show thesis
  proof (cases a)
    case Works
    with Pair k show thesis
      by (intro works [of "h\<lparr>hs_db := activate_content_version version previous (hs_db h)\<rparr>"])
        (simp_all add: commit_activation_def on_host_def db_call_def map_fail_def)
  next
    case (Fails e n)
    with Pair k show thesis
      by (intro fails [of _ "s\<lparr>sv_host := h\<rparr>"])
        (auto simp: commit_activation_def on_host_def db_call_def map_fail_def same_service_def)
  qed
qed

lemma active_after_commit:
  "get_metadata ''active_content_version'' (activate_content_version v previous d) = Some v"
  "get_metadata ''previous_content_version'' (activate_content_version v previous d)
     = Some (case previous of None \<Rightarrow> [] | Some p \<Rightarrow> p)"
  by (simp_all add: activate_content_version_def get_metadata_def set_metadata_def)

lemma load_version_Inr:
  "load_version w feed_json a b v s = (Inr (scanner, feed), t) \<longleftrightarrow> t = s
     \<and> scanner_for_version w v (sv_store s) = Inr scanner \<and> feed_from_path feed_json v (sv_store s) = Inr feed"
  by (auto simp: load_version_def result_iffs)

lemma run_then_Inr: "m s = (Inr a, t) \<Longrightarrow> run_then m f s = f a t"
  by (simp add: run_then_def)

lemma run_load_version:
  "run_then (load_version w feed_json a b v) f s
     = (case fst (load_version w feed_json a b v s) of Inl e \<Rightarrow> (Inl e, s) | Inr x \<Rightarrow> f x s)"
  by (simp add: run_then_def load_version_def)

text \<open>The common end of installing and rolling back.\<close>

lemma activate_effect:
  assumes "run_then (load_version w feed_json a b v) (\<lambda>(scanner, feed) s.
      run_then (commit_activation what v previous) (\<lambda>_ s. content_status_of (adopt scanner feed v s)) s) s = (r, s')"
    and "content_ok L start s" "(w, feed_json) \<in> L"
  shows "content_ok L start s'
    \<and> (in_use s' = in_use s \<and> (\<exists>e. r = Inl e)
       \<or> (\<exists>scanner feed. scanner_for_version w v (sv_store s) = Inr scanner
           \<and> feed_from_path feed_json v (sv_store s) = Inr feed
           \<and> in_use s' = (scanner, feed, v, ''signed_update'',
               activate_content_version v previous (hs_db (sv_host s)))))"
proof (cases "fst (load_version w feed_json a b v s)")
  case (Inl e)
  then have "(r, s') = (Inl e, s)"
    using assms(1) by (auto simp: run_then_def load_version_def split: sum.splits)
  with assms(2) show ?thesis by simp
next
  case (Inr sf)
  obtain scanner feed where sf: "sf = (scanner, feed)" by force
  with Inr have l: "load_version w feed_json a b v s = (Inr (scanner, feed), s)"
    by (simp add: load_version_def)
  note ok = l [unfolded load_version_Inr]
  show ?thesis
  proof (cases rule: commit_cases [of what v previous s])
    case (fails e t)
    with assms l have "r = Inl e" "s' = t" by (auto simp: run_then_def)
    with fails(2) assms(2) show ?thesis by (simp add: content_ok_same in_use_same)
  next
    case (works h)
    let ?n = "adopt scanner feed v (s\<lparr>sv_host := h\<rparr>)"
    have s': "s' = snd (content_status_of ?n)"
      using assms(1) l works by (auto simp: run_then_def prod_eq_iff)
    obtain q where "sv_commands s = Some q" using assms(2) by (auto simp: content_ok_def)
    then have "content_ok L start ?n"
      using ok works(2) assms(3)
      by (auto simp: content_ok_def loads_def adopt_def active_after_commit intro!: bexI [of _ "(w, feed_json)"])
    moreover have "in_use ?n = (scanner, feed, v, ''signed_update'',
        activate_content_version v previous (hs_db (sv_host s)))"
      using works(2) by (simp add: in_use_def adopt_def)
    moreover have "same_service ?n s'" unfolding s' by (rule content_status_same)
    ultimately show ?thesis using ok by (auto simp: content_ok_same in_use_same)
  qed
qed

text \<open>Installing files keeps the directory the service runs on.\<close>

lemma missing_dir_does_not_load:
  "version_dir v st = None \<Longrightarrow> scanner_for_version w v st \<noteq> Inr scanner"
  by (auto simp: scanner_for_version_def scanner_from_directory_def rules_entries_def result_iffs)

lemma content_ok_store:
  assumes "content_ok L start s"
    and "\<And>n d. map_of (st_dirs (sv_store s)) n = Some d \<Longrightarrow> map_of (st_dirs st) n = Some d"
  shows "content_ok L start (s\<lparr>sv_store := st\<rparr>)"
proof -
  have "loads l v st c" if "loads l v (sv_store s) c" for l v c
  proof (cases "version_dir v (sv_store s)")
    case None
    with that show ?thesis by (simp add: loads_def missing_dir_does_not_load)
  next
    case (Some d)
    then have "version_dir v st = Some d"
      using assms(2) by (auto simp: version_dir_def split: if_splits)
    with that Some show ?thesis by (simp add: loads_def scanner_for_version_def feed_from_path_def)
  qed
  then have "\<exists>l \<in> L. loads l (sv_version s) st c" if "\<exists>l \<in> L. loads l (sv_version s) (sv_store s) c" for c
    using that by blast
  with assms(1) show ?thesis by (simp add: content_ok_def split: if_splits)
qed

lemma install_official_keeps:
  assumes "map_of (st_dirs s) n = Some d"
  shows "map_of (st_dirs (snd (install_official w s))) n = Some d"
proof (cases "download w DEFAULT_MANIFEST_URL MANIFEST_LIMIT")
  case (Inl e)
  with assms show ?thesis by (simp add: install_official_def install_from_url_def)
next
  case (Inr bytes)
  obtain r s' where i: "install_with_fetcher w (download w) bytes s = (r, s')" by force
  from install_effect [OF i] assms Inr i show ?thesis
    by (simp add: install_official_def install_from_url_def)
qed

lemma install_content_effect:
  assumes "content_ok L start s" "(w, feed_json) \<in> L"
  shows "content_ok L start (snd (install_content_update w feed_json s))
    \<and> (in_use (snd (install_content_update w feed_json s)) = in_use s
       \<or> sv_source (snd (install_content_update w feed_json s)) = ''signed_update'')"
proof -
  obtain r st where i: "install_official w (sv_store s) = (r, st)" by force
  let ?t = "s\<lparr>sv_store := st\<rparr>"
  have ok: "content_ok L start ?t"
    using assms(1) install_official_keeps [of "sv_store s" _ _ w] i by (auto intro: content_ok_store)
  have use: "in_use ?t = in_use s" by (simp add: in_use_def)
  show ?thesis
  proof (cases r)
    case (Inl e)
    with ok use i show ?thesis
      by (simp add: install_content_update_def run_then_def map_fail_def on_store_def)
  next
    case (Inr v)
    show ?thesis
    proof (cases "v = sv_version s")
      case True
      then have "snd (install_content_update w feed_json s) = snd (content_status_of ?t)"
        using i Inr by (simp add: install_content_update_def run_then_def map_fail_def on_store_def)
      with ok use content_status_same [of ?t] show ?thesis by (simp add: content_ok_same in_use_same)
    next
      case False
      obtain r2 s2 where f: "run_then (load_version w feed_json ''Activate validated security content: ''
                ''Activate validated network reputation: '' v) (\<lambda>(scanner, feed) s.
            run_then (commit_activation ''activation'' v
                (if sv_source ?t = ''signed_update'' then Some (sv_version ?t) else None))
              (\<lambda>_ s. content_status_of (adopt scanner feed v s)) s) ?t = (r2, s2)"
        by force
      then have "snd (install_content_update w feed_json s) = s2"
      proof -
        have m: "map_fail e (on_store (install_official w)) s = (Inr v, ?t)" for e :: "update_error \<Rightarrow> api_error"
          using i Inr by (simp add: map_fail_def on_store_def)
        from f False show ?thesis
          by (cases "sv_source s = ''signed_update''")
            (auto simp: install_content_update_def run_then_Inr [where m = "map_fail _ _", OF m] run_load_version
              split: sum.splits prod.splits)
      qed
      with activate_effect [OF f ok assms(2)] use show ?thesis by (auto simp: in_use_def)
    qed
  qed
qed

lemma rollback_content_effect:
  assumes "content_ok L start s" "(w, feed_json) \<in> L"
  shows "content_ok L start (snd (rollback_content_update w feed_json s))
    \<and> (in_use (snd (rollback_content_update w feed_json s)) = in_use s
       \<or> (\<exists>p scanner feed. get_metadata ''previous_content_version'' (hs_db (sv_host s)) = Some p
           \<and> scanner_for_version w p (sv_store s) = Inr scanner
           \<and> feed_from_path feed_json p (sv_store s) = Inr feed
           \<and> in_use (snd (rollback_content_update w feed_json s)) = (scanner, feed, p, ''signed_update'',
               activate_content_version p (Some (sv_version s)) (hs_db (sv_host s)))))"
proof (cases rule: read_metadata_cases [of "''previous_content_version''" s])
  case (fails e t)
  with assms(1) show ?thesis
    by (simp add: rollback_content_update_def run_then_def map_fail_def content_ok_same in_use_same)
next
  case (works t)
  let ?m = "get_metadata ''previous_content_version'' (hs_db (sv_host s))"
  note t = same_service_fields [OF works(2)] content_ok_same [OF works(2)] in_use_same [OF works(2)]
  show ?thesis
  proof (cases "nonempty ?m")
    case None
    with works t assms show ?thesis
      by (simp add: rollback_content_update_def run_then_def map_fail_def)
  next
    case (Some p)
    then have m: "?m = Some p" by (simp add: nonempty_def split: if_splits)
    obtain r2 s2 where f: "run_then (load_version w feed_json ''Validate rollback security content: ''
                ''Validate rollback network reputation: '' p) (\<lambda>(scanner, feed) s.
            run_then (commit_activation ''rollback'' p (Some (sv_version t)))
              (\<lambda>_ s. content_status_of (adopt scanner feed p s)) s) t = (r2, s2)"
      by force
    have g: "snd (rollback_content_update w feed_json s) = s2"
    proof -
      have m: "map_fail e (read_metadata ''previous_content_version'') s = (Inr ?m, t)"
        for e :: "storage_error \<Rightarrow> api_error"
        using works by (simp add: map_fail_def)
      from f Some show ?thesis
        by (simp add: rollback_content_update_def run_then_Inr [where m = "map_fail _ _", OF m] run_load_version
            split: sum.splits prod.splits)
    qed
    from activate_effect [OF f] assms t m g show ?thesis by auto
  qed
qed

text \<open>
  Memory, monitor and database agree on the active content.  A service that starts, installs
  and rolls back, whatever fails on the way, runs the scanner and the feed of the version it names,
  that version is the one recorded as active, and the monitor was last sent the same pair.  A call
  either leaves everything in use as it was, or activates a signed version as a whole; a rollback
  activates the version that was recorded as the previous one.
\<close>

theorem content_activation_consistent:
  "content_ok {(w, feed_json)}
      (bundle_start (w, feed_json) bundled (get_metadata ''active_content_version'' (hs_db h)) st)
      (start_content w feed_json bundled st h)
   \<and> (content_ok L start s \<and> (w, feed_json) \<in> L \<longrightarrow>
        content_ok L start (snd (install_content_update w feed_json s))
      \<and> content_ok L start (snd (rollback_content_update w feed_json s))
      \<and> (in_use (snd (install_content_update w feed_json s)) = in_use s
         \<or> sv_source (snd (install_content_update w feed_json s)) = ''signed_update'')
      \<and> (in_use (snd (rollback_content_update w feed_json s)) = in_use s
         \<or> Some (sv_version (snd (rollback_content_update w feed_json s)))
             = get_metadata ''previous_content_version'' (hs_db (sv_host s))))"
  using start_content_ok [of w feed_json "{(w, feed_json)}"] install_content_effect [of L start s w feed_json]
    rollback_content_effect [of L start s w feed_json]
  by (auto simp: in_use_def)

section \<open>Rolling back twice\<close>

text \<open>A rollback in which every call works.\<close>

lemma calm_rollback:
  assumes "hs_outcomes (sv_host s) = []" "p \<noteq> []"
    and "get_metadata ''previous_content_version'' (hs_db (sv_host s)) = Some p"
    and "scanner_for_version w p (sv_store s) = Inr scanner" "feed_from_path feed_json p (sv_store s) = Inr feed"
  shows "\<exists>status. rollback_content_update w feed_json s = (Inr status,
      adopt scanner feed p (s\<lparr>sv_host := (sv_host s)\<lparr>hs_db :=
        activate_content_version p (Some (sv_version s)) (hs_db (sv_host s))\<rparr>\<rparr>))
    \<and> ct_active_version status = p \<and> ct_previous_version status = nonempty (Some (sv_version s))"
proof -
  have c: "take_outcome (sv_host s) = (Works, sv_host s)"
    using assms(1) by (simp add: take_outcome_def)
  have r: "read_metadata k t = (Inr (get_metadata k (hs_db (sv_host t))), t)"
    if "hs_outcomes (sv_host t) = []" for k t
    using that by (simp add: read_metadata_def on_host_def db_call_def take_outcome_def)
  have m: "commit_activation x p q s = (Inr (), s\<lparr>sv_host := (sv_host s)\<lparr>hs_db :=
      activate_content_version p q (hs_db (sv_host s))\<rparr>\<rparr>)" for x q
    using c by (simp add: commit_activation_def on_host_def db_call_def map_fail_def)
  show ?thesis
    using assms
    by (simp add: rollback_content_update_def run_then_def map_fail_def r m nonempty_def load_version_def
        content_status_of_def adopt_def active_after_commit)
qed

text \<open>
  Rolling back is its own inverse between signed versions: when the active version came from a
  signed update, the previous one still loads and every call works, two rollbacks bring back the
  scanner, the feed and the version, with the previous version recorded as before.
\<close>

theorem rollback_twice_returns:
  assumes "content_ok {(w, feed_json)} start s" "sv_source s = ''signed_update''"
    and "hs_outcomes (sv_host s) = []" "sv_version s \<noteq> []" "p \<noteq> []"
    and "get_metadata ''previous_content_version'' (hs_db (sv_host s)) = Some p"
    and "scanner_for_version w p (sv_store s) = Inr scanner" "feed_from_path feed_json p (sv_store s) = Inr feed"
  shows "\<exists>s1 s2 a b. rollback_content_update w feed_json s = (Inr a, s1)
    \<and> sv_version s1 = p \<and> sv_scanner s1 = scanner \<and> sv_feed s1 = feed
    \<and> rollback_content_update w feed_json s1 = (Inr b, s2)
    \<and> sv_version s2 = sv_version s \<and> sv_scanner s2 = sv_scanner s \<and> sv_feed s2 = sv_feed s
    \<and> get_metadata ''previous_content_version'' (hs_db (sv_host s2)) = Some p"
proof -
  from calm_rollback [OF assms(3,5-8)] obtain a where
    1: "rollback_content_update w feed_json s = (Inr a, adopt scanner feed p (s\<lparr>sv_host := (sv_host s)\<lparr>hs_db :=
        activate_content_version p (Some (sv_version s)) (hs_db (sv_host s))\<rparr>\<rparr>))" (is "_ = (_, ?s1)")
    by blast
  have f: "sv_version ?s1 = p" "sv_scanner ?s1 = scanner" "sv_feed ?s1 = feed" "sv_store ?s1 = sv_store s"
    "get_metadata ''previous_content_version'' (hs_db (sv_host ?s1)) = Some (sv_version s)"
    "hs_outcomes (sv_host ?s1) = []"
    using assms(3) by (simp_all add: adopt_def active_after_commit)
  have "scanner_for_version w (sv_version s) (sv_store ?s1) = Inr (sv_scanner s)"
    "feed_from_path feed_json (sv_version s) (sv_store ?s1) = Inr (sv_feed s)"
    using assms(1,2) f(4) by (simp_all add: content_ok_def loads_def)
  from calm_rollback [OF f(6) assms(4) f(5) this] obtain b where
    2: "rollback_content_update w feed_json ?s1 = (Inr b, adopt (sv_scanner s) (sv_feed s) (sv_version s)
       (?s1\<lparr>sv_host := (sv_host ?s1)\<lparr>hs_db := activate_content_version (sv_version s) (Some (sv_version ?s1))
          (hs_db (sv_host ?s1))\<rparr>\<rparr>))" (is "_ = (_, ?s2)")
    by blast
  have g: "sv_version ?s2 = sv_version s" "sv_scanner ?s2 = sv_scanner s" "sv_feed ?s2 = sv_feed s"
    "get_metadata ''previous_content_version'' (hs_db (sv_host ?s2)) = Some p"
    using f(1) by (simp_all add: adopt_def active_after_commit)
  show ?thesis by (intro exI conjI) (fact 1 2 f(1-3) g)+
qed

section \<open>Concrete runs\<close>

definition sample_feed_json :: "bytes \<Rightarrow> string + reputation_document" where
  "sample_feed_json data = Inr \<lparr>rd_schema = 1, rd_version = data, rd_entries = []\<rparr>"

definition sample_dir :: "string \<Rightarrow> dir" where
  "sample_dir v = [(''rules/a.yar'', ''rule''), (''reputation.json'', v)]"

definition sample_bundle :: "file_scanner \<times> reputation_feed" where
  "sample_bundle = (\<lparr>fs_rules = [''bundle''], fs_known_hashes = [], fs_maximum_bytes = 0\<rparr>, \<lparr>rf_version = ''bundle'', rf_indicators = []\<rparr>)"

definition sample_content :: "string \<Rightarrow> string \<Rightarrow> content_service" where
  "sample_content active previous =
     start_content (sample_updates []) sample_feed_json sample_bundle
       \<lparr>st_dirs = [(''v0'', sample_dir ''v0''), (''v1'', sample_dir ''v1'')], st_outcomes = []\<rparr>
       \<lparr>hs_files = (\<lambda>_. None), hs_outcomes = [],
         hs_db = activate_content_version active (Some previous) db_empty\<rparr>"

lemma sample_content_ok:
  "\<exists>start. content_ok {(sample_updates [], sample_feed_json)} start (sample_content ''v1'' ''v0'')"
  unfolding sample_content_def by (rule exI, rule start_content_ok) simp_all

theorem rollback_twice_returns_witness:
  "\<exists>s1 s2 a b. rollback_content_update (sample_updates []) sample_feed_json (sample_content ''v1'' ''v0'') = (Inr a, s1)
     \<and> sv_version s1 = ''v0''
     \<and> rollback_content_update (sample_updates []) sample_feed_json s1 = (Inr b, s2) \<and> sv_version s2 = ''v1''"
proof -
  let ?s = "sample_content ''v1'' ''v0''"
  obtain start where ok: "content_ok {(sample_updates [], sample_feed_json)} start ?s"
    using sample_content_ok by blast
  have f: "sv_source ?s = ''signed_update''" "hs_outcomes (sv_host ?s) = []" "sv_version ?s = ''v1''"
    "get_metadata ''previous_content_version'' (hs_db (sv_host ?s)) = Some ''v0''"
    by code_simp+
  have l: "scanner_for_version (sample_updates []) ''v0'' (sv_store ?s) = Inr (sv_scanner ?s)"
    "feed_from_path sample_feed_json ''v0'' (sv_store ?s) = Inr \<lparr>rf_version = ''v0'', rf_indicators = []\<rparr>"
    by code_simp+
  from rollback_twice_returns [OF ok f(1,2) _ _ f(4) l] f(3) show ?thesis by auto
qed

text \<open>
  A rollback from the bundled content records the name of the bundle as the previous version, which
  is no directory of the store: the next rollback fails and cannot return.
\<close>

lemma rollback_from_bundle_dead_ends:
  "sv_source (sample_content ''gone'' ''v0'') = ''bundled''
   \<and> (case rollback_content_update (sample_updates []) sample_feed_json (sample_content ''gone'' ''v0'') of
        (Inl e, s) \<Rightarrow> False
      | (Inr status, s) \<Rightarrow> ct_previous_version status = Some BUNDLED_VERSION
          \<and> (case rollback_content_update (sample_updates []) sample_feed_json s of
               (Inl e, _) \<Rightarrow> ae_code e = Conflict | (Inr _, _) \<Rightarrow> False))"
  by code_simp

end
