(* ===== verification/OG_Collect.thy ===== *)
theory OG_Collect
  imports OG_Host OG_Scan "HOL-Library.Multiset_Order"
begin

text \<open>
  Which files a scan covers (\<^verbatim>\<open>scan_profile_roots\<close>, \<^verbatim>\<open>resolve_scan_roots\<close> and
  \<^verbatim>\<open>collect_scan_targets\<close> in \<^verbatim>\<open>openguard-service/src/main.rs\<close>).

  The file tree is given by the answers to \<^verbatim>\<open>symlink_metadata\<close>, \<^verbatim>\<open>metadata\<close> and \<^verbatim>\<open>read_dir\<close>;
  nothing says that it is finite or without cycles.  The cancellation flag is set once and stays set:
  it is modelled by the number of polls that still find it clear.
\<close>

section \<open>Data\<close>

datatype entry_kind = KindSymlink | KindFile | KindDir | KindOther

record file_tree =
  ft_link :: "string \<Rightarrow> string + entry_kind"
  ft_meta :: "string \<Rightarrow> string + entry_kind"
  ft_entries :: "string \<Rightarrow> (string \<times> entry_kind option) list option"

type_synonym cancel = "nat option"

text \<open>\<open>None\<close> is a flag that is never set.\<close>

fun poll :: "cancel \<Rightarrow> bool \<times> cancel" where
  "poll None = (False, None)"
| "poll (Some 0) = (True, Some 0)"
| "poll (Some (Suc n)) = (False, Some n)"

text \<open>\<^verbatim>\<open>Path\<close> is compared component by component.\<close>

definition path_components :: "string \<Rightarrow> string list" where
  "path_components p = filter (\<lambda>c. c \<noteq> [] \<and> c \<noteq> ''.'') (split_on is_separator p)"

definition sort_paths :: "string list \<Rightarrow> string list" where
  "sort_paths ps = sort_key path_components ps"

fun dedup_paths :: "string list \<Rightarrow> string list" where
  "dedup_paths (p # q # ps) =
     (if path_components p = path_components q then dedup_paths (p # ps) else p # dedup_paths (q # ps))"
| "dedup_paths ps = ps"

section \<open>Roots\<close>

record known_folders =
  kf_downloads :: "string option"
  kf_local_app_data :: "string option"
  kf_startup :: "string option"
  kf_common_startup :: "string option"
  kf_system_drive :: "string option"

definition join_path :: "string \<Rightarrow> string \<Rightarrow> string" where
  "join_path a b =
     (if a = [] \<or> last a = backslash \<or> last a = CHR ''/''
        \<or> (case a of [c, d] \<Rightarrow> ascii_alphabetic c \<and> d = CHR '':'' | _ \<Rightarrow> False)
      then a @ b else a @ [backslash] @ b)"

definition some_list :: "'a option list \<Rightarrow> 'a list" where
  "some_list xs = concat (map (\<lambda>x. case x of None \<Rightarrow> [] | Some a \<Rightarrow> [a]) xs)"

definition scan_profile_roots :: "known_folders \<Rightarrow> (string \<Rightarrow> bool) \<Rightarrow> scan_profile \<Rightarrow> string list" where
  "scan_profile_roots k exists_path profile =
     (let roots = (case profile of
         Quick \<Rightarrow> some_list [kf_downloads k, map_option (\<lambda>p. join_path p ''Temp'') (kf_local_app_data k)]
       | Downloads \<Rightarrow> some_list [kf_downloads k]
       | Startup \<Rightarrow> some_list [kf_startup k, kf_common_startup k]
       | Full \<Rightarrow> [case kf_system_drive k of None \<Rightarrow> ''C:'' | Some d \<Rightarrow> d])
      in dedup_paths (sort_paths (filter (\<lambda>p. p \<noteq> [] \<and> exists_path p) roots)))"

fun check_roots :: "file_tree \<Rightarrow> string list \<Rightarrow> api_error + unit" where
  "check_roots t [] = Inr ()"
| "check_roots t (r # rs) =
     (case ft_meta t r of
        Inl e \<Rightarrow> Inl \<lparr>ae_code = NotFound, ae_message = ''Cannot scan '' @ quoted r @ '': '' @ e, ae_retryable = False\<rparr>
      | Inr k \<Rightarrow>
          if k \<noteq> KindFile \<and> k \<noteq> KindDir then
            Inl \<lparr>ae_code = InvalidRequest, ae_message = ''Scan target '' @ quoted r
                  @ '' is not a regular file or directory'', ae_retryable = False\<rparr>
          else check_roots t rs)"

text \<open>
  The two calls that may fail for the client: duplicating its token to find its folders, and
  impersonating it.  Inside the impersonation the checks themselves decide.
\<close>

definition resolve_scan_roots ::
  "known_folders \<Rightarrow> (string \<Rightarrow> bool) \<Rightarrow> file_tree \<Rightarrow> client_context \<Rightarrow> string \<Rightarrow> scan_profile option
   \<Rightarrow> host \<Rightarrow> (api_error + string list) \<times> host" where
  "resolve_scan_roots k exists_path t client target profile =
     run_then (map_fail (\<lambda>e. \<lparr>ae_code = Unauthorized,
           ae_message = ''Cannot resolve scan-profile folders for this user: '' @ e, ae_retryable = False\<rparr>)
         (if profile \<noteq> None \<and> cc_token client then plain_call else (\<lambda>s. (Inr (), s))))
       (\<lambda>_ s.
         let roots = (case profile of None \<Rightarrow> [target] | Some p \<Rightarrow> scan_profile_roots k exists_path p) in
         if roots = [] then
           (Inl \<lparr>ae_code = NotFound,
              ae_message = ''The selected scan profile has no available target directories'',
              ae_retryable = False\<rparr>, s)
         else run_then (map_fail (\<lambda>e. \<lparr>ae_code = Unauthorized,
                ae_message = ''Cannot impersonate the requesting user: '' @ e, ae_retryable = False\<rparr>)
              (with_client_impersonation client (\<lambda>s. (Inr (check_roots t roots), s))))
            (\<lambda>checked s. (and_then checked (\<lambda>_. Inr roots), s)) s)"

section \<open>Collecting\<close>

definition MAXIMUM_FILES :: nat where "MAXIMUM_FILES = 1000000"

fun split_roots :: "file_tree \<Rightarrow> string list \<Rightarrow> string + string list \<times> string list" where
  "split_roots t [] = Inr ([], [])"
| "split_roots t (r # rs) =
     and_then (ft_link t r) (\<lambda>k.
     and_then (split_roots t rs) (\<lambda>(files, dirs).
       Inr (if k = KindFile then r # files else files, if k = KindDir then r # dirs else dirs)))"

text \<open>The entries of one directory; the stack of directories has its top first.\<close>

fun visit_entries ::
  "(string \<times> entry_kind option) list \<Rightarrow> cancel \<Rightarrow> string list \<Rightarrow> string list
   \<Rightarrow> (string + string list \<times> string list) \<times> cancel" where
  "visit_entries [] c files dirs = (Inr (files, dirs), c)"
| "visit_entries ((p, k) # es) c files dirs =
     (case poll c of
        (True, c) \<Rightarrow> (Inl ''Scan cancelled'', c)
      | (False, c) \<Rightarrow>
          if k = Some KindDir then visit_entries es c files (p # dirs)
          else if k = Some KindFile then
            (if MAXIMUM_FILES \<le> length (files @ [p])
             then (Inl (''Scan target exceeds the '' @ show_nat MAXIMUM_FILES @ '' file safety limit''), c)
             else visit_entries es c (files @ [p]) dirs)
          else visit_entries es c files dirs)"

text \<open>The loop over the stack; every round takes one unit of fuel.\<close>

fun collect_dirs ::
  "nat \<Rightarrow> file_tree \<Rightarrow> cancel \<Rightarrow> string list \<Rightarrow> string list \<Rightarrow> ((string + string list) \<times> cancel) option" where
  "collect_dirs fuel t c files [] = Some (Inr files, c)"
| "collect_dirs 0 t c files (d # ds) = None"
| "collect_dirs (Suc fuel) t c files (d # ds) =
     (case poll c of
        (True, c) \<Rightarrow> Some (Inl ''Scan cancelled'', c)
      | (False, c) \<Rightarrow>
          (case ft_entries t d of
             None \<Rightarrow> collect_dirs fuel t c files ds
           | Some es \<Rightarrow>
               (case visit_entries es c files ds of
                  (Inl e, c) \<Rightarrow> Some (Inl e, c)
                | (Inr (files, ds), c) \<Rightarrow> collect_dirs fuel t c files ds)))"

definition collect_scan_targets ::
  "nat \<Rightarrow> file_tree \<Rightarrow> string list \<Rightarrow> cancel \<Rightarrow> ((string + string list) \<times> cancel) option" where
  "collect_scan_targets fuel t roots c =
     (case split_roots t roots of
        Inl e \<Rightarrow> Some (Inl e, c)
      | Inr (files, dirs) \<Rightarrow>
          map_option (\<lambda>(r, c). (case r of Inl e \<Rightarrow> Inl e | Inr fs \<Rightarrow> Inr (sort_paths fs), c))
            (collect_dirs fuel t c files (rev dirs)))"

section \<open>What is below the roots\<close>

definition subdir :: "file_tree \<Rightarrow> string \<Rightarrow> string \<Rightarrow> bool" where
  "subdir t d p \<longleftrightarrow> (\<exists>es. ft_entries t d = Some es \<and> (p, Some KindDir) \<in> set es)"

definition file_in :: "file_tree \<Rightarrow> string \<Rightarrow> string \<Rightarrow> bool" where
  "file_in t d p \<longleftrightarrow> (\<exists>es. ft_entries t d = Some es \<and> (p, Some KindFile) \<in> set es)"

definition files_below :: "file_tree \<Rightarrow> string set \<Rightarrow> string set" where
  "files_below t ds = {p. \<exists>d0 \<in> ds. \<exists>d. (subdir t)\<^sup>*\<^sup>* d0 d \<and> file_in t d p}"

text \<open>A target is a root that is a file, or a file below a root that is a directory.\<close>

definition scan_targets :: "file_tree \<Rightarrow> string list \<Rightarrow> string set" where
  "scan_targets t roots = {r \<in> set roots. ft_link t r = Inr KindFile}
     \<union> files_below t {r \<in> set roots. ft_link t r = Inr KindDir}"

lemma files_belowI: "d0 \<in> ds \<Longrightarrow> (subdir t)\<^sup>*\<^sup>* d0 d \<Longrightarrow> file_in t d p \<Longrightarrow> p \<in> files_below t ds"
  unfolding files_below_def mem_Collect_eq by (intro bexI exI conjI)

lemma files_belowE:
  assumes "p \<in> files_below t ds"
  obtains d0 d where "d0 \<in> ds" "(subdir t)\<^sup>*\<^sup>* d0 d" "file_in t d p"
  using assms unfolding files_below_def mem_Collect_eq by (elim bexE exE conjE)

lemma files_below_empty [simp]: "files_below t {} = {}"
  by (simp add: files_below_def)

lemma files_below_Un: "files_below t (a \<union> b) = files_below t a \<union> files_below t b"
  unfolding files_below_def by (simp only: bex_Un Collect_disj_eq)

lemma files_below_single: "files_below t {d} = {p. file_in t d p} \<union> files_below t {p. subdir t d p}"
proof (intro set_eqI iffI)
  fix p
  assume "p \<in> files_below t {d}"
  then obtain d1 where d: "(subdir t)\<^sup>*\<^sup>* d d1" "file_in t d1 p"
    by (elim files_belowE) simp
  from d(1) show "p \<in> {p. file_in t d p} \<union> files_below t {p. subdir t d p}"
  proof (cases rule: converse_rtranclpE)
    case base
    with d(2) show ?thesis by simp
  next
    case (step d2)
    with d(2) files_belowI [of d2 "{p. subdir t d p}" t d1 p] show ?thesis by simp
  qed
next
  fix p
  assume "p \<in> {p. file_in t d p} \<union> files_below t {p. subdir t d p}"
  then show "p \<in> files_below t {d}"
  proof
    assume "p \<in> {p. file_in t d p}"
    with files_belowI [of d "{d}" t d p] show ?thesis by simp
  next
    assume "p \<in> files_below t {p. subdir t d p}"
    then obtain d0 d1 where "subdir t d d0" "(subdir t)\<^sup>*\<^sup>* d0 d1" "file_in t d1 p"
      by (elim files_belowE) simp
    with files_belowI [of d "{d}" t d1 p] show ?thesis by (simp add: converse_rtranclp_into_rtranclp)
  qed
qed

lemma files_below_insert:
  "files_below t (insert d ds) = {p. file_in t d p} \<union> files_below t ({p. subdir t d p} \<union> ds)"
  using files_below_Un [of t "{d}" ds] by (simp add: files_below_single files_below_Un Un_assoc)

lemma visit_entries_step:
  assumes "visit_entries ((p, k) # es) c files dirs = (Inr out, c')"
  obtains c1 where "poll c = (False, c1)"
    "visit_entries es c1 (if k = Some KindFile then files @ [p] else files)
       (if k = Some KindDir then p # dirs else dirs) = (Inr out, c')"
    "k = Some KindFile \<Longrightarrow> Suc (length files) < MAXIMUM_FILES"
proof -
  obtain b c1 where b: "poll c = (b, c1)" by force
  with assms have "\<not> b" by (cases b) simp_all
  with assms b show thesis by (intro that [of c1]) (auto split: if_splits)
qed

lemma visit_entries_Inr:
  "visit_entries es c files dirs = (Inr (files', dirs'), c') \<Longrightarrow>
     files' = files @ map fst (filter (\<lambda>e. snd e = Some KindFile) es)
     \<and> dirs' = rev (map fst (filter (\<lambda>e. snd e = Some KindDir) es)) @ dirs
     \<and> (filter (\<lambda>e. snd e = Some KindFile) es \<noteq> [] \<longrightarrow> length files' < MAXIMUM_FILES)"
proof (induction es arbitrary: c files dirs)
  case Nil
  then show ?case by simp
next
  case (Cons e es)
  obtain p k where e: "e = (p, k)" by force
  from visit_entries_step [OF Cons.prems [unfolded e]] obtain c1 where
    s: "visit_entries es c1 (if k = Some KindFile then files @ [p] else files)
       (if k = Some KindDir then p # dirs else dirs) = (Inr (files', dirs'), c')"
    and l: "k = Some KindFile \<Longrightarrow> Suc (length files) < MAXIMUM_FILES"
    by blast
  from Cons.IH [OF s] l e show ?case
    by (cases "filter (\<lambda>e. snd e = Some KindFile) es = []") auto
qed

lemma collect_dirs_Inr:
  "collect_dirs fuel t c files ds = Some (Inr fs, c') \<Longrightarrow> set fs = set files \<union> files_below t (set ds)"
proof (induction fuel arbitrary: c files ds)
  case 0
  then show ?case by (cases ds) auto
next
  case (Suc fuel)
  show ?case
  proof (cases ds)
    case Nil
    with Suc.prems show ?thesis by simp
  next
    case (Cons d rest)
    obtain b c1 where b: "poll c = (b, c1)" by force
    with Suc.prems Cons have nb: "\<not> b" by (cases b) simp_all
    show ?thesis
    proof (cases "ft_entries t d")
      case None
      then have "{p. file_in t d p} = {}" "{p. subdir t d p} = {}" by (simp_all add: file_in_def subdir_def)
      with Suc.IH [of c1 files rest] Suc.prems Cons b nb None show ?thesis
        by (simp add: files_below_insert)
    next
      case (Some es)
      obtain r c2 where v: "visit_entries es c1 files rest = (r, c2)" by force
      with Suc.prems Cons b nb Some obtain files' ds' where r: "r = Inr (files', ds')"
        "collect_dirs fuel t c2 files' ds' = Some (Inr fs, c')"
        by (cases r) auto
      note e = visit_entries_Inr [OF v [unfolded r(1)]]
      have "set files' = set files \<union> {p. file_in t d p}"
        using e Some by (force simp: file_in_def)
      moreover have "set ds' = {p. subdir t d p} \<union> set rest"
        using e Some by (force simp: subdir_def)
      ultimately show ?thesis
        using Suc.IH [OF r(2)] Cons by (simp add: files_below_insert Un_assoc)
    qed
  qed
qed

lemma split_roots_Inr:
  "split_roots t roots = Inr (files, dirs) \<Longrightarrow>
     files = filter (\<lambda>r. ft_link t r = Inr KindFile) roots \<and> dirs = filter (\<lambda>r. ft_link t r = Inr KindDir) roots"
  by (induction roots arbitrary: files dirs) (auto simp: result_iffs)

section \<open>The loop ends\<close>

text \<open>Without cycles every directory has a rank above those of its subdirectories.\<close>

definition ranked :: "(string \<Rightarrow> nat) \<Rightarrow> file_tree \<Rightarrow> bool" where
  "ranked rank t \<longleftrightarrow> (\<forall>d p. subdir t d p \<longrightarrow> rank p < rank d)"

lemma collect_dirs_returns:
  assumes "ranked rank t"
  shows "\<exists>fuel. collect_dirs fuel t c files ds \<noteq> None"
proof (induction "image_mset rank (mset ds)" arbitrary: c files ds rule: less_induct)
  case less
  show ?case
  proof (cases ds)
    case Nil
    then show ?thesis by simp
  next
    case (Cons d rest)
    obtain b c1 where b: "poll c = (b, c1)" by force
    have smaller: "image_mset rank (mset (new @ rest)) < image_mset rank (mset ds)"
      if "\<forall>p \<in> set new. subdir t d p" for new
    proof -
      have "image_mset rank (mset new) < {#rank d#}"
        unfolding mset_lt_single_right_iff using that assms by (auto simp: ranked_def)
      then show ?thesis using Cons by simp
    qed
    show ?thesis
    proof (cases b)
      case True
      with b Cons show ?thesis by (intro exI [of _ "Suc 0"]) simp
    next
      case nb: False
      show ?thesis
      proof (cases "ft_entries t d")
        case None
        from less [OF smaller [of "[]"], of c1 files] obtain n where
          "collect_dirs n t c1 files rest \<noteq> None" by auto
        with b Cons nb None show ?thesis by (intro exI [of _ "Suc n"]) simp
      next
        case (Some es)
        obtain r c2 where v: "visit_entries es c1 files rest = (r, c2)" by force
        show ?thesis
        proof (cases r)
          case (Inl e)
          with b Cons nb Some v show ?thesis by (intro exI [of _ "Suc 0"]) simp
        next
          case (Inr fd)
          obtain files' ds' where fd: "fd = (files', ds')" by force
          let ?new = "rev (map fst (filter (\<lambda>e. snd e = Some KindDir) es))"
          have "ds' = ?new @ rest" using visit_entries_Inr [OF v [unfolded Inr fd]] by simp
          moreover have "\<forall>p \<in> set ?new. subdir t d p" using Some by (force simp: subdir_def)
          ultimately obtain n where "collect_dirs n t c2 files' ds' \<noteq> None"
            using less [of ds'] smaller by blast
          with b Cons nb Some v Inr fd show ?thesis by (intro exI [of _ "Suc n"]) simp
        qed
      qed
    qed
  qed
qed

lemma split_roots_length: "split_roots t roots = Inr (files, dirs) \<Longrightarrow> length files \<le> length roots"
  using split_roots_Inr [of t roots files dirs] by simp

lemma collect_dirs_length:
  "collect_dirs fuel t c files ds = Some (Inr fs, c') \<Longrightarrow> length files < n \<Longrightarrow> MAXIMUM_FILES \<le> n
   \<Longrightarrow> length fs < n"
proof (induction fuel arbitrary: c files ds)
  case 0
  then show ?case by (cases ds) auto
next
  case (Suc fuel)
  show ?case
  proof (cases ds)
    case Nil
    with Suc.prems show ?thesis by simp
  next
    case (Cons d rest)
    obtain b c1 where b: "poll c = (b, c1)" by force
    with Suc.prems Cons have nb: "\<not> b" by (cases b) simp_all
    show ?thesis
    proof (cases "ft_entries t d")
      case None
      with Suc.IH [of c1 files rest] Suc.prems Cons b nb show ?thesis by simp
    next
      case (Some es)
      obtain r c2 where v: "visit_entries es c1 files rest = (r, c2)" by force
      with Suc.prems Cons b nb Some obtain files' ds' where r: "r = Inr (files', ds')"
        "collect_dirs fuel t c2 files' ds' = Some (Inr fs, c')"
        by (cases r) auto
      have "length files' < n"
        using visit_entries_Inr [OF v [unfolded r(1)]] Suc.prems(2,3)
        by (cases "filter (\<lambda>e. snd e = Some KindFile) es = []") auto
      from Suc.IH [OF r(2) this Suc.prems(3)] show ?thesis .
    qed
  qed
qed

lemma collect_scan_targets_cases:
  assumes "collect_scan_targets fuel t roots c = Some (r, c')"
  obtains (failed) e where "r = Inl e"
  | (found) files dirs fs where "r = Inr (sort_paths fs)" "split_roots t roots = Inr (files, dirs)"
      "collect_dirs fuel t c files (rev dirs) = Some (Inr fs, c')"
proof (cases "split_roots t roots")
  case (Inl e)
  with assms show thesis by (intro failed [of e]) (simp add: collect_scan_targets_def)
next
  case (Inr fd)
  obtain files dirs where fd: "fd = (files, dirs)" by force
  with assms Inr obtain q where q: "collect_dirs fuel t c files (rev dirs) = Some (q, c')"
      "r = (case q of Inl e \<Rightarrow> Inl e | Inr fs \<Rightarrow> Inr (sort_paths fs))"
    by (auto simp: collect_scan_targets_def)
  with Inr fd show thesis by (cases q) (auto intro: failed found)
qed

lemma collect_scan_targets_length:
  assumes "collect_scan_targets fuel t roots c = Some (Inr fs, c')" "length roots < MAXIMUM_FILES"
  shows "length fs < MAXIMUM_FILES"
  using assms(1)
proof (cases rule: collect_scan_targets_cases)
  case (found files dirs gs)
  have "length files < MAXIMUM_FILES" using split_roots_length [OF found(2)] assms(2) by simp
  from collect_dirs_length [OF found(3) this] found(1) show ?thesis by (simp add: sort_paths_def)
qed simp

lemma collect_scan_targets_returns:
  assumes "ranked rank t"
  shows "\<exists>fuel. collect_scan_targets fuel t roots c \<noteq> None"
proof (cases "split_roots t roots")
  case (Inl e)
  then show ?thesis by (simp add: collect_scan_targets_def)
next
  case (Inr fd)
  obtain files dirs where fd: "fd = (files, dirs)" by force
  obtain n where "collect_dirs n t c files (rev dirs) \<noteq> None"
    using collect_dirs_returns [OF assms] by blast
  with Inr fd show ?thesis by (intro exI [of _ n]) (simp add: collect_scan_targets_def)
qed

lemma collect_scan_targets_exact:
  assumes "collect_scan_targets fuel t roots c = Some (Inr fs, c')"
  shows "set fs = scan_targets t roots" "sorted (map path_components fs)"
proof -
  have "set fs = scan_targets t roots \<and> sorted (map path_components fs)"
    using assms
  proof (cases rule: collect_scan_targets_cases)
    case (found files dirs gs)
    from collect_dirs_Inr [OF found(3)] split_roots_Inr [OF found(2)] found(1)
    show ?thesis by (simp add: scan_targets_def sort_paths_def)
  qed simp
  then show "set fs = scan_targets t roots" "sorted (map path_components fs)" by auto
qed

text \<open>
  C31. A scan covers exactly the files below its roots.  On a tree without cycles the collection
  returns; whenever it returns targets, they are all the regular files that are roots or lie below a
  root directory without passing a symbolic link, no other path, in path order.  A collection that
  does not cover everything is an error, never a shorter list.
\<close>

theorem collection_covers_roots:
  assumes "ranked rank t"
  shows "(\<exists>fuel. collect_scan_targets fuel t roots c \<noteq> None)
    \<and> (\<forall>fuel fs c'. collect_scan_targets fuel t roots c = Some (Inr fs, c') \<longrightarrow>
         set fs = scan_targets t roots \<and> sorted (map path_components fs))"
  using collect_scan_targets_returns [OF assms] collect_scan_targets_exact by blast

definition sample_tree :: file_tree where
  "sample_tree = \<lparr>ft_link = (\<lambda>_. Inr KindDir), ft_meta = (\<lambda>_. Inr KindDir),
     ft_entries = (\<lambda>d. if d = ''R'' then Some [(''R/b'', Some KindFile), (''R/s'', Some KindDir), (''R/l'', Some KindSymlink)]
                       else if d = ''R/s'' then Some [(''R/s/a'', Some KindFile), (''R/s/x'', None)] else None)\<rparr>"

theorem collection_covers_roots_witness:
  "scan_targets sample_tree [''R''] = {''R/b'', ''R/s/a''}"
proof -
  have r: "ranked (\<lambda>d. if d = ''R'' then 1 else 0) sample_tree"
    by (auto simp: ranked_def subdir_def sample_tree_def)
  have "collect_scan_targets 3 sample_tree [''R''] None = Some (Inr [''R/b'', ''R/s/a''], None)"
    by code_simp
  then have "set [''R/b'', ''R/s/a''] = scan_targets sample_tree [''R'']"
    using collection_covers_roots [OF r, of "[''R'']" None] by blast
  then show ?thesis by simp
qed

text \<open>A full scan starts at the drive without its root, which Windows reads as a relative path.\<close>

lemma full_scan_root_is_relative:
  "scan_profile_roots \<lparr>kf_downloads = None, kf_local_app_data = None, kf_startup = None,
     kf_common_startup = None, kf_system_drive = None\<rparr> (\<lambda>_. True) Full = [''C:'']"
  by code_simp

end
