(* ===== verification/OG_ScanJobs.thy ===== *)
theory OG_ScanJobs
  imports OG_Collect OG_Quarantine
begin

text \<open>
  Scan jobs (\<^verbatim>\<open>ScanWorker\<close> and the scan operations of \<^verbatim>\<open>ServiceState\<close> in
  \<^verbatim>\<open>openguard-service/src/main.rs\<close>).  A worker is a function of its status, the host and the
  cancellation flag; the other threads only read the status and set the flag.
\<close>

section \<open>Paths as keys\<close>

definition verbatim_prefix :: string where
  "verbatim_prefix = [backslash, backslash, CHR ''?'', backslash]"

definition normalized_path_key :: "(string \<Rightarrow> string option) \<Rightarrow> string \<Rightarrow> string" where
  "normalized_path_key canonical path =
     (let display = to_backslashes (case canonical path of None \<Rightarrow> path | Some p \<Rightarrow> p);
          display = (case strip_prefix display (verbatim_prefix @ ''UNC'' @ [backslash]) of
              Some unc \<Rightarrow> [backslash, backslash] @ unc
            | None \<Rightarrow> (case strip_prefix display verbatim_prefix of None \<Rightarrow> display | Some d \<Rightarrow> d))
      in to_ascii_lowercase (trim_end_matches ((=) backslash) display))"

section \<open>The worker\<close>

record scan_environment =
  se_scanner :: file_scanner
  se_client :: client_context
  se_tree :: file_tree
  se_canonical :: "string \<Rightarrow> string option"
  se_world :: "string \<Rightarrow> scan_world"
  se_signals :: "string \<Rightarrow> windows_signals"
  se_size :: "string \<Rightarrow> u64"
  se_now :: string

record worker =
  wk_host :: host
  wk_cancel :: cancel
  wk_status :: scan_job_status

definition with_status :: "(scan_job_status \<Rightarrow> scan_job_status) \<Rightarrow> worker \<Rightarrow> worker" where
  "with_status f w = w\<lparr>wk_status := f (wk_status w)\<rparr>"

definition wk_call :: "(host \<Rightarrow> 'r \<times> host) \<Rightarrow> worker \<Rightarrow> 'r \<times> worker" where
  "wk_call f w = (case f (wk_host w) of (r, h) \<Rightarrow> (r, w\<lparr>wk_host := h\<rparr>))"

definition job_fail :: "string \<Rightarrow> worker \<Rightarrow> worker" where
  "job_fail message = with_status (\<lambda>s. s\<lparr>sj_state := Failed, sj_error := Some message\<rparr>)"

definition finish_cancelled :: "worker \<Rightarrow> worker" where
  "finish_cancelled = with_status (\<lambda>s. s\<lparr>sj_state := Cancelled, sj_current_path := []\<rparr>)"

definition allowed_finding :: "string \<Rightarrow> scan_finding \<Rightarrow> scan_finding" where
  "allowed_finding label finding =
     finding\<lparr>sf_verdict := Skipped, sf_score := 0,
       sf_reasons := [''SHA-256 is allowed by the user ('' @ (if label = [] then ''reviewed hash'' else label) @ '')'']\<rparr>"

definition scan_event :: "scan_finding \<Rightarrow> security_event" where
  "scan_event finding =
     \<lparr>se_id = None, se_event_type = ''scan_finding'', se_severity = severity_from_score (sf_score finding),
      se_title = verdict_display (sf_verdict finding) @ '' scan finding'',
      se_detail = join ''; '' (sf_reasons finding), se_process_id = None, se_path = sf_path finding,
      se_created_at = sf_scanned_at finding, se_resolved = False\<rparr>"

definition count_finding :: "bool \<Rightarrow> scan_finding \<Rightarrow> scan_job_status \<Rightarrow> scan_job_status" where
  "count_finding single_file finding s =
     s\<lparr>sj_files_scanned := sat_add (sj_files_scanned s) 1,
       sj_finding := (if single_file then Some finding else sj_finding s),
       sj_findings := (if sf_verdict finding \<noteq> Clean \<and> length (sj_findings s) < 512
                       then sj_findings s @ [finding] else sj_findings s)\<rparr>"

text \<open>The end of \<^verbatim>\<open>record_finding\<close>, after the allowed hashes were looked up.\<close>

definition store_finding :: "string \<Rightarrow> bool \<Rightarrow> scan_finding \<Rightarrow> worker \<Rightarrow> bool \<times> worker" where
  "store_finding owner single_file finding w =
     (case wk_call (db_call (record_scan owner finding)) w of
        (Inl e, w) \<Rightarrow> (False, job_fail (''Persist scan result: '' @ storage_error_display e) w)
      | (Inr _, w) \<Rightarrow>
          (let w = (if sf_verdict finding \<in> {LowRisk, Suspicious, Malicious} then
                      snd (wk_call (db_call (\<lambda>d. case record_event owner (scan_event finding) d of
                        (i, d) \<Rightarrow> (Inr i, d))) w) else w)
           in (True, with_status (count_finding single_file finding) w)))"

definition record_finding :: "scan_environment \<Rightarrow> scan_finding \<Rightarrow> bool \<Rightarrow> worker \<Rightarrow> bool \<times> worker" where
  "record_finding env finding single_file w =
     (let owner = cc_sid (se_client env) in
      if sf_sha256 finding = [] then store_finding owner single_file finding w
      else (case wk_call (db_call (\<lambda>d. (Inr (allowed_hash owner (sf_sha256 finding) d), d))) w of
              (Inl e, w) \<Rightarrow> (False, job_fail (''Read allowed hashes: '' @ storage_error_display e) w)
            | (Inr None, w) \<Rightarrow> store_finding owner single_file finding w
            | (Inr (Some label), w) \<Rightarrow> store_finding owner single_file (allowed_finding label finding) w))"

definition excluded_finding :: "scan_environment \<Rightarrow> string \<Rightarrow> u64 \<Rightarrow> scan_finding" where
  "excluded_finding env target size_bytes =
     \<lparr>sf_path = target, sf_verdict = Skipped, sf_score = 0, sf_reasons = [''Path is excluded by the user''],
      sf_sha256 = [], sf_size_bytes = size_bytes, sf_signature = NotApplicable, sf_amsi_result = ''not_scanned'',
      sf_yara_status = ''not_scanned'', sf_yara_matches = [], sf_capabilities = [], sf_scanned_at = se_now env\<rparr>"

definition impersonate :: "scan_environment \<Rightarrow> worker \<Rightarrow> (string + unit) \<times> worker" where
  "impersonate env = wk_call (with_client_impersonation (se_client env) (\<lambda>s. (Inr (), s)))"

text \<open>The scan of one file; \<open>None\<close> of \<open>scan_file\<close> does not occur.\<close>

definition scan_one :: "scan_environment \<Rightarrow> string \<Rightarrow> scan_error + scan_finding" where
  "scan_one env target =
     (case scan_file (se_scanner env) (se_world env target) target of
        None \<Rightarrow> Inl (ScanIo ''panic'')
      | Some (Inl e) \<Rightarrow> Inl e
      | Some (Inr f) \<Rightarrow> Inr (apply_windows_scan_signals (se_signals env target) f))"

definition scan_target :: "scan_environment \<Rightarrow> string \<Rightarrow> bool \<Rightarrow> worker \<Rightarrow> bool \<times> worker" where
  "scan_target env target single_file w =
     (case wk_call (db_call (\<lambda>d. (Inr (path_excluded (cc_sid (se_client env))
              (normalized_path_key (se_canonical env) target) d), d))) w of
        (Inl e, w) \<Rightarrow> (False, job_fail (''Read exclusions: '' @ storage_error_display e) w)
      | (Inr True, w) \<Rightarrow>
          (case impersonate env w of
             (Inl _, w) \<Rightarrow> record_finding env (excluded_finding env target 0) single_file w
           | (Inr _, w) \<Rightarrow> record_finding env (excluded_finding env target (se_size env target)) single_file w)
      | (Inr False, w) \<Rightarrow>
          (case impersonate env w of
             (Inl e, w) \<Rightarrow> (False, job_fail (''Impersonate scan owner: '' @ e) w)
           | (Inr _, w) \<Rightarrow>
               (case scan_one env target of
                  Inr finding \<Rightarrow> record_finding env finding single_file w
                | Inl ScanCancelled \<Rightarrow> (False, finish_cancelled w)
                | Inl e \<Rightarrow> (True, with_status (\<lambda>s. s\<lparr>sj_files_scanned := sat_add (sj_files_scanned s) 1,
                    sj_error := Some (''Some files could not be scanned: '' @ scan_error_display e)\<rparr>) w))))"

fun run_targets :: "scan_environment \<Rightarrow> bool \<Rightarrow> string list \<Rightarrow> worker \<Rightarrow> worker" where
  "run_targets env single_file [] w =
     with_status (\<lambda>s. s\<lparr>sj_state := Completed, sj_current_path := []\<rparr>) w"
| "run_targets env single_file (target # targets) w =
     (case poll (wk_cancel w) of
        (True, c) \<Rightarrow> finish_cancelled (w\<lparr>wk_cancel := c\<rparr>)
      | (False, c) \<Rightarrow>
          (case scan_target env target single_file
                  (with_status (\<lambda>s. s\<lparr>sj_current_path := target\<rparr>) (w\<lparr>wk_cancel := c\<rparr>)) of
             (False, w) \<Rightarrow> w
           | (True, w) \<Rightarrow> run_targets env single_file targets w))"

text \<open>The flag decides whether a failed collection counts as cancelled; reading it is one more poll.\<close>

definition collect_targets ::
  "nat \<Rightarrow> scan_environment \<Rightarrow> string list \<Rightarrow> worker \<Rightarrow> (string list option \<times> worker) option" where
  "collect_targets fuel env roots w =
     (case impersonate env w of
        (Inl e, w) \<Rightarrow> Some (None, job_fail (''Impersonate scan owner: '' @ e) w)
      | (Inr _, w) \<Rightarrow>
          (case collect_scan_targets fuel (se_tree env) roots (wk_cancel w) of
             None \<Rightarrow> None
           | Some (Inr targets, c) \<Rightarrow>
               if targets \<noteq> [] then
                 Some (Some targets, with_status (\<lambda>s. s\<lparr>sj_total_files := of_nat (length targets)\<rparr>)
                         (w\<lparr>wk_cancel := c\<rparr>))
               else Some (None, job_fail ''No regular files were found in the selected target'' (w\<lparr>wk_cancel := c\<rparr>))
           | Some (Inl e, c) \<Rightarrow>
               (case poll c of (b, c) \<Rightarrow>
                  Some (None, with_status (\<lambda>s. s\<lparr>sj_state := (if b then Cancelled else Failed), sj_error := Some e\<rparr>)
                    (w\<lparr>wk_cancel := c\<rparr>)))))"

definition run_scan_job :: "nat \<Rightarrow> scan_environment \<Rightarrow> string list \<Rightarrow> worker \<Rightarrow> worker option" where
  "run_scan_job fuel env roots w =
     (case collect_targets fuel env roots w of
        None \<Rightarrow> None
      | Some (None, w) \<Rightarrow> Some w
      | Some (Some targets, w) \<Rightarrow> Some (run_targets env (length targets = 1) targets w))"

section \<open>What a job reports\<close>

definition stored_scans :: "worker \<Rightarrow> (string \<times> scan_finding) set" where
  "stored_scans w = snd ` set (lt_rows (db_scans (hs_db (wk_host w))))"

text \<open>Every finding a job shows was stored for its owner; clean files are not listed.\<close>

definition findings_ok :: "string \<Rightarrow> worker \<Rightarrow> bool" where
  "findings_ok owner w \<longleftrightarrow> length (sj_findings (wk_status w)) \<le> 512
     \<and> (\<forall>f \<in> set (sj_findings (wk_status w)). sf_verdict f \<noteq> Clean \<and> (owner, f) \<in> stored_scans w)
     \<and> (\<forall>f. sj_finding (wk_status w) = Some f \<longrightarrow> (owner, f) \<in> stored_scans w)"

definition same_job :: "worker \<Rightarrow> worker \<Rightarrow> bool" where
  "same_job w w' \<longleftrightarrow> sj_scan_id (wk_status w') = sj_scan_id (wk_status w)
     \<and> sj_target (wk_status w') = sj_target (wk_status w)
     \<and> sj_total_files (wk_status w') = sj_total_files (wk_status w)"

text \<open>A step that goes on counts one file; a step that stops the job says why.\<close>

definition step_ok :: "string \<Rightarrow> worker \<Rightarrow> bool \<times> worker \<Rightarrow> bool" where
  "step_ok owner w r \<longleftrightarrow> findings_ok owner (snd r) \<and> same_job w (snd r)
     \<and> (fst r \<longrightarrow> sj_state (wk_status (snd r)) = sj_state (wk_status w)
         \<and> sj_files_scanned (wk_status (snd r)) = sat_add (sj_files_scanned (wk_status w)) 1)
     \<and> (\<not> fst r \<longrightarrow> sj_state (wk_status (snd r)) = Failed \<and> sj_error (wk_status (snd r)) \<noteq> None
         \<or> sj_state (wk_status (snd r)) = Cancelled)"

lemma wk_call_status [simp]: "wk_call f w = (r, w') \<Longrightarrow> wk_status w' = wk_status w"
  by (auto simp: wk_call_def split: prod.splits)

lemma with_status_simps [simp]:
  "wk_status (with_status f w) = f (wk_status w)" "stored_scans (with_status f w) = stored_scans w"
  by (simp_all add: with_status_def stored_scans_def)

lemma cancel_simps [simp]: "stored_scans (w\<lparr>wk_cancel := c\<rparr>) = stored_scans w"
  by (simp add: stored_scans_def)

lemma findings_ok_host:
  assumes "findings_ok owner w" "wk_status w' = wk_status w" "stored_scans w \<subseteq> stored_scans w'"
  shows "findings_ok owner w'"
  using assms by (auto simp: findings_ok_def)

lemma findings_ok_status:
  assumes "findings_ok owner w" "sj_findings (f (wk_status w)) = sj_findings (wk_status w)"
    "sj_finding (f (wk_status w)) = sj_finding (wk_status w)"
  shows "findings_ok owner (with_status f w)"
  using assms by (simp add: findings_ok_def)

text \<open>Database calls of a worker keep what is stored.\<close>

lemma db_call_stored:
  assumes "wk_call (db_call f) w = (r, w')"
    and "\<And>d. set (lt_rows (db_scans d)) \<subseteq> set (lt_rows (db_scans (snd (f d))))"
  shows "stored_scans w \<subseteq> stored_scans w'"
proof -
  from assms(1) have "wk_host w' = snd (db_call f (wk_host w))"
    by (auto simp: wk_call_def split: prod.splits)
  then have "hs_db (wk_host w') = hs_db (wk_host w) \<or> hs_db (wk_host w') = snd (f (hs_db (wk_host w)))"
    using db_call_laws(3) [of f "wk_host w"] by simp
  then show ?thesis
  proof
    assume "hs_db (wk_host w') = snd (f (hs_db (wk_host w)))"
    then show ?thesis using image_mono [OF assms(2), of snd] by (simp add: stored_scans_def)
  qed (simp add: stored_scans_def)
qed

lemma record_scan_rows:
  "set (lt_rows (db_scans d)) \<subseteq> set (lt_rows (db_scans (snd (record_scan o1 f d))))"
  "record_scan o1 f d = (Inr i, d') \<Longrightarrow> (o1, f) \<in> snd ` set (lt_rows (db_scans d'))"
  by (auto simp: record_scan_def log_insert_def Let_def split: if_splits)

lemma record_event_rows: "db_scans (snd (record_event o1 e d)) = db_scans d"
  by (simp add: record_event_def insert_timeline_def Let_def case_prod_beta)

lemma store_finding_ok:
  assumes "findings_ok owner w"
  shows "step_ok owner w (store_finding owner single_file f w)"
proof -
  obtain r t where r: "wk_call (db_call (record_scan owner f)) w = (r, t)" by force
  have st: "wk_status t = wk_status w" using r by simp
  have sub: "stored_scans w \<subseteq> stored_scans t"
    using db_call_stored [OF r] record_scan_rows(1) by blast
  have ok: "findings_ok owner t" using findings_ok_host [OF assms st sub] .
  show ?thesis
  proof (cases r)
    case (Inl e)
    with r st ok show ?thesis
      by (auto simp: store_finding_def step_ok_def job_fail_def same_job_def intro: findings_ok_status)
  next
    case (Inr i)
    have "db_call (record_scan owner f) (wk_host w) = (Inr i, wk_host t)"
      using r Inr by (auto simp: wk_call_def split: prod.splits)
    then have stored: "(owner, f) \<in> stored_scans t"
      unfolding stored_scans_def by (metis db_call_laws(2) record_scan_rows(2))
    let ?ev = "\<lambda>d. case record_event owner (scan_event f) d of (i, d) \<Rightarrow> (Inr i, d)"
    let ?u = "if sf_verdict f \<in> {LowRisk, Suspicious, Malicious}
       then snd (wk_call (db_call ?ev) t :: (storage_error + nat) \<times> worker) else t"
    have u: "stored_scans t \<subseteq> stored_scans ?u" "wk_status ?u = wk_status t"
    proof -
      obtain a v where a: "(wk_call (db_call ?ev) t :: (storage_error + nat) \<times> worker) = (a, v)" by force
      have "stored_scans t \<subseteq> stored_scans v"
        by (rule db_call_stored [OF a]) (simp add: case_prod_beta record_event_rows)
      with a show "stored_scans t \<subseteq> stored_scans ?u" "wk_status ?u = wk_status t" by auto
    qed
    have e: "store_finding owner single_file f w = (True, with_status (count_finding single_file f) ?u)"
      using r Inr by (simp add: store_finding_def Let_def)
    have "findings_ok owner (with_status (count_finding single_file f) ?u)"
      using ok u stored by (auto simp: findings_ok_def count_finding_def)
    then show ?thesis
      using u st by (simp add: e step_ok_def same_job_def count_finding_def)
  qed
qed

lemma step_ok_call:
  assumes "findings_ok owner w" "wk_call (db_call (\<lambda>d. (Inr (g d), d))) w = (r, t)"
  shows "findings_ok owner t" "same_job w t" "wk_status t = wk_status w"
proof -
  show st: "wk_status t = wk_status w" using assms(2) by simp
  have "stored_scans w \<subseteq> stored_scans t" by (rule db_call_stored [OF assms(2)]) simp
  with assms(1) st show "findings_ok owner t" by (rule findings_ok_host)
  from st show "same_job w t" by (simp add: same_job_def)
qed

lemma step_ok_from:
  assumes "step_ok owner t r" "wk_status t = wk_status w"
  shows "step_ok owner w r"
  using assms by (simp add: step_ok_def same_job_def)

lemma step_ok_fail:
  assumes "findings_ok owner t" "wk_status t = wk_status w"
  shows "step_ok owner w (False, job_fail m t)"
  using assms by (auto simp: step_ok_def job_fail_def same_job_def intro: findings_ok_status)

lemma record_finding_ok:
  assumes "findings_ok (cc_sid (se_client env)) w"
  shows "step_ok (cc_sid (se_client env)) w (record_finding env f single_file w)"
proof (cases "sf_sha256 f = []")
  case True
  with store_finding_ok [OF assms] show ?thesis by (simp add: record_finding_def)
next
  case False
  let ?o = "cc_sid (se_client env)"
  obtain r t where r: "wk_call (db_call (\<lambda>d. (Inr (allowed_hash ?o (sf_sha256 f) d), d))) w = (r, t)" by force
  note t = step_ok_call [OF assms r]
  have e: "record_finding env f single_file w = (case r of
      Inl e \<Rightarrow> (False, job_fail (''Read allowed hashes: '' @ storage_error_display e) t)
    | Inr None \<Rightarrow> store_finding ?o single_file f t
    | Inr (Some label) \<Rightarrow> store_finding ?o single_file (allowed_finding label f) t)"
    using False r by (simp add: record_finding_def Let_def split: sum.splits option.splits)
  show ?thesis
    unfolding e using step_ok_fail [OF t(1,3)] step_ok_from [OF store_finding_ok [OF t(1)] t(3)]
    by (auto split: sum.splits option.splits)
qed

lemma impersonate_keeps:
  assumes "impersonate env w = (r, t)" "findings_ok owner w"
  shows "findings_ok owner t" "wk_status t = wk_status w"
proof -
  show st: "wk_status t = wk_status w" using assms(1) by (simp add: impersonate_def)
  have "hs_db (snd (with_client_impersonation (se_client env) (\<lambda>s. (Inr (), s)) (wk_host w))) = hs_db (wk_host w)"
    by (rule with_client_impersonation_keeps [where F = hs_db]) (simp_all add: plain_call_laws)
  moreover have "wk_host t = snd (with_client_impersonation (se_client env) (\<lambda>s. (Inr (), s)) (wk_host w))"
    using assms(1) by (auto simp: impersonate_def wk_call_def split: prod.splits)
  ultimately have "stored_scans w \<subseteq> stored_scans t" by (simp add: stored_scans_def)
  with assms(2) st show "findings_ok owner t" by (rule findings_ok_host)
qed

lemma scan_target_ok:
  assumes "findings_ok (cc_sid (se_client env)) w"
  shows "step_ok (cc_sid (se_client env)) w (scan_target env target single_file w)"
proof -
  let ?o = "cc_sid (se_client env)"
  let ?q = "\<lambda>d. (Inr (path_excluded ?o (normalized_path_key (se_canonical env) target) d), d)"
  obtain r t where r: "(wk_call (db_call ?q) w :: (storage_error + bool) \<times> worker) = (r, t)" by force
  note t = step_ok_call [OF assms r]
  obtain a u where a: "impersonate env t = (a, u)" by force
  note u = impersonate_keeps [OF a t(1)]
  have us: "wk_status u = wk_status w" using u(2) t(3) by simp
  have rec: "step_ok ?o w (record_finding env f single_file u)" for f
    by (rule step_ok_from [OF record_finding_ok [OF u(1)] us])
  have counted: "step_ok ?o w (True, with_status (\<lambda>s. s\<lparr>sj_files_scanned := sat_add (sj_files_scanned s) 1,
      sj_error := m\<rparr>) u)" for m
    using u(1) us by (auto simp: step_ok_def same_job_def intro: findings_ok_status)
  have cancelled: "step_ok ?o w (False, finish_cancelled u)"
    using u(1) us by (auto simp: step_ok_def same_job_def finish_cancelled_def intro: findings_ok_status)
  have e: "scan_target env target single_file w = (case r of
      Inl e \<Rightarrow> (False, job_fail (''Read exclusions: '' @ storage_error_display e) t)
    | Inr True \<Rightarrow> record_finding env (excluded_finding env target
          (case a of Inl _ \<Rightarrow> 0 | Inr _ \<Rightarrow> se_size env target)) single_file u
    | Inr False \<Rightarrow> (case a of Inl e \<Rightarrow> (False, job_fail (''Impersonate scan owner: '' @ e) u)
        | Inr _ \<Rightarrow> (case scan_one env target of
              Inr finding \<Rightarrow> record_finding env finding single_file u
            | Inl ScanCancelled \<Rightarrow> (False, finish_cancelled u)
            | Inl e \<Rightarrow> (True, with_status (\<lambda>s. s\<lparr>sj_files_scanned := sat_add (sj_files_scanned s) 1,
                sj_error := Some (''Some files could not be scanned: '' @ scan_error_display e)\<rparr>) u))))"
    using r a by (simp add: scan_target_def split: sum.splits bool.splits)
  show ?thesis
    unfolding e using step_ok_fail [OF t(1,3)] step_ok_fail [OF u(1) us] rec counted cancelled
    by (auto split: sum.splits bool.splits scan_error.splits)
qed

lemma run_targets_ok:
  assumes "findings_ok (cc_sid (se_client env)) w" "sj_state (wk_status w) = Running"
    and "unat (sj_files_scanned (wk_status w)) + length targets < 2 ^ 64"
  shows "findings_ok (cc_sid (se_client env)) (run_targets env single_file targets w)
    \<and> same_job w (run_targets env single_file targets w)
    \<and> sj_state (wk_status (run_targets env single_file targets w)) \<in> {Completed, Cancelled, Failed}
    \<and> (sj_state (wk_status (run_targets env single_file targets w)) = Completed \<longrightarrow>
         unat (sj_files_scanned (wk_status (run_targets env single_file targets w)))
           = unat (sj_files_scanned (wk_status w)) + length targets)
    \<and> (sj_state (wk_status (run_targets env single_file targets w)) = Failed \<longrightarrow>
         sj_error (wk_status (run_targets env single_file targets w)) \<noteq> None)"
  using assms
proof (induction targets arbitrary: w)
  case Nil
  then show ?case by (auto simp: same_job_def intro: findings_ok_status)
next
  case (Cons target targets)
  obtain b c where b: "poll (wk_cancel w) = (b, c)" by force
  have host: "findings_ok (cc_sid (se_client env)) (w\<lparr>wk_cancel := c\<rparr>)"
    using Cons.prems(1) by (simp add: findings_ok_def stored_scans_def)
  show ?case
  proof (cases b)
    case True
    with b host Cons.prems show ?thesis
      by (auto simp: finish_cancelled_def same_job_def intro: findings_ok_status)
  next
    case False
    let ?w = "with_status (\<lambda>s. s\<lparr>sj_current_path := target\<rparr>) (w\<lparr>wk_cancel := c\<rparr>)"
    have w: "findings_ok (cc_sid (se_client env)) ?w" using host by (auto intro: findings_ok_status)
    obtain g v where g: "scan_target env target single_file ?w = (g, v)" by force
    note s = scan_target_ok [OF w, of target single_file, unfolded g step_ok_def fst_conv snd_conv]
    show ?thesis
    proof (cases g)
      case False
      with s g b \<open>\<not> b\<close> Cons.prems show ?thesis by (auto simp: same_job_def)
    next
      case True
      have n: "unat (sj_files_scanned (wk_status v)) = Suc (unat (sj_files_scanned (wk_status w)))"
        using s True Cons.prems(3) by (simp add: unat_sat_add)
      have st: "sj_state (wk_status v) = Running" using s True Cons.prems(2) by simp
      have run: "run_targets env single_file (target # targets) w = run_targets env single_file targets v"
        using b \<open>\<not> b\<close> g True by simp
      from Cons.IH [of v] s n st Cons.prems(3) show ?thesis
        unfolding run by (auto simp: same_job_def)
    qed
  qed
qed

lemma collect_targets_cases:
  assumes "collect_targets fuel env roots w = Some (r, w')" "findings_ok (cc_sid (se_client env)) w"
  obtains (stopped) "r = None" "findings_ok (cc_sid (se_client env)) w'"
      "sj_scan_id (wk_status w') = sj_scan_id (wk_status w)" "sj_target (wk_status w') = sj_target (wk_status w)"
      "sj_state (wk_status w') \<in> {Cancelled, Failed}" "sj_error (wk_status w') \<noteq> None"
  | (found) targets c c' where "r = Some targets" "targets \<noteq> []" "findings_ok (cc_sid (se_client env)) w'"
      "collect_scan_targets fuel (se_tree env) roots c = Some (Inr targets, c')"
      "wk_status w' = (wk_status w)\<lparr>sj_total_files := of_nat (length targets)\<rparr>"
proof -
  obtain a u where a: "impersonate env w = (a, u)" by force
  note u = impersonate_keeps [OF a assms(2)]
  have keep: "findings_ok (cc_sid (se_client env)) (with_status f (u\<lparr>wk_cancel := c\<rparr>))"
    if "sj_findings (f (wk_status u)) = sj_findings (wk_status u)"
      "sj_finding (f (wk_status u)) = sj_finding (wk_status u)" for f c
    using u(1) that by (simp add: findings_ok_def)
  have keep0: "findings_ok (cc_sid (se_client env)) (job_fail m u)" for m
    unfolding job_fail_def by (rule findings_ok_status [OF u(1)]) simp_all
  show thesis
  proof (cases a)
    case (Inl e)
    with a assms(1) have "r = None" "w' = job_fail (''Impersonate scan owner: '' @ e) u"
      by (simp_all add: collect_targets_def)
    then show ?thesis using keep0 u(2) by (intro stopped) (simp_all add: job_fail_def)
  next
    case (Inr x)
    with a assms(1) obtain rs c where
      rs: "collect_scan_targets fuel (se_tree env) roots (wk_cancel u) = Some (rs, c)"
      by (cases "collect_scan_targets fuel (se_tree env) roots (wk_cancel u)")
        (auto simp: collect_targets_def)
    show ?thesis
    proof (cases rs)
      case rInl: (Inl e)
      obtain b c2 where b: "poll c = (b, c2)" by force
      with a Inr rs rInl assms(1) have e: "r = None" "w' = with_status (\<lambda>s. s\<lparr>sj_state := (if b then Cancelled else Failed),
          sj_error := Some e\<rparr>) (u\<lparr>wk_cancel := c2\<rparr>)"
        by (simp_all add: collect_targets_def)
      show ?thesis
        by (rule stopped [OF e(1)]) (simp_all add: e(2) keep u(2))
    next
      case rInr: (Inr ts)
      show ?thesis
      proof (cases "ts = []")
        case True
        with a Inr rs rInr assms(1) have e: "r = None"
            "w' = job_fail ''No regular files were found in the selected target'' (u\<lparr>wk_cancel := c\<rparr>)"
          by (simp_all add: collect_targets_def)
        show ?thesis
          by (rule stopped [OF e(1)]) (simp_all add: e(2) job_fail_def keep u(2))
      next
        case False
        with a Inr rs rInr assms(1) have e: "r = Some ts" "w' = with_status (\<lambda>s. s\<lparr>sj_total_files := of_nat (length ts)\<rparr>)
            (u\<lparr>wk_cancel := c\<rparr>)"
          by (simp_all add: collect_targets_def)
        show ?thesis
          by (rule found [OF e(1) False _ rs [unfolded rInr]]) (simp_all add: e(2) keep u(2))
      qed
    qed
  qed
qed

section \<open>Every job ends with a truthful report\<close>

definition fresh_job :: "worker \<Rightarrow> bool" where
  "fresh_job w \<longleftrightarrow> sj_state (wk_status w) = Running \<and> sj_findings (wk_status w) = [] \<and> sj_finding (wk_status w) = None
     \<and> sj_files_scanned (wk_status w) = 0"

text \<open>What the status of a finished job says is what happened.\<close>

definition truthful :: "scan_environment \<Rightarrow> string list \<Rightarrow> worker \<Rightarrow> bool" where
  "truthful env roots w \<longleftrightarrow> findings_ok (cc_sid (se_client env)) w
     \<and> sj_state (wk_status w) \<in> {Completed, Cancelled, Failed}
     \<and> (sj_state (wk_status w) = Failed \<longrightarrow> sj_error (wk_status w) \<noteq> None)
     \<and> (sj_state (wk_status w) = Completed \<longrightarrow>
          (\<exists>targets. set targets = scan_targets (se_tree env) roots \<and> targets \<noteq> []
             \<and> unat (sj_total_files (wk_status w)) = length targets
             \<and> unat (sj_files_scanned (wk_status w)) = length targets))"

lemma run_scan_job_truthful:
  assumes "run_scan_job fuel env roots w = Some w'" "fresh_job w" "length roots < MAXIMUM_FILES"
  shows "truthful env roots w'" "sj_scan_id (wk_status w') = sj_scan_id (wk_status w)"
    "sj_target (wk_status w') = sj_target (wk_status w)"
proof -
  have ok: "findings_ok (cc_sid (se_client env)) w" using assms(2) by (simp add: fresh_job_def findings_ok_def)
  from assms(1) obtain r v where r: "collect_targets fuel env roots w = Some (r, v)"
    by (auto simp: run_scan_job_def split: option.splits)
  have "truthful env roots w' \<and> sj_scan_id (wk_status w') = sj_scan_id (wk_status w)
      \<and> sj_target (wk_status w') = sj_target (wk_status w)"
    using r ok
  proof (cases rule: collect_targets_cases)
    case stopped
    with r assms(1) show ?thesis by (auto simp: run_scan_job_def truthful_def)
  next
    case (found targets c c')
    have len: "length targets < MAXIMUM_FILES" by (rule collect_scan_targets_length [OF found(4) assms(3)])
    then have n: "unat (of_nat (length targets) :: u64) = length targets"
      by (simp add: unat_of_nat MAXIMUM_FILES_def)
    let ?v = "run_targets env (length targets = 1) targets v"
    have w': "w' = ?v" using r found(1) assms(1) by (simp add: run_scan_job_def)
    have "sj_state (wk_status v) = Running" "unat (sj_files_scanned (wk_status v)) + length targets < 2 ^ 64"
      using found(5) assms(2) len by (simp_all add: fresh_job_def MAXIMUM_FILES_def)
    note out = run_targets_ok [OF found(3) this, of "length targets = 1"]
    have s: "set targets = scan_targets (se_tree env) roots" by (rule collect_scan_targets_exact [OF found(4)])
    have keep: "sj_scan_id (wk_status v) = sj_scan_id (wk_status w)" "sj_target (wk_status v) = sj_target (wk_status w)"
      "unat (sj_total_files (wk_status v)) = length targets" "unat (sj_files_scanned (wk_status v)) = 0"
      using found(5) assms(2) n by (simp_all add: fresh_job_def)
    show ?thesis
      unfolding w' truthful_def using out keep s found(2) by (auto simp: same_job_def)
  qed
  then show "truthful env roots w'" "sj_scan_id (wk_status w') = sj_scan_id (wk_status w)"
    "sj_target (wk_status w') = sj_target (wk_status w)" by auto
qed

lemma run_scan_job_returns:
  assumes "ranked rank (se_tree env)"
  shows "\<exists>fuel w'. run_scan_job fuel env roots w = Some w'"
proof -
  obtain a u where a: "impersonate env w = (a, u)" by force
  obtain fuel where "collect_scan_targets fuel (se_tree env) roots (wk_cancel u) \<noteq> None"
    using collect_scan_targets_returns [OF assms] by blast
  with a have "collect_targets fuel env roots w \<noteq> None"
    by (auto simp: collect_targets_def split: sum.splits prod.splits)
  then show ?thesis by (intro exI [of _ fuel]) (auto simp: run_scan_job_def split: option.splits)
qed

text \<open>
  C14. A scan job ends, and what it then reports is what happened.  On a tree without cycles the
  worker returns; whatever the files, the database, the client and the cancellation do, the job is
  then completed, cancelled or failed, a failure says why, at most 512 findings are listed and each
  was stored for the job's owner, and a completed job has counted every regular file below its roots.
\<close>

theorem scan_job_outcome:
  assumes "ranked rank (se_tree env)" "fresh_job w" "length roots < MAXIMUM_FILES"
  shows "(\<exists>fuel w'. run_scan_job fuel env roots w = Some w')
    \<and> (\<forall>fuel w'. run_scan_job fuel env roots w = Some w' \<longrightarrow>
         truthful env roots w' \<and> sj_scan_id (wk_status w') = sj_scan_id (wk_status w)
         \<and> sj_target (wk_status w') = sj_target (wk_status w))"
  using run_scan_job_returns [OF assms(1)] run_scan_job_truthful [OF _ assms(2,3)] by blast

definition sample_scan_environment :: scan_environment where
  "sample_scan_environment = \<lparr>se_scanner = sample_scanner, se_client = sample_client, se_tree = sample_tree,
     se_canonical = Some, se_world = (\<lambda>_. sample_world ''abc''),
     se_signals = (\<lambda>_. sample_signals ''clean''), se_size = (\<lambda>_. 3), se_now = ''0''\<rparr>"

definition sample_worker :: worker where
  "sample_worker = \<lparr>wk_host = \<lparr>hs_files = Map.empty, hs_outcomes = [], hs_db = db_empty\<rparr>, wk_cancel = None,
     wk_status = \<lparr>sj_scan_id = ''1'', sj_target = ''R'', sj_state = Running, sj_finding = None, sj_findings = [],
       sj_files_scanned = 0, sj_total_files = 0, sj_current_path = [], sj_error = None\<rparr>\<rparr>"

theorem scan_job_outcome_witness:
  "\<exists>w'. run_scan_job 3 sample_scan_environment [''R''] sample_worker = Some w'
     \<and> sj_state (wk_status w') = Completed \<and> length (sj_findings (wk_status w')) = 2
     \<and> truthful sample_scan_environment [''R''] w'"
proof -
  have c: "case run_scan_job 3 sample_scan_environment [''R''] sample_worker of None \<Rightarrow> False
      | Some w' \<Rightarrow> sj_state (wk_status w') = Completed \<and> length (sj_findings (wk_status w')) = 2"
    by code_simp
  have r: "ranked (\<lambda>d. if d = ''R'' then 1 else 0) (se_tree sample_scan_environment)"
    by (auto simp: ranked_def subdir_def sample_scan_environment_def sample_tree_def)
  have f: "fresh_job sample_worker" by (simp add: fresh_job_def sample_worker_def)
  from c scan_job_outcome [OF r f, of "[''R'']"] show ?thesis
    by (auto simp: MAXIMUM_FILES_def split: option.splits)
qed

end
