(* ===== verification/OG_Jobs.thy ===== *)
theory OG_Jobs
  imports OG_ScanJobs
begin

text \<open>
  The table of scan jobs (\<^verbatim>\<open>ServiceState::scan_jobs\<close> in \<^verbatim>\<open>openguard-service/src/main.rs\<close>): starting,
  cancelling and reading a scan, and pruning finished jobs.  The table is the association list of the
  hash map in its iteration order; the requests run under the state lock, one after the other, while
  the workers change the statuses of their own jobs.
\<close>

section \<open>The table\<close>

record scan_job =
  jb_owner :: string
  jb_cancelled :: bool
  jb_status :: scan_job_status

type_synonym scan_jobs = "(string \<times> scan_job) list"

text \<open>The service, its jobs and the threads it has started: job and roots.\<close>

record job_service =
  js_host :: host
  js_jobs :: scan_jobs
  js_workers :: "(string \<times> string list) list"

definition remove_job :: "string \<Rightarrow> scan_jobs \<Rightarrow> scan_jobs" where
  "remove_job i = filter (\<lambda>e. fst e \<noteq> i)"

definition insert_job :: "string \<Rightarrow> scan_job \<Rightarrow> scan_jobs \<Rightarrow> scan_jobs" where
  "insert_job i j jobs = (i, j) # remove_job i jobs"

definition update_job :: "string \<Rightarrow> (scan_job \<Rightarrow> scan_job) \<Rightarrow> scan_jobs \<Rightarrow> scan_jobs" where
  "update_job i f = map (\<lambda>(k, j). (k, if k = i then f j else j))"

definition unfinished :: "scan_job \<Rightarrow> bool" where
  "unfinished j \<longleftrightarrow> sj_state (jb_status j) \<in> {Queued, Running}"

fun prune_loop :: "string list \<Rightarrow> scan_jobs \<Rightarrow> scan_jobs" where
  "prune_loop [] jobs = jobs"
| "prune_loop (i # ids) jobs = (if length jobs < 96 then jobs else prune_loop ids (remove_job i jobs))"

definition prune_finished_scans :: "scan_jobs \<Rightarrow> scan_jobs" where
  "prune_finished_scans jobs =
     (if length jobs < 128 then jobs
      else prune_loop (map fst (filter (\<lambda>e. \<not> unfinished (snd e)) jobs)) jobs)"

definition authorize_scan_owner :: "scan_job \<Rightarrow> string \<Rightarrow> api_error + unit" where
  "authorize_scan_owner job owner_sid =
     (if jb_owner job = owner_sid then Inr ()
      else Inl \<lparr>ae_code = Forbidden, ae_message = ''This scan job belongs to a different signed-in user'',
        ae_retryable = False\<rparr>)"

section \<open>Starting a scan\<close>

fun profile_debug :: "scan_profile \<Rightarrow> string" where
  "profile_debug Quick = ''Quick''"
| "profile_debug Full = ''Full''"
| "profile_debug Startup = ''Startup''"
| "profile_debug Downloads = ''Downloads''"

definition new_scan_job :: "string \<Rightarrow> string \<Rightarrow> string \<Rightarrow> scan_job" where
  "new_scan_job owner scan_id target_label = \<lparr>jb_owner = owner, jb_cancelled = False,
     jb_status = \<lparr>sj_scan_id = scan_id, sj_target = target_label, sj_state = Running, sj_finding = None,
       sj_findings = [], sj_files_scanned = 0, sj_total_files = 0, sj_current_path = [], sj_error = None\<rparr>\<rparr>"

definition js_call :: "(host \<Rightarrow> 'r \<times> host) \<Rightarrow> job_service \<Rightarrow> 'r \<times> job_service" where
  "js_call f s = (case f (js_host s) of (r, h) \<Rightarrow> (r, s\<lparr>js_host := h\<rparr>))"

definition busy :: api_error where
  "busy = \<lparr>ae_code = Busy,
     ae_message = ''Too many scan jobs are retained; retry after completed jobs are pruned'', ae_retryable = True\<rparr>"

definition identity_lost :: "string \<Rightarrow> api_error" where
  "identity_lost e = \<lparr>ae_code = Unauthorized,
     ae_message = ''Cannot preserve the requesting user'' @ [CHR 0x27] @ ''s identity: '' @ e,
     ae_retryable = False\<rparr>"

text \<open>The end of \<^verbatim>\<open>start_scan\<close>: the job is in the table before the two calls that may fail.\<close>

definition spawn_scan ::
  "client_context \<Rightarrow> string \<Rightarrow> string list \<Rightarrow> job_service \<Rightarrow> (api_error + string) \<times> job_service" where
  "spawn_scan client scan_id roots =
     run_then (map_fail identity_lost
         (js_call (if cc_token client then plain_call else (\<lambda>h. (Inr (), h)))))
       (\<lambda>_. run_then (map_fail (\<lambda>e. internal (''Start native scan worker: '' @ e)) (js_call plain_call))
         (\<lambda>_ s. (Inr scan_id, s\<lparr>js_workers := (scan_id, roots) # js_workers s\<rparr>)))"

definition start_scan ::
  "known_folders \<Rightarrow> (string \<Rightarrow> bool) \<Rightarrow> file_tree \<Rightarrow> string \<Rightarrow> client_context \<Rightarrow> string \<Rightarrow> scan_profile option
   \<Rightarrow> job_service \<Rightarrow> (api_error + string) \<times> job_service" where
  "start_scan k exists_path t scan_id client target profile =
     run_then (js_call (resolve_scan_roots k exists_path t client target profile))
       (\<lambda>roots s.
         let target_label = (case profile of None \<Rightarrow> target | Some p \<Rightarrow> profile_debug p @ '' profile'');
             s = s\<lparr>js_jobs := prune_finished_scans (js_jobs s)\<rparr>
         in if 128 \<le> length (js_jobs s) then (Inl busy, s)
            else spawn_scan client scan_id roots
              (s\<lparr>js_jobs := insert_job scan_id (new_scan_job (cc_sid client) scan_id target_label) (js_jobs s)\<rparr>))"

definition scan_not_found :: "string \<Rightarrow> api_error" where
  "scan_not_found scan_id = \<lparr>ae_code = NotFound,
     ae_message = ''Scan job '' @ quoted scan_id @ '' was not found'', ae_retryable = False\<rparr>"

definition cancel_scan :: "string \<Rightarrow> string \<Rightarrow> job_service \<Rightarrow> (api_error + unit) \<times> job_service" where
  "cancel_scan scan_id owner_sid s =
     (case map_of (js_jobs s) scan_id of
        None \<Rightarrow> (Inl (scan_not_found scan_id), s)
      | Some job \<Rightarrow>
          (case authorize_scan_owner job owner_sid of
             Inl e \<Rightarrow> (Inl e, s)
           | Inr _ \<Rightarrow> (Inr (), s\<lparr>js_jobs := update_job scan_id (\<lambda>j. j\<lparr>jb_cancelled := True\<rparr>) (js_jobs s)\<rparr>)))"

definition scan_status :: "string \<Rightarrow> string \<Rightarrow> job_service \<Rightarrow> api_error + scan_job_status" where
  "scan_status scan_id owner_sid s =
     (case map_of (js_jobs s) scan_id of
        None \<Rightarrow> Inl (scan_not_found scan_id)
      | Some job \<Rightarrow> and_then (authorize_scan_owner job owner_sid) (\<lambda>_. Inr (jb_status job)))"

section \<open>Runs of the service\<close>

text \<open>
  A client's request, a write of a worker to the status of its job (a worker stops at the first
  state that is not running), and a reordering of the hash map.
\<close>

inductive job_step :: "job_service \<Rightarrow> job_service \<Rightarrow> bool" where
  start: "scan_id \<notin> fst ` set (js_jobs s) \<Longrightarrow> scan_id \<notin> fst ` set (js_workers s) \<Longrightarrow>
    job_step s (snd (start_scan k ex t scan_id client target profile s))"
| cancel: "job_step s (snd (cancel_scan scan_id owner s))"
| report: "map_of (js_jobs s) i = Some j \<Longrightarrow> i \<in> fst ` set (js_workers s) \<Longrightarrow>
    sj_state (jb_status j) = Running \<Longrightarrow> sj_scan_id st = i \<Longrightarrow>
    job_step s (s\<lparr>js_jobs := update_job i (\<lambda>j. j\<lparr>jb_status := st\<rparr>) (js_jobs s), js_host := h\<rparr>)"
| rehash: "mset jobs' = mset (js_jobs s) \<Longrightarrow> job_step s (s\<lparr>js_jobs := jobs'\<rparr>)"

definition jobs_ok :: "job_service \<Rightarrow> bool" where
  "jobs_ok s \<longleftrightarrow> distinct (map fst (js_jobs s)) \<and> length (js_jobs s) \<le> 128
     \<and> (\<forall>(i, j) \<in> set (js_jobs s). sj_scan_id (jb_status j) = i)"

subsection \<open>Pruning\<close>

lemma remove_job_set [simp]: "set (remove_job i jobs) = {e \<in> set jobs. fst e \<noteq> i}"
  by (simp add: remove_job_def)

lemma remove_job_distinct: "distinct (map fst jobs) \<Longrightarrow> distinct (map fst (remove_job i jobs))"
  by (simp add: remove_job_def distinct_map_filter)

lemma remove_job_length: "length (remove_job i jobs) \<le> length jobs"
  by (simp add: remove_job_def)

lemma remove_job_one:
  "distinct (map fst jobs) \<Longrightarrow> length jobs \<le> Suc (length (remove_job i jobs))"
proof (induction jobs)
  case (Cons e jobs)
  show ?case
  proof (cases "fst e = i")
    case True
    with Cons.prems have "\<forall>x \<in> set jobs. fst x \<noteq> i" by (auto simp: image_iff)
    then have "filter (\<lambda>e. fst e \<noteq> i) jobs = jobs" by (simp add: filter_id_conv)
    with True show ?thesis by (simp add: remove_job_def)
  next
    case False
    with Cons show ?thesis by (simp add: remove_job_def)
  qed
qed simp

lemma prune_loop_facts:
  "distinct (map fst jobs) \<Longrightarrow>
     set (prune_loop ids jobs) \<subseteq> set jobs \<and> distinct (map fst (prune_loop ids jobs))
     \<and> (\<forall>e \<in> set jobs. fst e \<notin> set ids \<longrightarrow> e \<in> set (prune_loop ids jobs))
     \<and> (95 \<le> length jobs \<longrightarrow> 95 \<le> length (prune_loop ids jobs))
     \<and> length (prune_loop ids jobs) \<le> length jobs
     \<and> (96 \<le> length (prune_loop ids jobs) \<longrightarrow> (\<forall>e \<in> set (prune_loop ids jobs). fst e \<notin> set ids))"
proof (induction ids arbitrary: jobs)
  case (Cons i ids)
  note IH = Cons.IH [OF remove_job_distinct [OF Cons.prems, of i]]
  show ?case
  proof (cases "length jobs < 96")
    case True
    with Cons.prems show ?thesis by simp
  next
    case False
    let ?r = "prune_loop ids (remove_job i jobs)"
    have r: "prune_loop (i # ids) jobs = ?r" using False by simp
    have sub: "set ?r \<subseteq> {e \<in> set jobs. fst e \<noteq> i}" and d: "distinct (map fst ?r)"
      using IH by simp_all
    have k: "\<forall>e \<in> set jobs. fst e \<noteq> i \<longrightarrow> fst e \<notin> set ids \<longrightarrow> e \<in> set ?r"
      using IH by auto
    have n: "96 \<le> length ?r \<longrightarrow> (\<forall>e \<in> set ?r. fst e \<notin> set ids)"
      using IH by blast
    have l: "length ?r \<le> length jobs" using IH remove_job_length [of i jobs] by linarith
    have "95 \<le> length (remove_job i jobs)" using False remove_job_one [OF Cons.prems, of i] by linarith
    then have m: "95 \<le> length ?r" using IH by blast
    show ?thesis unfolding r using sub d k n l m by auto
  qed
qed simp

text \<open>
  What pruning does.  Below 128 jobs nothing; otherwise finished jobs are dropped until 95 jobs are
  left or no finished job is, and an unfinished job is never dropped.
\<close>

lemma prune_facts:
  assumes "distinct (map fst jobs)"
  shows "set (prune_finished_scans jobs) \<subseteq> set jobs" "distinct (map fst (prune_finished_scans jobs))"
    "length (prune_finished_scans jobs) \<le> length jobs"
    "e \<in> set jobs \<Longrightarrow> unfinished (snd e) \<Longrightarrow> e \<in> set (prune_finished_scans jobs)"
    "96 \<le> length (prune_finished_scans jobs) \<Longrightarrow> 128 \<le> length jobs \<Longrightarrow> e \<in> set (prune_finished_scans jobs)
     \<Longrightarrow> unfinished (snd e)"
proof -
  define ids where "ids = map fst (filter (\<lambda>e. \<not> unfinished (snd e)) jobs)"
  have q: "prune_finished_scans jobs = (if length jobs < 128 then jobs else prune_loop ids jobs)"
    by (simp add: prune_finished_scans_def ids_def)
  have inj: "fst e \<in> set ids \<longleftrightarrow> \<not> unfinished (snd e)" if "e \<in> set jobs" for e
    using that assms by (auto simp: ids_def distinct_map inj_on_def)
  have p1: "set (prune_loop ids jobs) \<subseteq> set jobs" and p2: "distinct (map fst (prune_loop ids jobs))"
    and p3: "\<And>e. e \<in> set jobs \<Longrightarrow> fst e \<notin> set ids \<Longrightarrow> e \<in> set (prune_loop ids jobs)"
    and p4: "length (prune_loop ids jobs) \<le> length jobs"
    and p5: "\<And>e. 96 \<le> length (prune_loop ids jobs) \<Longrightarrow> e \<in> set (prune_loop ids jobs) \<Longrightarrow> fst e \<notin> set ids"
    using prune_loop_facts [OF assms, of ids] by simp_all
  show "set (prune_finished_scans jobs) \<subseteq> set jobs" "distinct (map fst (prune_finished_scans jobs))"
    "length (prune_finished_scans jobs) \<le> length jobs"
    using p1 p2 p4 assms by (simp_all add: q)
  show "e \<in> set jobs \<Longrightarrow> unfinished (snd e) \<Longrightarrow> e \<in> set (prune_finished_scans jobs)"
    using p3 inj by (simp add: q)
  assume l: "96 \<le> length (prune_finished_scans jobs)" "128 \<le> length jobs" and e: "e \<in> set (prune_finished_scans jobs)"
  then have "fst e \<notin> set ids" using p5 by (simp add: q)
  moreover have "e \<in> set jobs" using p1 e l(2) by (auto simp: q)
  ultimately show "unfinished (snd e)" using inj by simp
qed

subsection \<open>The operations on the table\<close>

lemma map_of_mem: "distinct (map fst jobs) \<Longrightarrow> map_of jobs i = Some j \<longleftrightarrow> (i, j) \<in> set jobs"
  by (metis map_of_SomeD map_of_is_SomeI)

lemma map_of_update_job [simp]:
  "map_of (update_job i f jobs) k = (if k = i then map_option f (map_of jobs k) else map_of jobs k)"
  by (induction jobs) (auto simp: update_job_def)

lemma map_of_remove_job [simp]: "map_of (remove_job i jobs) k = (if k = i then None else map_of jobs k)"
  by (induction jobs) (auto simp: remove_job_def)

lemma map_of_insert_job [simp]: "map_of (insert_job i j jobs) k = (if k = i then Some j else map_of jobs k)"
  by (simp add: insert_job_def)

lemma update_job_fst [simp]: "map fst (update_job i f jobs) = map fst jobs" "length (update_job i f jobs) = length jobs"
  by (simp_all add: update_job_def case_prod_beta comp_def)

lemma map_of_prune:
  assumes "distinct (map fst jobs)"
  shows "map_of (prune_finished_scans jobs) i = map_of jobs i
    \<or> map_of (prune_finished_scans jobs) i = None \<and> (\<forall>j. map_of jobs i = Some j \<longrightarrow> \<not> unfinished j)"
proof (cases "map_of (prune_finished_scans jobs) i")
  case None
  have "map_of jobs i = Some j \<Longrightarrow> \<not> unfinished j" for j
    using None prune_facts(4) [OF assms, of "(i, j)"] map_of_mem [OF assms, of i j]
      map_of_mem [OF prune_facts(2) [OF assms], of i j] by auto
  with None show ?thesis by blast
next
  case (Some j)
  then have "map_of jobs i = Some j"
    using prune_facts(1) [OF assms] map_of_mem [OF assms, of i j] map_of_SomeD [OF Some] by blast
  with Some show ?thesis by simp
qed

lemma js_call_table [simp]:
  "js_call f s = (r, s') \<Longrightarrow> js_jobs s' = js_jobs s"
  "js_call f s = (r, s') \<Longrightarrow> js_workers s' = js_workers s"
  by (auto simp: js_call_def split: prod.splits)

lemma spawn_scan_cases:
  obtains (leaked) e s' where "spawn_scan client i roots s = (Inl e, s')" "js_jobs s' = js_jobs s"
      "js_workers s' = js_workers s" "ae_code e \<in> {Unauthorized, Internal}"
  | (started) s' where "spawn_scan client i roots s = (Inr i, s')" "js_jobs s' = js_jobs s"
      "js_workers s' = (i, roots) # js_workers s"
proof -
  obtain r t where r: "js_call (if cc_token client then plain_call else (\<lambda>h. (Inr (), h))) s = (r, t)" by force
  obtain q u where q: "js_call plain_call t = (q, u)" by force
  show thesis
  proof (cases r)
    case (Inl e)
    with r show thesis
      by (intro leaked [of "identity_lost e" t])
        (simp_all add: spawn_scan_def run_then_def map_fail_def identity_lost_def)
  next
    case (Inr x)
    show thesis
    proof (cases q)
      case (Inl e)
      with r q Inr show thesis
        by (intro leaked [of "internal (''Start native scan worker: '' @ e)" u])
          (simp_all add: spawn_scan_def run_then_def map_fail_def internal_def)
    next
      case (Inr y)
      with r q \<open>r = Inr x\<close> show thesis
        by (intro started [of "u\<lparr>js_workers := (i, roots) # js_workers u\<rparr>"]) (simp_all add: spawn_scan_def run_then_def map_fail_def internal_def)
    qed
  qed
qed

lemma check_roots_code: "check_roots t rs = Inl e \<Longrightarrow> ae_code e \<in> {NotFound, InvalidRequest}"
  by (induction rs) (auto split: sum.splits if_splits)

lemma run_then_Inl_cases:
  assumes "run_then m f s = (Inl e, s')"
  obtains (first) "m s = (Inl e, s')" | (second) a t where "m s = (Inr a, t)" "f a t = (Inl e, s')"
  using assms by (auto simp: run_then_def split: prod.splits sum.splits)

lemma map_fail_Inl_cases:
  assumes "map_fail g m s = (Inl e, s')"
  obtains e1 where "e = g e1"
proof -
  obtain r t where "m s = (r, t)" by force
  with assms that show thesis by (cases r) (auto simp: map_fail_def)
qed

lemma resolve_scan_roots_code:
  assumes "resolve_scan_roots k ex t client target profile h = (Inl e, h')"
  shows "ae_code e \<noteq> Internal"
  using assms [unfolded resolve_scan_roots_def]
proof (cases rule: run_then_Inl_cases)
  case first
  then show ?thesis by (auto elim: map_fail_Inl_cases)
next
  case (second a u)
  let ?roots = "case profile of None \<Rightarrow> [target] | Some p \<Rightarrow> scan_profile_roots k ex p"
  show ?thesis
  proof (cases "?roots = []")
    case True
    with second(2) show ?thesis by (auto simp: Let_def)
  next
    case False
    from second(2) [unfolded Let_def if_not_P [OF False]] show ?thesis
    proof (cases rule: run_then_Inl_cases)
      case first
      then show ?thesis by (auto elim: map_fail_Inl_cases)
    next
      case (second checked v)
      from second(1) have "checked = check_roots t ?roots"
        by (auto simp: run_iffs dest!: with_client_impersonation_Inr)
      with second(2) check_roots_code [of t ?roots] show ?thesis by (auto simp: and_then_Inl_iff)
    qed
  qed
qed

lemma start_scan_cases:
  obtains (unresolved) e s' where "start_scan k ex t i client target profile s = (Inl e, s')"
      "js_jobs s' = js_jobs s" "js_workers s' = js_workers s" "ae_code e \<noteq> Internal"
  | (refused) s' where "start_scan k ex t i client target profile s = (Inl busy, s')"
      "js_jobs s' = prune_finished_scans (js_jobs s)" "js_workers s' = js_workers s"
      "128 \<le> length (prune_finished_scans (js_jobs s))"
  | (leaked) label e s' where "start_scan k ex t i client target profile s = (Inl e, s')"
      "js_jobs s' = insert_job i (new_scan_job (cc_sid client) i label) (prune_finished_scans (js_jobs s))"
      "js_workers s' = js_workers s" "length (prune_finished_scans (js_jobs s)) < 128"
      "ae_code e \<in> {Unauthorized, Internal}"
  | (started) label roots s' where "start_scan k ex t i client target profile s = (Inr i, s')"
      "js_jobs s' = insert_job i (new_scan_job (cc_sid client) i label) (prune_finished_scans (js_jobs s))"
      "js_workers s' = (i, roots) # js_workers s" "length (prune_finished_scans (js_jobs s)) < 128"
proof -
  obtain r u where r: "js_call (resolve_scan_roots k ex t client target profile) s = (r, u)" by force
  then have u: "js_jobs u = js_jobs s" "js_workers u = js_workers s" by simp_all
  show thesis
  proof (cases r)
    case (Inl e)
    have "ae_code e \<noteq> Internal"
      using resolve_scan_roots_code [of k ex t client target profile "js_host s" e] r Inl
      by (auto simp: js_call_def split: prod.splits)
    with Inl r u show thesis by (intro unresolved [of e u]) (simp_all add: start_scan_def run_then_def)
  next
    case (Inr roots)
    let ?p = "prune_finished_scans (js_jobs s)"
    show thesis
    proof (cases "128 \<le> length ?p")
      case True
      with r u Inr show thesis
        by (intro refused [of "u\<lparr>js_jobs := ?p\<rparr>"]) (simp_all add: start_scan_def run_then_def)
    next
      case False
      define label where "label = (case profile of None \<Rightarrow> target | Some p \<Rightarrow> profile_debug p @ '' profile'')"
      let ?s = "u\<lparr>js_jobs := insert_job i (new_scan_job (cc_sid client) i label) ?p\<rparr>"
      have e: "start_scan k ex t i client target profile s = spawn_scan client i roots ?s"
        using r u Inr False by (simp add: start_scan_def run_then_def label_def)
      show thesis
      proof (cases rule: spawn_scan_cases [of client i roots ?s])
        case (leaked e2 s2)
        show thesis
          using leaked(2-) u False by - (rule that(3) [unfolded e, OF leaked(1)], simp_all)
      next
        case (started s2)
        show thesis
          using started(2-) u False by - (rule that(4) [unfolded e, OF started(1)], simp_all)
      qed
    qed
  qed
qed

subsection \<open>The table over every run\<close>

lemma jobs_ok_prune:
  assumes "jobs_ok s"
  shows "jobs_ok (s'\<lparr>js_jobs := prune_finished_scans (js_jobs s)\<rparr>)"
proof -
  have d: "distinct (map fst (js_jobs s))" using assms by (simp add: jobs_ok_def)
  have "\<forall>(i, j) \<in> set (prune_finished_scans (js_jobs s)). sj_scan_id (jb_status j) = i"
  proof
    fix e
    assume "e \<in> set (prune_finished_scans (js_jobs s))"
    then have "e \<in> set (js_jobs s)" by (rule subsetD [OF prune_facts(1) [OF d]])
    with assms show "case e of (i, j) \<Rightarrow> sj_scan_id (jb_status j) = i" by (cases e) (auto simp: jobs_ok_def)
  qed
  moreover have "length (prune_finished_scans (js_jobs s)) \<le> 128"
    using assms prune_facts(3) [OF d] unfolding jobs_ok_def by linarith
  ultimately show ?thesis using prune_facts(2) [OF d] by (simp add: jobs_ok_def)
qed

lemma jobs_ok_insert:
  assumes "jobs_ok s" "length (js_jobs s) < 128" "sj_scan_id (jb_status j) = i"
  shows "jobs_ok (s'\<lparr>js_jobs := insert_job i j (js_jobs s)\<rparr>)"
proof -
  have "length (insert_job i j (js_jobs s)) \<le> 128"
    using assms(2) remove_job_length [of i "js_jobs s"] by (simp add: insert_job_def)
  moreover have "distinct (map fst (insert_job i j (js_jobs s)))"
    using assms(1) remove_job_distinct [of "js_jobs s" i] by (auto simp: jobs_ok_def insert_job_def)
  moreover have "\<forall>(k, j) \<in> set (insert_job i j (js_jobs s)). sj_scan_id (jb_status j) = k"
    using assms(1,3) unfolding jobs_ok_def insert_job_def by (simp add: case_prod_beta)
  ultimately show ?thesis by (simp add: jobs_ok_def)
qed

lemma jobs_ok_update:
  assumes "jobs_ok s" "\<And>j. sj_scan_id (jb_status j) = i \<Longrightarrow> sj_scan_id (jb_status (f j)) = i"
  shows "jobs_ok (s'\<lparr>js_jobs := update_job i f (js_jobs s)\<rparr>)"
proof -
  have "\<forall>(k, j) \<in> set (update_job i f (js_jobs s)). sj_scan_id (jb_status j) = k"
    using assms by (fastforce simp: jobs_ok_def update_job_def)
  with assms(1) show ?thesis by (simp add: jobs_ok_def)
qed

lemma jobs_ok_cong: "jobs_ok s \<Longrightarrow> js_jobs s' = js_jobs s \<Longrightarrow> jobs_ok s'"
  by (simp add: jobs_ok_def)

lemma new_scan_job_simps [simp]:
  "jb_owner (new_scan_job o1 i label) = o1" "sj_scan_id (jb_status (new_scan_job o1 i label)) = i"
  "sj_state (jb_status (new_scan_job o1 i label)) = Running"
  by (simp_all add: new_scan_job_def)

lemma jobs_ok_start:
  assumes "jobs_ok s"
  shows "jobs_ok (snd (start_scan k ex t i client target profile s))"
proof -
  let ?p = "s\<lparr>js_jobs := prune_finished_scans (js_jobs s)\<rparr>"
  have p: "jobs_ok ?p" by (rule jobs_ok_prune [OF assms])
  have ins: "jobs_ok s'" if "js_jobs s' = insert_job i (new_scan_job (cc_sid client) i label)
      (prune_finished_scans (js_jobs s))" "length (prune_finished_scans (js_jobs s)) < 128" for s' label
    using jobs_ok_cong [OF jobs_ok_insert [OF p, of "new_scan_job (cc_sid client) i label" i s]] that by simp
  show ?thesis
  proof (cases rule: start_scan_cases [of k ex t i client target profile s])
    case (unresolved e s')
    with assms show ?thesis by (simp add: jobs_ok_def)
  next
    case (refused s')
    with jobs_ok_cong [OF p, of s'] show ?thesis by simp
  next
    case (leaked label e s')
    with ins show ?thesis by simp
  next
    case (started label roots s')
    with ins show ?thesis by simp
  qed
qed

lemma jobs_ok_cancel: "jobs_ok s \<Longrightarrow> jobs_ok (snd (cancel_scan i owner s))"
  using jobs_ok_update [of s i "\<lambda>j. j\<lparr>jb_cancelled := True\<rparr>" s]
  by (auto simp: cancel_scan_def split: option.splits sum.splits)

lemma jobs_ok_step: "job_step s s' \<Longrightarrow> jobs_ok s \<Longrightarrow> jobs_ok s'"
proof (induction rule: job_step.induct)
  case (start scan_id s k ex t client target profile)
  then show ?case by (rule_tac jobs_ok_start)
next
  case (cancel s scan_id owner)
  then show ?case by (rule jobs_ok_cancel)
next
  case (report s i j st h)
  from jobs_ok_update [OF report.prems, of i "\<lambda>j. j\<lparr>jb_status := st\<rparr>" s] report.hyps
  have "jobs_ok (s\<lparr>js_jobs := update_job i (\<lambda>j. j\<lparr>jb_status := st\<rparr>) (js_jobs s)\<rparr>)" by simp
  then show ?case by (rule jobs_ok_cong) simp
next
  case (rehash jobs' s)
  have e: "set jobs' = set (js_jobs s)" "length jobs' = length (js_jobs s)"
    using mset_eq_setD [OF rehash.hyps] mset_eq_length [OF rehash.hyps] by simp_all
  have "distinct (map fst jobs') = distinct (map fst (js_jobs s))"
    using rehash.hyps by (intro mset_eq_imp_distinct_iff) simp
  with rehash.prems e show ?case by (simp add: jobs_ok_def)
qed

text \<open>What one step can do to the job \<open>i\<close>.\<close>

lemma job_step_change:
  assumes "job_step s s'" "jobs_ok s"
  obtains (kept) "map_of (js_jobs s') i = map_of (js_jobs s) i" "js_workers s' = js_workers s \<or>
      (\<exists>k roots. k \<notin> fst ` set (js_jobs s) \<and> js_workers s' = (k, roots) # js_workers s)"
  | (pruned) j where "map_of (js_jobs s) i = Some j" "\<not> unfinished j" "map_of (js_jobs s') i = None"
      "fst ` set (js_workers s) \<subseteq> fst ` set (js_workers s')"
  | (new) owner label where "map_of (js_jobs s) i = None" "i \<notin> fst ` set (js_workers s)"
      "map_of (js_jobs s') i = Some (new_scan_job owner i label)"
      "fst ` set (js_workers s) \<subseteq> fst ` set (js_workers s')"
  | (cancelled) j where "map_of (js_jobs s) i = Some j" "js_workers s' = js_workers s"
      "map_of (js_jobs s') i = Some (j\<lparr>jb_cancelled := True\<rparr>)"
  | (reported) j st where "map_of (js_jobs s) i = Some j" "sj_state (jb_status j) = Running"
      "i \<in> fst ` set (js_workers s)" "js_workers s' = js_workers s"
      "map_of (js_jobs s') i = Some (j\<lparr>jb_status := st\<rparr>)"
proof -
  have d: "distinct (map fst (js_jobs s))" using assms(2) by (simp add: jobs_ok_def)
  note prune = map_of_prune [OF d, of i]
  show thesis
    using assms(1)
  proof (cases rule: job_step.cases)
    case (start scan_id k ex t client target profile)
    have ins: thesis if j: "js_jobs s' = insert_job scan_id (new_scan_job (cc_sid client) scan_id label)
          (prune_finished_scans (js_jobs s))"
        and w: "js_workers s' = js_workers s \<or> js_workers s' = (scan_id, roots) # js_workers s" for label roots
    proof -
      have sub: "fst ` set (js_workers s) \<subseteq> fst ` set (js_workers s')" using w by (auto simp: subset_insertI)
      show thesis
      proof (cases "i = scan_id")
        case True
        have "map_of (js_jobs s) i = None" using start(2) True by (simp add: map_of_eq_None_iff)
        then show thesis using new [of "cc_sid client" label] j start(3) True sub by simp
      next
        case False
        with j have m: "map_of (js_jobs s') i = map_of (prune_finished_scans (js_jobs s)) i" by simp
        show thesis
        proof (cases "map_of (js_jobs s') i = map_of (js_jobs s) i")
          case True
          then show thesis using kept w start(2) by blast
        next
          case False
          with prune m obtain j where "map_of (js_jobs s) i = Some j" "\<not> unfinished j" "map_of (js_jobs s') i = None"
            by (cases "map_of (js_jobs s) i") auto
          then show thesis using pruned sub by simp
        qed
      qed
    qed
    show thesis
    proof (cases rule: start_scan_cases [of k ex t scan_id client target profile s])
      case (unresolved e s2)
      then show thesis using start(1) kept by simp
    next
      case (refused s2)
      show thesis
      proof (cases "map_of (js_jobs s') i = map_of (js_jobs s) i")
        case True
        then show thesis using refused start(1) kept by simp
      next
        case False
        with prune refused start(1) obtain j where "map_of (js_jobs s) i = Some j" "\<not> unfinished j"
            "map_of (js_jobs s') i = None"
          by (cases "map_of (js_jobs s) i") auto
        then show thesis using pruned refused start(1) by simp
      qed
    next
      case (leaked label e s2)
      then show thesis using start(1) ins by simp
    next
      case (started label roots s2)
      then show thesis using start(1) ins by simp
    qed
  next
    case (cancel scan_id owner)
    then show thesis
      using kept cancelled
      by (cases "map_of (js_jobs s) scan_id"; cases "i = scan_id")
        (auto simp: cancel_scan_def split: sum.splits option.splits)
  next
    case (report k j st h)
    then show thesis using kept reported [of j st] by (cases "i = k") auto
  next
    case (rehash jobs')
    have "distinct (map fst jobs') = distinct (map fst (js_jobs s))"
      using rehash(2) by (intro mset_eq_imp_distinct_iff) simp
    then have d': "distinct (map fst jobs')" using d by simp
    have "map_of jobs' i = Some j \<longleftrightarrow> map_of (js_jobs s) i = Some j" for j
      using mset_eq_setD [OF rehash(2)] map_of_mem [OF d, of i j] map_of_mem [OF d', of i j] by simp
    then have "map_of jobs' i = map_of (js_jobs s) i"
      by (cases "map_of (js_jobs s) i"; cases "map_of jobs' i") auto
    then show thesis using kept rehash(1) by simp
  qed
qed

definition no_jobs :: "host \<Rightarrow> job_service" where
  "no_jobs h = \<lparr>js_host = h, js_jobs = [], js_workers = []\<rparr>"

lemma jobs_ok_no_jobs [simp]: "jobs_ok (no_jobs h)"
  by (simp add: jobs_ok_def no_jobs_def)

lemma jobs_ok_run: "job_step\<^sup>*\<^sup>* s s' \<Longrightarrow> jobs_ok s \<Longrightarrow> jobs_ok s'"
  by (induction rule: rtranclp_induct) (auto intro: jobs_ok_step)

text \<open>A running job without a worker: nothing will ever change its state.\<close>

definition leaked_job :: "string \<Rightarrow> job_service \<Rightarrow> bool" where
  "leaked_job i s \<longleftrightarrow> i \<notin> fst ` set (js_workers s) \<and>
     (case map_of (js_jobs s) i of None \<Rightarrow> False | Some j \<Rightarrow> sj_state (jb_status j) = Running)"

text \<open>The job \<open>i\<close> is or was one of \<open>owner\<close>, and its number is taken.\<close>

definition job_of :: "string \<Rightarrow> string \<Rightarrow> job_service \<Rightarrow> bool" where
  "job_of i owner s \<longleftrightarrow> (i \<in> fst ` set (js_workers s) \<or> leaked_job i s)
     \<and> (\<forall>j. map_of (js_jobs s) i = Some j \<longrightarrow> jb_owner j = owner)"

lemma leaked_job_step: "job_step s s' \<Longrightarrow> jobs_ok s \<Longrightarrow> leaked_job i s \<Longrightarrow> leaked_job i s'"
proof -
  assume step: "job_step s s'" and ok: "jobs_ok s" and l: "leaked_job i s"
  from l obtain j where j: "map_of (js_jobs s) i = Some j" "sj_state (jb_status j) = Running"
    "i \<notin> fst ` set (js_workers s)"
    by (auto simp: leaked_job_def split: option.splits)
  have i: "i \<in> fst ` set (js_jobs s)" using map_of_SomeD [OF j(1)] by force
  show "leaked_job i s'"
    using step ok
  proof (cases rule: job_step_change [of s s' i])
    case kept
    from kept(2) have "i \<notin> fst ` set (js_workers s')"
    proof (elim disjE exE conjE)
      fix k roots
      assume "k \<notin> fst ` set (js_jobs s)" "js_workers s' = (k, roots) # js_workers s"
      with i j(3) show ?thesis by (cases "i = k") simp_all
    qed (simp add: j(3))
    with kept(1) j show ?thesis by (simp add: leaked_job_def)
  next
    case (pruned j2)
    with j show ?thesis by (simp add: unfinished_def)
  next
    case (new owner label)
    with j show ?thesis by simp
  next
    case (cancelled j2)
    with j show ?thesis by (simp add: leaked_job_def)
  next
    case (reported j2 st)
    with j show ?thesis by simp
  qed
qed

lemma leaked_job_run: "job_step\<^sup>*\<^sup>* s s' \<Longrightarrow> jobs_ok s \<Longrightarrow> leaked_job i s \<Longrightarrow> leaked_job i s'"
proof (induction rule: rtranclp_induct)
  case (step y z)
  then show ?case using leaked_job_step [of y z i] jobs_ok_run [of s y] by blast
qed

lemma job_of_step:
  assumes "job_step s s'" "jobs_ok s" "job_of i owner s"
  shows "job_of i owner s'"
proof -
  from assms(3) have taken: "i \<in> fst ` set (js_workers s) \<or> leaked_job i s"
    and own: "\<And>j. map_of (js_jobs s) i = Some j \<Longrightarrow> jb_owner j = owner"
    by (auto simp: job_of_def)
  have t: "fst ` set (js_workers s) \<subseteq> fst ` set (js_workers s') \<Longrightarrow> i \<in> fst ` set (js_workers s') \<or> leaked_job i s'"
    using taken leaked_job_step [OF assms(1,2), of i] by blast
  show ?thesis
    using assms(1,2)
  proof (cases rule: job_step_change [of s s' i])
    case kept
    then have "fst ` set (js_workers s) \<subseteq> fst ` set (js_workers s')" by auto
    with t kept(1) own show ?thesis by (simp add: job_of_def)
  next
    case (pruned j2)
    with t show ?thesis by (simp add: job_of_def)
  next
    case (new o2 label)
    with taken show ?thesis by (simp add: leaked_job_def)
  next
    case (cancelled j2)
    with t own show ?thesis by (simp add: job_of_def)
  next
    case (reported j2 st)
    with t own show ?thesis by (simp add: job_of_def)
  qed
qed

lemma job_of_run: "job_step\<^sup>*\<^sup>* s s' \<Longrightarrow> jobs_ok s \<Longrightarrow> job_of i owner s \<Longrightarrow> job_of i owner s'"
proof (induction rule: rtranclp_induct)
  case (step y z)
  then show ?case using job_of_step [of y z i owner] jobs_ok_run [of s y] by blast
qed

lemma job_of_other:
  assumes "job_of i owner s" "owner \<noteq> other"
  shows "snd (cancel_scan i other s) = s" "\<exists>e. fst (cancel_scan i other s) = Inl e"
    "\<exists>e. scan_status i other s = Inl e"
  using assms
  by (auto simp: job_of_def cancel_scan_def scan_status_def authorize_scan_owner_def split: option.splits)

lemma job_of_started:
  assumes "start_scan k ex t i client target profile s = (Inr i', s')"
  shows "i' = i" "job_of i (cc_sid client) s'"
  using assms by (cases rule: start_scan_cases [of k ex t i client target profile s]; auto simp: job_of_def)+

text \<open>
  C15. A scan belongs to the user who started it, whatever happens afterwards.  After any further
  requests of any users, worker reports and reorderings of the table, another user's cancel and
  status requests for that scan are refused and change nothing.
\<close>

theorem scan_jobs_are_private:
  assumes "job_step\<^sup>*\<^sup>* (no_jobs h) s" "start_scan k ex t i client target profile s = (Inr i', s1)"
    and "i \<notin> fst ` set (js_jobs s)" "i \<notin> fst ` set (js_workers s)" "job_step\<^sup>*\<^sup>* s1 s'" "other \<noteq> cc_sid client"
  shows "snd (cancel_scan i' other s') = s' \<and> (\<exists>e. fst (cancel_scan i' other s') = Inl e)
    \<and> (\<exists>e. scan_status i' other s' = Inl e)"
proof -
  have "jobs_ok s" by (rule jobs_ok_run [OF assms(1) jobs_ok_no_jobs])
  from jobs_ok_start [OF this, of k ex t i client target profile] assms(2) have "jobs_ok s1" by simp
  from job_of_run [OF assms(5) this job_of_started(2) [OF assms(2)]] have "job_of i (cc_sid client) s'" .
  from job_of_other [OF this] assms(6) job_of_started(1) [OF assms(2)]
  show ?thesis by auto
qed

text \<open>
  The job table is bounded and loses no work.  In every reachable service there are at most 128
  jobs with distinct numbers, each filed under its own number, and a request to start a scan never
  drops a job that is queued or running.
\<close>

theorem job_table_bounded:
  assumes "job_step\<^sup>*\<^sup>* (no_jobs h) s"
  shows "length (js_jobs s) \<le> 128 \<and> distinct (map fst (js_jobs s))
    \<and> (\<forall>i j. map_of (js_jobs s) i = Some j \<longrightarrow> sj_scan_id (jb_status j) = i
         \<and> (unfinished j \<longrightarrow> i \<noteq> n \<longrightarrow>
              map_of (js_jobs (snd (start_scan k ex t n client target profile s))) i = Some j))"
proof -
  have ok: "jobs_ok s" by (rule jobs_ok_run [OF assms jobs_ok_no_jobs])
  then have d: "distinct (map fst (js_jobs s))" by (simp add: jobs_ok_def)
  have id: "sj_scan_id (jb_status j) = i" if "map_of (js_jobs s) i = Some j" for i j
    using ok map_of_SomeD [OF that] by (auto simp: jobs_ok_def)
  have keep: "map_of (js_jobs (snd (start_scan k ex t n client target profile s))) i = Some j"
    if "map_of (js_jobs s) i = Some j" "unfinished j" "i \<noteq> n" for i j
    using map_of_prune [OF d, of i] that
    by (cases rule: start_scan_cases [of k ex t n client target profile s]) auto
  from ok id keep show ?thesis by (simp add: jobs_ok_def)
qed

lemma leaked_jobs_block:
  assumes "jobs_ok s" "length (js_jobs s) = 128" "\<forall>i \<in> fst ` set (js_jobs s). leaked_job i s"
  shows "\<exists>e. fst (start_scan k ex t m client target profile s) = Inl e"
proof -
  have d: "distinct (map fst (js_jobs s))" using assms(1) by (simp add: jobs_ok_def)
  have "e \<in> set (prune_finished_scans (js_jobs s))" if "e \<in> set (js_jobs s)" for e
  proof -
    have "leaked_job (fst e) s" using assms(3) that by blast
    moreover have "map_of (js_jobs s) (fst e) = Some (snd e)" using that d by (simp add: map_of_mem)
    ultimately have "unfinished (snd e)" by (simp add: leaked_job_def unfinished_def)
    with that show ?thesis by (rule prune_facts(4) [OF d])
  qed
  with prune_facts(1) [OF d] have "set (prune_finished_scans (js_jobs s)) = set (js_jobs s)" by blast
  then have "length (prune_finished_scans (js_jobs s)) = 128"
    using d prune_facts(2) [OF d] assms(2) by (metis distinct_card distinct_map)
  then show ?thesis
    by (cases rule: start_scan_cases [of k ex t m client target profile s]) auto
qed

text \<open>
  A scan whose worker could not be started stays in the table as running for ever, because the
  job is inserted before the calls that can fail and nothing removes it; when all 128 jobs of the
  table are such leftovers, no user can start a scan any more, whatever happens.
\<close>

theorem failed_start_leaks_job:
  assumes "job_step\<^sup>*\<^sup>* (no_jobs h) s" "i \<notin> fst ` set (js_workers s)"
    and "start_scan k ex t i client target profile s = (Inl e, s1)" "ae_code e = Internal"
    and "job_step\<^sup>*\<^sup>* s1 s'"
  shows "leaked_job i s' \<and>
    (length (js_jobs s') = 128 \<and> (\<forall>n \<in> fst ` set (js_jobs s'). leaked_job n s') \<longrightarrow>
      (\<exists>e. fst (start_scan k2 ex2 t2 m client2 target2 profile2 s') = Inl e))"
proof -
  have ok: "jobs_ok s1"
    using jobs_ok_start [OF jobs_ok_run [OF assms(1) jobs_ok_no_jobs], of k ex t i client target profile] assms(3) by simp
  have "leaked_job i s1"
    using assms(2-4)
    by (cases rule: start_scan_cases [of k ex t i client target profile s]) (auto simp: leaked_job_def busy_def)
  from leaked_job_run [OF assms(5) ok this] leaked_jobs_block [OF jobs_ok_run [OF assms(5) ok]]
  show ?thesis by simp
qed

definition sample_jobs :: "outcome list \<Rightarrow> job_service" where
  "sample_jobs outcomes = no_jobs \<lparr>hs_files = Map.empty, hs_outcomes = outcomes, hs_db = db_empty\<rparr>"

definition sample_start :: "outcome list \<Rightarrow> (api_error + string) \<times> job_service" where
  "sample_start outcomes = start_scan \<lparr>kf_downloads = None, kf_local_app_data = None, kf_startup = None,
     kf_common_startup = None, kf_system_drive = None\<rparr> (\<lambda>_. True) sample_tree ''1'' sample_client ''R'' None
     (sample_jobs outcomes)"

lemma sample_jobs_simps [simp]:
  "jobs_ok (sample_jobs outcomes)" "js_jobs (sample_jobs outcomes) = []" "js_workers (sample_jobs outcomes) = []"
  by (simp_all add: sample_jobs_def) (simp_all add: no_jobs_def)

theorem scan_jobs_are_private_witness:
  "\<exists>s. sample_start [] = (Inr ''1'', s) \<and> (\<exists>e. scan_status ''1'' ''S-2'' s = Inl e)"
proof -
  have "case sample_start [] of (Inl e, s) \<Rightarrow> False | (Inr i, s) \<Rightarrow> i = ''1''" by code_simp
  then obtain s where s: "sample_start [] = (Inr ''1'', s)" by (auto split: prod.splits sum.splits)
  from scan_jobs_are_private [OF rtranclp.rtrancl_refl s [unfolded sample_start_def sample_jobs_def], of s "''S-2''"] s
  show ?thesis by (simp add: sample_client_def no_jobs_def)
qed

theorem job_table_bounded_witness:
  "length (js_jobs (snd (sample_start []))) \<le> 128"
proof -
  have "job_step\<^sup>*\<^sup>* (sample_jobs []) (snd (sample_start []))"
    unfolding sample_start_def by (intro r_into_rtranclp job_step.start) simp_all
  from job_table_bounded [OF this [unfolded sample_jobs_def]] show ?thesis by (simp add: sample_jobs_def)
qed

theorem failed_start_leaks_job_witness:
  "leaked_job ''1'' (snd (sample_start [Works, Works, Fails ''no thread'' 0]))"
proof -
  let ?o = "[Works, Works, Fails ''no thread'' 0]"
  have "case sample_start ?o of (Inl e, s) \<Rightarrow> ae_code e = Internal | (Inr i, s) \<Rightarrow> False" by code_simp
  then obtain e s where s: "sample_start ?o = (Inl e, s)" "ae_code e = Internal"
    by (auto split: prod.splits sum.splits)
  from failed_start_leaks_job [OF rtranclp.rtrancl_refl _ s(1) [unfolded sample_start_def sample_jobs_def] s(2), of s] s(1)
  show ?thesis by (simp add: no_jobs_def)
qed

end
