(* ===== verification/OG_Control.thy ===== *)
theory OG_Control
  imports OG_Collect OG_Quarantine OG_Reputation OG_Content OG_Ipc "HOL-Library.Sublist"
begin

text \<open>
  Control of processes, firewall rules and start-up entries (\<^verbatim>\<open>openguard-windows/src/response.rs\<close>).
  The operating system performs what it is asked to or reports a failure; what it performed is kept
  in order.  The image of a process can change between any two questions about it.
\<close>

section \<open>The operating system\<close>

datatype os_call =
    CallTerminate u32
  | CallSuspend u32
  | CallResume u32
  | CallTool string "string list"

record os =
  os_host :: host
  os_image :: "u32 \<Rightarrow> windows_error + string"
  os_churn :: "(u32 \<Rightarrow> windows_error + string) list"
  os_calls :: "os_call list"

text \<open>What a call can read; \<open>cw_processes\<close> and \<open>cw_threads\<close> are the snapshots: entry and parent or owner.\<close>

record control_world =
  cw_self :: u32
  cw_canonical :: "string \<Rightarrow> string option"
  cw_system_root :: "string option"
  cw_processes :: "string + (u32 \<times> u32) list"
  cw_threads :: "string + (u32 \<times> u32) list"

record control_result =
  cr_processes :: "u32 list"
  cr_threads :: "u32 list"
  cr_detail :: string

definition process_image_path :: "u32 \<Rightarrow> os \<Rightarrow> (windows_error + string) \<times> os" where
  "process_image_path pid s =
     (case os_churn s of
        [] \<Rightarrow> (os_image s pid, s)
      | t # ts \<Rightarrow> (t pid, s\<lparr>os_image := t, os_churn := ts\<rparr>))"

definition perform :: "string \<Rightarrow> os_call \<Rightarrow> os \<Rightarrow> (windows_error + unit) \<times> os" where
  "perform action c s =
     (case take_outcome (os_host s) of
        (Works, h) \<Rightarrow> (Inr (), s\<lparr>os_host := h, os_calls := os_calls s @ [c]\<rparr>)
      | (Fails e _, h) \<Rightarrow> (Inl (WinApi (action @ '': '' @ e)), s\<lparr>os_host := h\<rparr>))"

definition os_open :: "string \<Rightarrow> os \<Rightarrow> (windows_error + unit) \<times> os" where
  "os_open action s =
     (case plain_call (os_host s) of (r, h) \<Rightarrow> (map_err (\<lambda>e. WinApi (action @ '': '' @ e)) r, s\<lparr>os_host := h\<rparr>))"

section \<open>Paths and arguments\<close>

definition control_path :: "control_world \<Rightarrow> string \<Rightarrow> string" where
  "control_path w p =
     to_ascii_lowercase (trim_start_matches
       (to_backslashes (case cw_canonical w p of None \<Rightarrow> p | Some q \<Rightarrow> q))
       [backslash, backslash, CHR ''?'', backslash])"

definition same_path :: "control_world \<Rightarrow> string \<Rightarrow> string \<Rightarrow> bool" where
  "same_path w l r \<longleftrightarrow> control_path w l = control_path w r"

text \<open>\<^verbatim>\<open>Path::is_absolute\<close>: a drive with a root, or a prefix that implies one.\<close>

definition is_sep :: "char \<Rightarrow> bool" where
  "is_sep c \<longleftrightarrow> c = backslash \<or> c = CHR ''/''"

fun is_absolute :: "string \<Rightarrow> bool" where
  "is_absolute (a # b # c # rest) \<longleftrightarrow>
     (if is_sep a \<and> is_sep b then
        starts_with (a # b # c # rest) [backslash, backslash, CHR ''?'', backslash]
        \<or> (c = CHR ''.'' \<and> rest \<noteq> [] \<and> is_sep (hd rest))
        \<or> (case split_on is_sep (c # rest) of server # share # _ \<Rightarrow> server \<noteq> [] \<and> share \<noteq> [] | _ \<Rightarrow> False)
      else ascii_alphabetic a \<and> b = CHR '':'' \<and> is_sep c)"
| "is_absolute _ \<longleftrightarrow> False"

definition has_line_break :: "string \<Rightarrow> bool" where
  "has_line_break s \<longleftrightarrow> (\<exists>c \<in> set s. c = CHR 0x00 \<or> c = CHR 0x0D \<or> c = CHR 0x0A)"

definition rule_prefix :: string where "rule_prefix = ''OpenGuard Temporary Block ''"

definition validate_rule_name :: "string \<Rightarrow> windows_error + unit" where
  "validate_rule_name name =
     (if starts_with name rule_prefix \<and> length name \<le> 120
        \<and> (\<forall>c \<in> set name. ascii_alphanumeric c \<or> c \<in> {CHR '' '', CHR ''-'', CHR ''_''})
      then Inr () else Inl (WinApi ''invalid OpenGuard firewall rule name''))"

definition validate_firewall_scope :: "string \<Rightarrow> string \<Rightarrow> windows_error + unit" where
  "validate_firewall_scope address program =
     (if parse_ip_addr (hd (split_on ((=) (CHR ''%'')) address)) = None
      then Inl (WinApi ''remote address is not a valid IP address'')
      else if \<not> is_absolute program \<or> program = [] \<or> 32767 < length program \<or> has_line_break program
      then Inl (WinApi ''an absolute executable path is required for an application-scoped block'')
      else Inr ())"

definition system_tool :: "control_world \<Rightarrow> string \<Rightarrow> string" where
  "system_tool w name =
     (let base = (case cw_system_root w of
          None \<Rightarrow> ''C:'' @ [backslash] @ ''Windows''
        | Some p \<Rightarrow> if is_absolute p then p else ''C:'' @ [backslash] @ ''Windows'')
      in join_path (join_path base ''System32'') name)"

section \<open>Processes\<close>

definition terminated :: "u32 \<Rightarrow> control_result" where
  "terminated pid = \<lparr>cr_processes = [pid], cr_threads = [],
     cr_detail = ''Terminated PID '' @ show_nat (unat pid)\<rparr>"

definition terminate :: "u32 \<Rightarrow> os \<Rightarrow> (windows_error + control_result) \<times> os" where
  "terminate pid =
     run_then (os_open (''open PID '' @ show_nat (unat pid) @ '' for termination''))
       (\<lambda>_. run_then (perform (''terminate PID '' @ show_nat (unat pid)) (CallTerminate pid))
         (\<lambda>_ s. (Inr (terminated pid), s)))"

text \<open>A thread that cannot be opened, suspended or resumed is skipped.\<close>

fun control_each :: "bool \<Rightarrow> u32 list \<Rightarrow> os \<Rightarrow> u32 list \<times> os" where
  "control_each suspend [] s = ([], s)"
| "control_each suspend (t # ts) s =
     (case perform [] (if suspend then CallSuspend t else CallResume t) s of
        (Inl _, s) \<Rightarrow> control_each suspend ts s
      | (Inr _, s) \<Rightarrow> (case control_each suspend ts s of (affected, s) \<Rightarrow> (t # affected, s)))"

definition control_threads ::
  "control_world \<Rightarrow> u32 \<Rightarrow> bool \<Rightarrow> os \<Rightarrow> (windows_error + control_result) \<times> os" where
  "control_threads w pid suspend s =
     (case cw_threads w of
        Inl e \<Rightarrow> (Inl (WinApi (''enumerate threads: '' @ e)), s)
      | Inr entries \<Rightarrow>
          (case control_each suspend (map fst (filter (\<lambda>(_, owner). owner = pid) entries)) s of
             (affected, s) \<Rightarrow>
               (if affected = [] then
                  Inl (WinApi (''no controllable threads found for PID '' @ show_nat (unat pid)))
                else Inr \<lparr>cr_processes = [], cr_threads = affected,
                  cr_detail = (if suspend then ''Suspended'' else ''Resumed'') @ '' ''
                    @ show_nat (length affected) @ '' threads in PID '' @ show_nat (unat pid)\<rparr>, s)))"

definition control_process ::
  "control_world \<Rightarrow> string \<Rightarrow> u32 \<Rightarrow> string \<Rightarrow> os \<Rightarrow> (windows_error + control_result) \<times> os" where
  "control_process w action pid expected =
     (if pid \<le> 4 \<or> pid = cw_self w \<or> expected = []
      then (\<lambda>s. (Inl (WinApi ''protected or incomplete process target''), s))
      else run_then (process_image_path pid) (\<lambda>actual.
        if \<not> same_path w actual expected
        then (\<lambda>s. (Inl (WinApi (''process identity changed: expected '' @ expected @ '', found '' @ actual)), s))
        else if action = ''terminate'' then terminate pid
        else if action = ''suspend'' then control_threads w pid True
        else if action = ''resume'' then control_threads w pid False
        else (\<lambda>s. (Inl (WinApi (''unsupported process action '' @ action)), s))))"

section \<open>Process trees\<close>

text \<open>
  The walk over the snapshot: the descendants in the order they were found, the stack of parents
  (its top first) and the processes already seen.
\<close>

type_synonym walk = "u32 list \<times> u32 list \<times> u32 set"

fun visit_children :: "u32 \<Rightarrow> (u32 \<times> u32) list \<Rightarrow> walk \<Rightarrow> walk" where
  "visit_children parent [] st = st"
| "visit_children parent ((child, child_parent) # rels) (found, frontier, visited) =
     (if child_parent = parent \<and> 4 < child \<and> child \<notin> visited then
        (if 4096 \<le> length (found @ [child]) then (found @ [child], child # frontier, insert child visited)
         else visit_children parent rels (found @ [child], child # frontier, insert child visited))
      else visit_children parent rels (found, frontier, visited))"

lemma visit_children_effect:
  "visit_children parent rels (found, frontier, visited) = (found', frontier', visited') \<Longrightarrow>
     \<exists>new. found' = found @ new \<and> frontier' = rev new @ frontier \<and> visited' = visited \<union> set new
       \<and> distinct new \<and> set new \<inter> visited = {} \<and> (\<forall>c \<in> set new. (c, parent) \<in> set rels \<and> 4 < c)
       \<and> (length found < 4096 \<longrightarrow> length found' \<le> 4096)
       \<and> (length found' < 4096 \<longrightarrow> (\<forall>c. (c, parent) \<in> set rels \<longrightarrow> 4 < c \<longrightarrow> c \<in> visited'))"
proof (induction parent rels "(found, frontier, visited)" arbitrary: found frontier visited rule: visit_children.induct)
  case (1 parent)
  then show ?case by simp
next
  case (2 parent child cp rels found frontier visited)
  show ?case
  proof (cases "cp = parent \<and> 4 < child \<and> child \<notin> visited")
    case False
    with 2(3) obtain new where "found' = found @ new" "frontier' = rev new @ frontier" "visited' = visited \<union> set new"
      "distinct new" "set new \<inter> visited = {}" "\<forall>c \<in> set new. (c, parent) \<in> set rels \<and> 4 < c"
      "length found < 4096 \<longrightarrow> length found' \<le> 4096"
      "length found' < 4096 \<longrightarrow> (\<forall>c. (c, parent) \<in> set rels \<longrightarrow> 4 < c \<longrightarrow> c \<in> visited')"
      using 2(2) [OF False] by auto
    with False show ?thesis by (intro exI [of _ new]) auto
  next
    case new: True
    show ?thesis
    proof (cases "4096 \<le> length (found @ [child])")
      case True
      with new 2(3) show ?thesis by (intro exI [of _ "[child]"]) auto
    next
      case False
      with new 2(3) have "visit_children parent rels (found @ [child], child # frontier, insert child visited)
          = (found', frontier', visited')" by simp
      from 2(1) [OF new False this] obtain more where m: "found' = (found @ [child]) @ more"
        "frontier' = rev more @ child # frontier" "visited' = insert child visited \<union> set more" "distinct more"
        "set more \<inter> insert child visited = {}" "\<forall>c \<in> set more. (c, parent) \<in> set rels \<and> 4 < c"
        "length (found @ [child]) < 4096 \<longrightarrow> length found' \<le> 4096"
        "length found' < 4096 \<longrightarrow> (\<forall>c. (c, parent) \<in> set rels \<longrightarrow> 4 < c \<longrightarrow> c \<in> visited')"
        by blast
      with new False show ?thesis by (intro exI [of _ "child # more"]) auto
    qed
  qed
qed

function tree_walk :: "(u32 \<times> u32) list \<Rightarrow> walk \<Rightarrow> u32 list" where
  "tree_walk rels (found, [], visited) = found"
| "tree_walk rels (found, parent # frontier, visited) =
     (case visit_children parent rels (found, frontier, visited) of
        (found, frontier, visited) \<Rightarrow>
          if 4096 \<le> length found then found else tree_walk rels (found, frontier, visited))"
  by pat_completeness auto

termination
proof (relation "measures [\<lambda>(rels, found, frontier, visited). card (fst ` set rels - visited),
    \<lambda>(rels, found, frontier, visited). length frontier]")
  fix rels :: "(u32 \<times> u32) list" and found parent frontier visited found' st2 frontier' visited'
  assume "(found', st2) = visit_children parent rels (found, frontier, visited)" "(frontier', visited') = st2"
  then have "visit_children parent rels (found, frontier, visited) = (found', frontier', visited')" by simp
  from visit_children_effect [OF this] obtain new where new: "frontier' = rev new @ frontier"
    "visited' = visited \<union> set new" "set new \<inter> visited = {}" "\<forall>c \<in> set new. (c, parent) \<in> set rels"
    by blast
  show "((rels, found', frontier', visited'), rels, found, parent # frontier, visited)
    \<in> measures [\<lambda>(rels, found, frontier, visited). card (fst ` set rels - visited),
        \<lambda>(rels, found, frontier, visited). length frontier]"
  proof (cases "new = []")
    case True
    with new show ?thesis by simp
  next
    case False
    then obtain c where c: "c \<in> set new" by (cases new) auto
    then have "c \<in> fst ` set rels - visited" "c \<notin> fst ` set rels - visited'" using new by force+
    moreover have "fst ` set rels - visited' \<subseteq> fst ` set rels - visited" using new by auto
    ultimately have "card (fst ` set rels - visited') < card (fst ` set rels - visited)"
      by (intro psubset_card_mono) auto
    then show ?thesis by simp
  qed
qed simp_all

definition tree_descendants :: "u32 \<Rightarrow> (u32 \<times> u32) list \<Rightarrow> u32 list" where
  "tree_descendants pid rels = tree_walk rels ([], [pid], {pid})"

fun terminate_children ::
  "control_world \<Rightarrow> u32 list \<Rightarrow> u32 list \<times> nat \<Rightarrow> os \<Rightarrow> (u32 list \<times> nat) \<times> os" where
  "terminate_children w [] (affected, skipped) s = ((affected, skipped), s)"
| "terminate_children w (child # children) (affected, skipped) s =
     (case process_image_path child s of
        (Inl _, s) \<Rightarrow> terminate_children w children (affected, skipped + 1) s
      | (Inr path, s) \<Rightarrow>
          (case control_process w ''terminate'' child path s of
             (Inr _, s) \<Rightarrow> terminate_children w children (affected @ [child], skipped) s
           | (Inl _, s) \<Rightarrow> terminate_children w children (affected, skipped + 1) s))"

definition terminate_process_tree ::
  "control_world \<Rightarrow> u32 \<Rightarrow> string \<Rightarrow> os \<Rightarrow> (windows_error + control_result) \<times> os" where
  "terminate_process_tree w pid expected =
     run_then (process_image_path pid) (\<lambda>actual s.
       if \<not> same_path w actual expected then (Inl (WinApi ''root process identity changed''), s)
       else (case cw_processes w of
          Inl e \<Rightarrow> (Inl (WinApi (''enumerate process tree: '' @ e)), s)
        | Inr entries \<Rightarrow>
            (case terminate_children w (rev (tree_descendants pid (take 65536 entries))) ([], 0) s of
               ((affected, skipped), s) \<Rightarrow>
                 run_then (control_process w ''terminate'' pid expected) (\<lambda>_ s.
                   (Inr \<lparr>cr_processes = affected @ [pid], cr_threads = [],
                      cr_detail = ''Terminated '' @ show_nat (length (affected @ [pid]))
                        @ '' revalidated process(es) in the tree; '' @ show_nat skipped
                        @ '' inaccessible or changed descendants skipped''\<rparr>, s)) s)))"

section \<open>Firewall rules and start-up entries\<close>

definition netsh :: "control_world \<Rightarrow> string list \<Rightarrow> os_call" where
  "netsh w args = CallTool (system_tool w ''netsh.exe'') ([''advfirewall'', ''firewall''] @ args)"

definition add_rule_call :: "control_world \<Rightarrow> string \<Rightarrow> string \<Rightarrow> string \<Rightarrow> os_call" where
  "add_rule_call w rule_name address program =
     netsh w [''add'', ''rule'', ''name='' @ rule_name, ''dir=out'', ''action=block'',
       ''remoteip='' @ address, ''enable=yes'', ''profile=any'', ''interfacetype=any'', ''program='' @ program]"

definition delete_rule_call :: "control_world \<Rightarrow> string \<Rightarrow> os_call" where
  "delete_rule_call w rule_name = netsh w [''delete'', ''rule'', ''name='' @ rule_name]"

definition block_remote_address ::
  "control_world \<Rightarrow> string \<Rightarrow> string \<Rightarrow> u32 \<Rightarrow> string \<Rightarrow> os \<Rightarrow> (windows_error + unit) \<times> os" where
  "block_remote_address w rule_name address pid expected =
     run_then (\<lambda>s. (validate_firewall_scope address expected, s)) (\<lambda>_.
     run_then (process_image_path pid) (\<lambda>actual.
     if \<not> same_path w actual expected
     then (\<lambda>s. (Inl (WinApi ''process identity changed before applying the network block''), s))
     else run_then (\<lambda>s. (validate_rule_name rule_name, s)) (\<lambda>_.
       perform ''add temporary firewall rule'' (add_rule_call w rule_name address actual))))"

definition remove_firewall_rule :: "control_world \<Rightarrow> string \<Rightarrow> os \<Rightarrow> (windows_error + unit) \<times> os" where
  "remove_firewall_rule w rule_name =
     run_then (\<lambda>s. (validate_rule_name rule_name, s)) (\<lambda>_.
       perform ''remove temporary firewall rule'' (delete_rule_call w rule_name))"

text \<open>The start type that a service gets back, from the state that was recorded for it.\<close>

definition restored_start :: "string option \<Rightarrow> string" where
  "restored_start previous =
     (let p = (case previous of None \<Rightarrow> ''manual'' | Some p \<Rightarrow> p) in
      if p = ''automatic'' then ''auto'' else if p = ''boot'' then ''boot''
      else if p = ''system'' then ''system'' else ''demand'')"

definition service_call :: "control_world \<Rightarrow> string \<Rightarrow> string \<Rightarrow> os_call" where
  "service_call w name start_type = CallTool (system_tool w ''sc.exe'') [''config'', name, ''start='', start_type]"

definition task_call :: "control_world \<Rightarrow> string \<Rightarrow> bool \<Rightarrow> os_call" where
  "task_call w location enabled = CallTool (system_tool w ''schtasks.exe'')
     [''/Change'', ''/TN'', location, if enabled then ''/ENABLE'' else ''/DISABLE'']"

definition set_persistence_enabled ::
  "control_world \<Rightarrow> string \<Rightarrow> string \<Rightarrow> bool \<Rightarrow> string option \<Rightarrow> os \<Rightarrow> (windows_error + unit) \<times> os" where
  "set_persistence_enabled w category location enabled previous =
     (if location = [] \<or> 1024 < length location \<or> has_line_break location
      then (\<lambda>s. (Inl (WinApi ''invalid persistence location''), s))
      else if category = ''service'' then
        (let name = last_piece ((=) backslash) location in
         if name = [] then (\<lambda>s. (Inl (WinApi ''service location has no key name''), s))
         else perform (if enabled then ''restore service startup'' else ''disable service startup'')
           (service_call w name (if enabled then restored_start previous else ''disabled'')))
      else if category = ''scheduled_task'' then
        (if \<not> starts_with location [backslash]
         then (\<lambda>s. (Inl (WinApi ''scheduled-task path must be absolute''), s))
         else perform (if enabled then ''restore scheduled task'' else ''disable scheduled task'')
           (task_call w location enabled))
      else (\<lambda>s. (Inl (WinApi (''automatic response is not supported for '' @ category @ '' persistence'')), s)))"

section \<open>What is performed\<close>

lemma process_image_path_effect:
  assumes "process_image_path pid s = (r, s')"
  shows "os_calls s' = os_calls s" "os_host s' = os_host s" "r = os_image s' pid"
  using assms by (auto simp: process_image_path_def split: list.splits)

lemma perform_cases:
  assumes "perform action c s = (r, s')"
  obtains (performed) "r = Inr ()" "os_calls s' = os_calls s @ [c]" "os_image s' = os_image s"
      "hs_files (os_host s') = hs_files (os_host s)" "hs_db (os_host s') = hs_db (os_host s)"
  | (failed) e where "r = Inl e" "os_calls s' = os_calls s" "os_image s' = os_image s"
      "hs_files (os_host s') = hs_files (os_host s)" "hs_db (os_host s') = hs_db (os_host s)"
  using assms by (auto simp: perform_def take_outcome_def split: list.splits outcome.splits)

lemma os_open_effect:
  assumes "os_open action s = (r, s')"
  shows "os_calls s' = os_calls s" "os_image s' = os_image s"
  using assms by (auto simp: os_open_def split: prod.splits)

lemma terminate_cases:
  assumes "terminate pid s = (r, s')"
  obtains (performed) ok where "r = Inr ok" "cr_processes ok = [pid]" "os_calls s' = os_calls s @ [CallTerminate pid]"
      "os_image s' = os_image s"
  | (failed) e where "r = Inl e" "os_calls s' = os_calls s" "os_image s' = os_image s"
proof -
  obtain a t where a: "os_open (''open PID '' @ show_nat (unat pid) @ '' for termination'') s = (a, t)" by force
  obtain b u where b: "perform (''terminate PID '' @ show_nat (unat pid)) (CallTerminate pid) t = (b, u)" by force
  note o = os_open_effect [OF a]
  show thesis
  proof (cases a)
    case (Inl e)
    with assms a o show thesis by (intro failed [of e]) (simp_all add: terminate_def run_then_def)
  next
    case (Inr x)
    with assms a b have r: "(r, s') = (case b of Inl e \<Rightarrow> (Inl e, u) | Inr _ \<Rightarrow> (Inr (terminated pid), u))"
      by (simp add: terminate_def run_then_def split: sum.splits)
    from b show thesis
    proof (cases rule: perform_cases)
      case performed
      with r o show thesis by (intro that(1) [of "terminated pid"]) (simp_all add: terminated_def)
    next
      case (failed e)
      with r o show thesis by (intro that(2) [of e]) simp_all
    qed
  qed
qed

lemma control_each_effect:
  "control_each suspend ts s = (affected, s') \<Longrightarrow> set affected \<subseteq> set ts \<and> os_image s' = os_image s
     \<and> os_calls s' = os_calls s @ map (if suspend then CallSuspend else CallResume) affected"
proof (induction ts arbitrary: s s' affected)
  case Nil
  then show ?case by simp
next
  case (Cons t ts)
  obtain r u where p: "perform [] (if suspend then CallSuspend t else CallResume t) s = (r, u)" by force
  obtain more v where m: "control_each suspend ts u = (more, v)" by force
  note IH = Cons.IH [OF m]
  from p show ?case
  proof (cases rule: perform_cases)
    case performed
    with p m Cons.prems have "affected = t # more" "s' = v" by simp_all
    with IH performed show ?thesis by (auto split: if_splits)
  next
    case (failed e)
    with p m Cons.prems have "affected = more" "s' = v" by simp_all
    with IH failed show ?thesis by auto
  qed
qed

text \<open>Which calls an action on one process may perform.\<close>

definition allowed_call :: "control_world \<Rightarrow> string \<Rightarrow> u32 \<Rightarrow> os_call \<Rightarrow> bool" where
  "allowed_call w action pid c \<longleftrightarrow>
     (case c of
        CallTerminate p \<Rightarrow> action = ''terminate'' \<and> p = pid
      | CallSuspend t \<Rightarrow> action = ''suspend'' \<and> (\<exists>es. cw_threads w = Inr es \<and> (t, pid) \<in> set es)
      | CallResume t \<Rightarrow> action = ''resume'' \<and> (\<exists>es. cw_threads w = Inr es \<and> (t, pid) \<in> set es)
      | CallTool _ _ \<Rightarrow> False)"

lemma control_threads_effect:
  assumes "control_threads w pid suspend s = (r, s')"
  shows "\<exists>cs. os_calls s' = os_calls s @ cs \<and> os_image s' = os_image s
    \<and> (\<forall>c \<in> set cs. allowed_call w (if suspend then ''suspend'' else ''resume'') pid c)
    \<and> (cs = [] \<longleftrightarrow> (\<exists>e. r = Inl e))"
proof (cases "cw_threads w")
  case (Inl e)
  with assms show ?thesis by (auto simp: control_threads_def)
next
  case (Inr es)
  obtain affected u where c: "control_each suspend (map fst (filter (\<lambda>(_, owner). owner = pid) es)) s = (affected, u)"
    by force
  note e = control_each_effect [OF c]
  have s': "s' = u" "(\<exists>e. r = Inl e) \<longleftrightarrow> affected = []"
    using assms Inr c by (auto simp: control_threads_def split: if_splits)
  have "\<forall>t \<in> set affected. (t, pid) \<in> set es" using e by auto
  then have "\<forall>c \<in> set (map (if suspend then CallSuspend else CallResume) affected).
      allowed_call w (if suspend then ''suspend'' else ''resume'') pid c"
    using Inr by (auto simp: allowed_call_def)
  with e s' show ?thesis
    by (intro exI [of _ "map (if suspend then CallSuspend else CallResume) affected"]) simp
qed

lemma control_process_effect:
  assumes "control_process w action pid expected s = (r, s')"
  shows "\<exists>cs. os_calls s' = os_calls s @ cs \<and> (\<forall>c \<in> set cs. allowed_call w action pid c)
    \<and> (cs = [] \<longleftrightarrow> (\<exists>e. r = Inl e))
    \<and> (cs \<noteq> [] \<longrightarrow> 4 < pid \<and> pid \<noteq> cw_self w \<and>
         (\<exists>actual. os_image s' pid = Inr actual \<and> same_path w actual expected))"
proof -
  define here where "here = (pid \<le> 4 \<or> pid = cw_self w \<or> expected = [])"
  show ?thesis
  proof (cases here)
    case True
    with assms have "s' = s" "\<exists>e. r = Inl e" by (auto simp: control_process_def here_def)
    then show ?thesis by (intro exI [of _ "[]"]) simp
  next
    case False
    then have g: "4 < pid" "pid \<noteq> cw_self w" by (auto simp: here_def)
    obtain a t where a: "process_image_path pid s = (a, t)" by force
    note pa = process_image_path_effect [OF a]
    have stop: ?thesis if "r = Inl e" "s' = t" for e
      using that pa(1) by (intro exI [of _ "[]"]) simp
    show ?thesis
    proof (cases "\<exists>actual. a = Inr actual \<and> same_path w actual expected")
      case False
      with assms \<open>\<not> here\<close> a stop show ?thesis
        by (auto simp: control_process_def here_def run_then_def split: sum.splits if_splits)
    next
      case True
      then obtain actual where act: "a = Inr actual" "same_path w actual expected" by blast
      have run: "(r, s') = (if action = ''terminate'' then terminate pid t
          else if action = ''suspend'' then control_threads w pid True t
          else if action = ''resume'' then control_threads w pid False t
          else (Inl (WinApi (''unsupported process action '' @ action)), t))"
        using assms False a act by (simp add: control_process_def here_def run_then_def split: if_splits)
      have fin: ?thesis
        if "os_calls s' = os_calls t @ cs" "os_image s' = os_image t" "\<forall>c \<in> set cs. allowed_call w action pid c"
          "cs = [] \<longleftrightarrow> (\<exists>e. r = Inl e)" for cs
        using that g pa act by (intro exI [of _ cs]) auto
      consider "action = ''terminate''" | "action = ''suspend''" | "action = ''resume''"
        | "action \<notin> {''terminate'', ''suspend'', ''resume''}" by blast
      then show ?thesis
      proof cases
        case 1
        with run have "terminate pid t = (r, s')" by simp
        then show ?thesis
        proof (cases rule: terminate_cases)
          case (performed ok)
          with 1 show ?thesis by (intro fin [of "[CallTerminate pid]"]) (simp_all add: allowed_call_def)
        next
          case (failed e)
          then show ?thesis by (intro fin [of "[]"]) simp_all
        qed
      next
        case 2
        with run control_threads_effect [of w pid True t r s'] fin show ?thesis by auto
      next
        case 3
        with run control_threads_effect [of w pid False t r s'] fin show ?thesis by auto
      next
        case 4
        with run stop show ?thesis by simp
      qed
    qed
  qed
qed

lemma control_terminate_once:
  assumes "control_process w ''terminate'' pid expected s = (Inr ok, s')"
  shows "os_calls s' = os_calls s @ [CallTerminate pid]"
proof -
  obtain a t where a: "process_image_path pid s = (a, t)" by force
  with assms obtain u where "terminate pid t = (Inr ok, u)" "s' = u"
    by (auto simp: control_process_def run_then_def split: if_splits sum.splits)
  then show ?thesis
    using process_image_path_effect(1) [OF a] by (auto elim: terminate_cases)
qed

text \<open>
  C32. A process is only touched after its identity was checked.  Whatever \<^verbatim>\<open>control_process\<close> performs
  acts on that process or a thread of it, is the kind of call that was asked for, and happens only when
  the process is not protected and the image the system reported last is the expected one; the call
  reports success exactly when something was performed.
\<close>

theorem control_acts_on_validated_process:
  assumes "control_process w action pid expected s = (r, s')"
  shows "\<exists>cs. os_calls s' = os_calls s @ cs \<and> (\<forall>c \<in> set cs. allowed_call w action pid c)
    \<and> (cs = [] \<longleftrightarrow> (\<exists>e. r = Inl e))
    \<and> (cs \<noteq> [] \<longrightarrow> 4 < pid \<and> pid \<noteq> cw_self w \<and>
         (\<exists>actual. os_image s' pid = Inr actual \<and> same_path w actual expected))"
  using assms by (rule control_process_effect)

section \<open>The walk over the tree\<close>

text \<open>Every found process was found from the root or from one found before it.\<close>

definition found_from :: "u32 \<Rightarrow> (u32 \<times> u32) list \<Rightarrow> u32 list \<Rightarrow> bool" where
  "found_from pid rels found \<longleftrightarrow> distinct (pid # found) \<and> (\<forall>i < length found.
     4 < found ! i \<and> (\<exists>p. (found ! i, p) \<in> set rels \<and> (p = pid \<or> p \<in> set (take i found))))"

lemma found_fromE:
  assumes "found_from pid rels found" "i < length found"
  obtains p where "4 < found ! i" "(found ! i, p) \<in> set rels" "p = pid \<or> p \<in> set (take i found)"
  using assms unfolding found_from_def by blast

definition walk_ok :: "u32 \<Rightarrow> (u32 \<times> u32) list \<Rightarrow> walk \<Rightarrow> bool" where
  "walk_ok pid rels st \<longleftrightarrow> (case st of (found, frontier, visited) \<Rightarrow>
     found_from pid rels found \<and> visited = insert pid (set found) \<and> set frontier \<subseteq> visited \<and> length found < 4096
     \<and> (\<forall>p \<in> visited - set frontier. \<forall>c. (c, p) \<in> set rels \<longrightarrow> 4 < c \<longrightarrow> c \<in> visited))"

lemma found_from_append:
  assumes "found_from pid rels found" "parent \<in> insert pid (set found)" "distinct new"
    "set new \<inter> insert pid (set found) = {}" "\<forall>c \<in> set new. (c, parent) \<in> set rels \<and> 4 < c"
  shows "found_from pid rels (found @ new)"
proof -
  have "distinct (pid # found @ new)" using assms(1,3,4) by (auto simp: found_from_def)
  moreover have "4 < (found @ new) ! i \<and> (\<exists>p. ((found @ new) ! i, p) \<in> set rels
      \<and> (p = pid \<or> p \<in> set (take i (found @ new))))"
    if i: "i < length (found @ new)" for i
  proof (cases "i < length found")
    case True
    with assms(1) show ?thesis by (auto simp: found_from_def nth_append)
  next
    case False
    then have "(found @ new) ! i \<in> set new" using i by (simp add: nth_append)
    moreover have "set found \<subseteq> set (take i (found @ new))" using False by simp
    ultimately show ?thesis using assms(2,5) by blast
  qed
  ultimately show ?thesis by (simp add: found_from_def)
qed

lemma tree_walk_found:
  "walk_ok pid rels (found, frontier, visited) \<Longrightarrow>
     found_from pid rels (tree_walk rels (found, frontier, visited))
     \<and> length (tree_walk rels (found, frontier, visited)) \<le> 4096
     \<and> (length (tree_walk rels (found, frontier, visited)) < 4096 \<longrightarrow>
          (\<forall>p \<in> insert pid (set (tree_walk rels (found, frontier, visited))).
             \<forall>c. (c, p) \<in> set rels \<longrightarrow> 4 < c \<longrightarrow>
               c \<in> insert pid (set (tree_walk rels (found, frontier, visited)))))"
proof (induction rels "(found, frontier, visited)" arbitrary: found frontier visited rule: tree_walk.induct)
  case (1 rels found visited)
  then show ?case by (auto simp: walk_ok_def)
next
  case (2 rels found parent frontier visited)
  obtain found' frontier' visited' where v: "visit_children parent rels (found, frontier, visited)
      = (found', frontier', visited')"
    by (cases "visit_children parent rels (found, frontier, visited)")
  from visit_children_effect [OF v] obtain new where new: "found' = found @ new" "frontier' = rev new @ frontier"
    "visited' = visited \<union> set new" "distinct new" "set new \<inter> visited = {}"
    "\<forall>c \<in> set new. (c, parent) \<in> set rels \<and> 4 < c" "length found < 4096 \<longrightarrow> length found' \<le> 4096"
    "length found' < 4096 \<longrightarrow> (\<forall>c. (c, parent) \<in> set rels \<longrightarrow> 4 < c \<longrightarrow> c \<in> visited')"
    by blast
  have ok: "found_from pid rels found" "visited = insert pid (set found)" "set (parent # frontier) \<subseteq> visited"
    "length found < 4096"
    "\<forall>p \<in> visited - set (parent # frontier). \<forall>c. (c, p) \<in> set rels \<longrightarrow> 4 < c \<longrightarrow> c \<in> visited"
    using 2(2) unfolding walk_ok_def case_prod_conv by blast+
  have "parent \<in> insert pid (set found)" "set new \<inter> insert pid (set found) = {}"
    using ok(2,3) new(5) by auto
  with found_from_append [OF ok(1) _ new(4) _ new(6)] have f: "found_from pid rels found'"
    unfolding new(1) by blast
  have l: "length found' \<le> 4096" using new(7) ok(4) by simp
  have step: "tree_walk rels (found, parent # frontier, visited)
      = (if 4096 \<le> length found' then found' else tree_walk rels (found', frontier', visited'))"
    by (simp add: v)
  show ?case
  proof (cases "4096 \<le> length found'")
    case True
    with f l show ?thesis unfolding step by simp
  next
    case False
    have "\<forall>p \<in> visited' - set frontier'. \<forall>c. (c, p) \<in> set rels \<longrightarrow> 4 < c \<longrightarrow> c \<in> visited'"
    proof
      fix p
      assume "p \<in> visited' - set frontier'"
      then have "p = parent \<or> p \<in> visited - set (parent # frontier)" using new(2,3) by auto
      then show "\<forall>c. (c, p) \<in> set rels \<longrightarrow> 4 < c \<longrightarrow> c \<in> visited'"
      proof
        assume "p = parent"
        with new(8) False show ?thesis by simp
      next
        assume "p \<in> visited - set (parent # frontier)"
        with ok(5) new(3) show ?thesis by blast
      qed
    qed
    moreover have "visited' = insert pid (set found')" using ok(2) new(1,3) by auto
    moreover have "set frontier' \<subseteq> visited'" using ok(3) new(2,3) by auto
    ultimately have "walk_ok pid rels (found', frontier', visited')"
      using f False by (simp add: walk_ok_def)
    from 2(1) [OF v [symmetric] refl False this] False show ?thesis unfolding step by simp
  qed
qed

lemma tree_descendants_found:
  assumes "d = tree_descendants pid rels"
  shows "found_from pid rels d" "length d \<le> 4096"
    "length d < 4096 \<Longrightarrow> p \<in> insert pid (set d) \<Longrightarrow> (c, p) \<in> set rels \<Longrightarrow> 4 < c \<Longrightarrow> c \<in> insert pid (set d)"
proof -
  have "walk_ok pid rels ([], [pid], {pid})" by (simp add: walk_ok_def found_from_def)
  note w = tree_walk_found [OF this, folded tree_descendants_def, folded assms]
  show "found_from pid rels d" "length d \<le> 4096" using w by blast+
  show "length d < 4096 \<Longrightarrow> p \<in> insert pid (set d) \<Longrightarrow> (c, p) \<in> set rels \<Longrightarrow> 4 < c \<Longrightarrow> c \<in> insert pid (set d)"
    using w by blast
qed

definition tree_edges :: "(u32 \<times> u32) list \<Rightarrow> (u32 \<times> u32) set" where
  "tree_edges rels = {(p, c). (c, p) \<in> set rels \<and> 4 < c}"

lemma found_reachable:
  assumes "found_from pid rels d" "i < length d"
  shows "(pid, d ! i) \<in> (tree_edges rels)\<^sup>+"
  using assms(2)
proof (induction i rule: less_induct)
  case (less i)
  obtain p where p: "4 < d ! i" "(d ! i, p) \<in> set rels" "p = pid \<or> p \<in> set (take i d)"
    by (rule found_fromE [OF assms(1) less.prems])
  then have e: "(p, d ! i) \<in> tree_edges rels" by (simp add: tree_edges_def)
  from p(3) show ?case
  proof
    assume "p = pid"
    with e show ?thesis by auto
  next
    assume "p \<in> set (take i d)"
    then obtain j where "j < i" "p = d ! j" by (auto simp: in_set_conv_nth)
    with less.IH [of j] less.prems e show ?thesis by (simp add: trancl.trancl_into_trancl)
  qed
qed

lemma found_reachable_set:
  assumes "found_from pid rels d"
  shows "set d \<subseteq> {c. (pid, c) \<in> (tree_edges rels)\<^sup>+}"
  using found_reachable [OF assms] by (auto simp: in_set_conv_nth)

text \<open>
  C33. The walk finds the tree.  It always ends with at most 4,096 distinct descendants, none of them
  the root or a system process and each reachable from the root through parent links; when fewer are
  returned they are all of them.
\<close>

theorem tree_descendants_exact:
  assumes "d = tree_descendants pid rels"
  shows "distinct (pid # d) \<and> length d \<le> 4096 \<and> set d \<subseteq> {c. (pid, c) \<in> (tree_edges rels)\<^sup>+}
    \<and> (length d < 4096 \<longrightarrow> set d = {c. (pid, c) \<in> (tree_edges rels)\<^sup>+} - {pid})"
proof -
  note f = tree_descendants_found [OF assms]
  have sub: "set d \<subseteq> {c. (pid, c) \<in> (tree_edges rels)\<^sup>+}"
    by (rule found_reachable_set [OF f(1)])
  have dist: "distinct (pid # d)" using f(1) by (simp add: found_from_def)
  have all: "c \<in> insert pid (set d)" if "(pid, c) \<in> (tree_edges rels)\<^sup>+" "length d < 4096" for c
    using that(1)
  proof (induction rule: trancl_induct)
    case (base y)
    with f(3) [OF that(2), of pid y] show ?case by (simp add: tree_edges_def)
  next
    case (step y z)
    with f(3) [OF that(2), of y z] show ?case by (simp add: tree_edges_def)
  qed
  show ?thesis using f(2) sub dist all by auto
qed

lemma found_from_order:
  assumes "found_from pid rels d" "distinct (map fst rels)" "i < j" "j < length d"
  shows "(d ! i, d ! j) \<notin> set rels"
proof
  assume c: "(d ! i, d ! j) \<in> set rels"
  from assms(3,4) have "i < length d" by simp
  then obtain p where p: "(d ! i, p) \<in> set rels" "p = pid \<or> p \<in> set (take i d)"
    by (rule found_fromE [OF assms(1)])
  have "p = d ! j" using eq_key_imp_eq_value [OF assms(2)] c p(1) by blast
  moreover have "d ! j \<noteq> pid" using assms(1,4) by (auto simp: found_from_def)
  moreover have "d ! j \<notin> set (take i d)"
    using assms(1,3,4) by (auto simp: found_from_def in_set_conv_nth nth_eq_iff_index_eq)
  ultimately show False using p(2) by simp
qed

lemma sorted_wrt_subseq: "subseq xs ys \<Longrightarrow> sorted_wrt P ys \<Longrightarrow> sorted_wrt P xs"
proof (induction rule: list_emb.induct)
  case (list_emb_Cons2 x y xs ys)
  then show ?case using list_emb_set [of "(=)" xs ys] by (auto simp: list_emb_set)
qed auto

lemma distinct_subseq: "subseq xs ys \<Longrightarrow> distinct ys \<Longrightarrow> distinct xs"
proof (induction rule: list_emb.induct)
  case (list_emb_Cons2 x y xs ys)
  then show ?case using list_emb_set [of "(=)" xs ys] by auto
qed auto

lemma terminate_children_effect:
  "terminate_children w children (affected, skipped) s = ((affected', skipped'), s') \<Longrightarrow>
     \<exists>ks. subseq ks children \<and> affected' = affected @ ks \<and> os_calls s' = os_calls s @ map CallTerminate ks
       \<and> (\<forall>k \<in> set ks. 4 < k \<and> k \<noteq> cw_self w)"
proof (induction children arbitrary: affected skipped s)
  case Nil
  then show ?case by simp
next
  case (Cons child children)
  obtain a t where a: "process_image_path child s = (a, t)" by force
  note pa = process_image_path_effect [OF a]
  have skip: ?case
    if "terminate_children w children (affected, skipped + 1) u = ((affected', skipped'), s')"
      "os_calls u = os_calls s" for u
    using Cons.IH [OF that(1)] that(2) by (metis list_emb_Cons)
  show ?case
  proof (cases a)
    case (Inl e)
    with Cons.prems a skip [of t] pa(1) show ?thesis by simp
  next
    case (Inr path)
    obtain b u where b: "control_process w ''terminate'' child path t = (b, u)" by force
    from control_process_effect [OF b] obtain cs where cs: "os_calls u = os_calls t @ cs"
      "\<forall>c \<in> set cs. allowed_call w ''terminate'' child c" "cs = [] \<longleftrightarrow> (\<exists>e. b = Inl e)"
      "cs \<noteq> [] \<longrightarrow> 4 < child \<and> child \<noteq> cw_self w"
      by blast
    show ?thesis
    proof (cases b)
      case bl: (Inl e)
      with Cons.prems a Inr b skip [of u] pa(1) cs show ?thesis by simp
    next
      case br: (Inr ok)
      then have "b = Inr ok" .
      with control_terminate_once [OF b [unfolded br]] have one: "os_calls u = os_calls t @ [CallTerminate child]"
        by simp
      from Cons.prems a Inr b br have "terminate_children w children (affected @ [child], skipped) u
          = ((affected', skipped'), s')" by simp
      from Cons.IH [OF this] obtain ks where ks: "subseq ks children" "affected' = (affected @ [child]) @ ks"
        "os_calls s' = os_calls u @ map CallTerminate ks" "\<forall>k \<in> set ks. 4 < k \<and> k \<noteq> cw_self w"
        by blast
      have "4 < child \<and> child \<noteq> cw_self w" using cs br by auto
      with ks one pa(1) show ?thesis by (intro exI [of _ "child # ks"]) simp
    qed
  qed
qed

text \<open>
  Terminating a tree goes children first and never leaves it.  What was performed is the termination
  of distinct processes, each neither a system process nor the service itself and each the root or
  reachable from it; no process is terminated before one of its own children in the snapshot; success
  reports exactly the terminated processes, the root last.
\<close>

theorem tree_terminates_children_first:
  assumes "terminate_process_tree w pid expected s = (r, s')"
  shows "\<exists>ks. os_calls s' = os_calls s @ map CallTerminate ks \<and> distinct ks
    \<and> (\<forall>k \<in> set ks. 4 < k \<and> k \<noteq> cw_self w)
    \<and> (\<forall>ok. r = Inr ok \<longrightarrow> cr_processes ok = ks \<and> ks \<noteq> [] \<and> last ks = pid)
    \<and> (\<forall>entries. cw_processes w = Inr entries \<longrightarrow>
         set ks \<subseteq> insert pid {c. (pid, c) \<in> (tree_edges (take 65536 entries))\<^sup>+}
         \<and> (distinct (map fst entries) \<longrightarrow>
              sorted_wrt (\<lambda>earlier later. later = pid \<or> (later, earlier) \<notin> set (take 65536 entries)) ks))"
proof -
  obtain a t where a: "process_image_path pid s = (a, t)" by force
  note pa = process_image_path_effect [OF a]
  have stop: ?thesis if "r = Inl e" "s' = t" for e
    using that pa(1) by (intro exI [of _ "[]"]) simp
  show ?thesis
  proof (cases "(\<exists>actual. a = Inr actual \<and> same_path w actual expected) \<and> (\<exists>es. cw_processes w = Inr es)")
    case False
    with assms a stop show ?thesis
      by (cases a; cases "cw_processes w") (auto simp: terminate_process_tree_def run_then_def split: if_splits)
  next
    case True
    then obtain actual es where act: "a = Inr actual" "same_path w actual expected" "cw_processes w = Inr es" by blast
    define rels where "rels = take 65536 es"
    define d where "d = tree_descendants pid rels"
    note f = tree_descendants_found [OF d_def]
    obtain affected skipped u where u: "terminate_children w (rev d) ([], 0) t = ((affected, skipped), u)"
      by (cases "terminate_children w (rev d) ([], 0) t") auto
    from terminate_children_effect [OF u] have ks: "subseq affected (rev d)"
      "os_calls u = os_calls t @ map CallTerminate affected" "\<forall>k \<in> set affected. 4 < k \<and> k \<noteq> cw_self w"
      by auto
    obtain b v where b: "control_process w ''terminate'' pid expected u = (b, v)" by force
    have r: "s' = v" "(\<exists>e. b = Inl e \<and> r = Inl e) \<or> (\<exists>x ok. b = Inr x \<and> r = Inr ok \<and> cr_processes ok = affected @ [pid])"
      using assms a act u b by (auto simp: terminate_process_tree_def run_then_def rels_def d_def split: sum.splits)
    let ?P = "\<lambda>earlier later. later = pid \<or> (later, earlier) \<notin> set rels"
    have d: "distinct d" "pid \<notin> set d" using f(1) by (simp_all add: found_from_def)
    have in_d: "set affected \<subseteq> set d" using list_emb_set [OF ks(1)] by auto
    with found_reachable_set [OF f(1)] have sub: "set affected \<subseteq> {c. (pid, c) \<in> (tree_edges rels)\<^sup>+}"
      by (rule_tac subset_trans)
    from in_d have dist: "distinct affected" "pid \<notin> set affected"
      using d distinct_subseq [OF ks(1)] by auto
    have order: "sorted_wrt ?P affected" if "distinct (map fst es)"
    proof -
      have "distinct (map fst rels)" using that by (simp add: rels_def take_map [symmetric])
      then have "sorted_wrt (\<lambda>x y. ?P y x) d"
        using found_from_order [OF f(1)] by (simp add: sorted_wrt_iff_nth_less)
      then have "sorted_wrt ?P (rev d)" by (simp add: sorted_wrt_rev)
      with ks(1) show ?thesis by (rule sorted_wrt_subseq)
    qed
    from control_process_effect [OF b] obtain cs where cs: "os_calls v = os_calls u @ cs"
      "cs = [] \<longleftrightarrow> (\<exists>e. b = Inl e)" "cs \<noteq> [] \<longrightarrow> 4 < pid \<and> pid \<noteq> cw_self w"
      by blast
    from r(2) show ?thesis
    proof (elim disjE exE conjE)
      fix e
      assume "b = Inl e" "r = Inl e"
      then have "os_calls s' = os_calls s @ map CallTerminate affected" using cs r(1) ks(2) pa(1) by simp
      with \<open>r = Inl e\<close> ks(3) dist sub order act(3) show ?thesis
        by (intro exI [of _ affected]) (simp add: rels_def subset_insertI2)
    next
      fix x ok
      assume ok: "b = Inr x" "r = Inr ok" "cr_processes ok = affected @ [pid]"
      have calls: "os_calls s' = os_calls s @ map CallTerminate (affected @ [pid])"
        using control_terminate_once [OF b [unfolded ok(1)]] r(1) ks(2) pa(1) by simp
      have guard: "4 < pid \<and> pid \<noteq> cw_self w" using cs ok(1) by auto
      have "sorted_wrt ?P (affected @ [pid])" if "distinct (map fst es)"
        using order [OF that] by (simp add: sorted_wrt_append)
      with calls guard ks(3) dist sub ok(2,3) act(3) show ?thesis
        by (intro exI [of _ "affected @ [pid]"]) (simp add: rels_def subset_insertI2 ball_Un)
    qed
  qed
qed

definition sample_control :: control_world where
  "sample_control = \<lparr>cw_self = 100, cw_canonical = Some, cw_system_root = None,
     cw_processes = Inr [(10, 9), (11, 10), (12, 11), (20, 9)], cw_threads = Inr [(70, 10), (71, 11)]\<rparr>"

definition sample_os :: os where
  "sample_os = \<lparr>os_host = \<lparr>hs_files = Map.empty, hs_outcomes = [], hs_db = db_empty\<rparr>,
     os_image = (\<lambda>_. Inr (''C:'' @ [backslash] @ ''a.exe'')), os_churn = [], os_calls = []\<rparr>"

definition sample_image :: string where
  "sample_image = ''C:'' @ [backslash] @ ''A.exe''"

theorem control_acts_on_validated_process_witness:
  "\<exists>r s'. control_process sample_control ''suspend'' 10 sample_image sample_os = (r, s')
     \<and> os_calls s' = [CallSuspend 70] \<and> (\<exists>actual. os_image s' 10 = Inr actual \<and> same_path sample_control actual sample_image)"
proof -
  obtain r s' where r: "control_process sample_control ''suspend'' 10 sample_image sample_os = (r, s')" by force
  have c: "os_calls (snd (control_process sample_control ''suspend'' 10 sample_image sample_os)) = [CallSuspend 70]"
    by code_simp
  have e: "os_calls sample_os = []" by (simp add: sample_os_def)
  from control_acts_on_validated_process [OF r] c r e show ?thesis by auto
qed

theorem tree_descendants_exact_witness:
  "tree_descendants 10 [(10, 9), (11, 10), (12, 11), (20, 9)] = [11, 12]
   \<and> {c. (10, c) \<in> (tree_edges [(10, 9), (11, 10), (12, 11), (20, 9)])\<^sup>+} - {10} = {11, 12}"
proof -
  have d: "tree_descendants 10 [(10, 9), (11, 10), (12, 11), (20, 9)] = [11, 12]" by code_simp
  then show ?thesis
    using tree_descendants_exact [OF refl, of 10 "[(10, 9), (11, 10), (12, 11), (20, 9)]"] by (simp add: d)
qed

theorem tree_terminates_children_first_witness:
  "\<exists>r s'. terminate_process_tree sample_control 10 sample_image sample_os = (r, s')
     \<and> os_calls s' = [CallTerminate 12, CallTerminate 11, CallTerminate 10] \<and> distinct [12, 11, 10 :: u32]"
proof -
  obtain r s' where r: "terminate_process_tree sample_control 10 sample_image sample_os = (r, s')" by force
  have c: "os_calls (snd (terminate_process_tree sample_control 10 sample_image sample_os))
      = map CallTerminate [12, 11, 10]"
    by code_simp
  have e: "os_calls sample_os = []" by (simp add: sample_os_def)
  from tree_terminates_children_first [OF r] obtain ks where
    "os_calls s' = os_calls sample_os @ map CallTerminate ks" "distinct ks" by blast
  with c r e have "map CallTerminate ks = map CallTerminate [12, 11, 10]" by simp
  then have "ks = [12, 11, 10]" by auto
  with \<open>distinct ks\<close> r c show ?thesis by auto
qed

section \<open>Gaps\<close>

text \<open>
  The root is only checked to be unprotected after its descendants are gone: a request against the service
  itself is refused, but its children have been terminated.
\<close>

lemma protected_root_loses_children:
  "case terminate_process_tree (sample_control\<lparr>cw_self := 10\<rparr>) 10 sample_image sample_os of
     (r, s') \<Rightarrow> r = Inl (WinApi ''protected or incomplete process target'')
       \<and> os_calls s' = [CallTerminate 12, CallTerminate 11]"
  by code_simp

text \<open>Only the address before the first percent sign is checked, but the whole text is passed on.\<close>

lemma address_suffix_is_not_validated:
  "validate_firewall_scope ''8.8.8.8%,any'' sample_image = Inr ()"
  by code_simp

end
