(* ===== verification/OG_Response.thy ===== *)
theory OG_Response
  imports OG_Control OG_Records
begin

text \<open>
  Responses that a user asks for (\<^verbatim>\<open>execute_response\<close> and what it calls in
  \<^verbatim>\<open>openguard-service/src/main.rs\<close>): process control, quarantine, temporary firewall blocks and start-up
  entries, each audited in the timeline, with the rollback records that undo them and the threads that
  remove expired blocks.
\<close>

section \<open>The state of the responder\<close>

text \<open>The inventory cache by owner, and the expiry threads: owner, rollback, rule and delay in seconds.\<close>

record responder =
  rp_os :: os
  rp_cache :: "(string \<times> persistence_inventory) list"
  rp_expiry :: "(string \<times> string \<times> string \<times> u64) list"

text \<open>
  The rest of the world at one request: the scanner and the files, the collector, the clock and fresh
  numbers; \<open>rw_encode\<close> and \<open>rw_decode\<close> are the JSON text of a disabled entry.
\<close>

record response_world =
  rw_control :: control_world
  rw_scanner :: file_scanner
  rw_scan :: "string \<Rightarrow> scan_world"
  rw_quarantine :: quarantine_world
  rw_root :: string
  rw_inventory :: persistence_inventory
  rw_iter :: "(string \<times> persistence_row) list \<Rightarrow> (string \<times> persistence_row) list"
  rw_encode :: "string \<times> string \<times> string \<Rightarrow> string"
  rw_decode :: "string \<Rightarrow> (string option \<times> string option \<times> string option) option"
  rw_rollback_id :: string
  rw_audit_id :: string
  rw_seconds :: u64

definition on_os :: "(os \<Rightarrow> 'r \<times> os) \<Rightarrow> responder \<Rightarrow> 'r \<times> responder" where
  "on_os f s = (case f (rp_os s) of (r, o') \<Rightarrow> (r, s\<lparr>rp_os := o'\<rparr>))"

definition on_host :: "(host \<Rightarrow> 'r \<times> host) \<Rightarrow> responder \<Rightarrow> 'r \<times> responder" where
  "on_host f = on_os (\<lambda>s. case f (os_host s) of (r, h) \<Rightarrow> (r, s\<lparr>os_host := h\<rparr>))"

definition storage_api_error :: "string \<Rightarrow> storage_error \<Rightarrow> api_error" where
  "storage_api_error operation e = internal (operation @ '': '' @ storage_error_display e)"

definition response_api_error :: "windows_error \<Rightarrow> api_error" where
  "response_api_error e = conflict (windows_error_display e)"

definition invalid_response :: "string \<Rightarrow> api_error" where
  "invalid_response message = \<lparr>ae_code = InvalidRequest, ae_message = message, ae_retryable = False\<rparr>"

definition unix_timestamp :: "response_world \<Rightarrow> string" where
  "unix_timestamp w = ''unix:'' @ show_nat (unat (rw_seconds w))"

definition rp_store ::
  "string \<Rightarrow> (database \<Rightarrow> (storage_error + 'a) \<times> database) \<Rightarrow> responder \<Rightarrow> (api_error + 'a) \<times> responder" where
  "rp_store operation f = map_fail (storage_api_error operation) (on_host (db_call f))"

definition rp_control :: "(os \<Rightarrow> (windows_error + 'a) \<times> os) \<Rightarrow> responder \<Rightarrow> (api_error + 'a) \<times> responder" where
  "rp_control f = map_fail response_api_error (on_os f)"

definition rp_require :: "api_error \<Rightarrow> 'a option \<Rightarrow> responder \<Rightarrow> (api_error + 'a) \<times> responder" where
  "rp_require e v s = (ok_or e v, s)"

definition bounded_response_field :: "string \<Rightarrow> nat \<Rightarrow> bool" where
  "bounded_response_field field maximum \<longleftrightarrow> length field \<le> maximum \<and> \<not> has_line_break field"

fun response_action_name :: "response_action_kind \<Rightarrow> string" where
  "response_action_name TerminateProcess = ''terminate_process''"
| "response_action_name TerminateProcessTree = ''terminate_process_tree''"
| "response_action_name SuspendProcess = ''suspend_process''"
| "response_action_name ResumeProcess = ''resume_process''"
| "response_action_name QuarantineFile = ''quarantine_file''"
| "response_action_name BlockRemoteAddress = ''block_remote_address''"
| "response_action_name UnblockRemoteAddress = ''unblock_remote_address''"
| "response_action_name DisablePersistence = ''disable_persistence''"
| "response_action_name RestorePersistence = ''restore_persistence''"

section \<open>Start-up inventory\<close>

definition persistence_inventory_op ::
  "response_world \<Rightarrow> client_context \<Rightarrow> bool \<Rightarrow> responder \<Rightarrow> (api_error + persistence_inventory) \<times> responder" where
  "persistence_inventory_op w client refresh s =
     (case (if refresh then None else map_of (rp_cache s) (cc_sid client)) of
        Some cached \<Rightarrow> (Inr cached, s)
      | None \<Rightarrow>
          (let inventory = rw_inventory w in
           run_then (rp_store ''Persist persistence inventory'' (\<lambda>d.
               case sync_persistence_inventory (rw_iter w) (cc_sid client) (pv_items inventory)
                 (pv_collected_at inventory) d of (changes, d) \<Rightarrow> (Inr changes, d)))
             (\<lambda>_ s. (Inr inventory, s\<lparr>rp_cache := (cc_sid client, inventory) # rp_cache s\<rparr>)) s))"

definition forget_inventory :: "client_context \<Rightarrow> responder \<Rightarrow> responder" where
  "forget_inventory client s = s\<lparr>rp_cache := filter (\<lambda>e. fst e \<noteq> cc_sid client) (rp_cache s)\<rparr>"

section \<open>Temporary firewall blocks\<close>

text \<open>A thread that cannot be started is not reported.\<close>

definition schedule_firewall_expiry ::
  "string \<Rightarrow> string \<Rightarrow> string \<Rightarrow> u64 \<Rightarrow> responder \<Rightarrow> responder" where
  "schedule_firewall_expiry owner_sid rollback_id rule_name delay s =
     (case on_host plain_call s of
        (Inl _, s) \<Rightarrow> s
      | (Inr _, s) \<Rightarrow> s\<lparr>rp_expiry := rp_expiry s @ [(owner_sid, rollback_id, rule_name, delay)]\<rparr>)"

text \<open>What such a thread does when its delay is over.\<close>

definition expire_rule :: "response_world \<Rightarrow> string \<Rightarrow> string \<Rightarrow> string \<Rightarrow> responder \<Rightarrow> responder" where
  "expire_rule w owner_sid rollback_id rule_name s =
     (case on_host (db_call (\<lambda>d. (Inr (find_rollback owner_sid rollback_id d), d))) s of
        (Inr (Some _), s) \<Rightarrow>
          (case on_os (remove_firewall_rule (rw_control w) rule_name) s of
             (Inr _, s) \<Rightarrow> snd (on_host (db_call (\<lambda>d.
                 case mark_response_restored owner_sid rollback_id (unix_timestamp w) d of (b, d) \<Rightarrow> (Inr b, d))) s)
           | (Inl _, s) \<Rightarrow> s)
      | (_, s) \<Rightarrow> s)"

definition recorded_expiry :: "response_rollback \<Rightarrow> nat" where
  "recorded_expiry r =
     (case rb_expires_at r of None \<Rightarrow> 0
      | Some stamp \<Rightarrow> (case strip_prefix stamp ''unix:'' of None \<Rightarrow> 0
          | Some digits \<Rightarrow> (case from_str_radix 64 10 digits of None \<Rightarrow> 0 | Some n \<Rightarrow> n)))"

fun schedule_recovered :: "response_world \<Rightarrow> (string \<times> response_rollback) list \<Rightarrow> responder \<Rightarrow> responder" where
  "schedule_recovered w [] s = s"
| "schedule_recovered w ((owner, r) # rs) s =
     schedule_recovered w rs (schedule_firewall_expiry owner (rb_id r) (rb_payload r)
       (sat_sub (of_nat (recorded_expiry r)) (rw_seconds w)) s)"

definition recover_temporary_firewall_rules ::
  "response_world \<Rightarrow> responder \<Rightarrow> (storage_error + unit) \<times> responder" where
  "recover_temporary_firewall_rules w =
     run_then (on_host (db_call (\<lambda>d. (Inr (active_response_rollbacks ''block_remote_address'' d), d))))
       (\<lambda>rs s. (Inr (), schedule_recovered w rs s))"

section \<open>The actions\<close>

type_synonym action_outcome = "string \<times> string \<times> string option \<times> string option"

definition process_action ::
  "response_world \<Rightarrow> response_action_request \<Rightarrow> responder \<Rightarrow> (api_error + action_outcome) \<times> responder" where
  "process_action w request =
     run_then (rp_require (invalid_response ''A process ID is required'') (rq_process_id request)) (\<lambda>pid.
     run_then (rp_control
         (if rq_action request = TerminateProcessTree
          then terminate_process_tree (rw_control w) pid (rq_expected_path request)
          else control_process (rw_control w)
            (case rq_action request of TerminateProcess \<Rightarrow> ''terminate'' | SuspendProcess \<Rightarrow> ''suspend''
             | _ \<Rightarrow> ''resume'') pid (rq_expected_path request))) (\<lambda>result s.
       (Inr (''PID '' @ show_nat (unat pid), cr_detail result, None, None), s)))"

definition scan_before_quarantine :: "response_world \<Rightarrow> string \<Rightarrow> api_error + scan_finding" where
  "scan_before_quarantine w target =
     (case scan_file (rw_scanner w) (rw_scan w target) target of
        None \<Rightarrow> Inl (conflict ''Scan before quarantine: panic'')
      | Some (Inl e) \<Rightarrow> Inl (conflict (''Scan before quarantine: '' @ scan_error_display e))
      | Some (Inr finding) \<Rightarrow>
          if sf_verdict finding \<in> {Suspicious, Malicious} then Inr finding
          else Inl (conflict ''OpenGuard only quarantines files currently detected as suspicious or malicious''))"

definition quarantine_action ::
  "response_world \<Rightarrow> client_context \<Rightarrow> response_action_request \<Rightarrow> responder
   \<Rightarrow> (api_error + action_outcome) \<times> responder" where
  "quarantine_action w client request =
     run_then (\<lambda>s. (scan_before_quarantine w (rq_target request), s)) (\<lambda>finding.
     run_then (on_host (quarantine_finding (rw_scanner w) (rw_root w) (rw_quarantine w) client finding)) (\<lambda>qr s.
       (Inr (qr_original_path qr, ''Quarantined as '' @ qr_id qr, Some (qr_id qr), None), s)))"

definition block_duration :: "response_action_request \<Rightarrow> u32" where
  "block_duration request =
     (let d = (case rq_duration_minutes request of None \<Rightarrow> 15 | Some d \<Rightarrow> d) in
      if d < 1 then 1 else if 1440 < d then 1440 else d)"

definition block_rule_name :: "response_world \<Rightarrow> string" where
  "block_rule_name w = rule_prefix @ rw_rollback_id w"

definition block_seconds :: "response_action_request \<Rightarrow> u64" where
  "block_seconds request = ucast (block_duration request) * 60"

definition block_rollback :: "response_world \<Rightarrow> response_action_request \<Rightarrow> response_rollback" where
  "block_rollback w request =
     \<lparr>rb_id = rw_rollback_id w, rb_action = ''block_remote_address'', rb_target = rq_remote_address request,
      rb_payload = block_rule_name w, rb_created_at = unix_timestamp w,
      rb_expires_at = Some (''unix:'' @ show_nat (unat (sat_add (rw_seconds w) (block_seconds request)))),
      rb_restored_at = None\<rparr>"

definition block_action ::
  "response_world \<Rightarrow> client_context \<Rightarrow> response_action_request \<Rightarrow> responder
   \<Rightarrow> (api_error + action_outcome) \<times> responder" where
  "block_action w client request =
     run_then (rp_require (invalid_response ''A process ID is required for an application-scoped block'')
         (rq_process_id request)) (\<lambda>pid.
     if rq_expected_path request = []
     then (\<lambda>s. (Inl (invalid_response ''An executable path is required for an application-scoped block''), s))
     else
       run_then (rp_control (block_remote_address (rw_control w) (block_rule_name w) (rq_remote_address request)
           pid (rq_expected_path request))) (\<lambda>_.
       run_then (rp_store ''Record firewall rollback''
           (record_response_rollback (cc_sid client) (block_rollback w request))) (\<lambda>_ s.
         (Inr (rq_remote_address request,
               ''Blocked outbound traffic from PID '' @ show_nat (unat pid) @ '' to this destination for ''
                 @ show_nat (unat (block_duration request)) @ '' minutes through Windows Firewall/WFP'',
               Some (rw_rollback_id w), rb_expires_at (block_rollback w request)),
          schedule_firewall_expiry (cc_sid client) (rw_rollback_id w) (block_rule_name w)
            (block_seconds request) s))))"

text \<open>\<^verbatim>\<open>response_rollback(..)?.filter(..).ok_or_else(..)?\<close>.\<close>

definition active_rollback ::
  "client_context \<Rightarrow> string \<Rightarrow> string \<Rightarrow> string \<Rightarrow> string \<Rightarrow> responder \<Rightarrow> (api_error + response_rollback) \<times> responder" where
  "active_rollback client rollback_id action operation missing =
     run_then (rp_store operation (\<lambda>d. (Inr (find_rollback (cc_sid client) rollback_id d), d))) (\<lambda>found.
       rp_require (invalid_response missing)
         (case found of None \<Rightarrow> None | Some r \<Rightarrow> if rb_action r = action then Some r else None))"

definition complete_rollback ::
  "response_world \<Rightarrow> client_context \<Rightarrow> string \<Rightarrow> response_rollback \<Rightarrow> responder \<Rightarrow> (api_error + bool) \<times> responder" where
  "complete_rollback w client operation r =
     rp_store operation (\<lambda>d. case mark_response_restored (cc_sid client) (rb_id r) (unix_timestamp w) d of
       (b, d) \<Rightarrow> (Inr b, d))"

definition unblock_action ::
  "response_world \<Rightarrow> client_context \<Rightarrow> response_action_request \<Rightarrow> responder
   \<Rightarrow> (api_error + action_outcome) \<times> responder" where
  "unblock_action w client request =
     run_then (active_rollback client (rq_rollback_id request) ''block_remote_address'' ''Read firewall rollback''
         ''Active firewall rollback was not found'') (\<lambda>r.
     run_then (rp_control (remove_firewall_rule (rw_control w) (rb_payload r))) (\<lambda>_.
     run_then (complete_rollback w client ''Complete firewall rollback'' r) (\<lambda>_ s.
       (Inr (rb_target r, ''Removed temporary outbound block'', None, None), s))))"

definition persistence_rollback :: "response_world \<Rightarrow> persistence_item \<Rightarrow> response_rollback" where
  "persistence_rollback w item =
     \<lparr>rb_id = rw_rollback_id w, rb_action = ''disable_persistence'', rb_target = pi_name item,
      rb_payload = rw_encode w (pi_category item, pi_location item, pi_state item),
      rb_created_at = unix_timestamp w, rb_expires_at = None, rb_restored_at = None\<rparr>"

definition disable_action ::
  "response_world \<Rightarrow> client_context \<Rightarrow> response_action_request \<Rightarrow> responder
   \<Rightarrow> (api_error + action_outcome) \<times> responder" where
  "disable_action w client request =
     run_then (persistence_inventory_op w client False) (\<lambda>_.
     run_then (rp_store ''Read persistence target'' (\<lambda>d. (persistence_lookup (cc_sid client) (rq_persistence_id request) d, d)))
       (\<lambda>found.
     run_then (rp_require (invalid_response ''Active persistence target was not found'') found) (\<lambda>item.
     if pi_response_capability item \<noteq> ''disable_restore''
     then (\<lambda>s. (Inl (invalid_response ''This persistence type is report-only for safety''), s))
     else if pi_risk item < Medium
     then (\<lambda>s. (Inl (invalid_response
       ''OpenGuard only enables automated startup disable for entries with explainable review signals''), s))
     else
       run_then (rp_control (set_persistence_enabled (rw_control w) (pi_category item) (pi_location item) False None)) (\<lambda>_.
       run_then (rp_store ''Record persistence rollback''
           (record_response_rollback (cc_sid client) (persistence_rollback w item))) (\<lambda>_ s.
         (Inr (pi_name item, ''Disabled startup registration; rollback is available'',
               Some (rw_rollback_id w), None), forget_inventory client s))))))"

definition restore_action ::
  "response_world \<Rightarrow> client_context \<Rightarrow> response_action_request \<Rightarrow> responder
   \<Rightarrow> (api_error + action_outcome) \<times> responder" where
  "restore_action w client request =
     run_then (active_rollback client (rq_rollback_id request) ''disable_persistence'' ''Read persistence rollback''
         ''Active persistence rollback was not found'') (\<lambda>r.
     run_then (rp_require (invalid_response ''Stored rollback data is invalid'') (rw_decode w (rb_payload r)))
       (\<lambda>(category, location, previous).
     run_then (rp_control (set_persistence_enabled (rw_control w) (case category of None \<Rightarrow> [] | Some c \<Rightarrow> c)
         (case location of None \<Rightarrow> [] | Some l \<Rightarrow> l) True previous)) (\<lambda>_.
     run_then (complete_rollback w client ''Complete persistence rollback'' r) (\<lambda>_ s.
       (Inr (rb_target r, ''Restored startup registration'', None, None), forget_inventory client s)))))"

definition execute_response_inner ::
  "response_world \<Rightarrow> client_context \<Rightarrow> response_action_request \<Rightarrow> responder
   \<Rightarrow> (api_error + action_outcome) \<times> responder" where
  "execute_response_inner w client request =
     (case rq_action request of
        QuarantineFile \<Rightarrow> quarantine_action w client request
      | BlockRemoteAddress \<Rightarrow> block_action w client request
      | UnblockRemoteAddress \<Rightarrow> unblock_action w client request
      | DisablePersistence \<Rightarrow> disable_action w client request
      | RestorePersistence \<Rightarrow> restore_action w client request
      | _ \<Rightarrow> process_action w request)"

section \<open>Auditing\<close>

definition failure_event :: "response_world \<Rightarrow> response_action_request \<Rightarrow> string \<Rightarrow> timeline_event" where
  "failure_event w request message =
     \<lparr>te_id = None, te_category = ''response'', te_action = response_action_name (rq_action request) @ ''_failed'',
      te_severity = Medium, te_title = ''Response action rejected or failed'', te_detail = message,
      te_process_id = rq_process_id request, te_path = rq_expected_path request,
      te_remote_address = rq_remote_address request, te_correlation_id = rw_audit_id w,
      te_occurred_at = unix_timestamp w\<rparr>"

definition success_event ::
  "response_world \<Rightarrow> response_action_request \<Rightarrow> string \<Rightarrow> string option \<Rightarrow> timeline_event" where
  "success_event w request outcome rollback_id =
     \<lparr>te_id = None, te_category = ''response'', te_action = response_action_name (rq_action request),
      te_severity = Info, te_title = ''User-confirmed response completed'', te_detail = outcome,
      te_process_id = rq_process_id request, te_path = rq_expected_path request,
      te_remote_address = rq_remote_address request,
      te_correlation_id = (case rollback_id of None \<Rightarrow> rw_audit_id w | Some i \<Rightarrow> i),
      te_occurred_at = unix_timestamp w\<rparr>"

definition timeline_call :: "string \<Rightarrow> timeline_event \<Rightarrow> database \<Rightarrow> (storage_error + nat) \<times> database" where
  "timeline_call owner event d = (case record_timeline owner event d of (i, d) \<Rightarrow> (Inr i, d))"

definition audit_response_failure ::
  "response_world \<Rightarrow> client_context \<Rightarrow> response_action_request \<Rightarrow> string \<Rightarrow> responder \<Rightarrow> responder" where
  "audit_response_failure w client request message =
     ignoring (on_host (db_call (timeline_call (cc_sid client) (failure_event w request message))))"

definition response_fields_ok :: "response_action_request \<Rightarrow> bool" where
  "response_fields_ok request \<longleftrightarrow> bounded_response_field (rq_expected_path request) 32768
     \<and> bounded_response_field (rq_target request) 32768 \<and> bounded_response_field (rq_remote_address request) 128
     \<and> bounded_response_field (rq_persistence_id request) 256 \<and> bounded_response_field (rq_rollback_id request) 128
     \<and> bounded_response_field (rq_confirmation request) 64"

definition confirmed :: "response_action_request \<Rightarrow> bool" where
  "confirmed request \<longleftrightarrow> rq_confirmation request = ''confirm:'' @ response_action_name (rq_action request)"

definition refuse ::
  "response_world \<Rightarrow> client_context \<Rightarrow> response_action_request \<Rightarrow> api_error \<Rightarrow> responder
   \<Rightarrow> (api_error + 'a) \<times> responder" where
  "refuse w client request e s = (Inl e, audit_response_failure w client request (ae_message e) s)"

definition execute_response ::
  "response_world \<Rightarrow> client_context \<Rightarrow> response_action_request \<Rightarrow> responder
   \<Rightarrow> (api_error + response_action_result) \<times> responder" where
  "execute_response w client request s =
     (if \<not> response_fields_ok request then
        refuse w client request (invalid_response ''Response target fields exceed the IPC safety limits'') s
      else if \<not> confirmed request then
        refuse w client request \<lparr>ae_code = Forbidden,
          ae_message = ''Response action requires an explicit matching confirmation'', ae_retryable = False\<rparr> s
      else (case execute_response_inner w client request s of
          (Inl e, s) \<Rightarrow> refuse w client request e s
        | (Inr (target, outcome, rollback_id, expires_at), s) \<Rightarrow>
            run_then (rp_store ''Audit response action''
                (timeline_call (cc_sid client) (success_event w request outcome rollback_id)))
              (\<lambda>i s. (Inr \<lparr>rr_action = rq_action request, rr_target = target, rr_outcome = outcome,
                 rr_rollback_id = rollback_id, rr_expires_at = expires_at, rr_audit_event_id = int i\<rparr>, s)) s))"

section \<open>Only confirmed requests act\<close>

lemma on_host_effect:
  assumes "on_host f s = (r, s')"
  obtains h where "f (os_host (rp_os s)) = (r, h)" "os_host (rp_os s') = h"
    "os_calls (rp_os s') = os_calls (rp_os s)" "rp_cache s' = rp_cache s" "rp_expiry s' = rp_expiry s"
  using assms by (auto simp: on_host_def on_os_def split: prod.splits)

lemma on_os_effect:
  assumes "on_os f s = (r, s')"
  obtains o' where "f (rp_os s) = (r, o')" "rp_os s' = o'" "rp_cache s' = rp_cache s" "rp_expiry s' = rp_expiry s"
  using assms by (auto simp: on_os_def split: prod.splits)

text \<open>
  What a timeline call does to the responder: at most the event is added to the owner's timeline.
\<close>

definition only_audited :: "string \<Rightarrow> timeline_event \<Rightarrow> responder \<Rightarrow> responder \<Rightarrow> bool" where
  "only_audited owner event s s' \<longleftrightarrow>
     os_calls (rp_os s') = os_calls (rp_os s) \<and> hs_files (os_host (rp_os s')) = hs_files (os_host (rp_os s))
     \<and> rp_cache s' = rp_cache s \<and> rp_expiry s' = rp_expiry s
     \<and> (hs_db (os_host (rp_os s')) = hs_db (os_host (rp_os s))
        \<or> hs_db (os_host (rp_os s')) = snd (record_timeline owner event (hs_db (os_host (rp_os s)))))"

lemma timeline_call_snd: "snd (timeline_call owner event d) = snd (record_timeline owner event d)"
  "timeline_call owner event d = (Inr i, d') \<longleftrightarrow> record_timeline owner event d = (i, d')"
  by (auto simp: timeline_call_def split: prod.splits)

lemma timeline_call_audited:
  assumes "on_host (db_call (timeline_call owner event)) s = (r, s')"
  shows "only_audited owner event s s'"
    "r = Inr i \<Longrightarrow> record_timeline owner event (hs_db (os_host (rp_os s))) = (i, hs_db (os_host (rp_os s')))"
proof -
  from assms obtain h where h: "db_call (timeline_call owner event) (os_host (rp_os s)) = (r, h)"
    "os_host (rp_os s') = h" "os_calls (rp_os s') = os_calls (rp_os s)" "rp_cache s' = rp_cache s"
    "rp_expiry s' = rp_expiry s"
    by (rule on_host_effect)
  note l = db_call_laws [of "timeline_call owner event" "os_host (rp_os s)", unfolded h(1), unfolded snd_conv]
  show "only_audited owner event s s'"
    using l h by (auto simp: only_audited_def timeline_call_snd)
  show "r = Inr i \<Longrightarrow> record_timeline owner event (hs_db (os_host (rp_os s))) = (i, hs_db (os_host (rp_os s')))"
    using l h by (auto simp: timeline_call_snd)
qed

text \<open>
  C16. A response without a matching confirmation, or with an oversized field, is refused before anything
  is done: no process, rule, start-up entry or file is touched, and the only trace is the failure in the
  requesting user's timeline.
\<close>

theorem unconfirmed_response_does_nothing:
  assumes "execute_response w client request s = (r, s')"
    and "\<not> response_fields_ok request \<or> \<not> confirmed request"
  shows "(\<exists>e. r = Inl e \<and> only_audited (cc_sid client) (failure_event w request (ae_message e)) s s')"
proof -
  have ref: "only_audited (cc_sid client) (failure_event w request m) s (audit_response_failure w client request m s)" for m
  proof -
    obtain a u where a: "on_host (db_call (timeline_call (cc_sid client) (failure_event w request m))) s = (a, u)"
      by force
    from timeline_call_audited(1) [OF a] a show ?thesis by (simp add: audit_response_failure_def ignoring_def)
  qed
  from assms obtain e where "r = Inl e" "s' = audit_response_failure w client request (ae_message e) s"
    by (auto simp: execute_response_def refuse_def split: if_splits)
  with ref show ?thesis by blast
qed

abbreviation rp_db :: "responder \<Rightarrow> database" where "rp_db s \<equiv> hs_db (os_host (rp_os s))"
abbreviation rp_files :: "responder \<Rightarrow> string \<Rightarrow> bytes option" where "rp_files s \<equiv> hs_files (os_host (rp_os s))"
abbreviation rp_calls :: "responder \<Rightarrow> os_call list" where "rp_calls s \<equiv> os_calls (rp_os s)"
abbreviation rp_outcomes :: "responder \<Rightarrow> outcome list" where "rp_outcomes s \<equiv> hs_outcomes (os_host (rp_os s))"

lemma rp_store_Inr:
  assumes "rp_store operation f s = (Inr a, s')"
  shows "f (rp_db s) = (Inr a, rp_db s')" "rp_calls s' = rp_calls s" "rp_files s' = rp_files s"
    "rp_cache s' = rp_cache s" "rp_expiry s' = rp_expiry s"
proof -
  from assms have "on_host (db_call f) s = (Inr a, s')" by (simp add: rp_store_def run_iffs)
  then obtain h where h: "db_call f (os_host (rp_os s)) = (Inr a, h)" "os_host (rp_os s') = h"
    "rp_calls s' = rp_calls s" "rp_cache s' = rp_cache s" "rp_expiry s' = rp_expiry s"
    by (rule on_host_effect)
  from db_call_laws(1,2) [of f "os_host (rp_os s)"] h
  show "f (rp_db s) = (Inr a, rp_db s')" "rp_calls s' = rp_calls s" "rp_files s' = rp_files s"
    "rp_cache s' = rp_cache s" "rp_expiry s' = rp_expiry s"
    by (auto simp: h(1))
qed

lemma rp_control_Inr:
  assumes "rp_control f s = (Inr a, s')"
  shows "f (rp_os s) = (Inr a, rp_os s')" "rp_cache s' = rp_cache s" "rp_expiry s' = rp_expiry s"
  using assms by (auto simp: rp_control_def run_iffs on_os_def split: prod.splits)

lemma perform_Inr:
  assumes "perform action c s = (Inr u, s')"
  shows "os_calls s' = os_calls s @ [c]" "hs_files (os_host s') = hs_files (os_host s)"
    "hs_db (os_host s') = hs_db (os_host s)"
  using assms by (auto elim: perform_cases)

lemma block_remote_address_Inr:
  assumes "block_remote_address w rule_name address pid expected s = (Inr u, s')"
  obtains actual where "same_path w actual expected" "os_calls s' = os_calls s @ [add_rule_call w rule_name address actual]"
    "hs_files (os_host s') = hs_files (os_host s)" "hs_db (os_host s') = hs_db (os_host s)"
    "validate_rule_name rule_name = Inr ()" "validate_firewall_scope address expected = Inr ()"
proof -
  from assms obtain actual t where t: "process_image_path pid s = (Inr actual, t)" "same_path w actual expected"
    "validate_firewall_scope address expected = Inr ()" "validate_rule_name rule_name = Inr ()"
    "perform ''add temporary firewall rule'' (add_rule_call w rule_name address actual) t = (Inr u, s')"
    by (auto simp: block_remote_address_def run_iffs split: if_splits)
  note p = process_image_path_effect [OF t(1)]
  from perform_Inr [OF t(5)] p t that [of actual] show thesis by simp
qed

lemma schedule_keeps:
  "rp_calls (schedule_firewall_expiry o1 i rule d s) = rp_calls s"
  "rp_db (schedule_firewall_expiry o1 i rule d s) = rp_db s"
  "rp_files (schedule_firewall_expiry o1 i rule d s) = rp_files s"
  "rp_cache (schedule_firewall_expiry o1 i rule d s) = rp_cache s"
  using plain_call_laws [of "os_host (rp_os s)"]
  by (auto simp: schedule_firewall_expiry_def on_host_def on_os_def split: prod.splits sum.splits)

lemma block_action_Inr:
  assumes "block_action w client request s = (Inr out, s')"
  obtains actual where "same_path (rw_control w) actual (rq_expected_path request)"
    "rp_calls s' = rp_calls s @ [add_rule_call (rw_control w) (block_rule_name w) (rq_remote_address request) actual]"
    "record_response_rollback (cc_sid client) (block_rollback w request) (rp_db s) = (Inr (), rp_db s')"
    "validate_rule_name (block_rule_name w) = Inr ()"
    "validate_firewall_scope (rq_remote_address request) (rq_expected_path request) = Inr ()"
    "rp_files s' = rp_files s" "fst (snd (snd out)) = Some (rw_rollback_id w)"
proof -
  from assms obtain pid t u where pid: "rq_process_id request = Some pid"
    and c: "rp_control (block_remote_address (rw_control w) (block_rule_name w) (rq_remote_address request)
        pid (rq_expected_path request)) s = (Inr (), t)"
    and d: "rp_store ''Record firewall rollback''
        (record_response_rollback (cc_sid client) (block_rollback w request)) t = (Inr (), u)"
    and s': "s' = schedule_firewall_expiry (cc_sid client) (rw_rollback_id w) (block_rule_name w) (block_seconds request) u"
    and out: "fst (snd (snd out)) = Some (rw_rollback_id w)"
    by (auto simp: block_action_def run_iffs rp_require_def ok_or_Inr_iff split: if_splits)
  note d = rp_store_Inr [OF d]
  note c = rp_control_Inr [OF c]
  from c(1) obtain actual where a: "same_path (rw_control w) actual (rq_expected_path request)"
    "rp_calls t = rp_calls s @ [add_rule_call (rw_control w) (block_rule_name w) (rq_remote_address request) actual]"
    "rp_files t = rp_files s" "rp_db t = rp_db s" "validate_rule_name (block_rule_name w) = Inr ()"
    "validate_firewall_scope (rq_remote_address request) (rq_expected_path request) = Inr ()"
    by (rule block_remote_address_Inr)
  show thesis
    using a d s' out schedule_keeps by (intro that [of actual]) simp_all
qed

section \<open>Blocks can be undone\<close>

lemma record_rollback_find:
  assumes "record_response_rollback o1 r d = (Inr u, d')" "rb_restored_at r = None"
  shows "find_rollback o1 (rb_id r) d' = Some r" "o2 \<noteq> o1 \<Longrightarrow> find_rollback o2 (rb_id r) d' = None"
proof -
  from assms(1) have fresh: "rb_id r \<notin> fst ` set (db_rollbacks d)"
    and d': "d' = d\<lparr>db_rollbacks := db_rollbacks d @ [(rb_id r, o1, r)]\<rparr>"
    by (auto simp: record_response_rollback_def split: if_splits)
  have none: "find (\<lambda>(j, o3, q). o3 = o2 \<and> j = rb_id r \<and> rb_restored_at q = None) (db_rollbacks d) = None" for o2
    using fresh by (force simp: find_None_iff)
  show "find_rollback o1 (rb_id r) d' = Some r" "o2 \<noteq> o1 \<Longrightarrow> find_rollback o2 (rb_id r) d' = None"
    using none assms(2) by (simp_all add: find_rollback_def d' find_append)
qed

lemma rp_read_cases:
  obtains (failed) e t where "rp_store operation (\<lambda>d. (Inr (f d), d)) s = (Inl e, t)" "rp_calls t = rp_calls s"
      "rp_db t = rp_db s" "rp_files t = rp_files s"
  | (works) t where "rp_store operation (\<lambda>d. (Inr (f d), d)) s = (Inr (f (rp_db s)), t)" "rp_calls t = rp_calls s"
      "rp_db t = rp_db s" "rp_files t = rp_files s"
proof -
  show thesis
  proof (cases rule: db_read_cases [of f "os_host (rp_os s)"])
    case (fails e h)
    then show thesis
      by (intro failed [of "storage_api_error operation e" "s\<lparr>rp_os := (rp_os s)\<lparr>os_host := h\<rparr>\<rparr>"])
        (simp_all add: rp_store_def map_fail_def on_host_def on_os_def)
  next
    case (works h)
    then show thesis
      by (intro that(2) [of "s\<lparr>rp_os := (rp_os s)\<lparr>os_host := h\<rparr>\<rparr>"])
        (simp_all add: rp_store_def map_fail_def on_host_def on_os_def)
  qed
qed

lemma active_rollback_none:
  assumes "find_rollback (cc_sid client) i (rp_db s) = None"
  obtains e t where "active_rollback client i action operation missing s = (Inl e, t)" "rp_calls t = rp_calls s"
    "rp_db t = rp_db s" "rp_files t = rp_files s"
proof (cases rule: rp_read_cases [of operation "find_rollback (cc_sid client) i" s])
  case (failed e t)
  then show thesis by (intro that [of e t]) (simp_all add: active_rollback_def run_then_def)
next
  case (works t)
  then show thesis
    using assms by (intro that [of "invalid_response missing" t]) (simp_all add: active_rollback_def run_then_def rp_require_def)
qed

lemma unblock_inactive:
  assumes "find_rollback (cc_sid client) (rq_rollback_id request) (rp_db s) = None"
  shows "\<exists>e t. unblock_action w client request s = (Inl e, t) \<and> rp_calls t = rp_calls s \<and> rp_db t = rp_db s"
proof (rule active_rollback_none [OF assms, of "''block_remote_address''" "''Read firewall rollback''"
    "''Active firewall rollback was not found''"])
  fix e t
  assume "active_rollback client (rq_rollback_id request) ''block_remote_address'' ''Read firewall rollback''
      ''Active firewall rollback was not found'' s = (Inl e, t)" "rp_calls t = rp_calls s" "rp_db t = rp_db s"
  then show ?thesis by (intro exI [of _ e] exI [of _ t]) (simp add: unblock_action_def run_then_def)
qed

lemma unblock_action_Inr:
  assumes "unblock_action w client request s = (Inr out, s')"
  obtains r where "find_rollback (cc_sid client) (rq_rollback_id request) (rp_db s) = Some r"
    "rp_calls s' = rp_calls s @ [delete_rule_call (rw_control w) (rb_payload r)]"
    "rp_db s' = snd (mark_response_restored (cc_sid client) (rb_id r) (unix_timestamp w) (rp_db s))"
    "rb_action r = ''block_remote_address''"
proof -
  from assms obtain r t u b where
    r: "active_rollback client (rq_rollback_id request) ''block_remote_address'' ''Read firewall rollback''
      ''Active firewall rollback was not found'' s = (Inr r, t)"
    and c: "rp_control (remove_firewall_rule (rw_control w) (rb_payload r)) t = (Inr (), u)"
    and d: "complete_rollback w client ''Complete firewall rollback'' r u = (Inr b, s')"
    by (auto simp: unblock_action_def run_iffs)
  from r obtain found v where v: "rp_store ''Read firewall rollback''
      (\<lambda>d. (Inr (find_rollback (cc_sid client) (rq_rollback_id request) d), d)) s = (Inr found, v)"
    "found = Some r" "rb_action r = ''block_remote_address''" "t = v"
    by (auto simp: active_rollback_def run_iffs rp_require_def ok_or_Inr_iff split: option.splits if_splits)
  note v1 = rp_store_Inr [OF v(1)]
  note c1 = rp_control_Inr [OF c]
  note d1 = rp_store_Inr [OF d [unfolded complete_rollback_def]]
  from c1(1) have u: "rp_calls u = rp_calls t @ [delete_rule_call (rw_control w) (rb_payload r)]" "rp_db u = rp_db t"
    by (auto simp: remove_firewall_rule_def run_iffs dest: perform_Inr)
  show thesis
    using v v1 u d1 by (intro that [of r]) (auto split: prod.splits)
qed

lemma works_if_no_failures:
  assumes "rp_outcomes s = []"
  shows "rp_store operation f s = (map_err (storage_api_error operation) (fst (f (rp_db s))),
      s\<lparr>rp_os := (rp_os s)\<lparr>os_host := (os_host (rp_os s))\<lparr>hs_db := snd (f (rp_db s))\<rparr>\<rparr>\<rparr>)"
    "rp_control (perform action c) s = (Inr (), s\<lparr>rp_os := (rp_os s)\<lparr>os_calls := rp_calls s @ [c]\<rparr>\<rparr>)"
  using assms
  by (simp_all add: rp_store_def rp_control_def map_fail_def on_host_def on_os_def db_call_def perform_def
      take_outcome_def case_prod_beta)

lemma unblock_succeeds:
  assumes "rp_outcomes s = []" "find_rollback (cc_sid client) (rq_rollback_id request) (rp_db s) = Some r"
    and "rb_action r = ''block_remote_address''" "validate_rule_name (rb_payload r) = Inr ()"
  shows "\<exists>out s'. unblock_action w client request s = (Inr out, s')"
proof -
  have rm: "rp_control (remove_firewall_rule (rw_control w) (rb_payload r)) t
      = rp_control (perform ''remove temporary firewall rule'' (delete_rule_call (rw_control w) (rb_payload r))) t" for t
    using assms(4) by (simp add: rp_control_def map_fail_def on_os_def remove_firewall_rule_def run_then_def)
  show ?thesis
    using assms
    by (simp add: unblock_action_def run_then_def active_rollback_def rp_require_def complete_rollback_def rm
        works_if_no_failures case_prod_beta)
qed

text \<open>
  C34. A temporary block can be undone, once, and only by its user.  A successful block added exactly one
  rule, for the checked program and under a fresh number; afterwards the user's unblock deletes exactly
  that rule, a second unblock and an unblock by anyone else fail without touching the firewall, and the
  expiry thread finds nothing left to do.
\<close>

theorem temporary_block_roundtrip:
  assumes "block_action w client request s = (Inr out, s1)" "rp_outcomes s1 = []"
    and "rq_rollback_id undo = rw_rollback_id w" "cc_sid other \<noteq> cc_sid client"
  shows "\<exists>program out2 s2. same_path (rw_control w) program (rq_expected_path request)
    \<and> rp_calls s1 = rp_calls s @ [add_rule_call (rw_control w) (block_rule_name w) (rq_remote_address request) program]
    \<and> (\<exists>e t. unblock_action w other undo s1 = (Inl e, t) \<and> rp_calls t = rp_calls s1)
    \<and> unblock_action w client undo s1 = (Inr out2, s2)
    \<and> rp_calls s2 = rp_calls s1 @ [delete_rule_call (rw_control w) (block_rule_name w)]
    \<and> (\<exists>e t. unblock_action w client undo s2 = (Inl e, t) \<and> rp_calls t = rp_calls s2)
    \<and> rp_calls (expire_rule w (cc_sid client) (rw_rollback_id w) (block_rule_name w) s2) = rp_calls s2"
proof -
  let ?r = "block_rollback w request"
  have r: "rb_restored_at ?r = None" "rb_id ?r = rw_rollback_id w" "rb_action ?r = ''block_remote_address''"
    "rb_payload ?r = block_rule_name w"
    by (simp_all add: block_rollback_def)
  from assms(1) obtain actual where a: "same_path (rw_control w) actual (rq_expected_path request)"
    "rp_calls s1 = rp_calls s @ [add_rule_call (rw_control w) (block_rule_name w) (rq_remote_address request) actual]"
    "record_response_rollback (cc_sid client) ?r (rp_db s) = (Inr (), rp_db s1)"
    "validate_rule_name (block_rule_name w) = Inr ()"
    by (rule block_action_Inr)
  note found = record_rollback_find [OF a(3) r(1), unfolded r(2)]
  obtain out2 s2 where u: "unblock_action w client undo s1 = (Inr out2, s2)"
    using unblock_succeeds [of s1 client undo ?r w] assms(2,3) found(1) r a(4) by auto
  from u found(1) assms(3) r have s2: "rp_calls s2 = rp_calls s1 @ [delete_rule_call (rw_control w) (block_rule_name w)]"
    "rp_db s2 = snd (mark_response_restored (cc_sid client) (rw_rollback_id w) (unix_timestamp w) (rp_db s1))"
    by (auto elim: unblock_action_Inr)
  then have none: "find_rollback (cc_sid client) (rw_rollback_id w) (rp_db s2) = None"
    by (simp add: mark_response_find)
  have exp: "rp_calls (expire_rule w (cc_sid client) (rw_rollback_id w) (block_rule_name w) s2) = rp_calls s2"
  proof (cases rule: db_read_cases [of "find_rollback (cc_sid client) (rw_rollback_id w)" "os_host (rp_os s2)"])
    case (fails e t)
    then show ?thesis by (simp add: expire_rule_def on_host_def on_os_def)
  next
    case (works t)
    with none show ?thesis by (simp add: expire_rule_def on_host_def on_os_def)
  qed
  have other: "\<exists>e t. unblock_action w other undo s1 = (Inl e, t) \<and> rp_calls t = rp_calls s1"
    using unblock_inactive [of other undo s1 w] found(2) [OF assms(4)] assms(3) by auto
  have again: "\<exists>e t. unblock_action w client undo s2 = (Inl e, t) \<and> rp_calls t = rp_calls s2"
    using unblock_inactive [of client undo s2 w] none assms(3) by auto
  from a(1,2) other u s2(1) again exp show ?thesis
    by - (rule exI [of _ actual], rule exI [of _ out2], rule exI [of _ s2], iprover)
qed

section \<open>Start-up entries can be restored\<close>

lemma forget_inventory_simps [simp]:
  "rp_os (forget_inventory client s) = rp_os s"
  "map_of (rp_cache (forget_inventory client s)) (cc_sid client) = None"
  by (auto simp: forget_inventory_def map_of_eq_None_iff)

lemma set_persistence_Inr:
  assumes "set_persistence_enabled w category location enabled previous s = (Inr u, s')"
  obtains c where "os_calls s' = os_calls s @ [c]" "hs_files (os_host s') = hs_files (os_host s)"
    "hs_db (os_host s') = hs_db (os_host s)"
    "category = ''service'' \<and> c = service_call w (last_piece ((=) backslash) location)
       (if enabled then restored_start previous else ''disabled'')
     \<or> category = ''scheduled_task'' \<and> c = task_call w location enabled"
proof -
  from assms obtain c action where c: "perform action c s = (Inr u, s')"
    "category = ''service'' \<and> c = service_call w (last_piece ((=) backslash) location)
       (if enabled then restored_start previous else ''disabled'')
     \<or> category = ''scheduled_task'' \<and> c = task_call w location enabled"
    by (auto simp: set_persistence_enabled_def Let_def split: if_splits)
  from perform_Inr [OF c(1)] c(2) that show thesis by blast
qed

lemma set_persistence_again:
  assumes "set_persistence_enabled w category location False p s = (Inr u, s')"
  shows "\<exists>action. set_persistence_enabled w category location True previous
    = perform action (if category = ''service''
        then service_call w (last_piece ((=) backslash) location) (restored_start previous)
        else task_call w location True)"
  using assms by (auto simp: set_persistence_enabled_def Let_def split: if_splits)

text \<open>The start type of a service as \<^verbatim>\<open>sc config\<close> names it, from the state the inventory records.\<close>

definition start_type :: "string \<Rightarrow> string" where
  "start_type state = restored_start (Some state)"

text \<open>What disabling and restoring an entry asks the system for.\<close>

definition entry_call :: "control_world \<Rightarrow> persistence_item \<Rightarrow> bool \<Rightarrow> os_call" where
  "entry_call w item enabled =
     (if pi_category item = ''service''
      then service_call w (last_piece ((=) backslash) (pi_location item))
        (if enabled then start_type (pi_state item) else ''disabled'')
      else task_call w (pi_location item) enabled)"

lemma disable_action_Inr:
  assumes "disable_action w client request s = (Inr out, s')"
  obtains item d where "persistence_lookup (cc_sid client) (rq_persistence_id request) d = Inr (Some item)"
    "pi_response_capability item = ''disable_restore''" "Medium \<le> pi_risk item"
    "pi_category item = ''service'' \<or> pi_category item = ''scheduled_task''"
    "rp_calls s' = rp_calls s @ [entry_call (rw_control w) item False]"
    "record_response_rollback (cc_sid client) (persistence_rollback w item) d = (Inr (), rp_db s')"
    "map_of (rp_cache s') (cc_sid client) = None"
    "\<forall>previous. \<exists>action. set_persistence_enabled (rw_control w) (pi_category item) (pi_location item) True previous
       = perform action (if pi_category item = ''service''
           then service_call (rw_control w) (last_piece ((=) backslash) (pi_location item)) (restored_start previous)
           else task_call (rw_control w) (pi_location item) True)"
proof -
  from assms obtain inv t item t1 t2 t3 where
    inv: "persistence_inventory_op w client False s = (Inr inv, t)"
    and look: "rp_store ''Read persistence target''
        (\<lambda>d. (persistence_lookup (cc_sid client) (rq_persistence_id request) d, d)) t = (Inr (Some item), t1)"
    and cap: "pi_response_capability item = ''disable_restore''" "\<not> pi_risk item < Medium"
    and ctl: "rp_control (set_persistence_enabled (rw_control w) (pi_category item) (pi_location item) False None) t1
        = (Inr (), t2)"
    and rec: "rp_store ''Record persistence rollback''
        (record_response_rollback (cc_sid client) (persistence_rollback w item)) t2 = (Inr (), t3)"
    and s': "s' = forget_inventory client t3"
    by (auto simp: disable_action_def run_iffs rp_require_def ok_or_Inr_iff split: if_splits)
  have t: "rp_calls t = rp_calls s"
    using inv rp_store_Inr(2)
    by (auto simp: persistence_inventory_op_def Let_def run_iffs split: option.splits)
  note l = rp_store_Inr [OF look]
  note c = rp_control_Inr [OF ctl]
  note r = rp_store_Inr [OF rec]
  from c(1) obtain call where call: "rp_calls t2 = rp_calls t1 @ [call]" "rp_db t2 = rp_db t1"
    "pi_category item = ''service'' \<and> call = service_call (rw_control w) (last_piece ((=) backslash) (pi_location item)) ''disabled''
     \<or> pi_category item = ''scheduled_task'' \<and> call = task_call (rw_control w) (pi_location item) False"
    by (rule set_persistence_Inr) auto
  have runs: "\<forall>previous. \<exists>action. set_persistence_enabled (rw_control w) (pi_category item) (pi_location item) True previous
       = perform action (if pi_category item = ''service''
           then service_call (rw_control w) (last_piece ((=) backslash) (pi_location item)) (restored_start previous)
           else task_call (rw_control w) (pi_location item) True)"
    using set_persistence_again [OF c(1)] by blast
  have "rp_calls s' = rp_calls s @ [entry_call (rw_control w) item False]"
    using call t l r s' by (auto simp: entry_call_def)
  moreover have "map_of (rp_cache s') (cc_sid client) = None"
    by (simp add: s')
  moreover have "record_response_rollback (cc_sid client) (persistence_rollback w item) (rp_db t) = (Inr (), rp_db s')"
    using r(1) call(2) l(1) s' by simp
  moreover have "pi_category item = ''service'' \<or> pi_category item = ''scheduled_task''" using call(3) by auto
  moreover have "Medium \<le> pi_risk item" using cap(2) by (simp add: not_less)
  moreover have "persistence_lookup (cc_sid client) (rq_persistence_id request) (rp_db t) = Inr (Some item)"
    using l(1) by auto
  ultimately show thesis using that [of "rp_db t" item] cap(1) runs by blast
qed

text \<open>
  A disabled start-up entry can be restored.  Only an entry that the inventory shows as reversible
  and of at least medium risk is disabled, by one request to the system; the user's restore then asks for
  the same entry to be enabled again, a service with the start type the inventory recorded, and both drop
  the cached inventory.  The JSON text of the rollback must read back as what was written.
\<close>

theorem disabled_entry_restores:
  assumes "disable_action w client request s = (Inr out, s1)" "rp_outcomes s1 = []"
    and "rq_rollback_id undo = rw_rollback_id w"
    and "\<And>c l p. rw_decode w (rw_encode w (c, l, p)) = Some (Some c, Some l, Some p)"
  shows "\<exists>item out2 s2. pi_response_capability item = ''disable_restore'' \<and> Medium \<le> pi_risk item
    \<and> rp_calls s1 = rp_calls s @ [entry_call (rw_control w) item False]
    \<and> restore_action w client undo s1 = (Inr out2, s2)
    \<and> rp_calls s2 = rp_calls s1 @ [entry_call (rw_control w) item True]
    \<and> find_rollback (cc_sid client) (rw_rollback_id w) (rp_db s2) = None
    \<and> map_of (rp_cache s2) (cc_sid client) = None"
proof -
  from assms(1) obtain item d where "persistence_lookup (cc_sid client) (rq_persistence_id request) d = Inr (Some item)"
    and i1: "pi_response_capability item = ''disable_restore''" and i2: "Medium \<le> pi_risk item"
    and cat: "pi_category item = ''service'' \<or> pi_category item = ''scheduled_task''"
    and i3: "rp_calls s1 = rp_calls s @ [entry_call (rw_control w) item False]"
    and i4: "record_response_rollback (cc_sid client) (persistence_rollback w item) d = (Inr (), rp_db s1)"
    and "map_of (rp_cache s1) (cc_sid client) = None"
    and again: "\<forall>previous. \<exists>action. set_persistence_enabled (rw_control w) (pi_category item) (pi_location item) True previous
       = perform action (if pi_category item = ''service''
           then service_call (rw_control w) (last_piece ((=) backslash) (pi_location item)) (restored_start previous)
           else task_call (rw_control w) (pi_location item) True)"
    by (rule disable_action_Inr)
  let ?r = "persistence_rollback w item"
  have r: "rb_restored_at ?r = None" "rb_id ?r = rw_rollback_id w" "rb_action ?r = ''disable_persistence''"
    "rw_decode w (rb_payload ?r) = Some (Some (pi_category item), Some (pi_location item), Some (pi_state item))"
    by (simp_all add: persistence_rollback_def assms(4))
  note found = record_rollback_find(1) [OF i4 r(1), unfolded r(2)]
  from again [THEN spec, of "Some (pi_state item)"] cat obtain action where
    "set_persistence_enabled (rw_control w) (pi_category item) (pi_location item) True (Some (pi_state item))
      = perform action (entry_call (rw_control w) item True)"
    by (auto simp: entry_call_def start_type_def)
  with found r assms(2,3) obtain out2 s2 where "restore_action w client undo s1 = (Inr out2, s2)"
    "rp_calls s2 = rp_calls s1 @ [entry_call (rw_control w) item True]"
    "rp_db s2 = snd (mark_response_restored (cc_sid client) (rw_rollback_id w) (unix_timestamp w) (rp_db s1))"
    "map_of (rp_cache s2) (cc_sid client) = None"
    by (simp add: restore_action_def run_then_def active_rollback_def rp_require_def complete_rollback_def
        works_if_no_failures case_prod_beta)
  with i1 i2 i3 show ?thesis by (metis mark_response_find)
qed

section \<open>Auditing and expiry\<close>

text \<open>
  A response that reports success was confirmed, was carried out, and is in the timeline of the user
  who asked for it under the number the response names; recording it changed nothing else.
\<close>

theorem response_success_is_audited:
  assumes "execute_response w client request s = (Inr res, s')"
  shows "response_fields_ok request \<and> confirmed request
    \<and> (\<exists>s1 i. execute_response_inner w client request s
            = (Inr (rr_target res, rr_outcome res, rr_rollback_id res, rr_expires_at res), s1)
          \<and> rr_audit_event_id res = int i
          \<and> record_timeline (cc_sid client) (success_event w request (rr_outcome res) (rr_rollback_id res)) (rp_db s1)
              = (i, rp_db s')
          \<and> only_audited (cc_sid client) (success_event w request (rr_outcome res) (rr_rollback_id res)) s1 s')"
proof -
  from assms have ok: "response_fields_ok request" "confirmed request"
    by (auto simp: execute_response_def refuse_def split: if_splits)
  obtain a s1 where a: "execute_response_inner w client request s = (a, s1)" by force
  with assms ok obtain out where "a = Inr out"
    by (cases a) (auto simp: execute_response_def refuse_def)
  then obtain target outcome rollback_id expires_at where in1:
    "execute_response_inner w client request s = (Inr (target, outcome, rollback_id, expires_at), s1)"
    using a by (cases out) auto
  with assms ok obtain i where st: "rp_store ''Audit response action''
      (timeline_call (cc_sid client) (success_event w request outcome rollback_id)) s1 = (Inr i, s')"
    and res: "res = \<lparr>rr_action = rq_action request, rr_target = target, rr_outcome = outcome,
      rr_rollback_id = rollback_id, rr_expires_at = expires_at, rr_audit_event_id = int i\<rparr>"
    by (auto simp: execute_response_def run_iffs)
  from st have "on_host (db_call (timeline_call (cc_sid client) (success_event w request outcome rollback_id))) s1
      = (Inr i, s')"
    by (simp add: rp_store_def run_iffs)
  from timeline_call_audited [OF this] in1 ok show ?thesis by (simp add: res)
qed

lemma block_duration_bounds: "1 \<le> unat (block_duration request)" "unat (block_duration request) \<le> 1440"
proof -
  have "1 \<le> unat d" if "\<not> d < 1" for d :: u32 using that by (simp add: word_less_nat_alt)
  then show "1 \<le> unat (block_duration request)" by (simp add: block_duration_def Let_def)
  have "unat d \<le> 1440" if "\<not> 1440 < d" for d :: u32 using that by (simp add: word_less_nat_alt)
  then show "unat (block_duration request) \<le> 1440" by (simp add: block_duration_def Let_def)
qed

lemma block_seconds_bounds: "60 \<le> unat (block_seconds request)" "unat (block_seconds request) \<le> 86400"
proof -
  note d = block_duration_bounds [of request]
  have u: "unat (ucast (block_duration request) :: u64) = unat (block_duration request)"
    using d(2) by (simp add: unsigned_ucast_eq take_bit_nat_eq_self)
  have "unat (block_seconds request) = unat (block_duration request) * 60"
    using d(2) u by (simp add: block_seconds_def unat_word_ariths)
  with d show "60 \<le> unat (block_seconds request)" "unat (block_seconds request) \<le> 86400" by simp_all
qed

lemma recorded_expiry_block:
  "recorded_expiry (block_rollback w request) = unat (sat_add (rw_seconds w) (block_seconds request))"
proof -
  let ?n = "unat (sat_add (rw_seconds w) (block_seconds request))"
  have "from_str_radix 64 10 (show_nat ?n) = Some ?n"
    using unsigned_less [of "sat_add (rw_seconds w) (block_seconds request)"] by (intro from_str_radix_show_nat) simp_all
  then show ?thesis by (simp add: recorded_expiry_def block_rollback_def strip_prefix_def)
qed

lemma schedule_works:
  "rp_outcomes s = [] \<Longrightarrow> rp_expiry (schedule_firewall_expiry o1 i rule d s) = rp_expiry s @ [(o1, i, rule, d)]
     \<and> rp_outcomes (schedule_firewall_expiry o1 i rule d s) = []"
  by (simp add: schedule_firewall_expiry_def on_host_def on_os_def plain_call_def take_outcome_def)

lemma schedule_recovered_works:
  "rp_outcomes s = [] \<Longrightarrow> rp_expiry (schedule_recovered w rs s) = rp_expiry s @ map (\<lambda>(owner, r).
     (owner, rb_id r, rb_payload r, sat_sub (of_nat (recorded_expiry r)) (rw_seconds w))) rs"
proof (induction rs arbitrary: s)
  case (Cons a rs)
  obtain owner r where "a = (owner, r)" by force
  with Cons schedule_works [OF Cons.prems] show ?case by simp
qed simp

text \<open>
  A restart forgets no temporary block.  Recovery schedules every block that is recorded as active,
  whoever owns it, and no other rule, for the rest of its time; the expiry that a block records is read back
  exactly, and a block lasts at least a minute and at most a day.
\<close>

theorem recovery_schedules_active_blocks:
  assumes "rp_outcomes s = []"
  shows "\<exists>s'. recover_temporary_firewall_rules w s = (Inr (), s')
    \<and> rp_expiry s' = rp_expiry s @ map (\<lambda>(owner, r).
        (owner, rb_id r, rb_payload r, sat_sub (of_nat (recorded_expiry r)) (rw_seconds w)))
          (active_response_rollbacks ''block_remote_address'' (rp_db s))
    \<and> recorded_expiry (block_rollback w0 request) = unat (sat_add (rw_seconds w0) (block_seconds request))
    \<and> 60 \<le> unat (block_seconds request) \<and> unat (block_seconds request) \<le> 86400"
proof -
  let ?rs = "active_response_rollbacks ''block_remote_address'' (rp_db s)"
  have "recover_temporary_firewall_rules w s = (Inr (), schedule_recovered w ?rs s)"
    using assms by (simp add: recover_temporary_firewall_rules_def run_then_def on_host_def on_os_def db_call_def
        take_outcome_def)
  with schedule_recovered_works [OF assms] recorded_expiry_block block_seconds_bounds show ?thesis by simp
qed

text \<open>A text for three strings that reads back.\<close>

fun mark_text :: "string \<Rightarrow> string" where
  "mark_text [] = ''n''"
| "mark_text (c # cs) = CHR ''y'' # c # mark_text cs"

fun unmark_text :: "string \<Rightarrow> string \<times> string" where
  "unmark_text (a # b # s) =
     (if a = CHR ''y'' then (case unmark_text s of (t, rest) \<Rightarrow> (b # t, rest)) else ([], b # s))"
| "unmark_text _ = ([], [])"

lemma unmark_text_mark: "unmark_text (mark_text s @ rest) = (s, rest)"
proof (induction s)
  case Nil
  then show ?case by (cases rest) simp_all
qed simp

definition sample_encode :: "string \<times> string \<times> string \<Rightarrow> string" where
  "sample_encode x = (case x of (c, l, p) \<Rightarrow> mark_text c @ mark_text l @ mark_text p)"

definition sample_decode :: "string \<Rightarrow> (string option \<times> string option \<times> string option) option" where
  "sample_decode s = (case unmark_text s of (c, s) \<Rightarrow> (case unmark_text s of (l, s) \<Rightarrow>
     (case unmark_text s of (p, _) \<Rightarrow> Some (Some c, Some l, Some p))))"

lemma sample_decode_encode: "sample_decode (sample_encode (c, l, p)) = Some (Some c, Some l, Some p)"
  using unmark_text_mark [of p "[]"] by (simp add: sample_decode_def sample_encode_def unmark_text_mark)

definition sample_response_world :: response_world where
  "sample_response_world = \<lparr>rw_control = sample_control, rw_scanner = sample_scanner, rw_scan = (\<lambda>_. sample_world ''abc''),
     rw_quarantine = sample_quarantine_world (\<lambda>c. [CopyBytes c]), rw_root = ''Q'',
     rw_inventory = \<lparr>pv_items = [\<lparr>pi_id = ''i'', pi_category = ''service'', pi_name = ''Updater'', pi_command = [],
       pi_location = ''HKLM'' @ [backslash] @ ''updater'', pi_state = ''automatic'', pi_risk = High, pi_evidence = [],
       pi_detected_at = [], pi_response_capability = ''disable_restore''\<rparr>], pv_collected_at = [], pv_coverage = []\<rparr>,
     rw_iter = id, rw_encode = sample_encode, rw_decode = sample_decode,
     rw_rollback_id = ''r1'', rw_audit_id = ''a1'', rw_seconds = 1000\<rparr>"

definition sample_responder :: "outcome list \<Rightarrow> responder" where
  "sample_responder outcomes = \<lparr>rp_os = sample_os\<lparr>os_host := (os_host sample_os)\<lparr>hs_outcomes := outcomes\<rparr>\<rparr>,
     rp_cache = [], rp_expiry = []\<rparr>"

definition sample_response :: "response_action_kind \<Rightarrow> string \<Rightarrow> response_action_request" where
  "sample_response action confirmation = \<lparr>rq_action = action, rq_process_id = Some 10, rq_expected_path = sample_image,
     rq_target = ''note.txt'', rq_remote_address = ''8.8.8.8'', rq_duration_minutes = None, rq_persistence_id = ''i'',
     rq_rollback_id = ''r1'', rq_confirmation = confirmation\<rparr>"

theorem unconfirmed_response_does_nothing_witness:
  "\<exists>e s'. execute_response sample_response_world sample_client (sample_response TerminateProcess ''yes'') (sample_responder [])
       = (Inl e, s') \<and> rp_calls s' = []"
proof -
  let ?rq = "sample_response TerminateProcess ''yes''"
  obtain r s' where r: "execute_response sample_response_world sample_client ?rq (sample_responder []) = (r, s')" by force
  have "\<not> confirmed ?rq" by code_simp
  moreover have "rp_calls (sample_responder []) = []" by (simp add: sample_responder_def sample_os_def)
  ultimately show ?thesis
    using unconfirmed_response_does_nothing [OF r] r by (auto simp: only_audited_def)
qed

theorem response_success_is_audited_witness:
  "\<exists>res s'. execute_response sample_response_world sample_client
       (sample_response SuspendProcess ''confirm:suspend_process'') (sample_responder []) = (Inr res, s')
     \<and> (\<exists>i. rr_audit_event_id res = int i)"
proof -
  let ?run = "execute_response sample_response_world sample_client
    (sample_response SuspendProcess ''confirm:suspend_process'') (sample_responder [])"
  have "case ?run of (Inl e, _) \<Rightarrow> False | (Inr r, _) \<Rightarrow> True" by code_simp
  then obtain res s' where r: "?run = (Inr res, s')" by (auto split: prod.splits sum.splits)
  from response_success_is_audited [OF r] r show ?thesis by blast
qed

definition other_client :: client_context where
  "other_client = \<lparr>cc_sid = ''S-2'', cc_process_id = 8, cc_token = True\<rparr>"

theorem temporary_block_roundtrip_witness:
  "\<exists>out s1 out2 s2. block_action sample_response_world sample_client (sample_response BlockRemoteAddress []) (sample_responder [])
       = (Inr out, s1)
     \<and> unblock_action sample_response_world sample_client (sample_response UnblockRemoteAddress []) s1 = (Inr out2, s2)
     \<and> length (rp_calls s2) = 2"
proof -
  let ?run = "block_action sample_response_world sample_client (sample_response BlockRemoteAddress []) (sample_responder [])"
  have "case ?run of (Inl e, _) \<Rightarrow> False | (Inr r, s) \<Rightarrow> rp_outcomes s = []" by code_simp
  then obtain out s1 where r: "?run = (Inr out, s1)" "rp_outcomes s1 = []" by (auto split: prod.splits sum.splits)
  have i: "rq_rollback_id (sample_response UnblockRemoteAddress []) = rw_rollback_id sample_response_world"
    "cc_sid other_client \<noteq> cc_sid sample_client" "rp_calls (sample_responder []) = []"
    by (simp_all add: sample_response_def sample_response_world_def other_client_def sample_client_def
        sample_responder_def sample_os_def)
  from temporary_block_roundtrip [OF r i(1,2)] obtain program out2 s2 where
    "rp_calls s1 = rp_calls (sample_responder []) @ [program]"
    "unblock_action sample_response_world sample_client (sample_response UnblockRemoteAddress []) s1 = (Inr out2, s2)"
    "\<exists>c. rp_calls s2 = rp_calls s1 @ [c]"
    by blast
  with r i(3) show ?thesis by (intro exI [of _ out] exI [of _ s1] exI [of _ out2] exI [of _ s2]) auto
qed

theorem disabled_entry_restores_witness:
  "\<exists>out s1 out2 s2. disable_action sample_response_world sample_client (sample_response DisablePersistence []) (sample_responder [])
       = (Inr out, s1)
     \<and> restore_action sample_response_world sample_client (sample_response RestorePersistence []) s1 = (Inr out2, s2)"
proof -
  let ?run = "disable_action sample_response_world sample_client (sample_response DisablePersistence []) (sample_responder [])"
  have "case ?run of (Inl e, _) \<Rightarrow> False | (Inr r, s) \<Rightarrow> rp_outcomes s = []" by code_simp
  then obtain out s1 where r: "?run = (Inr out, s1)" "rp_outcomes s1 = []" by (auto split: prod.splits sum.splits)
  have i: "rq_rollback_id (sample_response RestorePersistence []) = rw_rollback_id sample_response_world"
    "\<And>c l p. rw_decode sample_response_world (rw_encode sample_response_world (c, l, p)) = Some (Some c, Some l, Some p)"
    by (simp_all add: sample_response_def sample_response_world_def sample_decode_encode)
  from disabled_entry_restores [OF r i] r show ?thesis by blast
qed

theorem recovery_schedules_active_blocks_witness:
  "\<exists>s'. recover_temporary_firewall_rules sample_response_world (sample_responder []) = (Inr (), s') \<and> rp_expiry s' = []"
proof -
  have "rp_outcomes (sample_responder []) = []" by (simp add: sample_responder_def)
  from recovery_schedules_active_blocks [OF this, of sample_response_world] obtain s' where
    "recover_temporary_firewall_rules sample_response_world (sample_responder []) = (Inr (), s')"
    "rp_expiry s' = rp_expiry (sample_responder []) @ map (\<lambda>(owner, r). (owner, rb_id r, rb_payload r,
      sat_sub (of_nat (recorded_expiry r)) (rw_seconds sample_response_world)))
        (active_response_rollbacks ''block_remote_address'' (rp_db (sample_responder [])))"
    by blast
  then show ?thesis
    by (simp add: sample_responder_def sample_os_def active_response_rollbacks_def db_empty_def)
qed

section \<open>A gap\<close>

text \<open>
  The rule is added before its rollback is recorded: when recording fails, the block stays for ever, with no
  rollback to undo it and no thread to remove it.
\<close>

lemma unrecorded_block_stays:
  "case block_action sample_response_world sample_client (sample_response BlockRemoteAddress [])
       (sample_responder [Works, Fails ''disk full'' 0]) of
     (r, s) \<Rightarrow> (case r of Inl _ \<Rightarrow> True | Inr _ \<Rightarrow> False) \<and> length (rp_calls s) = 1 \<and> rp_expiry s = []
       \<and> find_rollback ''S-1'' ''r1'' (rp_db s) = None"
  by code_simp

end
