(* ===== verification/OG_Policy.thy ===== *)
theory OG_Policy
  imports OG_Records OG_Response OG_ScanJobs
begin

text \<open>
  User policy (\<^verbatim>\<open>add_exclusion\<close>, \<^verbatim>\<open>remove_exclusion\<close>, \<^verbatim>\<open>allow_hash\<close> and \<^verbatim>\<open>remove_allowed_hash\<close> in
  \<^verbatim>\<open>openguard-service/src/main.rs\<close>): paths that scans skip and digests that are accepted.  What
  \<^verbatim>\<open>canonicalize\<close> answers, as the client and as the service, and the clock are parameters.
\<close>

section \<open>Operations\<close>

definition policy_store ::
  "string \<Rightarrow> (database \<Rightarrow> 'a \<times> database) \<Rightarrow> host \<Rightarrow> (api_error + 'a) \<times> host" where
  "policy_store operation f =
     map_fail (storage_api_error operation) (db_call (\<lambda>d. case f d of (r, d) \<Rightarrow> (Inr r, d)))"

definition policy_missing :: "string \<Rightarrow> api_error" where
  "policy_missing message = \<lparr>ae_code = NotFound, ae_message = message, ae_retryable = False\<rparr>"

text \<open>The path is resolved as the client, its key as the service.\<close>

definition policy_add_exclusion ::
  "(string \<Rightarrow> string + string) \<Rightarrow> (string \<Rightarrow> string option) \<Rightarrow> string \<Rightarrow> client_context \<Rightarrow> string \<Rightarrow> bool
   \<Rightarrow> host \<Rightarrow> (api_error + unit) \<times> host" where
  "policy_add_exclusion as_client as_service now client requested_path recursive =
     run_then (map_fail (\<lambda>e. policy_missing (''Resolve exclusion path as the requesting user: '' @ e))
         (with_client_impersonation client (\<lambda>s. (as_client requested_path, s))))
       (\<lambda>resolved.
          policy_store ''Add exclusion''
            (\<lambda>d. ((), add_exclusion (cc_sid client) (normalized_path_key as_service resolved)
               \<lparr>ex_path = resolved, ex_recursive = recursive, ex_created_at = now\<rparr> d)))"

definition policy_remove_exclusion ::
  "(string \<Rightarrow> string option) \<Rightarrow> client_context \<Rightarrow> string \<Rightarrow> host \<Rightarrow> (api_error + unit) \<times> host" where
  "policy_remove_exclusion as_service client requested_path =
     run_then (policy_store ''Remove exclusion''
         (remove_exclusion (cc_sid client) (normalized_path_key as_service requested_path)))
       (\<lambda>removed s. (if removed then Inr () else Inl (policy_missing ''The exclusion was not found''), s))"

definition policy_allow_hash ::
  "string \<Rightarrow> client_context \<Rightarrow> string \<Rightarrow> string \<Rightarrow> host \<Rightarrow> (api_error + unit) \<times> host" where
  "policy_allow_hash now client sha256 label s =
     (let sha256 = to_ascii_lowercase (trim sha256); label = trim label in
      if length sha256 \<noteq> 64 \<or> \<not> list_all hex_digit sha256 then
        (Inl (invalid_response ''Allowed hashes must be an exact 64-character SHA-256 digest''), s)
      else if 200 < length label then
        (Inl (invalid_response ''Allow-list labels cannot exceed 200 characters''), s)
      else policy_store ''Allow hash''
        (\<lambda>d. ((), db_allow_hash (cc_sid client)
           \<lparr>ah_sha256 = sha256, ah_label = label, ah_created_at = now\<rparr> d)) s)"

definition policy_remove_allowed_hash ::
  "client_context \<Rightarrow> string \<Rightarrow> host \<Rightarrow> (api_error + unit) \<times> host" where
  "policy_remove_allowed_hash client sha256 =
     run_then (policy_store ''Remove allowed hash''
         (db_remove_allowed_hash (cc_sid client) (to_ascii_lowercase (trim sha256))))
       (\<lambda>removed s. (if removed then Inr () else Inl (policy_missing ''The allowed hash was not found''), s))"

section \<open>Round trips\<close>

lemma policy_store_works:
  "hs_outcomes s = [] \<Longrightarrow> policy_store operation f s = (Inr (fst (f (hs_db s))), s\<lparr>hs_db := snd (f (hs_db s))\<rparr>)"
  by (simp add: policy_store_def map_fail_def db_call_def take_outcome_def split: prod.splits)

text \<open>The key of a path that canonicalization leaves alone, or can no longer resolve, is its own.\<close>

lemma stable_key:
  "resolve path = None \<or> resolve path = Some path \<Longrightarrow>
     normalized_path_key resolve path = normalized_path_key (\<lambda>_. None) path"
  by (auto simp: normalized_path_key_def)

text \<open>
  C36. An exclusion can be used and taken back: when a path was excluded, scans of that user skip it
  at once, it is listed under its resolved spelling, removing that spelling succeeds even if the file
  is gone by then, and afterwards the path is not excluded by that entry and a second removal fails.
\<close>

theorem exclusion_roundtrip:
  assumes "policy_ok (hs_db s)" "hs_outcomes s = []" "as_client path = Inr resolved"
    and "as_service resolved \<in> {None, Some resolved}" "later resolved \<in> {None, Some resolved}"
    and "policy_add_exclusion as_client as_service now client path recursive s = (r, s1)"
    and "policy_remove_exclusion later client resolved s1 = (r', s2)"
  shows "r = Inr () \<and> r' = Inr ()
    \<and> path_excluded (cc_sid client) (normalized_path_key later resolved) (hs_db s1)
    \<and> (\<exists>x \<in> set (list_exclusions (cc_sid client) (hs_db s1)). ex_path x = resolved \<and> ex_recursive x = recursive)
    \<and> get_exclusion (hs_db s2) (cc_sid client) (normalized_path_key later resolved) = None
    \<and> fst (policy_remove_exclusion later client resolved s2)
        = Inl (policy_missing ''The exclusion was not found'')"
proof -
  let ?o = "cc_sid client" and ?k = "normalized_path_key (\<lambda>_. None) resolved"
    and ?x = "\<lparr>ex_path = resolved, ex_recursive = recursive, ex_created_at = now\<rparr>"
  have k: "normalized_path_key as_service resolved = ?k" "normalized_path_key later resolved = ?k"
    using assms(4,5) by (auto intro: stable_key)
  have c: "with_client_impersonation client (\<lambda>s. (as_client path, s)) s = (Inr resolved, s)"
    using assms(2,3) by (simp add: with_client_impersonation_def run_then_def map_fail_def plain_call_def take_outcome_def)
  have s1: "r = Inr ()" "s1 = s\<lparr>hs_db := add_exclusion ?o ?k ?x (hs_db s)\<rparr>"
    using assms(6) c by (simp_all add: policy_add_exclusion_def run_then_def map_fail_def k policy_store_works assms(2))
  have ok1: "policy_ok (hs_db s1)" by (simp add: s1 exclusions.ok_put assms(1))
  have found: "get_exclusion (hs_db s1) ?o ?k = Some ?x" by (simp add: s1 exclusions.get_put)
  have o1: "hs_outcomes s1 = []" by (simp add: s1 assms(2))
  have removed: "fst (remove_exclusion ?o ?k (hs_db s1))" using found by (simp add: exclusions.del_result [OF ok1])
  have s2: "r' = Inr ()" "s2 = s1\<lparr>hs_db := snd (remove_exclusion ?o ?k (hs_db s1))\<rparr>"
    using assms(7) removed by (simp_all add: policy_remove_exclusion_def run_then_def k policy_store_works o1)
  have "path_excluded ?o ?k (hs_db s1)" using found by (auto simp: path_excluded_iff [OF ok1])
  moreover have "?x \<in> set (list_exclusions ?o (hs_db s1))"
    using found by (force simp: list_exclusions_def get_exclusion_def dest: map_of_SomeD)
  then have "\<exists>x \<in> set (list_exclusions ?o (hs_db s1)). ex_path x = resolved \<and> ex_recursive x = recursive" by force
  moreover have "get_exclusion (hs_db s2) ?o ?k = None" by (simp add: s2 exclusions.get_del [OF ok1])
  moreover have "fst (policy_remove_exclusion later client resolved s2) = Inl (policy_missing ''The exclusion was not found'')"
    using exclusions.del_twice [OF ok1, of ?o ?k]
    by (simp add: policy_remove_exclusion_def run_then_def k policy_store_works s2 o1)
  ultimately show ?thesis using s1(1) s2(1) k by simp
qed

lemma hex_digit_lower: "hex_digit (lower_char c) = hex_digit c"
proof (cases "CHR ''A'' \<le> c \<and> c \<le> CHR ''Z''")
  case True
  then have n: "of_char (lower_char c) = (of_char c + 32 :: nat)" "65 \<le> (of_char c :: nat)"
    by (simp_all add: lower_char_def less_eq_char_def)
  have "\<not> c \<le> CHR ''9''" "\<not> lower_char c \<le> CHR ''9''" using n by (simp_all add: less_eq_char_def)
  then show ?thesis by (simp add: hex_digit_def)
next
  case False
  then have "lower_char c = c" by (auto simp: lower_char_def)
  then show ?thesis by simp
qed

text \<open>
  Allowing a digest: it is accepted exactly when it has 64 hexadecimal digits around optional white
  space and the label at most 200 bytes; it is stored in lower case, so every later spelling with
  other capitals or white space names it, and one removal under any of them takes it back.
\<close>

theorem allowed_hash_roundtrip:
  assumes "policy_ok (hs_db s)" "hs_outcomes s = []" "to_ascii_lowercase (trim other) = to_ascii_lowercase (trim digest)"
    and "policy_allow_hash now client digest label s = (r, s1)"
    and "policy_remove_allowed_hash client other s1 = (r', s2)"
  shows "(is_ok r \<longleftrightarrow> length (trim digest) = 64 \<and> list_all hex_digit (trim digest) \<and> length (trim label) \<le> 200)
    \<and> (is_ok r \<longrightarrow> allowed_hash (cc_sid client) (to_ascii_lowercase (trim digest)) (hs_db s1) = Some (trim label)
          \<and> r' = Inr () \<and> allowed_hash (cc_sid client) (to_ascii_lowercase (trim digest)) (hs_db s2) = None)
    \<and> (\<not> is_ok r \<longrightarrow> s1 = s)"
proof -
  let ?o = "cc_sid client" and ?h = "to_ascii_lowercase (trim digest)"
    and ?x = "\<lparr>ah_sha256 = to_ascii_lowercase (trim digest), ah_label = trim label, ah_created_at = now\<rparr>"
  have hex: "list_all hex_digit ?h \<longleftrightarrow> list_all hex_digit (trim digest)"
    by (simp add: to_ascii_lowercase_def list.pred_map comp_def hex_digit_lower)
  show ?thesis
  proof (cases "length (trim digest) = 64 \<and> list_all hex_digit (trim digest) \<and> length (trim label) \<le> 200")
    case False
    then have "\<not> is_ok r \<and> s1 = s"
      using assms(4) hex by (auto simp: policy_allow_hash_def Let_def split: if_splits)
    with False show ?thesis by blast
  next
    case True
    then have s1: "r = Inr ()" "s1 = s\<lparr>hs_db := put_hash ?o ?h ?x (hs_db s)\<rparr>"
      using assms(4) hex
      by (simp_all add: policy_allow_hash_def Let_def policy_store_works assms(2) db_allow_hash_put)
    have ok1: "policy_ok (hs_db s1)" by (simp add: s1 hashes.ok_put assms(1))
    have found: "get_hash (hs_db s1) ?o ?h = Some ?x" by (simp add: s1 hashes.get_put)
    have "fst (db_remove_allowed_hash ?o ?h (hs_db s1))" using found by (simp add: hashes.del_result [OF ok1])
    then have s2: "r' = Inr ()" "s2 = s1\<lparr>hs_db := snd (db_remove_allowed_hash ?o ?h (hs_db s1))\<rparr>"
      using assms(5) by (simp_all add: policy_remove_allowed_hash_def run_then_def assms(3) policy_store_works s1 assms(2))
    have "allowed_hash ?o ?h (hs_db s2) = None" by (simp add: s2 allowed_hash_get hashes.get_del [OF ok1])
    moreover have "allowed_hash ?o ?h (hs_db s1) = Some (trim label)" by (simp add: allowed_hash_get found)
    ultimately show ?thesis using True s1(1) s2(1) by simp
  qed
qed

section \<open>Witnesses\<close>

definition policy_host :: host where
  "policy_host = \<lparr>hs_files = Map.empty, hs_outcomes = [], hs_db = db_empty\<rparr>"

theorem exclusion_roundtrip_witness:
  "(case policy_add_exclusion (\<lambda>p. Inr (''C:/'' @ p)) Some ''t'' sample_client ''Dir'' True policy_host of
      (r, s1) \<Rightarrow> r = Inr () \<and> fst (policy_remove_exclusion (\<lambda>_. None) sample_client ''C:/Dir'' s1) = Inr ()
        \<and> path_excluded (cc_sid sample_client) (normalized_path_key (\<lambda>_. None) ''C:/Dir'') (hs_db s1))"
proof -
  obtain r s1 where a: "policy_add_exclusion (\<lambda>p. Inr (''C:/'' @ p)) Some ''t'' sample_client ''Dir'' True
      policy_host = (r, s1)" by fastforce
  obtain r' s2 where b: "policy_remove_exclusion (\<lambda>_. None) sample_client ''C:/Dir'' s1 = (r', s2)" by fastforce
  have ok: "policy_ok (hs_db policy_host)" "hs_outcomes policy_host = []"
    by (simp_all add: policy_host_def db_empty_def policy_ok_def keyed_ok_def)
  show ?thesis
    unfolding a using exclusion_roundtrip [OF ok _ _ _ a, of "''C:/Dir''" "\<lambda>_. None" r' s2] b by simp
qed

theorem allowed_hash_roundtrip_witness:
  "(case policy_allow_hash ''t'' sample_client (replicate 64 (CHR ''A'')) '' mine '' policy_host of
      (r, s1) \<Rightarrow> is_ok r
        \<and> fst (policy_remove_allowed_hash sample_client (CHR '' '' # replicate 64 (CHR ''a'')) s1) = Inr ())"
proof -
  obtain r s1 where a: "policy_allow_hash ''t'' sample_client (replicate 64 (CHR ''A'')) '' mine '' policy_host = (r, s1)"
    by fastforce
  obtain r' s2 where b: "policy_remove_allowed_hash sample_client (CHR '' '' # replicate 64 (CHR ''a'')) s1 = (r', s2)"
    by fastforce
  have ok: "policy_ok (hs_db policy_host)" "hs_outcomes policy_host = []"
    by (simp_all add: policy_host_def db_empty_def policy_ok_def keyed_ok_def)
  have same: "to_ascii_lowercase (trim (CHR '' '' # replicate 64 (CHR ''a''))) = to_ascii_lowercase (trim (replicate 64 (CHR ''A'')))"
    by code_simp
  have "length (trim (replicate 64 (CHR ''A''))) = 64 \<and> list_all hex_digit (trim (replicate 64 (CHR ''A'')))
      \<and> length (trim '' mine '') \<le> 200" by code_simp
  with allowed_hash_roundtrip [OF ok same a b] show ?thesis by (simp add: a b)
qed

end
