(* ===== verification/OG_EventLog.thy ===== *)
theory OG_EventLog
  imports OG_Sysmon OG_Channel
begin

text \<open>
  The Event Log monitors (\<^verbatim>\<open>openguard-windows/src/eventlog.rs\<close> and the monitor of \<^verbatim>\<open>sysmon.rs\<close>): the
  events of the Security and Defender channels, the subscriptions that share one bounded queue but
  count on their own, and the coverage both monitors report.  Subscribing is a parameter.
\<close>

section \<open>Windows events\<close>

record windows_event =
  we_source :: string
  we_event_id :: u32
  we_occurred_at :: string
  we_fields :: "(string \<times> string) list"

definition we_field :: "windows_event \<Rightarrow> string \<Rightarrow> string" where
  "we_field e name = (case map_of (we_fields e) name of None \<Rightarrow> [] | Some v \<Rightarrow> v)"

definition we_process_id :: "windows_event \<Rightarrow> u32 option" where
  "we_process_id e =
     find_map (\<lambda>name. parse_prefixed_u32 (we_field e name)) [''NewProcessId'', ''ProcessId'', ''ProcessID'']"

definition we_path :: "windows_event \<Rightarrow> string" where
  "we_path e =
     (case first_nonempty (map (we_field e) [''NewProcessName'', ''Path'', ''Process Name'', ''ProcessName'']) of
        None \<Rightarrow> [] | Some v \<Rightarrow> v)"

definition we_action :: "windows_event \<Rightarrow> string" where
  "we_action e =
     (let i = we_event_id e in
      if i = 4688 then ''process_create_audit'' else if i = 4689 then ''process_terminate_audit''
      else if i = 1116 then ''defender_threat_detected'' else if i = 1117 then ''defender_threat_action''
      else if i = 5007 then ''defender_configuration_changed'' else ''windows_event'')"

definition we_severity :: "windows_event \<Rightarrow> severity" where
  "we_severity e =
     (if we_event_id e = 1116 then High
      else if we_event_id e = 1117 \<or> we_event_id e = 5007 then Medium else Info)"

definition we_title :: "windows_event \<Rightarrow> string" where
  "we_title e =
     (let i = we_event_id e in
      if i = 4688 then ''Windows audited process creation''
      else if i = 4689 then ''Windows audited process termination''
      else if i = 1116 then ''Microsoft Defender detected a threat''
      else if i = 1117 then ''Microsoft Defender took threat action''
      else if i = 5007 then ''Microsoft Defender configuration changed''
      else ''Windows event '' @ show_nat (unat i))"

definition we_detail :: "windows_event \<Rightarrow> string" where
  "we_detail e =
     (let parts = concat (map (\<lambda>(label, field).
            (let v = we_field e field in
             if v \<noteq> [] \<and> length v \<le> 32 * 1024 then [label @ ''='' @ v] else []))
          [(''process'', ''NewProcessName''), (''command'', ''CommandLine''),
           (''parent'', ''ParentProcessName''), (''threat'', ''Threat Name''), (''path'', ''Path''),
           (''action'', ''Action Name''), (''old'', ''Old Value''), (''new'', ''New Value'')])
      in if parts = [] then we_source e @ '' event '' @ show_nat (unat (we_event_id e))
         else join ''; '' parts)"

definition we_correlation_id :: "windows_event \<Rightarrow> string" where
  "we_correlation_id e =
     ''windows-event-''
     @ map (\<lambda>c. if c = backslash \<or> c = CHR ''/'' \<or> c = CHR '' '' then CHR ''-'' else c) (we_source e) @ ''-''
     @ show_nat (unat (we_event_id e)) @ ''-''
     @ show_nat (unat (case we_process_id e of None \<Rightarrow> 0 | Some p \<Rightarrow> p)) @ ''-'' @ we_occurred_at e"

section \<open>The monitor\<close>

definition EVENT_QUEUE_CAPACITY :: nat where "EVENT_QUEUE_CAPACITY = 2048"

definition SOURCES :: "string list" where
  "SOURCES = [''Security'', ''Microsoft-Windows-Windows Defender/Operational'']"

record log_context =
  lc_source :: string
  lc_received :: u64
  lc_dropped :: u64
  lc_parse_failures :: u64
  lc_subscription_errors :: u64

text \<open>As in the channel, the events handed out are kept as a ghost field.\<close>

record event_log_monitor =
  el_subscriptions :: nat
  el_queue :: "windows_event list"
  el_contexts :: "log_context list"
  el_failures :: "string list"
  el_delivered :: "windows_event list"

definition fresh_context :: "string \<Rightarrow> log_context" where
  "fresh_context source = \<lparr>lc_source = source, lc_received = 0, lc_dropped = 0, lc_parse_failures = 0,
                           lc_subscription_errors = 0\<rparr>"

definition subscribe_source ::
  "(string \<Rightarrow> string + unit) \<Rightarrow> string \<Rightarrow> event_log_monitor \<Rightarrow> event_log_monitor" where
  "subscribe_source subscribe source m =
     (let m = (case subscribe source of
                 Inr _ \<Rightarrow> m\<lparr>el_subscriptions := Suc (el_subscriptions m)\<rparr>
               | Inl error \<Rightarrow> m\<lparr>el_failures := el_failures m @ [source @ '': '' @ error]\<rparr>)
      in m\<lparr>el_contexts := el_contexts m @ [fresh_context source]\<rparr>)"

definition event_log_start :: "(string \<Rightarrow> string + unit) \<Rightarrow> event_log_monitor" where
  "event_log_start subscribe =
     fold (subscribe_source subscribe) SOURCES
       \<lparr>el_subscriptions = 0, el_queue = [], el_contexts = [], el_failures = [], el_delivered = []\<rparr>"

definition event_log_drain :: "nat \<Rightarrow> event_log_monitor \<Rightarrow> windows_event list \<times> event_log_monitor" where
  "event_log_drain limit m =
     (let n = min (max limit 1) EVENT_QUEUE_CAPACITY; out = take n (el_queue m) in
      (out, m\<lparr>el_queue := drop n (el_queue m), el_delivered := el_delivered m @ out\<rparr>))"

text \<open>One delivery to the callback of subscription \<open>k\<close>; \<open>parsed\<close> is the outcome of rendering and parsing.\<close>

definition log_event :: "string \<Rightarrow> sysmon_event \<Rightarrow> windows_event" where
  "log_event source e =
     \<lparr>we_source = source, we_event_id = sy_event_id e, we_occurred_at = sy_occurred_at e,
      we_fields = sy_fields e\<rparr>"

definition event_log_callback ::
  "nat \<Rightarrow> notify_action \<Rightarrow> (string + sysmon_event) \<Rightarrow> event_log_monitor \<Rightarrow> event_log_monitor" where
  "event_log_callback k action parsed m =
     (if \<not> k < length (el_contexts m) then m
      else
        (let c = el_contexts m ! k;
             counted = (\<lambda>c. m\<lparr>el_contexts := (el_contexts m)[k := c]\<rparr>) in
         case action of
           ActionError \<Rightarrow> counted (c\<lparr>lc_subscription_errors := lc_subscription_errors c + 1\<rparr>)
         | ActionOther \<Rightarrow> m
         | ActionDeliver \<Rightarrow>
             let c = c\<lparr>lc_received := lc_received c + 1\<rparr> in
             (case parsed of
                Inr e \<Rightarrow>
                  if length (el_queue m) < EVENT_QUEUE_CAPACITY
                  then (counted c)\<lparr>el_queue := el_queue m @ [log_event (lc_source c) e]\<rparr>
                  else counted (c\<lparr>lc_dropped := lc_dropped c + 1\<rparr>)
              | Inl _ \<Rightarrow> counted (c\<lparr>lc_parse_failures := lc_parse_failures c + 1\<rparr>))))"

section \<open>Coverage\<close>

definition count_sum :: "(log_context \<Rightarrow> u64) \<Rightarrow> event_log_monitor \<Rightarrow> u64" where
  "count_sum f m = sum_list (map f (el_contexts m))"

definition event_log_coverage :: "event_log_monitor \<Rightarrow> coverage_note" where
  "event_log_coverage m =
     (let state = (if el_subscriptions m = length SOURCES then Active else Limited);
          failure = (if el_failures m = [] then ''all requested channels subscribed''
                     else ''unavailable channels: '' @ join '' | '' (el_failures m)) in
      \<lparr>cn_source = ''windows_event_log'', cn_state = state,
       cn_detail = ''Security process-audit and Microsoft Defender operational subscriptions: ''
         @ show_nat (el_subscriptions m) @ ''/'' @ show_nat (length SOURCES) @ '' active, '' @ failure
         @ ''; '' @ show_nat (unat (count_sum lc_received m)) @ '' received, ''
         @ show_nat (unat (count_sum lc_dropped m)) @ '' queue-dropped, ''
         @ show_nat (unat (count_sum lc_parse_failures m)) @ '' parse failures, ''
         @ show_nat (unat (count_sum lc_subscription_errors m)) @ '' subscription errors''\<rparr>)"

text \<open>The Sysmon monitor: one subscription, the channel of \<open>OG_Channel\<close> and what \<^verbatim>\<open>start\<close> found out.\<close>

record sysmon_monitor =
  sm_subscribed :: bool
  sm_channel :: "sysmon_event channel"
  sm_state :: coverage_state
  sm_detail :: string

definition sysmon_start :: "(string + unit) \<Rightarrow> sysmon_monitor" where
  "sysmon_start subscription =
     (case subscription of
        Inr _ \<Rightarrow> \<lparr>sm_subscribed = True, sm_channel = channel_new, sm_state = Active,
          sm_detail = ''Optional Sysmon Event Log subscription is active; existing Sysmon configuration is unchanged''\<rparr>
      | Inl error \<Rightarrow> \<lparr>sm_subscribed = False, sm_channel = channel_new, sm_state = Limited,
          sm_detail = ''Optional Sysmon channel is unavailable ('' @ error
            @ ''); native ETW, WFP, USN, and file monitoring remain active''\<rparr>)"

definition sysmon_drain :: "nat \<Rightarrow> sysmon_monitor \<Rightarrow> sysmon_event list \<times> sysmon_monitor" where
  "sysmon_drain limit m =
     (case channel_drain SYSMON_QUEUE_CAPACITY limit (sm_channel m) of
        (events, c) \<Rightarrow> (events, m\<lparr>sm_channel := c\<rparr>))"

definition sysmon_coverage :: "sysmon_monitor \<Rightarrow> coverage_note" where
  "sysmon_coverage m =
     (let c = sm_channel m in
      \<lparr>cn_source = ''sysmon_events'', cn_state = sm_state m,
       cn_detail = sm_detail m @ ''; '' @ show_nat (unat (ch_received c)) @ '' received, ''
         @ show_nat (unat (ch_dropped c)) @ '' queue-dropped, ''
         @ show_nat (unat (ch_parse_failures c)) @ '' parse failures, ''
         @ show_nat (unat (ch_subscription_errors c)) @ '' subscription errors''\<rparr>)"

section \<open>Refinement to one counting channel\<close>

text \<open>What the two subscriptions together are: one channel whose counters are the sums.\<close>

definition as_channel :: "event_log_monitor \<Rightarrow> windows_event channel" where
  "as_channel m =
     \<lparr>ch_queue = el_queue m, ch_received = count_sum lc_received m, ch_dropped = count_sum lc_dropped m,
      ch_parse_failures = count_sum lc_parse_failures m,
      ch_subscription_errors = count_sum lc_subscription_errors m, ch_delivered = el_delivered m\<rparr>"

lemma sum_list_update:
  "k < length cs \<Longrightarrow> sum_list (map f (cs[k := c])) = sum_list (map f cs) - f (cs ! k) + (f c :: u64)"
  by (induction cs arbitrary: k) (auto split: nat.splits)

lemma count_sum_update:
  "k < length (el_contexts m) \<Longrightarrow>
     count_sum f (m\<lparr>el_contexts := (el_contexts m)[k := c]\<rparr>) = count_sum f m - f (el_contexts m ! k) + f c"
  by (simp add: count_sum_def sum_list_update)

lemma count_sum_keeps:
  "count_sum f (m\<lparr>el_queue := q\<rparr>) = count_sum f m" "count_sum f (m\<lparr>el_delivered := d\<rparr>) = count_sum f m"
  by (simp_all add: count_sum_def)

lemma as_channel_callback:
  assumes "k < length (el_contexts m)"
  shows "as_channel (event_log_callback k action parsed m)
    = subscription_callback EVENT_QUEUE_CAPACITY action
        (case parsed of Inl _ \<Rightarrow> Inl () | Inr e \<Rightarrow> Inr (log_event (lc_source (el_contexts m ! k)) e)) (as_channel m)"
  using assms
  by (auto simp: as_channel_def event_log_callback_def subscription_callback_def Let_def
      count_sum_update count_sum_keeps split: notify_action.splits sum.splits)

lemma as_channel_drain:
  "event_log_drain limit m = (out, m') \<Longrightarrow>
     channel_drain EVENT_QUEUE_CAPACITY limit (as_channel m) = (out, as_channel m')"
  by (auto simp: as_channel_def event_log_drain_def channel_drain_def Let_def count_sum_keeps)

lemma as_channel_start: "as_channel (event_log_start subscribe) = channel_new"
  by (auto simp: event_log_start_def SOURCES_def subscribe_source_def as_channel_def channel_new_def
      fresh_context_def count_sum_def Let_def split: sum.splits)

section \<open>Runs\<close>

datatype monitor_step = Delivered nat notify_action "string + sysmon_event" | Drained nat

fun monitor_run :: "event_log_monitor \<Rightarrow> monitor_step list \<Rightarrow> event_log_monitor" where
  "monitor_run m [] = m"
| "monitor_run m (Delivered k action parsed # ss) = monitor_run (event_log_callback k action parsed m) ss"
| "monitor_run m (Drained n # ss) = monitor_run (snd (event_log_drain n m)) ss"

text \<open>The offer that a delivery is to the one channel; there are as many callbacks as sources.\<close>

fun offers :: "monitor_step \<Rightarrow> windows_event offer list" where
  "offers (Delivered k action parsed) =
     (if k < length SOURCES
      then [Offer action (case parsed of Inl _ \<Rightarrow> Inl () | Inr e \<Rightarrow> Inr (log_event (SOURCES ! k) e))] else [])"
| "offers (Drained n) = [Drain n]"

lemma callback_sources:
  "map lc_source (el_contexts (event_log_callback k action parsed m)) = map lc_source (el_contexts m)"
  "map lc_source (el_contexts (snd (event_log_drain n m))) = map lc_source (el_contexts m)"
  by (auto simp: event_log_callback_def event_log_drain_def Let_def map_update
      split: notify_action.splits sum.splits intro: list_update_id map_idI)
    (metis list_update_id nth_map)+

lemma as_channel_run:
  "map lc_source (el_contexts m) = SOURCES \<Longrightarrow>
     as_channel (monitor_run m ss) = channel_run EVENT_QUEUE_CAPACITY (as_channel m) (concat (map offers ss))"
proof (induction m ss rule: monitor_run.induct)
  case (2 m k action parsed ss)
  have len: "length (el_contexts m) = length SOURCES" using 2(2) by (metis length_map)
  show ?case
  proof (cases "k < length SOURCES")
    case True
    then have "lc_source (el_contexts m ! k) = SOURCES ! k" using 2(2) len by (metis nth_map)
    with True len as_channel_callback [of k m action parsed]
    have "as_channel (event_log_callback k action parsed m)
        = subscription_callback EVENT_QUEUE_CAPACITY action
            (case parsed of Inl _ \<Rightarrow> Inl () | Inr e \<Rightarrow> Inr (log_event (SOURCES ! k) e)) (as_channel m)"
      by (cases parsed) simp_all
    with 2 True show ?thesis by (simp add: callback_sources)
  next
    case False
    then have "event_log_callback k action parsed m = m" by (simp add: event_log_callback_def len)
    with 2 False show ?thesis by (simp add: callback_sources)
  qed
next
  case (3 m n ss)
  have "snd (channel_drain EVENT_QUEUE_CAPACITY n (as_channel m)) = as_channel (snd (event_log_drain n m))"
    using as_channel_drain [of n m] by (metis prod.collapse snd_conv)
  with 3 show ?case by (simp add: callback_sources)
qed simp

lemma sources_start: "map lc_source (el_contexts (event_log_start subscribe)) = SOURCES"
  by (simp add: event_log_start_def SOURCES_def subscribe_source_def fresh_context_def Let_def split: sum.splits)

text \<open>
  C35. The two Event Log subscriptions behave like one bounded counting channel: whichever of them
  could subscribe, and in whatever order their callbacks and the drains interleave, the shared queue
  is the queue of the channel and the sums that the coverage note reports are its counters, so every
  event received is delivered, queued, dropped or a parse failure.
\<close>

theorem event_log_refines_channel:
  "as_channel (monitor_run (event_log_start subscribe) ss)
     = channel_run EVENT_QUEUE_CAPACITY channel_new (concat (map offers ss))
   \<and> length (el_queue (monitor_run (event_log_start subscribe) ss)) \<le> EVENT_QUEUE_CAPACITY
   \<and> count_sum lc_received (monitor_run (event_log_start subscribe) ss)
       = of_nat (length (el_delivered (monitor_run (event_log_start subscribe) ss))
           + length (el_queue (monitor_run (event_log_start subscribe) ss)))
         + count_sum lc_dropped (monitor_run (event_log_start subscribe) ss)
         + count_sum lc_parse_failures (monitor_run (event_log_start subscribe) ss)"
proof -
  have r: "as_channel (monitor_run (event_log_start subscribe) ss)
      = channel_run EVENT_QUEUE_CAPACITY channel_new (concat (map offers ss))"
    by (simp add: as_channel_run [OF sources_start] as_channel_start)
  have "channel_ok EVENT_QUEUE_CAPACITY (as_channel (monitor_run (event_log_start subscribe) ss))"
    unfolding r channel_run_run by (rule chan.ok_reachable)
  then have "length (el_queue (monitor_run (event_log_start subscribe) ss)) \<le> EVENT_QUEUE_CAPACITY
     \<and> count_sum lc_received (monitor_run (event_log_start subscribe) ss)
       = of_nat (length (el_delivered (monitor_run (event_log_start subscribe) ss))
           + length (el_queue (monitor_run (event_log_start subscribe) ss)))
         + count_sum lc_dropped (monitor_run (event_log_start subscribe) ss)
         + count_sum lc_parse_failures (monitor_run (event_log_start subscribe) ss)"
    by (simp add: channel_ok_def as_channel_def)
  with r show ?thesis by blast
qed

text \<open>
  A field whose value ends an earlier detail is left out of the description of a Sysmon event: the
  port of a destination that ends in the same digits is not shown.
\<close>

lemma port_of_destination_is_dropped:
  "sy_detail \<lparr>sy_event_id = 3, sy_occurred_at = [],
     sy_fields = [(''DestinationIp'', ''10.0.0.80''), (''DestinationPort'', ''80'')]\<rparr> = ''destination=10.0.0.80''"
  by code_simp

end
