(* ===== verification/OG_Memory.thy ===== *)
theory OG_Memory
  imports OG_Domain
begin

text \<open>
  Metadata-only inspection of the memory of a process (\<^verbatim>\<open>openguard-windows/src/memory.rs\<close>): the
  address map is walked region by region and the private executable regions are counted.  What
  \<^verbatim>\<open>OpenProcess\<close> and \<^verbatim>\<open>VirtualQueryEx\<close> answer are parameters; an answer may differ from address to
  address, but no address is asked twice.
\<close>

section \<open>The walk\<close>

definition MAXIMUM_REGIONS :: u32 where "MAXIMUM_REGIONS = 65536"

definition MEM_COMMIT :: u32 where "MEM_COMMIT = 0x1000"
definition MEM_PRIVATE :: u32 where "MEM_PRIVATE = 0x20000"
definition PAGE_NOACCESS :: u32 where "PAGE_NOACCESS = 0x01"
definition PAGE_EXECUTE :: u32 where "PAGE_EXECUTE = 0x10"
definition PAGE_EXECUTE_READ :: u32 where "PAGE_EXECUTE_READ = 0x20"
definition PAGE_EXECUTE_READWRITE :: u32 where "PAGE_EXECUTE_READWRITE = 0x40"
definition PAGE_EXECUTE_WRITECOPY :: u32 where "PAGE_EXECUTE_WRITECOPY = 0x80"
definition PAGE_GUARD :: u32 where "PAGE_GUARD = 0x100"

record memory_region =
  mr_size :: u64
  mr_state :: u32
  mr_protect :: u32
  mr_type :: u32

record memory_inspection =
  mi_pid :: u32
  mi_status :: string
  mi_regions_examined :: u32
  mi_private_executable_regions :: u32
  mi_private_executable_bytes :: u64
  mi_writable_executable_regions :: u32
  mi_writable_executable_bytes :: u64
  mi_truncated :: bool

definition counts_as_private_executable :: "memory_region \<Rightarrow> bool" where
  "counts_as_private_executable r \<longleftrightarrow>
     (let protection = mr_protect r;
          executable = protection = PAGE_EXECUTE \<or> protection = PAGE_EXECUTE_READ
            \<or> protection = PAGE_EXECUTE_READWRITE \<or> protection = PAGE_EXECUTE_WRITECOPY;
          inspectable = and protection PAGE_GUARD \<noteq> PAGE_GUARD \<and> protection \<noteq> PAGE_NOACCESS
      in mr_state r = MEM_COMMIT \<and> mr_type r = MEM_PRIVATE \<and> executable \<and> inspectable)"

text \<open>The effect of one region on the result.\<close>

definition examine_region :: "memory_region \<Rightarrow> memory_inspection \<Rightarrow> memory_inspection" where
  "examine_region r m =
     (let m = m\<lparr>mi_regions_examined := sat_add (mi_regions_examined m) 1\<rparr> in
      if counts_as_private_executable r then
        (let m = m\<lparr>mi_private_executable_regions := sat_add (mi_private_executable_regions m) 1,
                   mi_private_executable_bytes := sat_add (mi_private_executable_bytes m) (mr_size r)\<rparr> in
         if mr_protect r = PAGE_EXECUTE_READWRITE
         then m\<lparr>mi_writable_executable_regions := sat_add (mi_writable_executable_regions m) 1,
                mi_writable_executable_bytes := sat_add (mi_writable_executable_bytes m) (mr_size r)\<rparr>
         else m)
      else m)"

text \<open>
  The loop.  \<^verbatim>\<open>checked_add\<close> fails on overflow, and the address must grow, so the walk ends whatever
  the system answers.
\<close>

function walk_regions ::
  "(u64 \<Rightarrow> memory_region option) \<Rightarrow> u64 \<Rightarrow> memory_inspection \<Rightarrow> memory_inspection" where
  "walk_regions query address m =
     (if MAXIMUM_REGIONS \<le> mi_regions_examined m
      then m\<lparr>mi_truncated := True, mi_status := ''region_limit''\<rparr>
      else (case query address of
          None \<Rightarrow> m
        | Some r \<Rightarrow>
            let m = examine_region r m in
            if \<not> unat address + unat (mr_size r) < 2 ^ 64
            then m\<lparr>mi_status := ''address_overflow''\<rparr>
            else if address + mr_size r \<le> address
            then m\<lparr>mi_status := ''non_progressing_region''\<rparr>
            else walk_regions query (address + mr_size r) m))"
  by pat_completeness auto
termination
  by (relation "measure (\<lambda>(query, address, m). 2 ^ 64 - unat address)")
    (auto simp: not_le word_less_nat_alt intro!: diff_less_mono2 order.strict_trans1 [OF _ unsigned_less])

declare walk_regions.simps [simp del]

definition inspect_process_memory ::
  "(u32 \<Rightarrow> string + (u64 \<Rightarrow> memory_region option)) \<Rightarrow> u32 \<Rightarrow> string + memory_inspection" where
  "inspect_process_memory open_process pid =
     (case open_process pid of
        Inl error \<Rightarrow> Inl (''OpenProcess('' @ show_nat (unat pid) @ '') failed: '' @ error)
      | Inr query \<Rightarrow> Inr (walk_regions query 0
          \<lparr>mi_pid = pid, mi_status = ''complete'', mi_regions_examined = 0,
           mi_private_executable_regions = 0, mi_private_executable_bytes = 0,
           mi_writable_executable_regions = 0, mi_writable_executable_bytes = 0,
           mi_truncated = False\<rparr>))"

section \<open>What the counts mean\<close>

text \<open>A writable and executable region is a private executable one, and each was examined.\<close>

definition inspection_ok :: "memory_inspection \<Rightarrow> bool" where
  "inspection_ok m \<longleftrightarrow>
     mi_regions_examined m \<le> MAXIMUM_REGIONS
     \<and> mi_private_executable_regions m \<le> mi_regions_examined m
     \<and> mi_writable_executable_regions m \<le> mi_private_executable_regions m
     \<and> mi_writable_executable_bytes m \<le> mi_private_executable_bytes m
     \<and> (mi_truncated m \<longleftrightarrow> mi_status m = ''region_limit'')"

lemma inspection_ok_examine:
  "inspection_ok m \<Longrightarrow> \<not> MAXIMUM_REGIONS \<le> mi_regions_examined m \<Longrightarrow> inspection_ok (examine_region r m)"
  using unat_le_max [of "mi_writable_executable_bytes m"]
  by (auto simp: inspection_ok_def examine_region_def Let_def word_le_nat_alt unat_sat_add MAXIMUM_REGIONS_def)

lemma examine_region_keeps:
  "mi_status (examine_region r m) = mi_status m" "mi_truncated (examine_region r m) = mi_truncated m"
  "mi_pid (examine_region r m) = mi_pid m"
  by (auto simp: examine_region_def Let_def)

lemma inspection_ok_walk:
  "inspection_ok m \<Longrightarrow> mi_status m = ''complete'' \<Longrightarrow> inspection_ok (walk_regions query address m)"
proof (induction query address m rule: walk_regions.induct)
  case (1 query address m)
  show ?case
  proof (cases "MAXIMUM_REGIONS \<le> mi_regions_examined m")
    case True
    with 1 show ?thesis by (subst walk_regions.simps) (auto simp: inspection_ok_def)
  next
    case False
    show ?thesis
    proof (cases "query address")
      case None
      with False 1 show ?thesis by (subst walk_regions.simps) simp
    next
      case (Some r)
      have ok: "inspection_ok (examine_region r m)" using 1 False by (simp add: inspection_ok_examine)
      moreover have "\<not> mi_truncated (examine_region r m)"
        using 1 by (simp add: examine_region_keeps inspection_ok_def)
      ultimately have "inspection_ok (examine_region r m\<lparr>mi_status := ''address_overflow''\<rparr>)"
        "inspection_ok (examine_region r m\<lparr>mi_status := ''non_progressing_region''\<rparr>)"
        by (simp_all add: inspection_ok_def)
      with 1 False Some ok show ?thesis
        by (subst walk_regions.simps) (simp add: Let_def examine_region_keeps)
    qed
  qed
qed

lemma walk_regions_pid: "mi_pid (walk_regions query address m) = mi_pid m"
proof (induction query address m rule: walk_regions.induct)
  case (1 query address m)
  then show ?case
    by (subst walk_regions.simps) (auto simp: Let_def examine_region_keeps split: option.splits)
qed

text \<open>
  The memory inspection ends for every answer of the system, even one that overlaps, repeats or
  overflows; it examines at most 65,536 regions, says so when it stops there, and its counts are
  nested: writable executable regions are private executable ones, and those were examined.
\<close>

theorem memory_inspection_bounded:
  assumes "inspect_process_memory open_process pid = Inr m"
  shows "mi_pid m = pid \<and> mi_regions_examined m \<le> MAXIMUM_REGIONS
    \<and> mi_private_executable_regions m \<le> mi_regions_examined m
    \<and> mi_writable_executable_regions m \<le> mi_private_executable_regions m
    \<and> mi_writable_executable_bytes m \<le> mi_private_executable_bytes m
    \<and> (mi_truncated m \<longleftrightarrow> mi_status m = ''region_limit'')"
proof -
  obtain query where "m = walk_regions query 0
      \<lparr>mi_pid = pid, mi_status = ''complete'', mi_regions_examined = 0, mi_private_executable_regions = 0,
       mi_private_executable_bytes = 0, mi_writable_executable_regions = 0,
       mi_writable_executable_bytes = 0, mi_truncated = False\<rparr>"
    using assms by (auto simp: inspect_process_memory_def split: sum.splits)
  then show ?thesis
    using inspection_ok_walk [of "\<lparr>mi_pid = pid, mi_status = ''complete'', mi_regions_examined = 0,
       mi_private_executable_regions = 0, mi_private_executable_bytes = 0,
       mi_writable_executable_regions = 0, mi_writable_executable_bytes = 0, mi_truncated = False\<rparr>" query 0]
    by (simp add: inspection_ok_def walk_regions_pid)
qed

definition sample_regions :: "u64 \<Rightarrow> memory_region option" where
  "sample_regions a = (if a = 0 then Some \<lparr>mr_size = 4096, mr_state = MEM_COMMIT,
       mr_protect = PAGE_EXECUTE_READWRITE, mr_type = MEM_PRIVATE\<rparr>
     else if a = 4096 then Some \<lparr>mr_size = - 4096, mr_state = MEM_COMMIT, mr_protect = PAGE_EXECUTE_READ,
       mr_type = MEM_PRIVATE\<rparr> else None)"

theorem memory_inspection_bounded_witness:
  "case inspect_process_memory (\<lambda>_. Inr sample_regions) 7 of
     Inl _ \<Rightarrow> False
   | Inr m \<Rightarrow> mi_writable_executable_regions m = 1 \<and> mi_status m = ''address_overflow''
       \<and> mi_private_executable_regions m \<le> mi_regions_examined m"
proof -
  have "case inspect_process_memory (\<lambda>_. Inr sample_regions) 7 of Inl _ \<Rightarrow> False
    | Inr m \<Rightarrow> mi_writable_executable_regions m = 1 \<and> mi_status m = ''address_overflow''"
    by code_simp
  then obtain m where m: "inspect_process_memory (\<lambda>_. Inr sample_regions) 7 = Inr m"
    "mi_writable_executable_regions m = 1" "mi_status m = ''address_overflow''"
    by (auto split: sum.splits)
  with memory_inspection_bounded [OF m(1)] show ?thesis by simp
qed

end
