(* ===== verification/OG_FileMonitor.thy ===== *)
theory OG_FileMonitor
  imports OG_Collect OG_Chain
begin

text \<open>
  The file monitor (\<^verbatim>\<open>openguard-windows/src/file_monitor.rs\<close>): a bounded queue of notifications, a
  baseline of file fingerprints made by a thread of its own, and the reconciliation that compares
  the files with the baseline when notifications were lost.

  What the file system answers is the world of one call: canonical paths, metadata, directory
  listings, the USN journal cursor, the clock and the iteration order of the maps.  A listing that
  never ends is possible for the model, so the enumeration has fuel, and \<open>None\<close> is a call that does
  not return.
\<close>

section \<open>Data\<close>

definition FILE_EVENT_CAPACITY :: nat where "FILE_EVENT_CAPACITY = 4096"
definition MAX_RECONCILE_FILES :: nat where "MAX_RECONCILE_FILES = 50000"

record file_activity =
  fa_action :: string
  fa_path :: string
  fa_source :: string
  fa_observed_at :: string

record usn_checkpoint =
  us_journal_id :: u64
  us_first_usn :: int
  us_next_usn :: int

record file_fingerprint =
  fp_length :: u64
  fp_modified :: u64

type_synonym file_baseline = "(string \<times> file_fingerprint) list"

record file_monitor_snapshot =
  fx_events :: "file_activity list"
  fx_dropped :: u64
  fx_reconciled :: bool
  fx_journal_changed :: bool
  fx_checkpoint :: "usn_checkpoint option"

text \<open>\<open>fm_enumerated\<close> is what the baseline thread has sent, once it has.\<close>

record file_monitor =
  fm_queue :: "file_activity list"
  fm_dropped :: u64
  fm_roots :: "string list"
  fm_baseline :: file_baseline
  fm_enumerated :: "file_baseline option"
  fm_baseline_ready :: bool
  fm_prebaseline :: "file_activity list"
  fm_pending_reconcile :: bool
  fm_previous_dropped :: u64
  fm_checkpoint :: "usn_checkpoint option"

text \<open>A directory with the flag of a symbolic link, a file, or something else; \<open>None\<close> has no metadata.\<close>

datatype dir_entry = EntryDir bool | EntryFile file_fingerprint | EntryOther

record file_world =
  fw_canonical :: "string \<Rightarrow> string option"
  fw_is_dir :: "string \<Rightarrow> bool"
  fw_file :: "string \<Rightarrow> file_fingerprint option"
  fw_read_dir :: "string \<Rightarrow> (string \<times> dir_entry option) list option"
  fw_usn :: "string \<Rightarrow> usn_checkpoint option"
  fw_timestamp :: string
  fw_order :: "file_baseline \<Rightarrow> file_baseline"

definition normalized :: "file_world \<Rightarrow> string \<Rightarrow> string" where
  "normalized w path = (case fw_canonical w path of None \<Rightarrow> path | Some p \<Rightarrow> p)"

section \<open>Notifications\<close>

datatype event_kind = EventCreate | EventModify | EventRemove | EventAccess | EventOther

definition event_action_text :: "event_kind \<Rightarrow> string option" where
  "event_action_text k =
     (case k of EventCreate \<Rightarrow> Some ''created'' | EventModify \<Rightarrow> Some ''modified''
      | EventRemove \<Rightarrow> Some ''removed'' | EventAccess \<Rightarrow> None | EventOther \<Rightarrow> Some ''changed'')"

definition enqueue_path :: "string \<Rightarrow> string \<Rightarrow> string \<Rightarrow> file_monitor \<Rightarrow> file_monitor" where
  "enqueue_path now action path m =
     (if length (fm_queue m) < FILE_EVENT_CAPACITY
      then m\<lparr>fm_queue := fm_queue m @ [\<lparr>fa_action = action, fa_path = path,
             fa_source = ''read_directory_changes'', fa_observed_at = now\<rparr>]\<rparr>
      else m\<lparr>fm_dropped := fm_dropped m + 1\<rparr>)"

definition enqueue_event :: "string \<Rightarrow> event_kind \<Rightarrow> string list \<Rightarrow> file_monitor \<Rightarrow> file_monitor" where
  "enqueue_event now kind paths m =
     (case event_action_text kind of None \<Rightarrow> m
      | Some action \<Rightarrow> fold (enqueue_path now action) paths m)"

text \<open>The watcher's callback: an error of the watcher counts as a lost notification.\<close>

definition watcher_callback ::
  "string \<Rightarrow> (unit + event_kind \<times> string list) \<Rightarrow> file_monitor \<Rightarrow> file_monitor" where
  "watcher_callback now r m =
     (case r of Inr (kind, paths) \<Rightarrow> enqueue_event now kind paths m
      | Inl _ \<Rightarrow> m\<lparr>fm_dropped := fm_dropped m + 1\<rparr>)"

section \<open>Enumeration and baseline\<close>

text \<open>One directory: the result stops growing at 50,000 files, which ends the whole enumeration.\<close>

fun enumerate_entries ::
  "file_world \<Rightarrow> (string \<times> dir_entry option) list \<Rightarrow> string list \<Rightarrow> file_baseline
   \<Rightarrow> bool \<times> string list \<times> file_baseline" where
  "enumerate_entries w [] pending result = (True, pending, result)"
| "enumerate_entries w ((path, entry) # rest) pending result =
     (if MAX_RECONCILE_FILES \<le> length result then (False, pending, result)
      else (case entry of
          Some (EntryDir symlink) \<Rightarrow>
            enumerate_entries w rest (if symlink then pending else path # pending) result
        | Some (EntryFile f) \<Rightarrow>
            enumerate_entries w rest pending (AList.update (normalized w path) f result)
        | _ \<Rightarrow> enumerate_entries w rest pending result))"

fun enumerate_loop ::
  "nat \<Rightarrow> file_world \<Rightarrow> string list \<Rightarrow> file_baseline \<Rightarrow> file_baseline option" where
  "enumerate_loop fuel w [] result = Some result"
| "enumerate_loop 0 w (directory # pending) result = None"
| "enumerate_loop (Suc fuel) w (directory # pending) result =
     (case fw_read_dir w directory of
        None \<Rightarrow> enumerate_loop fuel w pending result
      | Some entries \<Rightarrow>
          (case enumerate_entries w entries pending result of
             (True, pending, result) \<Rightarrow> enumerate_loop fuel w pending result
           | (False, _, result) \<Rightarrow> Some result))"

text \<open>\<^verbatim>\<open>pending.pop()\<close> takes the last root first.\<close>

definition enumerate :: "nat \<Rightarrow> file_world \<Rightarrow> string list \<Rightarrow> file_baseline option" where
  "enumerate fuel w roots = enumerate_loop fuel w (rev roots) []"

definition update_event :: "file_world \<Rightarrow> file_activity \<Rightarrow> file_baseline \<Rightarrow> file_baseline" where
  "update_event w e baseline =
     (let path = normalized w (fa_path e) in
      if fa_action e = ''removed'' then AList.delete path baseline
      else (case fw_file w path of None \<Rightarrow> baseline | Some f \<Rightarrow> AList.update path f baseline))"

definition update_baseline :: "file_world \<Rightarrow> file_activity list \<Rightarrow> file_baseline \<Rightarrow> file_baseline" where
  "update_baseline w events baseline = fold (update_event w) events baseline"

section \<open>Starting\<close>

fun distinct_roots :: "file_world \<Rightarrow> string list \<Rightarrow> string list \<Rightarrow> string list" where
  "distinct_roots w [] seen = []"
| "distinct_roots w (r # rs) seen =
     (if \<not> fw_is_dir w r \<or> normalized w r \<in> set seen then distinct_roots w rs seen
      else r # distinct_roots w rs (normalized w r # seen))"

text \<open>\<open>watch\<close> is what the notification library answers for the watcher and for each root.\<close>

fun watch_roots :: "(string \<Rightarrow> string + unit) \<Rightarrow> string list \<Rightarrow> string + unit" where
  "watch_roots watch [] = Inr ()"
| "watch_roots watch (r # rs) =
     and_then (map_err (\<lambda>e. ''watch '' @ r @ '': '' @ e) (watch r)) (\<lambda>_. watch_roots watch rs)"

definition first_checkpoint :: "file_world \<Rightarrow> string list \<Rightarrow> usn_checkpoint option" where
  "first_checkpoint w roots = (case roots of [] \<Rightarrow> None | r # _ \<Rightarrow> fw_usn w r)"

definition file_monitor_start ::
  "file_world \<Rightarrow> (string + unit) \<Rightarrow> (string \<Rightarrow> string + unit) \<Rightarrow> string list \<Rightarrow> string + file_monitor" where
  "file_monitor_start w watcher watch requested =
     (let roots = distinct_roots w requested [] in
      if roots = [] then Inl ''no file-monitor roots are available''
      else and_then (map_err (\<lambda>e. ''create file watcher: '' @ e) watcher) (\<lambda>_.
        and_then (watch_roots watch roots) (\<lambda>_.
          Inr \<lparr>fm_queue = [], fm_dropped = 0, fm_roots = roots, fm_baseline = [], fm_enumerated = None,
               fm_baseline_ready = False, fm_prebaseline = [], fm_pending_reconcile = False,
               fm_previous_dropped = 0, fm_checkpoint = first_checkpoint w roots\<rparr>)))"

text \<open>The baseline thread, when it was started and has finished.\<close>

definition baseline_thread :: "nat \<Rightarrow> file_world \<Rightarrow> file_monitor \<Rightarrow> file_monitor option" where
  "baseline_thread fuel w m =
     map_option (\<lambda>b. m\<lparr>fm_enumerated := Some b\<rparr>) (enumerate fuel w (fm_roots m))"

section \<open>Reconciliation\<close>

definition reconciled_activity :: "string \<Rightarrow> string \<Rightarrow> string \<Rightarrow> file_activity" where
  "reconciled_activity now action path =
     \<lparr>fa_action = action, fa_path = path, fa_source = ''reconciliation'', fa_observed_at = now\<rparr>"

definition file_change :: "file_baseline \<Rightarrow> string \<times> file_fingerprint \<Rightarrow> string option" where
  "file_change baseline entry =
     (case map_of baseline (fst entry) of
        None \<Rightarrow> Some ''created''
      | Some previous \<Rightarrow> if previous \<noteq> snd entry then Some ''modified'' else None)"

text \<open>The first loop tests its limit after every file, changed or not.\<close>

fun changed_files ::
  "string \<Rightarrow> nat \<Rightarrow> file_baseline \<Rightarrow> (string \<times> file_fingerprint) list \<Rightarrow> file_activity list
   \<Rightarrow> file_activity list" where
  "changed_files now limit baseline [] events = events"
| "changed_files now limit baseline (entry # rest) events =
     (let events = (case file_change baseline entry of None \<Rightarrow> events
                    | Some action \<Rightarrow> events @ [reconciled_activity now action (fst entry)]) in
      if limit \<le> length events then events else changed_files now limit baseline rest events)"

fun removed_files :: "string \<Rightarrow> nat \<Rightarrow> string list \<Rightarrow> file_activity list \<Rightarrow> file_activity list" where
  "removed_files now limit [] events = events"
| "removed_files now limit (path # rest) events =
     (let events = events @ [reconciled_activity now ''removed'' path] in
      if limit \<le> length events then events else removed_files now limit rest events)"

definition reconcile_with :: "file_world \<Rightarrow> nat \<Rightarrow> file_baseline \<Rightarrow> file_monitor \<Rightarrow> file_activity list \<times> file_monitor" where
  "reconcile_with w limit current m =
     (let events = changed_files (fw_timestamp w) limit (fm_baseline m) (fw_order w current) [];
          gone = filter (\<lambda>path. map_of current path = None) (map fst (fw_order w (fm_baseline m)));
          events = (if length events < limit then removed_files (fw_timestamp w) limit gone events else events)
      in (events, m\<lparr>fm_baseline := current\<rparr>))"

definition reconcile ::
  "nat \<Rightarrow> file_world \<Rightarrow> nat \<Rightarrow> file_monitor \<Rightarrow> (file_activity list \<times> file_monitor) option" where
  "reconcile fuel w limit m =
     map_option (\<lambda>current. reconcile_with w limit current m) (enumerate fuel w (fm_roots m))"

section \<open>Draining\<close>

definition receive_baseline :: "file_world \<Rightarrow> file_monitor \<Rightarrow> file_monitor" where
  "receive_baseline w m =
     (if fm_baseline_ready m then m
      else (case fm_enumerated m of
          None \<Rightarrow> m
        | Some b \<Rightarrow> m\<lparr>fm_enumerated := None, fm_baseline := update_baseline w (fm_prebaseline m) b,
                      fm_prebaseline := [], fm_baseline_ready := True\<rparr>))"

definition journal_moved :: "usn_checkpoint option \<Rightarrow> usn_checkpoint option \<Rightarrow> bool" where
  "journal_moved previous current =
     (case (previous, current) of
        (Some p, Some c) \<Rightarrow> us_journal_id p \<noteq> us_journal_id c \<or> us_next_usn p < us_first_usn c
      | _ \<Rightarrow> False)"

definition file_monitor_drain ::
  "nat \<Rightarrow> file_world \<Rightarrow> nat \<Rightarrow> file_monitor \<Rightarrow> (file_monitor_snapshot \<times> file_monitor) option" where
  "file_monitor_drain fuel w limit m =
     (let n = min (max limit 1) 4096;
          events = take n (fm_queue m);
          m = receive_baseline w (m\<lparr>fm_queue := drop n (fm_queue m)\<rparr>);
          dropped = fm_dropped m;
          current = first_checkpoint w (fm_roots m);
          changed = journal_moved (fm_checkpoint m) current;
          m = (if fm_previous_dropped m < dropped \<or> changed then m\<lparr>fm_pending_reconcile := True\<rparr> else m);
          needs = fm_pending_reconcile m \<and> fm_baseline_ready m;
          finish = (\<lambda>(events, m).
            let m = m\<lparr>fm_previous_dropped := dropped,
                      fm_checkpoint := (case current of None \<Rightarrow> fm_checkpoint m | Some c \<Rightarrow> Some c)\<rparr> in
            (\<lparr>fx_events = events, fx_dropped = dropped, fx_reconciled = needs,
              fx_journal_changed = changed, fx_checkpoint = fm_checkpoint m\<rparr>, m)) in
      if needs then
        (case reconcile fuel w (limit - length events) m of
           None \<Rightarrow> None
         | Some (found, m) \<Rightarrow> Some (finish (events @ found, m\<lparr>fm_pending_reconcile := False\<rparr>)))
      else if fm_baseline_ready m then
        Some (finish (events, m\<lparr>fm_baseline := update_baseline w events (fm_baseline m)\<rparr>))
      else
        Some (finish (events, m\<lparr>fm_prebaseline := fm_prebaseline m
                 @ take (4096 - length (fm_prebaseline m)) events\<rparr>)))"

section \<open>Enumeration is bounded and ends\<close>

definition baseline_ok :: "file_baseline \<Rightarrow> bool" where
  "baseline_ok b \<longleftrightarrow> length b \<le> MAX_RECONCILE_FILES \<and> distinct (map fst b)"

lemma enumerate_entries_ok:
  "baseline_ok result \<Longrightarrow> baseline_ok (snd (snd (enumerate_entries w entries pending result)))"
proof (induction w entries pending result rule: enumerate_entries.induct)
  case (2 w path entry rest pending result)
  show ?case
  proof (cases "MAX_RECONCILE_FILES \<le> length result")
    case True
    with 2 show ?thesis by simp
  next
    case False
    then have "baseline_ok (AList.update (normalized w path) f result)" for f
      using 2 length_update_le [of "normalized w path" f result]
      by (simp add: baseline_ok_def distinct_update)
    with 2 False show ?thesis by (auto split: option.splits dir_entry.splits)
  qed
qed simp

lemma enumerate_loop_ok:
  "baseline_ok result \<Longrightarrow> enumerate_loop fuel w pending result = Some b \<Longrightarrow> baseline_ok b"
proof (induction fuel w pending result rule: enumerate_loop.induct)
  case (3 fuel w directory pending result)
  show ?case
  proof (cases "fw_read_dir w directory")
    case None
    with 3 show ?thesis by simp
  next
    case (Some entries)
    obtain c ps r where e: "enumerate_entries w entries pending result = (c, ps, r)" by (metis prod_cases3)
    with enumerate_entries_ok [OF 3(3), of w entries pending] have "baseline_ok r" by simp
    with 3 Some e show ?thesis by (cases c) auto
  qed
qed simp_all

lemma enumerate_ok: "enumerate fuel w roots = Some b \<Longrightarrow> baseline_ok b"
  unfolding enumerate_def by (erule enumerate_loop_ok [rotated]) (simp add: baseline_ok_def)

text \<open>Directories that are entered from a listing.\<close>

definition subdirectories :: "(string \<times> dir_entry option) list \<Rightarrow> string list" where
  "subdirectories entries = map fst (filter (\<lambda>(_, e). e = Some (EntryDir False)) entries)"

text \<open>A listing of finite depth: every directory weighs more than those in it together.\<close>

definition weighed :: "file_world \<Rightarrow> (string \<Rightarrow> nat) \<Rightarrow> bool" where
  "weighed w weight \<longleftrightarrow> (\<forall>d. 0 < weight d) \<and> (\<forall>d entries. fw_read_dir w d = Some entries
     \<longrightarrow> sum_list (map weight (subdirectories entries)) < weight d)"

lemma enumerate_entries_weight:
  "enumerate_entries w entries pending result = (True, ps, r) \<Longrightarrow>
     sum_list (map weight ps) = sum_list (map weight pending) + sum_list (map weight (subdirectories entries))"
  for weight :: "string \<Rightarrow> nat"
proof (induction w entries pending result arbitrary: ps r rule: enumerate_entries.induct)
  case (2 w path entry rest pending result)
  then show ?case
    by (auto simp: subdirectories_def split: if_splits option.splits dir_entry.splits)
qed (simp add: subdirectories_def)

lemma enumerate_loop_ends:
  "weighed w weight \<Longrightarrow> sum_list (map weight pending) \<le> fuel \<Longrightarrow> \<exists>b. enumerate_loop fuel w pending result = Some b"
proof (induction fuel w pending result rule: enumerate_loop.induct)
  case (2 w directory pending result)
  have "0 < weight directory" using 2(1) unfolding weighed_def by blast
  with 2(2) show ?case by simp
next
  case (3 fuel w directory pending result)
  have pos: "0 < weight directory" using 3(3) by (simp add: weighed_def)
  show ?case
  proof (cases "fw_read_dir w directory")
    case None
    with 3 pos show ?thesis by simp
  next
    case (Some entries)
    obtain c ps r where e: "enumerate_entries w entries pending result = (c, ps, r)" by (metis prod_cases3)
    show ?thesis
    proof (cases c)
      case True
      have "sum_list (map weight (subdirectories entries)) < weight directory"
        using 3(3) Some by (simp add: weighed_def)
      with enumerate_entries_weight [of w entries pending result ps r weight] e True 3(4)
      have "sum_list (map weight ps) \<le> fuel" by simp
      with 3(2) [OF Some e [symmetric] _ _ 3(3)] True show ?thesis by (simp add: Some e)
    next
      case False
      with Some e show ?thesis by simp
    qed
  qed
qed simp_all

lemma enumerate_ends:
  "weighed w weight \<Longrightarrow> sum_list (map weight roots) \<le> fuel \<Longrightarrow> \<exists>b. enumerate fuel w roots = Some b"
  unfolding enumerate_def by (rule enumerate_loop_ends) (simp_all add: rev_map [symmetric])

text \<open>More fuel changes nothing, so with enough of it the result of a drain is its result without a limit.\<close>

lemma enumerate_loop_more: "enumerate_loop n w pending result = Some b \<Longrightarrow> n \<le> k \<Longrightarrow> enumerate_loop k w pending result = Some b"
proof (induction n w pending result arbitrary: k rule: enumerate_loop.induct)
  case (3 fuel w directory pending result)
  from "3.prems"(2) obtain j where k: "k = Suc j" "fuel \<le> j" by (cases k) auto
  show ?case
  proof (cases "fw_read_dir w directory")
    case None
    with 3 k show ?thesis by simp
  next
    case (Some entries)
    obtain c ps r where e: "enumerate_entries w entries pending result = (c, ps, r)" by (metis prod_cases3)
    show ?thesis
    proof (cases c)
      case True
      with "3.prems"(1) have "enumerate_loop fuel w ps r = Some b" by (simp add: Some e)
      with "3.IH"(2) [OF Some e [symmetric] _ _ _ k(2)] True show ?thesis by (simp add: k(1) Some e)
    next
      case False
      with "3.prems"(1) show ?thesis by (simp add: k(1) Some e)
    qed
  qed
qed simp_all

lemma enumerate_more: "enumerate n w roots = Some b \<Longrightarrow> n \<le> k \<Longrightarrow> enumerate k w roots = Some b"
  unfolding enumerate_def by (rule enumerate_loop_more)

lemma receive_baseline_roots [simp]: "fm_roots (receive_baseline w m) = fm_roots m"
  by (simp add: receive_baseline_def split: option.split)

lemma drain_fuel:
  assumes "enumerate n w (fm_roots m) = Some b" "n \<le> k"
  shows "file_monitor_drain k w limit m = file_monitor_drain n w limit m \<and> file_monitor_drain n w limit m \<noteq> None"
proof -
  have r: "reconcile n w l t = Some (reconcile_with w l b t)" "reconcile k w l t = Some (reconcile_with w l b t)"
    if "fm_roots t = fm_roots m" for l t
    using that assms(1) enumerate_more [OF assms] by (simp_all add: reconcile_def)
  let ?t = "receive_baseline w (m\<lparr>fm_queue := drop (min (max limit 1) 4096) (fm_queue m)\<rparr>)"
  show ?thesis
    unfolding file_monitor_drain_def
    by (cases "fm_previous_dropped ?t < fm_dropped ?t \<or> journal_moved (fm_checkpoint ?t) (first_checkpoint w (fm_roots ?t))")
      (simp_all add: Let_def r case_prod_beta)
qed

text \<open>A monitor whose baseline has not arrived does not reconcile, so a drain needs no fuel.\<close>

lemma drain_unready:
  assumes "\<not> fm_baseline_ready m" "fm_enumerated m = None"
  shows "file_monitor_drain k w limit m = file_monitor_drain n w limit m \<and> file_monitor_drain n w limit m \<noteq> None"
proof -
  have "receive_baseline w (m\<lparr>fm_queue := q\<rparr>) = m\<lparr>fm_queue := q\<rparr>" for q
    using assms by (simp add: receive_baseline_def)
  with assms(1) show ?thesis
    unfolding file_monitor_drain_def
    by (cases "fm_previous_dropped m < fm_dropped m \<or> journal_moved (fm_checkpoint m) (first_checkpoint w (fm_roots m))")
      (simp_all add: Let_def)
qed

lemma started_unready: "file_monitor_start w watcher watch requested = Inr m \<Longrightarrow> \<not> fm_baseline_ready m \<and> fm_enumerated m = None"
  by (auto simp: file_monitor_start_def Let_def result_iffs split: if_splits)

section \<open>Reconciliation reports the differences\<close>

definition differences :: "file_world \<Rightarrow> file_baseline \<Rightarrow> file_baseline \<Rightarrow> file_activity list" where
  "differences w baseline current =
     concat (map (\<lambda>entry. case file_change baseline entry of None \<Rightarrow> []
               | Some action \<Rightarrow> [reconciled_activity (fw_timestamp w) action (fst entry)]) (fw_order w current))
     @ map (reconciled_activity (fw_timestamp w) ''removed'')
         (filter (\<lambda>path. map_of current path = None) (map fst (fw_order w baseline)))"

lemma changed_files_take:
  "length events < limit \<Longrightarrow> changed_files now limit baseline entries events
     = take limit (events @ concat (map (\<lambda>entry. case file_change baseline entry of None \<Rightarrow> []
         | Some action \<Rightarrow> [reconciled_activity now action (fst entry)]) entries))"
proof (induction now limit baseline entries events rule: changed_files.induct)
  case (2 now limit baseline entry rest events)
  show ?case
  proof (cases "file_change baseline entry")
    case None
    with 2 show ?thesis by simp
  next
    case (Some action)
    with 2 show ?thesis by (cases "limit = Suc (length events)") (simp_all add: Let_def not_le)
  qed
qed simp

lemma removed_files_take:
  "length events < limit \<Longrightarrow> removed_files now limit paths events
     = take limit (events @ map (reconciled_activity now ''removed'') paths)"
proof (induction now limit paths events rule: removed_files.induct)
  case (2 now limit path rest events)
  then show ?case by (cases "limit = Suc (length events)") (simp_all add: Let_def not_le)
qed simp

text \<open>The two loops with their limit are a prefix of the differences.\<close>

lemma reconcile_with_differences:
  assumes "0 < limit"
  shows "reconcile_with w limit current m
    = (take limit (differences w (fm_baseline m) current), m\<lparr>fm_baseline := current\<rparr>)"
proof -
  define changes where "changes = concat (map (\<lambda>entry. case file_change (fm_baseline m) entry of None \<Rightarrow> []
      | Some action \<Rightarrow> [reconciled_activity (fw_timestamp w) action (fst entry)]) (fw_order w current))"
  have c: "changed_files (fw_timestamp w) limit (fm_baseline m) (fw_order w current) [] = take limit changes"
    using assms changed_files_take [of "[]" limit] by (simp add: changes_def)
  show ?thesis
  proof (cases "length changes < limit")
    case True
    then show ?thesis
      unfolding reconcile_with_def c differences_def changes_def [symmetric] Let_def
      by (simp add: removed_files_take)
  next
    case False
    then show ?thesis
      unfolding reconcile_with_def c differences_def changes_def [symmetric] Let_def by simp
  qed
qed

lemma file_change_iff:
  "distinct (map fst current) \<Longrightarrow> entry \<in> set current \<Longrightarrow>
     file_change baseline entry \<noteq> None \<longleftrightarrow> map_of baseline (fst entry) \<noteq> map_of current (fst entry)"
proof -
  assume "distinct (map fst current)" "entry \<in> set current"
  then have "map_of current (fst entry) = Some (snd entry)" by (intro map_of_is_SomeI) simp_all
  then show ?thesis by (simp add: file_change_def split: option.splits)
qed

text \<open>A path is among the differences exactly when baseline and files disagree about it.\<close>

lemma differences_iff:
  assumes "rearranges (fw_order w)" "distinct (map fst current)"
  shows "path \<in> fa_path ` set (differences w baseline current) \<longleftrightarrow> map_of baseline path \<noteq> map_of current path"
    (is "?l \<longleftrightarrow> ?r")
proof -
  have set: "set (fw_order w xs) = set xs" for xs using assms(1) by (simp add: rearranges_def)
  have paths: "fa_path ` set (concat (map (\<lambda>entry. case file_change baseline entry of None \<Rightarrow> []
        | Some action \<Rightarrow> [reconciled_activity now action (fst entry)]) entries))
      = fst ` set (filter (\<lambda>entry. file_change baseline entry \<noteq> None) entries)" for now entries
  proof (induction entries)
    case (Cons e es)
    then show ?case by (cases "file_change baseline e") (simp_all add: reconciled_activity_def)
  qed simp
  have gone: "fa_path ` set (map (reconciled_activity now ''removed'') ps) = set ps" for now ps
    by (auto simp: reconciled_activity_def image_iff)
  have "?l \<longleftrightarrow> (\<exists>entry \<in> set current. file_change baseline entry \<noteq> None \<and> fst entry = path)
      \<or> path \<in> fst ` set baseline \<and> map_of current path = None"
    unfolding differences_def set_append image_Un paths gone by (auto simp: set)
  also have "\<dots> \<longleftrightarrow> path \<in> fst ` set current \<and> map_of baseline path \<noteq> map_of current path
      \<or> path \<in> fst ` set baseline \<and> map_of current path = None"
    using file_change_iff [OF assms(2)] by (auto simp: image_iff)
  also have "\<dots> \<longleftrightarrow> ?r"
    using map_of_eq_None_iff [of current path] map_of_eq_None_iff [of baseline path] by metis
  finally show ?thesis .
qed

section \<open>Enumeration finds every file that can be listed\<close>

text \<open>
  The directories that listings lead to, from the roots on, and the files in them: a directory that
  cannot be read and an entry without metadata contribute nothing, and links are not followed.
\<close>

inductive listed_dir :: "file_world \<Rightarrow> string list \<Rightarrow> string \<Rightarrow> bool" for w roots where
  listed_root: "d \<in> set roots \<Longrightarrow> listed_dir w roots d"
| listed_sub: "listed_dir w roots d \<Longrightarrow> fw_read_dir w d = Some entries \<Longrightarrow> p \<in> set (subdirectories entries)
    \<Longrightarrow> listed_dir w roots p"

definition listed_in :: "file_world \<Rightarrow> (string \<times> dir_entry option) list \<Rightarrow> (string \<times> file_fingerprint) set" where
  "listed_in w entries = {(normalized w p, f) | p f. (p, Some (EntryFile f)) \<in> set entries}"

definition listed_files :: "file_world \<Rightarrow> string list \<Rightarrow> (string \<times> file_fingerprint) set" where
  "listed_files w roots = {x. \<exists>d entries. listed_dir w roots d \<and> fw_read_dir w d = Some entries \<and> x \<in> listed_in w entries}"

lemma listed_dir_Nil: "\<not> listed_dir w [] d"
proof
  assume "listed_dir w [] d"
  then show False by induction simp_all
qed

lemma listed_dir_mono: "listed_dir w rs d \<Longrightarrow> \<forall>r \<in> set rs. listed_dir w rs' r \<Longrightarrow> listed_dir w rs' d"
  by (induction rule: listed_dir.induct) (auto intro: listed_sub)

lemma listed_dir_Cons:
  assumes "fw_read_dir w d = Some entries"
  shows "listed_dir w (d # ds) p \<longleftrightarrow> p = d \<or> listed_dir w (subdirectories entries @ ds) p"
proof
  assume "listed_dir w (d # ds) p"
  then show "p = d \<or> listed_dir w (subdirectories entries @ ds) p"
    by induction (auto simp: assms intro: listed_dir.intros)
next
  have "listed_dir w (d # ds) d" by (rule listed_root) simp
  then have "\<forall>r \<in> set (subdirectories entries @ ds). listed_dir w (d # ds) r"
    using assms by (auto intro: listed_dir.intros)
  then show "p = d \<or> listed_dir w (subdirectories entries @ ds) p \<Longrightarrow> listed_dir w (d # ds) p"
    using \<open>listed_dir w (d # ds) d\<close> listed_dir_mono by blast
qed

lemma listed_dir_unreadable:
  assumes "fw_read_dir w d = None"
  shows "listed_dir w (d # ds) p \<longleftrightarrow> p = d \<or> listed_dir w ds p"
proof
  assume "listed_dir w (d # ds) p"
  then show "p = d \<or> listed_dir w ds p"
    by induction (auto simp: assms intro: listed_dir.intros)
next
  have "\<forall>r \<in> set (d # ds). listed_dir w (d # ds) r" using listed_root by blast
  then show "p = d \<or> listed_dir w ds p \<Longrightarrow> listed_dir w (d # ds) p"
    using listed_dir_mono [of w ds p "d # ds"] by auto
qed

lemma listed_files_Cons:
  "listed_files w (d # ds) = (case fw_read_dir w d of None \<Rightarrow> listed_files w ds
     | Some entries \<Rightarrow> listed_in w entries \<union> listed_files w (subdirectories entries @ ds))"
proof (cases "fw_read_dir w d")
  case None
  then show ?thesis by (auto simp: listed_files_def listed_dir_unreadable)
next
  case (Some entries)
  then show ?thesis by (fastforce simp: listed_files_def listed_dir_Cons [OF Some])
qed

lemma listed_files_set: "set ds = set ds' \<Longrightarrow> listed_files w ds = listed_files w ds'"
proof -
  assume "set ds = set ds'"
  then have "listed_dir w ds d \<longleftrightarrow> listed_dir w ds' d" for d
    by (metis listed_dir_mono listed_root)
  then show ?thesis by (simp add: listed_files_def)
qed

lemma listed_files_Nil [simp]: "listed_files w [] = {}"
  by (simp add: listed_files_def listed_dir_Nil)

lemma finite_listed_in: "finite (listed_in w entries)"
proof -
  have "listed_in w entries \<subseteq> (\<lambda>(p, e). (normalized w p, case e of Some (EntryFile f) \<Rightarrow> f)) ` set entries"
    by (force simp: listed_in_def)
  then show ?thesis by (rule finite_subset) simp
qed

text \<open>A directory tree of finite depth has finitely many files.\<close>

lemma finite_listed_files: "weighed w weight \<Longrightarrow> sum_list (map weight ds) \<le> n \<Longrightarrow> finite (listed_files w ds)"
proof (induction n arbitrary: ds)
  case 0
  show ?case
  proof (cases ds)
    case (Cons d rest)
    have "0 < weight d" using 0 by (simp add: weighed_def)
    with 0 Cons show ?thesis by simp
  qed simp
next
  case (Suc n)
  show ?case
  proof (cases ds)
    case (Cons d rest)
    have "0 < weight d" using Suc.prems(1) by (simp add: weighed_def)
    show ?thesis
    proof (cases "fw_read_dir w d")
      case None
      with Suc Cons \<open>0 < weight d\<close> show ?thesis by (simp add: listed_files_Cons)
    next
      case (Some entries)
      then have "sum_list (map weight (subdirectories entries)) < weight d"
        using Suc.prems(1) by (simp add: weighed_def)
      with Suc Cons have "finite (listed_files w (subdirectories entries @ rest))" by simp
      with Some Cons show ?thesis by (simp add: listed_files_Cons finite_listed_in)
    qed
  qed simp
qed

text \<open>One directory, when the limit is not reached in it; \<open>g\<close> gives the fingerprint of every file.\<close>

lemma enumerate_entries_keys:
  assumes "enumerate_entries w entries pending result = (c, ps, r)"
    and "\<forall>(p, f) \<in> listed_in w entries. g p = f" "\<forall>(p, f) \<in> set result. g p = f"
  shows "(\<forall>(p, f) \<in> set r. g p = f) \<and> fst ` set result \<subseteq> fst ` set r
    \<and> fst ` set r \<subseteq> fst ` set result \<union> fst ` listed_in w entries
    \<and> (c \<longrightarrow> fst ` set r = fst ` set result \<union> fst ` listed_in w entries
        \<and> set ps = set pending \<union> set (subdirectories entries))
    \<and> (\<not> c \<longrightarrow> MAX_RECONCILE_FILES \<le> length r)"
  using assms
proof (induction entries arbitrary: pending result)
  case Nil
  then show ?case by (auto simp: listed_in_def subdirectories_def)
next
  case (Cons x rest)
  obtain path entry where x: "x = (path, entry)" by force
  have rest: "\<forall>(p, f) \<in> listed_in w rest. g p = f" using Cons.prems(2) by (auto simp: listed_in_def)
  have li: "listed_in w ((path, entry) # rest) = (case entry of Some (EntryFile f) \<Rightarrow> {(normalized w path, f)} | _ \<Rightarrow> {})
      \<union> listed_in w rest" for entry
    by (auto simp: listed_in_def split: option.splits dir_entry.splits)
  have sd: "set (subdirectories ((path, entry) # rest)) = (if entry = Some (EntryDir False) then {path} else {})
      \<union> set (subdirectories rest)" for entry
    by (simp add: subdirectories_def)
  note e = Cons.prems(1) [unfolded x]
  show ?case
  proof (cases "MAX_RECONCILE_FILES \<le> length result")
    case True
    with e have "c = False" "ps = pending" "r = result" by simp_all
    with True Cons.prems(3) show ?thesis by (simp add: le_supI1)
  next
    case False
    show ?thesis
    proof (cases "\<exists>f. entry = Some (EntryFile f)")
      case True
      then obtain f where f: "entry = Some (EntryFile f)" by blast
      let ?r = "AList.update (normalized w path) f result"
      have g: "g (normalized w path) = f" using Cons.prems(2) x f by (auto simp: listed_in_def)
      have "set ?r \<subseteq> insert (normalized w path, f) (set result)" by (induction result) auto
      then have r: "\<forall>(p, f) \<in> set ?r. g p = f" using Cons.prems(3) g by fastforce
      have k: "fst ` set ?r = insert (normalized w path) (fst ` set result)"
        using dom_update [of "normalized w path" f result] by (simp add: dom_map_of_conv_image_fst)
      have "enumerate_entries w rest pending ?r = (c, ps, r)" using e False f by simp
      from Cons.IH [OF this rest r] show ?thesis unfolding x li sd by (simp add: f k)
    next
      case other: False
      define ps' where "ps' = (if entry = Some (EntryDir False) then path # pending else pending)"
      have "enumerate_entries w rest ps' result = (c, ps, r)"
        using e False other by (auto simp: ps'_def split: option.splits dir_entry.splits if_splits)
      from Cons.IH [OF this rest Cons.prems(3)] show ?thesis
        using other unfolding x li sd by (simp add: ps'_def split: option.splits dir_entry.splits)
    qed
  qed
qed

lemma enumerate_loop_keys:
  assumes "enumerate_loop fuel w pending result = Some b"
    and "\<forall>(p, f) \<in> listed_files w pending. g p = f" "\<forall>(p, f) \<in> set result. g p = f"
  shows "(\<forall>(p, f) \<in> set b. g p = f) \<and> fst ` set b \<subseteq> fst ` set result \<union> fst ` listed_files w pending
    \<and> (fst ` set b = fst ` set result \<union> fst ` listed_files w pending \<or> MAX_RECONCILE_FILES \<le> length b)"
  using assms
proof (induction fuel w pending result rule: enumerate_loop.induct)
  case (3 fuel w directory pending result)
  show ?case
  proof (cases "fw_read_dir w directory")
    case None
    with 3 show ?thesis by (simp add: listed_files_Cons)
  next
    case (Some entries)
    obtain c ps r where e: "enumerate_entries w entries pending result = (c, ps, r)" by (metis prod_cases3)
    have lf: "listed_files w (directory # pending) = listed_in w entries \<union> listed_files w (subdirectories entries @ pending)"
      by (simp add: listed_files_Cons Some)
    have "\<forall>(p, f) \<in> listed_in w entries. g p = f" using "3.prems"(2) unfolding lf by auto
    note k = enumerate_entries_keys [OF e this "3.prems"(3)]
    show ?thesis
    proof (cases c)
      case True
      then have ps: "listed_files w ps = listed_files w (subdirectories entries @ pending)"
        using k by (intro listed_files_set) auto
      have "enumerate_loop fuel w ps r = Some b" using "3.prems"(1) by (simp add: Some e True)
      moreover have "\<forall>(p, f) \<in> listed_files w ps. g p = f" using "3.prems"(2) unfolding lf ps by auto
      moreover have "\<forall>(p, f) \<in> set r. g p = f" using k by (rule conjunct1)
      ultimately have "(\<forall>(p, f) \<in> set b. g p = f) \<and> fst ` set b \<subseteq> fst ` set r \<union> fst ` listed_files w ps
          \<and> (fst ` set b = fst ` set r \<union> fst ` listed_files w ps \<or> MAX_RECONCILE_FILES \<le> length b)"
        using "3.IH"(2) [OF Some e [symmetric] _ _] True by simp
      moreover have "fst ` set r = fst ` set result \<union> fst ` listed_in w entries" using k True by simp
      ultimately show ?thesis unfolding lf ps by (simp add: image_Un Un_assoc)
    next
      case False
      with "3.prems"(1) have "b = r" by (simp add: Some e)
      moreover have "fst ` set r \<subseteq> fst ` set result \<union> fst ` listed_in w entries"
        "\<forall>(p, f) \<in> set r. g p = f" "MAX_RECONCILE_FILES \<le> length r"
        using k False by simp_all
      ultimately show ?thesis unfolding lf by (simp add: image_Un le_supI1 Un_assoc [symmetric])
    qed
  qed
qed simp_all

text \<open>
  The enumeration is exact below its limit: when every file has one fingerprint under its canonical
  path, it is a function from exactly the listed paths to their fingerprints.
\<close>

definition one_fingerprint :: "file_world \<Rightarrow> string list \<Rightarrow> bool" where
  "one_fingerprint w roots \<longleftrightarrow> (\<forall>p f f'. (p, f) \<in> listed_files w roots \<longrightarrow> (p, f') \<in> listed_files w roots \<longrightarrow> f = f')"

lemma enumerate_exact:
  assumes "enumerate fuel w roots = Some b" "one_fingerprint w roots"
    and "finite (listed_files w roots)" "card (fst ` listed_files w roots) < MAX_RECONCILE_FILES"
  shows "map_of b p = Some f \<longleftrightarrow> (p, f) \<in> listed_files w roots"
proof -
  let ?F = "listed_files w roots"
  define g where "g p = (SOME f. (p, f) \<in> ?F)" for p
  have g: "g p = f" if "(p, f) \<in> ?F" for p f
    using someI [of "\<lambda>f. (p, f) \<in> ?F", OF that] assms(2) that unfolding g_def one_fingerprint_def by blast
  have rev: "listed_files w (rev roots) = ?F" by (rule listed_files_set) simp
  have "\<forall>(p, f) \<in> listed_files w (rev roots). g p = f" unfolding rev using g by blast
  from enumerate_loop_keys [OF assms(1) [unfolded enumerate_def] this] rev
  have b: "\<forall>(p, f) \<in> set b. g p = f" "fst ` set b \<subseteq> fst ` ?F"
    "fst ` set b = fst ` ?F \<or> MAX_RECONCILE_FILES \<le> length b" by simp_all
  have d: "distinct (map fst b)" using enumerate_ok [OF assms(1)] by (simp add: baseline_ok_def)
  then have "length b = card (fst ` set b)" by (metis distinct_card length_map list.set_map)
  also have "\<dots> \<le> card (fst ` ?F)" using b(2) assms(3) by (intro card_mono) simp_all
  finally have keys: "fst ` set b = fst ` ?F" using b(3) assms(4) by linarith
  show ?thesis
  proof
    assume "map_of b p = Some f"
    then have "(p, f) \<in> set b" by (rule map_of_SomeD)
    then have "g p = f" "p \<in> fst ` ?F" using b(1) keys by force+
    then obtain f' where "(p, f') \<in> ?F" by force
    with g \<open>g p = f\<close> show "(p, f) \<in> ?F" by blast
  next
    assume f: "(p, f) \<in> ?F"
    then have "p \<in> fst ` set b" unfolding keys by force
    then obtain f' where f': "(p, f') \<in> set b" by force
    then have "f' = f" using b(1) g [OF f] by blast
    with f' d show "map_of b p = Some f" by simp
  qed
qed

section \<open>What a drain reports\<close>

lemma drain_reconciles:
  assumes "enumerate fuel w (fm_roots m) = Some current"
    and "fm_pending_reconcile m \<or> fm_previous_dropped m < fm_dropped m
      \<or> journal_moved (fm_checkpoint m) (first_checkpoint w (fm_roots m))"
    and "fm_baseline_ready m" "length (fm_queue m) < limit" "limit \<le> 4096"
  shows "\<exists>s m'. file_monitor_drain fuel w limit m = Some (s, m') \<and> fm_baseline m' = current
    \<and> fx_events s = fm_queue m @ take (limit - length (fm_queue m)) (differences w (fm_baseline m) current)
    \<and> fx_reconciled s \<and> \<not> fm_pending_reconcile m' \<and> fm_queue m' = []"
proof -
  have n: "min (max limit 1) 4096 = limit" using assms(4,5) by simp
  have r: "reconcile_with w (limit - length (fm_queue m)) current p
      = (take (limit - length (fm_queue m)) (differences w (fm_baseline p) current), p\<lparr>fm_baseline := current\<rparr>)" for p
    using assms(4) by (intro reconcile_with_differences) simp
  have q: "take limit (fm_queue m) = fm_queue m" "drop limit (fm_queue m) = []"
    "min (length (fm_queue m)) limit = length (fm_queue m)"
    using assms(4) by simp_all
  show ?thesis
    using assms(2) unfolding file_monitor_drain_def n
    by (cases "fm_pending_reconcile m"; cases "fm_previous_dropped m < fm_dropped m";
        cases "journal_moved (fm_checkpoint m) (first_checkpoint w (fm_roots m))")
      (simp_all add: Let_def q receive_baseline_def assms(1,3) reconcile_def r split: option.split)
qed

text \<open>
  C17. Lost file notifications are made up for, up to the limit.  When notifications were dropped or
  the journal moved on and the baseline is ready, a drain ends if the directory tree is finite.  When
  fewer than 50,000 files can be listed below the watched roots, what it takes for the new baseline
  are exactly those files, and it reports the queued notifications followed by the differences of the
  old baseline to them, cut to the limit: a path is among the differences exactly when the file
  appeared, disappeared from the listings (also because a directory can no longer be read), or has
  another fingerprint.
\<close>

theorem lost_notifications_are_reconciled:
  assumes "weighed w weight" "sum_list (map weight (fm_roots m)) \<le> fuel"
    and "fm_pending_reconcile m \<or> fm_previous_dropped m < fm_dropped m
      \<or> journal_moved (fm_checkpoint m) (first_checkpoint w (fm_roots m))"
    and "fm_baseline_ready m" "length (fm_queue m) < limit" "limit \<le> 4096" "rearranges (fw_order w)"
    and "one_fingerprint w (fm_roots m)"
    and "card (fst ` listed_files w (fm_roots m)) < 50000"
  shows "\<exists>s m' current. file_monitor_drain fuel w limit m = Some (s, m') \<and> fm_baseline m' = current
    \<and> (\<forall>p f. map_of current p = Some f \<longleftrightarrow> (p, f) \<in> listed_files w (fm_roots m))
    \<and> fx_events s = fm_queue m @ take (limit - length (fm_queue m)) (differences w (fm_baseline m) current)
    \<and> fx_reconciled s \<and> \<not> fm_pending_reconcile m' \<and> fm_queue m' = []
    \<and> (\<forall>path. path \<in> fa_path ` set (differences w (fm_baseline m) current)
          \<longleftrightarrow> map_of (fm_baseline m) path \<noteq> map_of current path)"
proof -
  obtain current where current: "enumerate fuel w (fm_roots m) = Some current"
    using enumerate_ends [OF assms(1,2)] by blast
  have cap: "card (fst ` listed_files w (fm_roots m)) < MAX_RECONCILE_FILES"
    using assms(9) by (simp add: MAX_RECONCILE_FILES_def)
  have "distinct (map fst current)" using enumerate_ok [OF current] by (simp add: baseline_ok_def)
  note differences_iff [OF assms(7) this, where baseline = "fm_baseline m"]
  with drain_reconciles [OF current assms(3-6)] enumerate_exact [OF current assms(8) finite_listed_files [OF assms(1,2)] cap]
  show ?thesis by blast
qed

definition sample_file :: "u64 \<Rightarrow> file_fingerprint" where
  "sample_file n = \<lparr>fp_length = n, fp_modified = 0\<rparr>"

definition sample_files :: file_world where
  "sample_files = \<lparr>fw_canonical = (\<lambda>_. None), fw_is_dir = (\<lambda>d. d = ''R''), fw_file = (\<lambda>_. None),
     fw_read_dir = (\<lambda>d. if d = ''R'' then Some [(''a'', Some (EntryFile (sample_file 1))),
        (''b'', Some (EntryFile (sample_file 2))), (''D'', Some (EntryDir False)), (''L'', Some (EntryDir True))]
       else if d = ''D'' then Some [(''c'', Some (EntryFile (sample_file 3)))] else None),
     fw_usn = (\<lambda>_. None), fw_timestamp = ''t'', fw_order = id\<rparr>"

definition sample_monitor :: file_monitor where
  "sample_monitor = \<lparr>fm_queue = [], fm_dropped = 1, fm_roots = [''R''],
     fm_baseline = [(''b'', sample_file 1), (''x'', sample_file 1), (''c'', sample_file 3)], fm_enumerated = None,
     fm_baseline_ready = True, fm_prebaseline = [], fm_pending_reconcile = False, fm_previous_dropped = 0,
     fm_checkpoint = None\<rparr>"

lemma sample_listing:
  "listed_files sample_files [''R''] = {(''a'', sample_file 1), (''b'', sample_file 2), (''c'', sample_file 3)}"
proof -
  have r: "fw_read_dir sample_files ''R'' = Some [(''a'', Some (EntryFile (sample_file 1))),
        (''b'', Some (EntryFile (sample_file 2))), (''D'', Some (EntryDir False)), (''L'', Some (EntryDir True))]"
    "fw_read_dir sample_files ''D'' = Some [(''c'', Some (EntryFile (sample_file 3)))]"
    by (simp_all add: sample_files_def)
  show ?thesis
    by (auto simp: listed_files_Cons r subdirectories_def listed_in_def normalized_def)
      (simp_all add: sample_files_def)
qed

lemma sample_files_weighed: "weighed sample_files (\<lambda>d. if d = ''R'' then 2 else 1)"
  by (auto simp: weighed_def sample_files_def subdirectories_def)

theorem lost_notifications_are_reconciled_witness:
  "(case file_monitor_drain 9 sample_files 3 sample_monitor of
      None \<Rightarrow> False
    | Some (s, m') \<Rightarrow> fx_reconciled s \<and> map fa_path (fx_events s) = [''a'', ''b'', ''x'']
        \<and> map_of (fm_baseline m') ''c'' = Some (sample_file 3))"
proof -
  let ?weight = "\<lambda>d. if d = ''R'' then 2 else (1::nat)"
  have w: "weighed sample_files ?weight" by (rule sample_files_weighed)
  have m: "fm_roots sample_monitor = [''R'']" "fm_baseline_ready sample_monitor" "fm_queue sample_monitor = []"
    "fm_previous_dropped sample_monitor < fm_dropped sample_monitor"
    by (simp_all add: sample_monitor_def)
  have "one_fingerprint sample_files [''R'']"
    by (auto simp: one_fingerprint_def sample_listing)
  from lost_notifications_are_reconciled [where w = sample_files and weight = ?weight and m = sample_monitor
      and fuel = 9 and limit = 3, OF w _ _ _ _ _ _ this [folded m(1)]]
  obtain s m' where d: "file_monitor_drain 9 sample_files 3 sample_monitor = Some (s, m')" "fx_reconciled s"
    "\<forall>p f. map_of (fm_baseline m') p = Some f \<longleftrightarrow> (p, f) \<in> listed_files sample_files [''R'']"
    by (auto simp: m sample_listing sample_files_def [THEN arg_cong [where f = fw_order]] rearranges_def)
  have "map fa_path (fx_events (fst (the (file_monitor_drain 9 sample_files 3 sample_monitor))))
      = [''a'', ''b'', ''x'']" by code_simp
  with d show ?thesis by (simp add: sample_listing)
qed

text \<open>
  What the limit cut off is not made up for later: the files are the baseline now, and a tree that did
  not change again has no differences.  A drain that returns as many notifications as its limit
  leaves room for one difference at most.
\<close>

lemma cut_differences_are_forgotten:
  assumes "rearranges (fw_order w)" "enumerate fuel w roots = Some current"
  shows "differences w current current = []"
  using differences_iff [OF assms(1), of current _ current] enumerate_ok [OF assms(2)]
  by (fastforce simp: baseline_ok_def)

lemma full_drain_reports_one_difference:
  "length (fst (reconcile_with w 0 current m)) \<le> 1 \<and> fm_baseline (snd (reconcile_with w 0 current m)) = current"
  by (cases "fw_order w current") (auto simp: reconcile_with_def Let_def split: option.splits)

text \<open>
  The baseline is keyed by canonical paths, which are verbatim on Windows; the path of a file that is
  gone has no canonical form, so its removal is looked up under another name and the entry stays.
\<close>

lemma removed_file_stays_in_baseline:
  assumes "fw_canonical w (fa_path e) = None" "fa_path e \<notin> fst ` set baseline" "fa_action e = ''removed''"
  shows "update_baseline w [e] baseline = baseline"
  using assms by (simp add: update_baseline_def update_event_def normalized_def delete_id)

end
