(* ===== verification/OG_Activity.thy ===== *)
theory OG_Activity
  imports OG_FileMonitor OG_ScanJobs OG_Updates
begin

text \<open>
  The activity that requests write into the timeline (\<^verbatim>\<open>openguard-service/src/main.rs\<close>): process
  events of the ETW helper, differences between successive snapshots, notifications of the file
  monitors, and the real-time scans that these start on at most two threads.

  The helper's output is JSON, whose parser is a parameter; fresh identifiers, the clock, known
  folders and the iteration order of maps are the world of a call.
\<close>

section \<open>ETW process events\<close>

record etw_event =
  ee_kind :: string
  ee_pid :: u32
  ee_parent_pid :: u32
  ee_image :: string
  ee_command_line :: string

text \<open>The monitor's shared state, its bounded channel and its counters; \<open>em_taken\<close> is a ghost field.\<close>

record etw_monitor =
  em_status :: string
  em_detail :: string
  em_event_count :: u64
  em_queue :: "etw_event list"
  em_dropped :: u64
  em_taken :: "etw_event list"

definition json_str :: "json option \<Rightarrow> string option" where
  "json_str v = (case v of Some (JString s) \<Rightarrow> Some s | _ \<Rightarrow> None)"

text \<open>\<^verbatim>\<open>as_u64().and_then(u32::try_from(..).ok()).unwrap_or_default()\<close>; a \<^verbatim>\<open>u64\<close> number is a \<open>JPosInt\<close>.\<close>

definition json_u32 :: "json option \<Rightarrow> u32" where
  "json_u32 v = (case v of Some (JPosInt n) \<Rightarrow> if n < 2 ^ 32 then of_nat n else 0 | _ \<Rightarrow> 0)"

definition etw_event_of :: "json \<Rightarrow> etw_event" where
  "etw_event_of v =
     (let text = (\<lambda>key. case json_str (json_get key v) of None \<Rightarrow> [] | Some s \<Rightarrow> s) in
      \<lparr>ee_kind = text ''type'', ee_pid = json_u32 (json_get ''pid'' v),
       ee_parent_pid = json_u32 (json_get ''parent_pid'' v), ee_image = text ''image'',
       ee_command_line = text ''command_line''\<rparr>)"

text \<open>One line of the helper; \<open>sending\<close> tells its standard output from its error stream.\<close>

definition etw_line :: "(string \<Rightarrow> json option) \<Rightarrow> bool \<Rightarrow> string \<Rightarrow> etw_monitor \<Rightarrow> etw_monitor" where
  "etw_line parse sending line m =
     (case parse line of
        None \<Rightarrow> m
      | Some v \<Rightarrow>
          if json_str (json_get ''type'' v) \<in> {Some ''start'', Some ''stop''} then
            (let m = m\<lparr>em_event_count := em_event_count m + 1\<rparr> in
             if \<not> sending then m
             else if length (em_queue m) < 4096 then m\<lparr>em_queue := em_queue m @ [etw_event_of v]\<rparr>
             else m\<lparr>em_dropped := em_dropped m + 1\<rparr>)
          else (case json_str (json_get ''status'' v) of
                  None \<Rightarrow> m
                | Some status \<Rightarrow> m\<lparr>em_status := status, em_detail := line\<rparr>))"

definition etw_drain :: "nat \<Rightarrow> etw_monitor \<Rightarrow> etw_event list \<times> etw_monitor" where
  "etw_drain limit m =
     (let n = min (max limit 1) 4096; out = take n (em_queue m) in
      (out, m\<lparr>em_queue := drop n (em_queue m), em_taken := em_taken m @ out\<rparr>))"

definition etw_start :: "string \<Rightarrow> etw_monitor" where
  "etw_start helper =
     \<lparr>em_status = ''starting'', em_detail = ''Starting '' @ helper, em_event_count = 0, em_queue = [],
      em_dropped = 0, em_taken = []\<rparr>"

definition etw_coverage :: "etw_monitor \<Rightarrow> coverage_note" where
  "etw_coverage m =
     \<lparr>cn_source = ''etw_process_events'',
      cn_state = (if em_status m = ''running'' then Active else Limited),
      cn_detail = em_detail m @ ''; '' @ show_nat (unat (em_event_count m)) @ '' process events observed; ''
        @ show_nat (unat (em_dropped m)) @ '' detailed events dropped and reconciled by polling''\<rparr>"

section \<open>State and world\<close>

record activity =
  av_host :: host
  av_mode :: string
  av_etw :: "etw_monitor option"
  av_processes :: "(u32 \<times> string) list"
  av_network :: "(string \<times> network_endpoint) list"
  av_baselined :: bool
  av_monitors :: "(string \<times> file_monitor) list"
  av_reported :: "string list"
  av_slots :: nat
  av_scans :: "(string \<times> string) list"
  av_uuids :: nat

record activity_world =
  aw_uuid :: "nat \<Rightarrow> string"
  aw_timestamp :: string
  aw_process_order :: "(u32 \<times> string) list \<Rightarrow> (u32 \<times> string) list"
  aw_network_order :: "(string \<times> network_endpoint) list \<Rightarrow> (string \<times> network_endpoint) list"
  aw_folders :: "string option list"
  aw_local_app_data :: "string option"
  aw_watcher :: "string + unit"
  aw_watch :: "string \<Rightarrow> string + unit"
  aw_files :: file_world
  aw_metadata :: "string \<Rightarrow> (bool \<times> u64) option"
  aw_canonical :: "string \<Rightarrow> string option"
  aw_scanner :: file_scanner
  aw_scan :: "string \<Rightarrow> scan_world"

text \<open>A statement whose failure is only logged or ignored.\<close>

definition av_store :: "(database \<Rightarrow> 'a \<times> database) \<Rightarrow> activity \<Rightarrow> activity" where
  "av_store f s =
     s\<lparr>av_host := ignoring (db_call (\<lambda>d. case f d of (i, d) \<Rightarrow> (Inr i, d))) (av_host s)\<rparr>"

text \<open>Recording an event whose correlation identifier is a fresh UUID.\<close>

definition record_fresh :: "activity_world \<Rightarrow> string \<Rightarrow> (string \<Rightarrow> timeline_event) \<Rightarrow> activity \<Rightarrow> activity" where
  "record_fresh w owner event s =
     (av_store (record_timeline owner (event (aw_uuid w (av_uuids s)))) s)\<lparr>av_uuids := Suc (av_uuids s)\<rparr>"

text \<open>A middle dot between spaces, in UTF-8.\<close>

definition middle_dot :: string where
  "middle_dot = '' '' @ [CHR 0xC2, CHR 0xB7] @ '' ''"

definition etw_timeline :: "string \<Rightarrow> etw_event \<Rightarrow> string \<Rightarrow> timeline_event" where
  "etw_timeline now e uuid =
     (let action = (if ee_kind e = ''start'' then ''started'' else ''stopped'');
          detail = (if ee_kind e = ''start'' then ''Parent PID '' @ show_nat (unat (ee_parent_pid e))
                    else ''Process stop event from Microsoft-Windows-Kernel-Process'');
          detail = (if ee_command_line e = [] then detail
                    else detail @ middle_dot @ ''Command line: '' @ ee_command_line e) in
      \<lparr>te_id = None, te_category = ''process'', te_action = action, te_severity = Info,
       te_title = ''Process '' @ action @ '': PID '' @ show_nat (unat (ee_pid e)), te_detail = detail,
       te_process_id = Some (ee_pid e), te_path = ee_image e, te_remote_address = [],
       te_correlation_id = uuid, te_occurred_at = now\<rparr>)"

definition drain_etw_activity :: "activity_world \<Rightarrow> activity \<Rightarrow> activity" where
  "drain_etw_activity w s =
     (case av_etw s of
        None \<Rightarrow> s
      | Some m \<Rightarrow>
          (case etw_drain 2048 m of (events, m) \<Rightarrow>
             fold (\<lambda>e s. if ee_pid e = 0 then s else record_fresh w [] (etw_timeline (aw_timestamp w) e) s)
               events (s\<lparr>av_etw := Some m\<rparr>)))"

section \<open>Differences between snapshots\<close>

definition network_timeline_key :: "network_endpoint \<Rightarrow> string" where
  "network_timeline_key e =
     ne_protocol e @ ''|'' @ show_nat (unat (ne_pid e)) @ ''|'' @ ne_local_address e @ ''|''
     @ show_nat (unat (ne_local_port e)) @ ''|'' @ ne_remote_address e @ ''|'' @ show_nat (unat (ne_remote_port e))"

text \<open>The two maps of a snapshot; a later entry of the same key replaces an earlier one.\<close>

definition process_map :: "system_snapshot \<Rightarrow> (u32 \<times> string) list" where
  "process_map s = fold (\<lambda>p. AList.update (pr_pid p) (pr_path p)) (sn_processes s) []"

definition network_map :: "system_snapshot \<Rightarrow> (string \<times> network_endpoint) list" where
  "network_map s = fold (\<lambda>e. AList.update (network_timeline_key e) e)
     (filter (\<lambda>e. ne_remote_port e \<noteq> 0) (sn_endpoints s)) []"

datatype transition =
  ProcessStarted process_record | ProcessStopped u32 string
  | FlowOpened string network_endpoint | FlowClosed string network_endpoint

definition flow_destination :: "network_endpoint \<Rightarrow> string" where
  "flow_destination e =
     (if ne_remote_hostname e = [] then ne_remote_address e
      else ne_remote_hostname e @ '' ('' @ ne_remote_address e @ '')'')"

fun transition_event :: "string \<Rightarrow> transition \<Rightarrow> string \<Rightarrow> timeline_event" where
  "transition_event captured_at (ProcessStarted p) uuid =
     \<lparr>te_id = None, te_category = ''process'', te_action = ''started'', te_severity = ra_severity (pr_risk p),
      te_title = ''Process appeared: '' @ pr_name p,
      te_detail = ''Parent PID '' @ show_nat (unat (pr_parent_pid p)) @ middle_dot
        @ ''command line unavailable in polling fallback'',
      te_process_id = Some (pr_pid p), te_path = pr_path p, te_remote_address = [],
      te_correlation_id = uuid, te_occurred_at = captured_at\<rparr>"
| "transition_event captured_at (ProcessStopped pid path) uuid =
     \<lparr>te_id = None, te_category = ''process'', te_action = ''stopped'', te_severity = Info,
      te_title = ''Process exited: PID '' @ show_nat (unat pid),
      te_detail = ''Detected by bounded process snapshot reconciliation'',
      te_process_id = Some pid, te_path = path, te_remote_address = [],
      te_correlation_id = uuid, te_occurred_at = captured_at\<rparr>"
| "transition_event captured_at (FlowOpened key e) uuid =
     \<lparr>te_id = None, te_category = ''network'', te_action = ''connected'',
      te_severity = (if ne_reputation e = ''malicious'' then High
                     else if ne_reputation e = ''suspicious'' then Medium else Info),
      te_title = ne_process_name e @ '' opened a network flow'',
      te_detail = ne_protocol e @ '' '' @ flow_destination e @ '':'' @ show_nat (unat (ne_remote_port e))
        @ middle_dot @ ''state '' @ ne_state e @ middle_dot @ ''reputation '' @ ne_reputation e,
      te_process_id = Some (ne_pid e), te_path = ne_process_path e, te_remote_address = ne_remote_address e,
      te_correlation_id = uuid, te_occurred_at = captured_at\<rparr>"
| "transition_event captured_at (FlowClosed key e) uuid =
     \<lparr>te_id = None, te_category = ''network'', te_action = ''closed'', te_severity = Info,
      te_title = ne_process_name e @ '' network flow closed'',
      te_detail = ne_protocol e @ '' '' @ ne_remote_address e @ '':'' @ show_nat (unat (ne_remote_port e)),
      te_process_id = Some (ne_pid e), te_path = ne_process_path e, te_remote_address = ne_remote_address e,
      te_correlation_id = uuid, te_occurred_at = captured_at\<rparr>"

text \<open>The four loops in their order; processes are compared only when no ETW monitor reports them.\<close>

definition process_transitions :: "activity_world \<Rightarrow> system_snapshot \<Rightarrow> (u32 \<times> string) list \<Rightarrow> transition list" where
  "process_transitions w s active =
     map ProcessStarted (filter (\<lambda>p. map_of active (pr_pid p) \<noteq> Some (pr_path p)) (sn_processes s))
     @ map (\<lambda>(pid, path). ProcessStopped pid path)
         (filter (\<lambda>(pid, _). map_of (process_map s) pid = None) (aw_process_order w active))"

definition network_transitions ::
  "activity_world \<Rightarrow> system_snapshot \<Rightarrow> (string \<times> network_endpoint) list \<Rightarrow> transition list" where
  "network_transitions w s active =
     map (\<lambda>(key, e). FlowOpened key e)
       (filter (\<lambda>(key, _). map_of active key = None) (aw_network_order w (network_map s)))
     @ map (\<lambda>(key, e). FlowClosed key e)
         (filter (\<lambda>(key, _). map_of (network_map s) key = None) (aw_network_order w active))"

definition snapshot_transitions :: "activity_world \<Rightarrow> system_snapshot \<Rightarrow> activity \<Rightarrow> transition list" where
  "snapshot_transitions w s a =
     (if \<not> av_baselined a then []
      else (if av_etw a = None then process_transitions w s (av_processes a) else [])
           @ network_transitions w s (av_network a))"

definition record_snapshot_transitions ::
  "activity_world \<Rightarrow> string \<Rightarrow> system_snapshot \<Rightarrow> activity \<Rightarrow> activity" where
  "record_snapshot_transitions w owner s a =
     (fold (\<lambda>t. record_fresh w owner (transition_event (sn_captured_at s) t)) (snapshot_transitions w s a) a)
       \<lparr>av_processes := process_map s, av_network := network_map s, av_baselined := True\<rparr>"

section \<open>File activity and real-time scans\<close>

definition REALTIME_EXTENSIONS :: "string list" where
  "REALTIME_EXTENSIONS = [''exe'', ''dll'', ''sys'', ''scr'', ''com'', ''cpl'', ''msi'', ''ps1'', ''psm1'', ''bat'',
     ''cmd'', ''js'', ''jse'', ''vbs'', ''vbe'', ''hta'', ''lnk'']"

definition realtime_scan_candidate :: "string \<Rightarrow> bool" where
  "realtime_scan_candidate path \<longleftrightarrow>
     (case path_extension path of None \<Rightarrow> False
      | Some e \<Rightarrow> to_ascii_lowercase e \<in> set REALTIME_EXTENSIONS)"

text \<open>\<^verbatim>\<open>let _ = thread::Builder::spawn(..)\<close>: the slot was taken before, and a failure is ignored.\<close>

definition schedule_realtime_scan :: "activity_world \<Rightarrow> string \<Rightarrow> string \<Rightarrow> activity \<Rightarrow> activity" where
  "schedule_realtime_scan w owner path s =
     (case aw_metadata w path of
        None \<Rightarrow> s
      | Some (is_file, len) \<Rightarrow>
          if \<not> is_file \<or> 64 * 1024 * 1024 < len \<or> \<not> av_slots s < 2 then s
          else (case plain_call (av_host s) of (r, h) \<Rightarrow>
            (let s = s\<lparr>av_slots := Suc (av_slots s), av_host := h\<rparr> in
             if is_ok r then s\<lparr>av_scans := av_scans s @ [(owner, path)]\<rparr> else s)))"

definition realtime_event :: "scan_finding \<Rightarrow> security_event" where
  "realtime_event f =
     \<lparr>se_id = None, se_event_type = ''realtime_file_detection'',
      se_severity = severity_from_score (sf_score f), se_title = ''Real-time file detection needs review'',
      se_detail = join ''; '' (sf_reasons f), se_process_id = None, se_path = sf_path f,
      se_created_at = sf_scanned_at f, se_resolved = False\<rparr>"

definition av_read :: "(database \<Rightarrow> 'a) \<Rightarrow> activity \<Rightarrow> 'a option \<times> activity" where
  "av_read f s =
     (case db_call (\<lambda>d. (Inr (f d), d)) (av_host s) of
        (Inr v, h) \<Rightarrow> (Some v, s\<lparr>av_host := h\<rparr>) | (Inl _, h) \<Rightarrow> (None, s\<lparr>av_host := h\<rparr>))"

text \<open>The body of a scan thread after its scan.\<close>

definition store_realtime :: "activity_world \<Rightarrow> string \<Rightarrow> string \<Rightarrow> scan_finding \<Rightarrow> activity \<Rightarrow> activity" where
  "store_realtime w owner path f s =
     (case av_read (path_excluded owner (normalized_path_key (aw_canonical w) path)) s of (excluded, s) \<Rightarrow>
      (case av_read (allowed_hash owner (sf_sha256 f)) s of (allowed, s) \<Rightarrow>
         if excluded = Some True \<or> (allowed \<noteq> None \<and> the allowed \<noteq> None) then s
         else
           (let s = s\<lparr>av_host := ignoring (db_call (record_scan owner f)) (av_host s)\<rparr> in
            if sf_verdict f \<in> {Suspicious, Malicious} then av_store (record_event owner (realtime_event f)) s else s)))"

text \<open>One running scan thread finishes; without a finding it only frees its slot.\<close>

definition finish_realtime_scan :: "activity_world \<Rightarrow> nat \<Rightarrow> activity \<Rightarrow> activity" where
  "finish_realtime_scan w k s =
     (if \<not> k < length (av_scans s) then s
      else
        (let (owner, path) = av_scans s ! k;
             s = s\<lparr>av_scans := take k (av_scans s) @ drop (Suc k) (av_scans s)\<rparr>;
             s = (case scan_file (aw_scanner w) (aw_scan w path) path of
                    Some (Inr f) \<Rightarrow> store_realtime w owner path f s | _ \<Rightarrow> s)
         in s\<lparr>av_slots := av_slots s - 1\<rparr>))"

definition monitored_folders :: "activity_world \<Rightarrow> string list" where
  "monitored_folders w =
     some_list (aw_folders w @ [map_option (\<lambda>p. join_path p ''Temp'') (aw_local_app_data w)])"

definition ensure_monitor :: "activity_world \<Rightarrow> string \<Rightarrow> activity \<Rightarrow> activity" where
  "ensure_monitor w owner s =
     (if map_of (av_monitors s) owner \<noteq> None then s
      else (case file_monitor_start (aw_files w) (aw_watcher w) (aw_watch w) (monitored_folders w) of
              Inl _ \<Rightarrow> s
            | Inr m \<Rightarrow> s\<lparr>av_monitors := AList.update owner m (av_monitors s)\<rparr>))"

definition bool_text :: "bool \<Rightarrow> string" where
  "bool_text b = (if b then ''true'' else ''false'')"

definition gap_event :: "activity_world \<Rightarrow> string \<Rightarrow> file_monitor_snapshot \<Rightarrow> timeline_event" where
  "gap_event w owner x =
     \<lparr>te_id = None, te_category = ''system'', te_action = ''file_monitor_reconciled'', te_severity = Medium,
      te_title = ''File monitor gap reconciled'',
      te_detail = ''File notification gap reconciled by bounded subtree enumeration; dropped=''
        @ show_nat (unat (fx_dropped x)) @ '', journal_changed='' @ bool_text (fx_journal_changed x),
      te_process_id = None, te_path = [], te_remote_address = [],
      te_correlation_id = ''file-gap:'' @ owner @ '':'' @ aw_timestamp w, te_occurred_at = aw_timestamp w\<rparr>"

definition file_event :: "file_activity \<Rightarrow> string \<Rightarrow> timeline_event" where
  "file_event a uuid =
     \<lparr>te_id = None, te_category = ''file'', te_action = fa_action a,
      te_severity = (if realtime_scan_candidate (fa_path a) then Low else Info),
      te_title = ''File '' @ fa_action a, te_detail = ''Observed by '' @ fa_source a, te_process_id = None,
      te_path = fa_path a, te_remote_address = [], te_correlation_id = uuid,
      te_occurred_at = fa_observed_at a\<rparr>"

definition file_activity_key :: "activity_world \<Rightarrow> string \<Rightarrow> file_activity \<Rightarrow> string" where
  "file_activity_key w owner a =
     ''file:'' @ owner @ '':'' @ fa_action a @ '':'' @ normalized_path_key (aw_canonical w) (fa_path a) @ '':''
     @ fa_observed_at a"

definition record_file_activity :: "activity_world \<Rightarrow> string \<Rightarrow> file_activity \<Rightarrow> activity \<Rightarrow> activity" where
  "record_file_activity w owner a s =
     (let key = file_activity_key w owner a in
      if key \<in> set (av_reported s) then s
      else
        (let s = record_fresh w owner (file_event a) (s\<lparr>av_reported := key # av_reported s\<rparr>) in
         if realtime_scan_candidate (fa_path a) \<and> fa_action a \<noteq> ''removed''
         then schedule_realtime_scan w owner (fa_path a) s else s))"

definition store_file_activity ::
  "activity_world \<Rightarrow> string \<Rightarrow> file_monitor_snapshot \<Rightarrow> activity \<Rightarrow> activity" where
  "store_file_activity w owner x s =
     (let s = (if fx_reconciled x then av_store (record_timeline owner (gap_event w owner x)) s else s);
          s = fold (record_file_activity w owner) (fx_events x) s
      in if 100000 < length (av_reported s) then s\<lparr>av_reported := []\<rparr> else s)"

text \<open>\<open>None\<close>: the enumeration of a reconciliation did not end within the fuel.\<close>

definition drain_file_activity :: "nat \<Rightarrow> activity_world \<Rightarrow> string \<Rightarrow> activity \<Rightarrow> activity option" where
  "drain_file_activity fuel w owner s =
     (if av_mode s = ''test'' then Some s
      else
        (let s = ensure_monitor w owner s in
         case map_of (av_monitors s) owner of
           None \<Rightarrow> Some s
         | Some m \<Rightarrow>
             (case file_monitor_drain fuel (aw_files w) 512 m of
                None \<Rightarrow> None
              | Some (x, m) \<Rightarrow>
                  Some (store_file_activity w owner x (s\<lparr>av_monitors := AList.update owner m (av_monitors s)\<rparr>)))))"

end
