(* ===== verification/OG_Persistence.thy ===== *)
theory OG_Persistence
  imports OG_Activity OG_Records
begin

text \<open>
  The inventory of start-up mechanisms (\<^verbatim>\<open>openguard-windows/src/persistence.rs\<close>): services and
  drivers, Run keys, scheduled tasks, WMI consumers and browser extensions.

  What the registry, the directories and the PowerShell process answer is the world of a collection;
  so are SHA-256, the JSON parser and the decoder of the process's document.  An entry that an
  enumeration could not read (\<^verbatim>\<open>flatten\<close>) is not in its list.
\<close>

unbundle bit_operations_syntax

section \<open>World\<close>

text \<open>The values of a service key that could be read.\<close>

record service_key =
  sk_type :: "u32 option"
  sk_start :: "u32 option"
  sk_image_path :: "string option"
  sk_display_name :: "string option"

record powershell_item =
  ps_category :: string
  ps_name :: string
  ps_command :: string
  ps_location :: string
  ps_state :: string
  ps_response_capability :: string

record powershell_inventory =
  pn_items :: "powershell_item list"
  pn_tasks_error :: string
  pn_wmi_error :: string

text \<open>One poll of the child: an error, the end with success and text of its status, or still running.\<close>

datatype child_poll = PollFails string | PollExited bool string | PollRunning

text \<open>
  \<open>pc_poll\<close> and \<open>pc_clock\<close> are what the \<open>k\<close>-th poll returns and what the clock says after it, from
  the time \<open>pc_start\<close> on; \<open>pc_output\<close> is what reading the output file gives.
\<close>

record powershell_world =
  pc_create :: "string + unit"
  pc_spawn :: "string + unit"
  pc_start :: nat
  pc_poll :: "nat \<Rightarrow> child_poll"
  pc_clock :: "nat \<Rightarrow> nat"
  pc_output :: "string + bytes"
  pc_decode :: "bytes \<Rightarrow> string + powershell_inventory"

record persistence_context =
  px_owner_sid :: string
  px_local_app_data :: string
  px_roaming_app_data :: string

record persistence_world =
  pc_timestamp :: string
  pc_sha256 :: "bytes \<Rightarrow> bytes"
  pc_services :: "(string \<times> service_key option) list option"
  pc_user_values :: "string \<Rightarrow> (string \<times> string option) list option"
  pc_machine_values :: "string \<Rightarrow> bool \<Rightarrow> (string \<times> string option) list option"
  pc_powershell :: powershell_world
  pc_read_dir :: "string \<Rightarrow> string list option"
  pc_read :: "string \<Rightarrow> bytes option"
  pc_json :: "bytes \<Rightarrow> json option"

section \<open>Rating a command\<close>

definition command_risk :: "string \<Rightarrow> string \<Rightarrow> severity \<times> string list" where
  "command_risk command category =
     (let lowered = to_ascii_lowercase command;
          writable = str_contains lowered (to_backslashes ''/appdata/'')
            \<or> str_contains lowered (to_backslashes ''/temp/'')
            \<or> str_contains lowered (to_backslashes ''/downloads/'');
          encoded = str_contains lowered ''-enc '' \<or> str_contains lowered ''frombase64string''
            \<or> str_contains lowered ''javascript:'';
          (risk, evidence) = (Info, []);
          (risk, evidence) = (if writable
            then (Medium, evidence @ [''Startup command references a user-writable location''])
            else (risk, evidence));
          (risk, evidence) = (if encoded
            then (High, evidence @ [''Startup command contains encoded or script-based execution''])
            else (risk, evidence));
          (risk, evidence) = (if category = ''driver'' \<and> lowered \<noteq> []
                \<and> \<not> str_contains lowered (to_backslashes ''/system32/'')
            then (max risk Medium, evidence @ [''Driver image is outside the normal System32 path''])
            else (risk, evidence))
      in (risk, if evidence = []
            then [''Registered startup mechanism; no high-confidence malicious signal''] else evidence))"

definition hex_encode :: "bytes \<Rightarrow> string" where
  "hex_encode bs = concat (map (\<lambda>c. let n = of_char c :: nat; digit = (\<lambda>k. ''0123456789abcdef'' ! k)
     in [digit (n div 16), digit (n mod 16)]) bs)"

definition stable_id :: "(bytes \<Rightarrow> bytes) \<Rightarrow> string \<Rightarrow> string \<Rightarrow> string" where
  "stable_id sha256 category identity =
     category @ ''-'' @ hex_encode (take 12 (sha256 (category @ [CHR 0x00] @ to_ascii_lowercase identity)))"

definition start_state :: "u32 \<Rightarrow> string" where
  "start_state v =
     (if v = 0 then ''boot'' else if v = 1 then ''system'' else if v = 2 then ''automatic''
      else if v = 3 then ''manual'' else if v = 4 then ''disabled'' else ''unknown'')"

definition unavailable_note :: "string \<Rightarrow> string \<Rightarrow> coverage_note" where
  "unavailable_note source detail = \<lparr>cn_source = source, cn_state = Unavailable, cn_detail = detail\<rparr>"

definition MAX_PERSISTENCE_ITEMS :: nat where "MAX_PERSISTENCE_ITEMS = 10000"

section \<open>Services and drivers\<close>

definition SERVICES_KEY :: string where
  "SERVICES_KEY = to_backslashes ''HKLM/SYSTEM/CurrentControlSet/Services/''"

definition service_item :: "persistence_world \<Rightarrow> string \<Rightarrow> service_key \<Rightarrow> persistence_item option" where
  "service_item w name key =
     (let kind = (case sk_type key of None \<Rightarrow> 0 | Some k \<Rightarrow> k);
          start = (case sk_start key of None \<Rightarrow> 3 | Some v \<Rightarrow> v) in
      if kind AND 0x33 = 0 \<or> start = 4 then None
      else
        (let command = (case sk_image_path key of None \<Rightarrow> [] | Some c \<Rightarrow> c);
             category = (if kind AND 0x03 \<noteq> 0 then ''driver'' else ''service'');
             (risk, reasons) = command_risk command category
         in Some \<lparr>pi_id = stable_id (pc_sha256 w) category name, pi_category = category,
              pi_name = (case sk_display_name key of None \<Rightarrow> name | Some d \<Rightarrow> d), pi_command = command,
              pi_location = SERVICES_KEY @ name, pi_state = start_state start, pi_risk = risk,
              pi_evidence = reasons, pi_detected_at = pc_timestamp w,
              pi_response_capability = (if category = ''service'' then ''disable_restore'' else ''none'')\<rparr>))"

text \<open>The loop leaves after ten thousand items.\<close>

definition service_items :: "persistence_world \<Rightarrow> (string \<times> service_key option) list \<Rightarrow> persistence_item list" where
  "service_items w entries =
     take MAX_PERSISTENCE_ITEMS
       (some_list (map (\<lambda>(name, key). case key of None \<Rightarrow> None | Some k \<Rightarrow> service_item w name k) entries))"

definition collect_services :: "persistence_world \<Rightarrow> persistence_item list \<times> coverage_note list" where
  "collect_services w =
     (case pc_services w of
        None \<Rightarrow> ([], [unavailable_note ''services_and_drivers'' ''The Services registry key was unavailable''])
      | Some entries \<Rightarrow>
          (let items = service_items w entries in
           (items, [\<lparr>cn_source = ''services_and_drivers'', cn_state = Active,
              cn_detail = ''Inventoried '' @ show_nat (length items)
                @ '' enabled service and driver registrations''\<rparr>])))"

section \<open>Run keys\<close>

definition collect_run_values ::
  "persistence_world \<Rightarrow> (string \<times> string option) list \<Rightarrow> string \<Rightarrow> string \<Rightarrow> persistence_item list" where
  "collect_run_values w entries category location =
     some_list (map (\<lambda>(name, command). case command of
         None \<Rightarrow> None
       | Some command \<Rightarrow>
           (let (risk, reasons) = command_risk command category in
            Some \<lparr>pi_id = stable_id (pc_sha256 w) category (location @ ''|'' @ name), pi_category = category,
              pi_name = name, pi_command = command, pi_location = location, pi_state = ''enabled'',
              pi_risk = risk, pi_evidence = reasons, pi_detected_at = pc_timestamp w,
              pi_response_capability = ''none''\<rparr>)) entries)"

definition RUN_PATHS :: "string list" where
  "RUN_PATHS = [to_backslashes ''Software/Microsoft/Windows/CurrentVersion/Run'',
     to_backslashes ''Software/Microsoft/Windows/CurrentVersion/RunOnce'']"

text \<open>The keys of one path in the order they are opened, with category and location: the user's, and
  the machine's 64-bit and 32-bit views.\<close>

definition run_keys ::
  "persistence_context \<Rightarrow> persistence_world \<Rightarrow> string \<Rightarrow> ((string \<times> string option) list option \<times> string \<times> string) list" where
  "run_keys context w path =
     [(pc_user_values w (px_owner_sid context @ [backslash] @ path), ''run_key_user'',
       ''HKU'' @ [backslash] @ px_owner_sid context @ [backslash] @ path),
      (pc_machine_values w path False, ''run_key_machine'', ''HKLM'' @ [backslash] @ path),
      (pc_machine_values w path True, ''run_key_machine'', ''HKLM'' @ [backslash] @ path)]"

definition collect_run_keys ::
  "persistence_context \<Rightarrow> persistence_world \<Rightarrow> persistence_item list \<times> coverage_note list" where
  "collect_run_keys context w =
     (let keys = some_list (map (\<lambda>(values, category, location).
            map_option (\<lambda>v. (v, category, location)) values) (concat (map (run_keys context w) RUN_PATHS)));
          items = concat (map (\<lambda>(v, category, location). collect_run_values w v category location) keys)
      in (items, [\<lparr>cn_source = ''run_and_runonce'', cn_state = (if keys = [] then Limited else Active),
            cn_detail = ''Read '' @ show_nat (length keys) @ '' visible Run/RunOnce keys and found ''
              @ show_nat (length items) @ '' values''\<rparr>]))"

section \<open>The PowerShell process\<close>

definition POWERSHELL_TIMEOUT :: nat where "POWERSHELL_TIMEOUT = 15 * 10 ^ 9"

text \<open>
  The waiting loop from its \<open>k\<close>-th poll on, with fuel.  A process that is still running at the deadline
  is killed and its file removed; between two polls the loop sleeps for 25 milliseconds.
\<close>

fun wait_child :: "nat \<Rightarrow> powershell_world \<Rightarrow> nat \<Rightarrow> (string + bool \<times> string) option" where
  "wait_child 0 w k = None"
| "wait_child (Suc n) w k =
     (case pc_poll w k of
        PollFails e \<Rightarrow> Some (Inl e)
      | PollExited ok text \<Rightarrow> Some (Inr (ok, text))
      | PollRunning \<Rightarrow>
          if pc_start w + POWERSHELL_TIMEOUT \<le> pc_clock w k
          then Some (Inl ''persistence inventory timed out after 15 seconds'')
          else wait_child n w (Suc k))"

definition MAX_INVENTORY_BYTES :: nat where "MAX_INVENTORY_BYTES = 4 * 1024 * 1024"

definition run_powershell_json :: "nat \<Rightarrow> powershell_world \<Rightarrow> (string + powershell_inventory) option" where
  "run_powershell_json fuel w =
     (case pc_create w of
        Inl e \<Rightarrow> Some (Inl e)
      | Inr _ \<Rightarrow>
          (case pc_spawn w of
             Inl e \<Rightarrow> Some (Inl (''start persistence inventory: '' @ e))
           | Inr _ \<Rightarrow>
               (case wait_child fuel w 0 of
                  None \<Rightarrow> None
                | Some (Inl e) \<Rightarrow> Some (Inl e)
                | Some (Inr (ok, text)) \<Rightarrow>
                    Some (if \<not> ok then Inl (''persistence inventory exited with '' @ text)
                          else and_then (pc_output w) (\<lambda>bs.
                            map_err (\<lambda>e. ''parse persistence inventory: '' @ e)
                              (pc_decode w (take MAX_INVENTORY_BYTES bs)))))))"

section \<open>Scheduled tasks and WMI consumers\<close>

definition powershell_entry :: "persistence_world \<Rightarrow> powershell_item \<Rightarrow> persistence_item" where
  "powershell_entry w item =
     (let (risk, reasons) = command_risk (ps_command item) (ps_category item);
          (risk, reasons) = (if ps_category item = ''wmi_consumer''
            then (max risk Medium,
              reasons @ [''Permanent WMI consumers execute outside normal startup folders''])
            else (risk, reasons))
      in \<lparr>pi_id = stable_id (pc_sha256 w) (ps_category item) (ps_location item),
          pi_category = ps_category item, pi_name = ps_name item, pi_command = ps_command item,
          pi_location = ps_location item, pi_state = ps_state item, pi_risk = risk, pi_evidence = reasons,
          pi_detected_at = pc_timestamp w, pi_response_capability = ps_response_capability item\<rparr>)"

definition limited_note :: "string \<Rightarrow> string \<Rightarrow> string \<Rightarrow> string \<Rightarrow> coverage_note" where
  "limited_note source error good bad =
     \<lparr>cn_source = source, cn_state = (if error = [] then Active else Limited),
      cn_detail = (if error = [] then good else bad @ error)\<rparr>"

definition collect_tasks_and_wmi ::
  "persistence_world \<Rightarrow> string + powershell_inventory \<Rightarrow> persistence_item list \<times> coverage_note list" where
  "collect_tasks_and_wmi w document =
     (case document of
        Inl e \<Rightarrow> ([], [unavailable_note ''scheduled_tasks'' e, unavailable_note ''wmi_persistence'' e])
      | Inr d \<Rightarrow>
          (let count = (\<lambda>category. show_nat (length (filter (\<lambda>i. ps_category i = category) (pn_items d)))) in
           (map (powershell_entry w) (pn_items d),
            [limited_note ''scheduled_tasks'' (pn_tasks_error d)
               (''Inventoried '' @ count ''scheduled_task'' @ '' scheduled tasks through the Task Scheduler module'')
               ''Scheduled-task inventory was limited: '',
             limited_note ''wmi_persistence'' (pn_wmi_error d)
               (''Inventoried '' @ count ''wmi_consumer'' @ '' permanent WMI command/script consumers'')
               ''WMI persistence inventory was limited: ''])))"

section \<open>Browser extensions\<close>

text \<open>\<^verbatim>\<open>from_slice(..).unwrap_or_default()\<close>.\<close>

definition json_or_null :: "persistence_world \<Rightarrow> bytes \<Rightarrow> json" where
  "json_or_null w bs = (case pc_json w bs of None \<Rightarrow> JNull | Some v \<Rightarrow> v)"

definition json_list :: "json option \<Rightarrow> json list option" where
  "json_list v = (case v of Some (JArray xs) \<Rightarrow> Some xs | _ \<Rightarrow> None)"

definition json_text :: "json option \<Rightarrow> string \<Rightarrow> string" where
  "json_text v otherwise = (case json_str v of None \<Rightarrow> otherwise | Some s \<Rightarrow> s)"

definition SENSITIVE_PERMISSIONS :: "string list" where
  "SENSITIVE_PERMISSIONS = [''webRequest'', ''cookies'', ''nativeMessaging'', ''debugger'']"

definition extension_item ::
  "persistence_world \<Rightarrow> string \<Rightarrow> string \<Rightarrow> string \<Rightarrow> string \<Rightarrow> bytes \<Rightarrow> persistence_item" where
  "extension_item w category extension_id folder manifest bs =
     (let v = json_or_null w bs;
          permissions = (case json_list (json_get ''permissions'' v) of
              None \<Rightarrow> [] | Some xs \<Rightarrow> some_list (map (\<lambda>x. json_str (Some x)) xs));
          broad = list_ex (\<lambda>p. p \<in> set SENSITIVE_PERMISSIONS) permissions
      in \<lparr>pi_id = stable_id (pc_sha256 w) category extension_id, pi_category = category,
          pi_name = json_text (json_get ''name'' v) ''Browser extension'', pi_command = manifest,
          pi_location = folder, pi_state = ''installed'', pi_risk = (if broad then Medium else Info),
          pi_evidence = (if broad
            then [''Extension requests sensitive permissions: '' @ join '', '' permissions]
            else [''Installed browser extension manifest'']),
          pi_detected_at = pc_timestamp w, pi_response_capability = ''none''\<rparr>)"

text \<open>Of one extension, the first version whose manifest can be read.\<close>

fun first_manifest :: "persistence_world \<Rightarrow> string \<Rightarrow> string list \<Rightarrow> (string \<times> bytes) option" where
  "first_manifest w folder [] = None"
| "first_manifest w folder (version # rest) =
     (let manifest = join_path (join_path folder version) ''manifest.json'' in
      case pc_read w manifest of None \<Rightarrow> first_manifest w folder rest | Some bs \<Rightarrow> Some (manifest, bs))"

definition listed :: "persistence_world \<Rightarrow> string \<Rightarrow> string list" where
  "listed w folder = (case pc_read_dir w folder of None \<Rightarrow> [] | Some names \<Rightarrow> names)"

definition chromium_items :: "persistence_world \<Rightarrow> string \<Rightarrow> string \<Rightarrow> persistence_item list" where
  "chromium_items w category data_root =
     concat (map (\<lambda>profile.
       (let extensions = join_path (join_path data_root profile) ''Extensions'' in
        some_list (map (\<lambda>extension_id.
          (let folder = join_path extensions extension_id in
           map_option (\<lambda>(manifest, bs). extension_item w category extension_id folder manifest bs)
             (first_manifest w folder (listed w folder)))) (listed w extensions)))) (listed w data_root))"

definition addon_item :: "persistence_world \<Rightarrow> string \<Rightarrow> string \<Rightarrow> json \<Rightarrow> persistence_item" where
  "addon_item w profile path addon =
     (let i = json_text (json_get ''id'' addon) ''unknown'';
          name = json_text (Option.bind (json_get ''defaultLocale'' addon) (json_get ''name'')) i
      in \<lparr>pi_id = stable_id (pc_sha256 w) ''firefox_extension'' i, pi_category = ''firefox_extension'',
          pi_name = name, pi_command = path, pi_location = profile @ middle_dot @ i,
          pi_state = ''installed'', pi_risk = Info, pi_evidence = [''Active Firefox add-on registration''],
          pi_detected_at = pc_timestamp w, pi_response_capability = ''none''\<rparr>)"

definition firefox_items :: "persistence_world \<Rightarrow> string \<Rightarrow> persistence_item list" where
  "firefox_items w data_root =
     concat (map (\<lambda>profile.
       (let folder = join_path data_root profile; path = join_path folder ''extensions.json'' in
        case pc_read w path of
          None \<Rightarrow> []
        | Some bs \<Rightarrow>
            (case json_list (json_get ''addons'' (json_or_null w bs)) of
               None \<Rightarrow> []
             | Some addons \<Rightarrow>
                 map (addon_item w folder path)
                   (filter (\<lambda>a. json_get ''active'' a = Some (JBool True)) addons)))) (listed w data_root))"

definition collect_browser_extensions ::
  "persistence_context \<Rightarrow> persistence_world \<Rightarrow> persistence_item list \<times> coverage_note list" where
  "collect_browser_extensions context w =
     (let local = px_local_app_data context;
          items = chromium_items w ''edge_extension'' (join_path local (to_backslashes ''Microsoft/Edge/User Data''))
            @ chromium_items w ''chrome_extension'' (join_path local (to_backslashes ''Google/Chrome/User Data''))
            @ firefox_items w (join_path (px_roaming_app_data context) (to_backslashes ''Mozilla/Firefox/Profiles''))
      in (items, [\<lparr>cn_source = ''browser_extensions'', cn_state = (if local = [] then Limited else Active),
            cn_detail = ''Inventoried '' @ show_nat (length items)
              @ '' Chrome, Edge, and Firefox extension registrations''\<rparr>]))"

section \<open>The inventory\<close>

text \<open>Highest risk first, then category and lower-case name; the sort is stable.\<close>

definition item_rank :: "persistence_item \<Rightarrow> nat \<times> string \<times> string" where
  "item_rank i = (4 - severity_rank (pi_risk i), pi_category i, to_ascii_lowercase (pi_name i))"

definition collected_items ::
  "persistence_context \<Rightarrow> persistence_world \<Rightarrow> string + powershell_inventory \<Rightarrow> persistence_item list" where
  "collected_items context w document =
     fst (collect_services w) @ fst (collect_run_keys context w) @ fst (collect_tasks_and_wmi w document)
     @ fst (collect_browser_extensions context w)"

definition collect_persistence ::
  "nat \<Rightarrow> persistence_context \<Rightarrow> persistence_world \<Rightarrow> persistence_inventory option" where
  "collect_persistence fuel context w =
     map_option (\<lambda>document.
       \<lparr>pv_items = take MAX_PERSISTENCE_ITEMS (sort_key item_rank (collected_items context w document)),
        pv_collected_at = pc_timestamp w,
        pv_coverage = snd (collect_services w) @ snd (collect_run_keys context w)
          @ snd (collect_tasks_and_wmi w document) @ snd (collect_browser_extensions context w)\<rparr>)
       (run_powershell_json fuel (pc_powershell w))"

end
