(* ===== verification/OG_Startup.thy ===== *)
theory OG_Startup
  imports OG_Persistence
begin

text \<open>
  What the inventory of start-up mechanisms (\<open>OG_Persistence\<close>) guarantees, alone and together with
  the table it is synchronised with (\<open>OG_Storage\<close>).
\<close>

section \<open>The end of the PowerShell process\<close>

text \<open>What the sleep between two polls gives the clock.\<close>

definition clock_advances :: "powershell_world \<Rightarrow> bool" where
  "clock_advances w \<longleftrightarrow> pc_start w \<le> pc_clock w 0 \<and> (\<forall>k. pc_clock w k + 25 * 10 ^ 6 \<le> pc_clock w (Suc k))"

lemma clock_lower: "clock_advances w \<Longrightarrow> pc_start w + k * (25 * 10 ^ 6) \<le> pc_clock w k"
proof (induction k)
  case (Suc k)
  then have "pc_clock w k + 25 * 10 ^ 6 \<le> pc_clock w (Suc k)" by (simp add: clock_advances_def)
  with Suc show ?case by simp
qed (simp add: clock_advances_def)

lemma wait_child_ends:
  "clock_advances w \<Longrightarrow> 600 < k + n \<Longrightarrow> k \<le> 600 \<Longrightarrow> \<exists>r. wait_child n w k = Some r"
proof (induction n w k rule: wait_child.induct)
  case (2 n w k)
  have "pc_start w + POWERSHELL_TIMEOUT \<le> pc_clock w k" if "k = 600"
    using clock_lower [OF 2(2), of k] that by (simp add: POWERSHELL_TIMEOUT_def)
  then have "\<not> pc_start w + POWERSHELL_TIMEOUT \<le> pc_clock w k \<Longrightarrow> k \<le> 599" using 2(4) by (cases "k = 600") auto
  with 2 show ?case by (auto split: child_poll.splits)
qed simp

section \<open>Order and size\<close>

lemma collect_persistence_items:
  assumes "collect_persistence fuel context w = Some inventory"
  obtains document where "run_powershell_json fuel (pc_powershell w) = Some document"
    "pv_items inventory = take MAX_PERSISTENCE_ITEMS (sort_key item_rank (collected_items context w document))"
  using assms by (auto simp: collect_persistence_def)

lemma severity_rank_bound: "severity_rank s \<le> 4"
  by (cases s) simp_all

lemma item_rank_risk: "item_rank a \<le> item_rank b \<Longrightarrow> pi_risk b \<le> pi_risk a"
  using severity_rank_bound [of "pi_risk a"] severity_rank_bound [of "pi_risk b"]
  by (auto simp: item_rank_def less_eq_severity_def)

lemma sorted_take_drop:
  "sorted (map f xs) \<Longrightarrow> x \<in> set (take n xs) \<Longrightarrow> y \<in> set (drop n xs) \<Longrightarrow> f x \<le> f y"
proof -
  assume "sorted (map f xs)" "x \<in> set (take n xs)" "y \<in> set (drop n xs)"
  then have "sorted (map f (take n xs @ drop n xs))" by simp
  with \<open>x \<in> _\<close> \<open>y \<in> _\<close> show "f x \<le> f y" unfolding map_append sorted_append by simp
qed

text \<open>
  A collection of the start-up inventory ends and keeps what matters: when the clock advances by
  the sleep between two polls, the PowerShell process is waited for at most 601 times, so the
  inventory is returned; it has at most ten thousand items, ordered by falling risk; every item was
  collected, and an item that the limit left out is at most as risky as every item that was kept.
\<close>

theorem inventory_keeps_riskiest:
  assumes "clock_advances (pc_powershell w)" "600 < fuel"
  shows "\<exists>inventory document. collect_persistence fuel context w = Some inventory
    \<and> run_powershell_json fuel (pc_powershell w) = Some document
    \<and> length (pv_items inventory) \<le> 10000
    \<and> sorted_wrt (\<lambda>a b. pi_risk b \<le> pi_risk a) (pv_items inventory)
    \<and> set (pv_items inventory) \<subseteq> set (collected_items context w document)
    \<and> (\<forall>x \<in> set (collected_items context w document) - set (pv_items inventory).
         \<forall>y \<in> set (pv_items inventory). pi_risk x \<le> pi_risk y)"
proof -
  obtain r where "wait_child fuel (pc_powershell w) 0 = Some r"
    using wait_child_ends [OF assms(1), of 0 fuel] assms(2) by auto
  then have "run_powershell_json fuel (pc_powershell w) \<noteq> None"
    by (auto simp: run_powershell_json_def split: sum.splits)
  then obtain document where d: "run_powershell_json fuel (pc_powershell w) = Some document" by blast
  then obtain inventory where i: "collect_persistence fuel context w = Some inventory"
    by (auto simp: collect_persistence_def)
  let ?all = "sort_key item_rank (collected_items context w document)"
  have items: "pv_items inventory = take MAX_PERSISTENCE_ITEMS ?all"
    by (rule collect_persistence_items [OF i]) (simp add: d)
  have sorted: "sorted (map item_rank ?all)" by simp
  then have "sorted (map item_rank (pv_items inventory))" by (simp add: items sorted_wrt_take flip: take_map)
  then have order: "sorted_wrt (\<lambda>a b. pi_risk b \<le> pi_risk a) (pv_items inventory)"
    unfolding sorted_wrt_map by (rule sorted_wrt_mono_rel [rotated]) (rule item_rank_risk)
  have sub: "set (pv_items inventory) \<subseteq> set (collected_items context w document)"
    using set_take_subset [of MAX_PERSISTENCE_ITEMS ?all] by (simp add: items)
  have "pi_risk x \<le> pi_risk y"
    if "x \<in> set (collected_items context w document) - set (pv_items inventory)" "y \<in> set (pv_items inventory)" for x y
  proof -
    have "x \<in> set (take MAX_PERSISTENCE_ITEMS ?all @ drop MAX_PERSISTENCE_ITEMS ?all)" using that(1) by simp
    then have "x \<in> set (drop MAX_PERSISTENCE_ITEMS ?all)" using that(1) unfolding set_append items by blast
    with that(2) show ?thesis
      unfolding items by (intro item_rank_risk sorted_take_drop [OF sorted])
  qed
  with i d order sub show ?thesis by (auto simp: items MAX_PERSISTENCE_ITEMS_def)
qed

section \<open>Identifiers\<close>

text \<open>
  Identifiers of WMI consumers are made of their location, which is the same text for all consumers
  of one class: two such consumers have one identifier.
\<close>

lemma wmi_consumers_share_id:
  "ps_category a = ''wmi_consumer'' \<Longrightarrow> ps_category b = ''wmi_consumer'' \<Longrightarrow> ps_location a = ps_location b \<Longrightarrow>
     pi_id (powershell_entry w a) = pi_id (powershell_entry w b)"
  by (simp add: powershell_entry_def Let_def case_prod_beta)

text \<open>So have values of the same name in the 64-bit and the 32-bit view of a machine Run key.\<close>

lemma run_views_share_location:
  "map snd (run_keys context w path) =
     [(''run_key_user'', ''HKU'' @ [backslash] @ px_owner_sid context @ [backslash] @ path),
      (''run_key_machine'', ''HKLM'' @ [backslash] @ path), (''run_key_machine'', ''HKLM'' @ [backslash] @ path)]"
  by (simp add: run_keys_def)

text \<open>
  Two WMI consumers of one class with different commands can never both be stored: after any
  synchronisation at most one of them is found, and every synchronisation reports a change of an
  entry, also when nothing has changed since the last one.
\<close>

theorem colliding_entries_always_change:
  assumes "ps_category a = ''wmi_consumer''" "ps_category b = ''wmi_consumer''" "ps_location a = ps_location b"
    and "ps_command a \<noteq> ps_command b" "powershell_entry w a \<in> set items" "powershell_entry w b \<in> set items"
    and "sync_persistence_inventory iter owner items now d = (changes, d')"
  shows "changes \<noteq> []"
proof -
  let ?a = "powershell_entry w a" and ?b = "powershell_entry w b"
  have i: "pi_id ?a = pi_id ?b" using assms(1-3) by (rule wmi_consumers_share_id)
  have c: "pi_command ?a \<noteq> pi_command ?b"
    using assms(4) by (simp add: powershell_entry_def Let_def case_prod_beta)
  let ?row = "map_of (db_persistence d) (owner, pi_id ?b)"
  let ?P = "\<lambda>item. item_change (map_of (db_persistence d) (owner, pi_id item)) item \<noteq> None"
  have "?P ?a \<or> ?P ?b"
    unfolding i using c by (auto simp: item_change_def split: option.splits)
  then have "filter ?P items \<noteq> []"
    unfolding filter_empty_conv using assms(5,6) by blast
  moreover have "changes = fst (sync_persistence_inventory iter owner items now d)" using assms(7) by simp
  ultimately show ?thesis by (simp add: sync_changes)
qed

section \<open>A failed collection\<close>

definition task_id :: "string \<Rightarrow> bool" where
  "task_id i \<longleftrightarrow> starts_with i ''scheduled_task-''"

lemma set_some_list: "x \<in> set (some_list xs) \<longleftrightarrow> Some x \<in> set xs"
  by (force simp: some_list_def split: option.splits)

text \<open>Every identifier starts with the category of its source.\<close>

lemma service_ids:
  "service_item w name key = Some x \<Longrightarrow> \<exists>k. pi_id x = stable_id (pc_sha256 w) ''driver'' k \<or> pi_id x = stable_id (pc_sha256 w) ''service'' k"
  by (auto simp: service_item_def Let_def split: if_splits prod.splits)

lemma run_value_ids:
  "x \<in> set (collect_run_values w v category location) \<Longrightarrow> \<exists>k. pi_id x = stable_id (pc_sha256 w) category k"
  by (auto simp: collect_run_values_def set_some_list Let_def case_prod_beta split: option.splits)

lemma browser_item_ids:
  "pi_id (extension_item w category i folder manifest bs) = stable_id (pc_sha256 w) category i"
  "pi_id (addon_item w profile path addon)
     = stable_id (pc_sha256 w) ''firefox_extension'' (json_text (json_get ''id'' addon) ''unknown'')"
  by (simp_all add: extension_item_def addon_item_def Let_def)

lemma chromium_ids:
  assumes "x \<in> set (chromium_items w category folder)"
  shows "\<exists>k. pi_id x = stable_id (pc_sha256 w) category k"
proof -
  obtain i f m bs where "x = extension_item w category i f m bs"
    using assms by (auto simp: chromium_items_def set_some_list Let_def map_option_case split: option.splits)
  then show ?thesis by (auto simp: browser_item_ids)
qed

lemma firefox_ids:
  assumes "x \<in> set (firefox_items w folder)"
  shows "\<exists>k. pi_id x = stable_id (pc_sha256 w) ''firefox_extension'' k"
proof -
  obtain f p addon where "x = addon_item w f p addon"
    using assms by (auto simp: firefox_items_def Let_def split: option.splits)
  then show ?thesis by (auto simp: browser_item_ids)
qed

lemma other_categories:
  "category \<in> {''driver'', ''service'', ''run_key_user'', ''run_key_machine'', ''edge_extension'', ''chrome_extension'',
     ''firefox_extension''} \<Longrightarrow> \<not> task_id (stable_id sha256 category k)"
  by (auto simp: task_id_def stable_id_def)

lemma other_ids:
  "i \<in> set (fst (collect_services w)) \<Longrightarrow> \<not> task_id (pi_id i)"
  "i \<in> set (fst (collect_run_keys context w)) \<Longrightarrow> \<not> task_id (pi_id i)"
  "i \<in> set (fst (collect_browser_extensions context w)) \<Longrightarrow> \<not> task_id (pi_id i)"
proof -
  show "\<not> task_id (pi_id i)" if i: "i \<in> set (fst (collect_services w))"
  proof -
    obtain entries where "i \<in> set (service_items w entries)"
      using i by (auto simp: collect_services_def Let_def split: option.splits)
    then obtain name key where "service_item w name key = Some i"
      by (fastforce simp: service_items_def set_some_list dest!: in_set_takeD split: option.splits)
    from service_ids [OF this] show ?thesis using other_categories by fastforce
  qed
  show "\<not> task_id (pi_id i)" if i: "i \<in> set (fst (collect_run_keys context w))"
  proof -
    obtain path vs c l v where key: "(vs, c, l) \<in> set (run_keys context w path)"
      and i: "i \<in> set (collect_run_values w v c l)"
      using i by (fastforce simp: collect_run_keys_def set_some_list Let_def map_option_case split: option.splits)
    have "c \<in> {''run_key_user'', ''run_key_machine''}" using key by (auto simp: run_keys_def)
    moreover obtain k where "pi_id i = stable_id (pc_sha256 w) c k" using run_value_ids [OF i] by blast
    ultimately show ?thesis using other_categories [of c] by auto
  qed
  show "\<not> task_id (pi_id i)" if i: "i \<in> set (fst (collect_browser_extensions context w))"
  proof -
    from i consider (chromium) c f where "c \<in> {''edge_extension'', ''chrome_extension''}" "i \<in> set (chromium_items w c f)"
      | (firefox) f where "i \<in> set (firefox_items w f)"
      by (simp add: collect_browser_extensions_def Let_def) blast
    then obtain c k where "c \<in> {''edge_extension'', ''chrome_extension'', ''firefox_extension''}"
      "pi_id i = stable_id (pc_sha256 w) c k"
    proof cases
      case (chromium c f)
      with chromium_ids [OF chromium(2)] that show thesis by blast
    next
      case (firefox f)
      with firefox_ids [OF firefox] that show thesis by blast
    qed
    then show ?thesis using other_categories [of c] by auto
  qed
qed

text \<open>
  A collection whose PowerShell process fails is taken as the news that no scheduled task exists:
  synchronising it reports every stored task as removed and no longer finds it, although the coverage
  of the same inventory says that tasks were not available.
\<close>

theorem failed_inventory_removes_tasks:
  assumes "run_powershell_json fuel (pc_powershell w) = Some (Inl e)"
    and "collect_persistence fuel context w = Some inventory"
    and "map_of (db_persistence d) (owner, i) = Some row" "pw_active row" "task_id i"
    and "\<And>xs. set (iter xs) = set xs"
    and "sync_persistence_inventory iter owner (pv_items inventory) now d = (changes, d')"
  shows "persistence_event i now (''removed'', Info, ''Persistence entry removed'') i [] \<in> set changes
    \<and> persistence_lookup owner i d' = Inr None"
proof -
  have "pv_items inventory = take MAX_PERSISTENCE_ITEMS (sort_key item_rank (collected_items context w (Inl e)))"
    by (rule collect_persistence_items [OF assms(2)]) (simp add: assms(1))
  then have sub: "set (pv_items inventory) \<subseteq> set (collected_items context w (Inl e))"
    using set_take_subset [of MAX_PERSISTENCE_ITEMS "sort_key item_rank (collected_items context w (Inl e))"] by simp
  have fresh: "i \<notin> pi_id ` set (pv_items inventory)"
  proof
    assume "i \<in> pi_id ` set (pv_items inventory)"
    then obtain x where "x \<in> set (collected_items context w (Inl e))" "i = pi_id x" using sub by blast
    with assms(5) show False by (auto simp: collected_items_def collect_tasks_and_wmi_def dest: other_ids)
  qed
  have stored: "(i, row) \<in> set (existing_rows owner d)"
    using assms(3) by (simp add: existing_rows_mem map_of_SomeD)
  let ?items = "pv_items inventory"
  have "persistence_event i now (''removed'', Info, ''Persistence entry removed'') i []
      \<in> set (fst (sync_persistence_inventory iter owner ?items now d))"
    using stored assms(4,6) fresh by (force simp: sync_changes)
  then have event: "persistence_event i now (''removed'', Info, ''Persistence entry removed'') i [] \<in> set changes"
    by (simp add: assms(7))
  let ?s = "sync_items owner now (map_of (existing_rows owner d)) ?items d"
  have "db_persistence d' = db_persistence
      (snd (sync_removed owner now (set (map pi_id ?items)) (iter (existing_rows owner d)) (snd ?s)))"
    using assms(7) by (auto simp: sync_persistence_inventory_def Let_def case_prod_beta)
  then have "map_of (db_persistence d') (owner, i) = Some (deactivated now row)"
    using stored assms(3,4,6) fresh by (auto simp: sync_removed_lookup sync_items_other image_iff)
  with event show ?thesis by (simp add: persistence_lookup_def deactivated_def)
qed

section \<open>Samples\<close>

definition sample_startup :: persistence_world where
  "sample_startup =
     \<lparr>pc_timestamp = ''t'', pc_sha256 = (\<lambda>b. b),
      pc_services = Some [(''svc'', Some \<lparr>sk_type = Some 0x10, sk_start = Some 2, sk_image_path = Some ''x'',
        sk_display_name = None\<rparr>)],
      pc_user_values = (\<lambda>_. Some [(''run'', Some ''powershell -enc AAAA'')]), pc_machine_values = (\<lambda>_ _. None),
      pc_powershell = \<lparr>pc_create = Inr (), pc_spawn = Inr (), pc_start = 0, pc_poll = (\<lambda>_. PollRunning),
        pc_clock = (\<lambda>k. k * (25 * 10 ^ 6)), pc_output = Inr [], pc_decode = (\<lambda>_. Inl ''empty'')\<rparr>,
      pc_read_dir = (\<lambda>_. None), pc_read = (\<lambda>_. None), pc_json = (\<lambda>_. None)\<rparr>"

definition sample_context :: persistence_context where
  "sample_context = \<lparr>px_owner_sid = ''u'', px_local_app_data = [], px_roaming_app_data = []\<rparr>"

lemma sample_startup_clock: "clock_advances (pc_powershell sample_startup)"
  by (simp add: clock_advances_def sample_startup_def)

text \<open>A process that never ends is killed, and the rest of the inventory is returned.\<close>

theorem inventory_keeps_riskiest_witness:
  "\<exists>inventory document. collect_persistence 601 sample_context sample_startup = Some inventory
    \<and> run_powershell_json 601 (pc_powershell sample_startup) = Some document
    \<and> length (pv_items inventory) \<le> 10000"
  using inventory_keeps_riskiest [OF sample_startup_clock, of 601 sample_context] by auto

definition sample_consumer :: "string \<Rightarrow> powershell_item" where
  "sample_consumer command =
     \<lparr>ps_category = ''wmi_consumer'', ps_name = command, ps_command = command,
      ps_location = ''root/subscription:CommandLineEventConsumer'', ps_state = ''enabled'',
      ps_response_capability = ''none''\<rparr>"

theorem colliding_entries_always_change_witness:
  "fst (sync_persistence_inventory id ''u''
      [powershell_entry sample_startup (sample_consumer ''a''), powershell_entry sample_startup (sample_consumer ''b'')]
      ''t'' db_empty) \<noteq> []"
  by (rule colliding_entries_always_change [where a = "sample_consumer ''a''" and b = "sample_consumer ''b''"
        and w = sample_startup, OF _ _ _ _ _ _ prod.collapse [symmetric]])
    (simp_all add: sample_consumer_def)

definition sample_task_row :: persistence_row where
  "sample_task_row =
     \<lparr>pw_item = sample_item ''scheduled_task-1'', pw_risk = ''info'', pw_first_seen = ''s'', pw_last_seen = ''s'',
      pw_active = True\<rparr>"

theorem failed_inventory_removes_tasks_witness:
  "\<exists>inventory. collect_persistence 1 sample_context (sample_startup\<lparr>pc_powershell :=
       (pc_powershell sample_startup)\<lparr>pc_spawn := Inl ''denied''\<rparr>\<rparr>) = Some inventory
    \<and> persistence_lookup ''u'' ''scheduled_task-1'' (snd (sync_persistence_inventory id ''u'' (pv_items inventory)
        ''t'' (db_empty\<lparr>db_persistence := [((''u'', ''scheduled_task-1''), sample_task_row)]\<rparr>))) = Inr None"
proof -
  let ?w = "sample_startup\<lparr>pc_powershell := (pc_powershell sample_startup)\<lparr>pc_spawn := Inl ''denied''\<rparr>\<rparr>"
  let ?d = "db_empty\<lparr>db_persistence := [((''u'', ''scheduled_task-1''), sample_task_row)]\<rparr>"
  have r: "run_powershell_json 1 (pc_powershell ?w) = Some (Inl ''start persistence inventory: denied'')"
    by (simp add: run_powershell_json_def sample_startup_def)
  then obtain inventory where i: "collect_persistence 1 sample_context ?w = Some inventory"
    by (auto simp: collect_persistence_def)
  have row: "map_of (db_persistence ?d) (''u'', ''scheduled_task-1'') = Some sample_task_row"
    "pw_active sample_task_row" "task_id ''scheduled_task-1''"
    by (simp_all add: sample_task_row_def task_id_def)
  have "persistence_lookup ''u'' ''scheduled_task-1''
      (snd (sync_persistence_inventory id ''u'' (pv_items inventory) ''t'' ?d)) = Inr None"
    using failed_inventory_removes_tasks [OF r i row, of id "''t''"] by (simp add: prod_eq_iff)
  with i show ?thesis by blast
qed

end
