(* ===== verification/OG_Collector.thy ===== *)
theory OG_Collector
  imports OG_Dns OG_Risk OG_Scan "HOL-Library.Product_Lexorder"
begin

text \<open>
  The collector of process and network snapshots (\<^verbatim>\<open>WindowsCollector\<close> in
  \<^verbatim>\<open>openguard-windows/src/lib.rs\<close>) and the Authenticode and AMSI signals of a file.

  What Windows answers is a parameter: the Tool Help inventory, the handle of a process, the tables of
  connections as the two calls of \<^verbatim>\<open>GetExtendedTcpTable\<close> return them, and the statistics of a
  connection.  Binary floating point is stored as its bits; the two quotients of floating-point numbers
  are the parameters \<open>kw_cpu\<close> and \<open>kw_rate\<close>.  Times are nanoseconds, for the name cache seconds.
\<close>

section \<open>Text\<close>

text \<open>\<^verbatim>\<open>String::from_utf16_lossy\<close>: an unpaired surrogate becomes the replacement character.\<close>

definition high_surrogate :: "nat \<Rightarrow> bool" where "high_surrogate u \<longleftrightarrow> 0xD800 \<le> u \<and> u \<le> 0xDBFF"
definition low_surrogate :: "nat \<Rightarrow> bool" where "low_surrogate u \<longleftrightarrow> 0xDC00 \<le> u \<and> u \<le> 0xDFFF"

fun utf16_points :: "nat list \<Rightarrow> nat list" where
  "utf16_points [] = []"
| "utf16_points [u] = [if high_surrogate u \<or> low_surrogate u then 0xFFFD else u]"
| "utf16_points (u # v # us) =
     (if high_surrogate u \<and> low_surrogate v
      then (0x10000 + (u - 0xD800) * 0x400 + (v - 0xDC00)) # utf16_points us
      else (if high_surrogate u \<or> low_surrogate u then 0xFFFD else u) # utf16_points (v # us))"

definition utf8_char :: "nat \<Rightarrow> string" where
  "utf8_char p =
     map char_of
       (if p < 0x80 then [p]
        else if p < 0x800 then [0xC0 + p div 0x40, 0x80 + p mod 0x40]
        else if p < 0x10000 then [0xE0 + p div 0x1000, 0x80 + p div 0x40 mod 0x40, 0x80 + p mod 0x40]
        else [0xF0 + p div 0x40000, 0x80 + p div 0x1000 mod 0x40, 0x80 + p div 0x40 mod 0x40, 0x80 + p mod 0x40])"

definition from_utf16_lossy :: "nat list \<Rightarrow> string" where
  "from_utf16_lossy us = concat (map utf8_char (utf16_points us))"

definition utf16_string :: "nat list \<Rightarrow> string" where
  "utf16_string buffer = from_utf16_lossy (takeWhile (\<lambda>u. u \<noteq> 0) buffer)"

text \<open>\<open>hex_digits k n\<close> is \<^verbatim>\<open>{:0kx}\<close> of a value below \<open>16 ^ k\<close>.\<close>

definition hex_digits :: "nat \<Rightarrow> nat \<Rightarrow> string" where
  "hex_digits k n = map (\<lambda>i. ''0123456789abcdef'' ! (n div 16 ^ (k - 1 - i) mod 16)) [0..<k]"

definition show_hex :: "nat \<Rightarrow> string" where
  "show_hex n = (let ds = dropWhile (\<lambda>c. c = CHR ''0'') (hex_digits 4 n) in if ds = [] then ''0'' else ds)"

section \<open>Addresses\<close>

definition network_port :: "u32 \<Rightarrow> u16" where
  "network_port v = (case le_bytes 4 (unat v) of a # b # _ \<Rightarrow> of_nat (of_char a * 256 + of_char b) | _ \<Rightarrow> 0)"

text \<open>
  \<^verbatim>\<open>Display\<close> of \<^verbatim>\<open>Ipv6Addr\<close>: an IPv4-mapped address with its IPv4 part in decimal, otherwise the first
  longest run of at least two zero groups is left out.
\<close>

fun zero_run :: "nat \<Rightarrow> nat \<times> nat \<Rightarrow> nat \<times> nat \<Rightarrow> nat list \<Rightarrow> nat \<times> nat" where
  "zero_run i current longest [] = longest"
| "zero_run i current longest (g # gs) =
     (if g = 0 then
        (let current = (if snd current = 0 then i else fst current, snd current + 1) in
         zero_run (i + 1) current (if snd longest < snd current then current else longest) gs)
      else zero_run (i + 1) (0, 0) longest gs)"

definition ipv6_segments :: "bytes \<Rightarrow> nat list" where
  "ipv6_segments b = map (\<lambda>i. of_char (b ! (2 * i)) * 256 + of_char (b ! (2 * i + 1))) [0..<8]"

definition ipv6_text :: "nat list \<Rightarrow> string" where
  "ipv6_text gs =
     (if take 6 gs = [0, 0, 0, 0, 0, 0xFFFF]
      then ''::ffff:'' @ join ''.'' (map show_nat (concat (map (\<lambda>g. [g div 256, g mod 256]) (drop 6 gs))))
      else (case zero_run 0 (0, 0) (0, 0) gs of (start, n) \<Rightarrow>
        if 1 < n then join '':'' (map show_hex (take start gs)) @ ''::'' @ join '':'' (map show_hex (drop (start + n) gs))
        else join '':'' (map show_hex gs)))"

definition ipv6 :: "bytes \<Rightarrow> u32 \<Rightarrow> string" where
  "ipv6 b scope_id =
     (let address = ipv6_text (ipv6_segments b) in
      if scope_id = 0 then address else address @ ''%'' @ show_nat (unat scope_id))"

definition tcp_state :: "u32 \<Rightarrow> string" where
  "tcp_state v =
     (case map_of [(1, ''CLOSED''), (2, ''LISTEN''), (3, ''SYN_SENT''), (4, ''SYN_RECEIVED''), (5, ''ESTABLISHED''),
        (6, ''FIN_WAIT_1''), (7, ''FIN_WAIT_2''), (8, ''CLOSE_WAIT''), (9, ''CLOSING''), (10, ''LAST_ACK''),
        (11, ''TIME_WAIT''), (12, ''DELETE_TCB'')] v of None \<Rightarrow> ''UNKNOWN'' | Some t \<Rightarrow> t)"

section \<open>Tables of connections\<close>

text \<open>
  The status and the size of the first call; the status of the second call and what it wrote to the
  start of the buffer, which was zeroed and has that size.
\<close>

record table_call =
  tc_first :: "u32 \<times> u32"
  tc_second :: "u32 \<times> bytes"

definition ERROR_INSUFFICIENT_BUFFER :: u32 where "ERROR_INSUFFICIENT_BUFFER = 122"

definition table_buffer :: "table_call \<Rightarrow> bytes" where
  "table_buffer t =
     (let size = unat (snd (tc_first t)) in take size (snd (tc_second t) @ replicate size (CHR 0x00)))"

text \<open>\<^verbatim>\<open>read_unaligned\<close> of \<open>n\<close> bytes at an offset; \<open>None\<close> is a read that leaves the buffer.\<close>

definition read_at :: "bytes \<Rightarrow> nat \<Rightarrow> nat \<Rightarrow> bytes option" where
  "read_at b offset n = (if offset + n \<le> length b then Some (take n (drop offset b)) else None)"

text \<open>
  The checked operations are those of a 64-bit \<^verbatim>\<open>usize\<close>.  \<open>None\<close> is undefined behaviour.
\<close>

definition table_rows ::
  "string \<Rightarrow> nat \<Rightarrow> (bytes \<Rightarrow> 'r) \<Rightarrow> table_call \<Rightarrow> (windows_error + 'r list) option" where
  "table_rows api row_size decode t =
     (if fst (tc_first t) \<noteq> 0 \<and> fst (tc_first t) \<noteq> ERROR_INSUFFICIENT_BUFFER
      then Some (Inl (WinStatus api (fst (tc_first t))))
      else if snd (tc_first t) < 4 then Some (Inl WinInvalidTable)
      else if fst (tc_second t) \<noteq> 0 then Some (Inl (WinStatus api (fst (tc_second t))))
      else
        (case read_at (table_buffer t) 0 4 of
           None \<Rightarrow> None
         | Some header \<Rightarrow>
             (let count = from_le_bytes header in
              if 2 ^ 64 \<le> count * row_size \<or> 2 ^ 64 \<le> 4 + count * row_size
                 \<or> length (table_buffer t) < 4 + count * row_size
              then Some (Inl WinInvalidTable)
              else map_option (\<lambda>rows. Inr (map decode rows))
                     (those (map (\<lambda>index. read_at (table_buffer t) (4 + index * row_size) row_size) [0..<count])))))"

definition u32_at :: "bytes \<Rightarrow> nat \<Rightarrow> u32" where
  "u32_at b offset = of_nat (from_le_bytes (take 4 (drop offset b)))"

text \<open>The rows with their documented layout: addresses, scopes, ports, state and process.\<close>

record tcp_row =
  tw_state :: u32
  tw_local_address :: string
  tw_local_port :: u32
  tw_remote_address :: string
  tw_remote_port :: u32
  tw_pid :: u32

record udp_row =
  ud_local_address :: string
  ud_local_port :: u32
  ud_pid :: u32

definition tcp4_row :: "bytes \<Rightarrow> tcp_row" where
  "tcp4_row b = \<lparr>tw_state = u32_at b 0, tw_local_address = ipv4 (u32_at b 4), tw_local_port = u32_at b 8,
     tw_remote_address = ipv4 (u32_at b 12), tw_remote_port = u32_at b 16, tw_pid = u32_at b 20\<rparr>"

definition tcp6_row :: "bytes \<Rightarrow> tcp_row" where
  "tcp6_row b = \<lparr>tw_state = u32_at b 48, tw_local_address = ipv6 (take 16 b) (u32_at b 16),
     tw_local_port = u32_at b 20, tw_remote_address = ipv6 (take 16 (drop 24 b)) (u32_at b 40),
     tw_remote_port = u32_at b 44, tw_pid = u32_at b 52\<rparr>"

definition udp4_row :: "bytes \<Rightarrow> udp_row" where
  "udp4_row b = \<lparr>ud_local_address = ipv4 (u32_at b 0), ud_local_port = u32_at b 4, ud_pid = u32_at b 8\<rparr>"

definition udp6_row :: "bytes \<Rightarrow> udp_row" where
  "udp6_row b = \<lparr>ud_local_address = ipv6 (take 16 b) (u32_at b 16), ud_local_port = u32_at b 20,
     ud_pid = u32_at b 24\<rparr>"

definition rows_or_default :: "(windows_error + 'r list) option \<Rightarrow> 'r list" where
  "rows_or_default r = (case r of Some (Inr rows) \<Rightarrow> rows | _ \<Rightarrow> [])"

definition tcp4_rows :: "table_call \<Rightarrow> tcp_row list" where
  "tcp4_rows t = rows_or_default (table_rows ''GetExtendedTcpTable'' 24 tcp4_row t)"

definition tcp6_rows :: "table_call \<Rightarrow> tcp_row list" where
  "tcp6_rows t = rows_or_default (table_rows ''GetExtendedTcpTable'' 56 tcp6_row t)"

definition udp4_rows :: "table_call \<Rightarrow> udp_row list" where
  "udp4_rows t = rows_or_default (table_rows ''GetExtendedUdpTable'' 12 udp4_row t)"

definition udp6_rows :: "table_call \<Rightarrow> udp_row list" where
  "udp6_rows t = rows_or_default (table_rows ''GetExtendedUdpTable'' 28 udp6_row t)"

section \<open>The state of the collector\<close>

record tcp_key =
  tk_local_address :: string
  tk_local_port :: u16
  tk_remote_address :: string
  tk_remote_port :: u16
  tk_pid :: u32

record tcp_sample =
  ts_sent :: u64
  ts_received :: u64
  ts_captured_at :: nat

record tcp_usage =
  us_sent :: "u64 option"
  us_received :: "u64 option"
  us_send_rate :: "u64 option"
  us_receive_rate :: "u64 option"
  us_status :: string

record wfp_monitor =
  wm_status :: string
  wm_detail :: string
  wm_event_count :: nat

record collector =
  co_process_cpu :: "(u32 \<times> u64 \<times> nat) list"
  co_signature_cache :: "(string \<times> signature_status) list"
  co_tcp_previous :: "(tcp_key \<times> tcp_sample) list"
  co_tcp_enable_attempted :: "tcp_key list"
  co_reputation :: reputation_feed
  co_dns :: dns_state
  co_wfp :: wfp_monitor

text \<open>The Windows Filtering Platform: the status of opening the engine and of subscribing to its events.\<close>

definition wfp_start :: "u32 \<Rightarrow> u32 \<Rightarrow> wfp_monitor" where
  "wfp_start open_status subscribe_status =
     (if open_status \<noteq> 0 then
        \<lparr>wm_status = ''unavailable'', wm_detail = ''WFP engine open returned 0x'' @ hex_digits 8 (unat open_status),
         wm_event_count = 0\<rparr>
      else if subscribe_status = 0 then
        \<lparr>wm_status = ''subscribed'',
         wm_detail = ''Read-only WFP net-event subscription active; no filters installed'', wm_event_count = 0\<rparr>
      else
        \<lparr>wm_status = ''engine_only'', wm_detail = ''WFP engine is accessible; event subscription returned 0x''
           @ hex_digits 8 (unat subscribe_status), wm_event_count = 0\<rparr>)"

definition wfp_event_callback :: "wfp_monitor \<Rightarrow> wfp_monitor" where
  "wfp_event_callback m = m\<lparr>wm_event_count := wm_event_count m + 1\<rparr>"

definition collector_new :: "windows_error + reputation_feed \<Rightarrow> wfp_monitor \<Rightarrow> collector" where
  "collector_new bundled monitor =
     \<lparr>co_process_cpu = [], co_signature_cache = [], co_tcp_previous = [], co_tcp_enable_attempted = [],
      co_reputation = (case bundled of Inl _ \<Rightarrow> \<lparr>rf_version = [], rf_indicators = []\<rparr> | Inr feed \<Rightarrow> feed),
      co_dns = dns_default, co_wfp = monitor\<rparr>"

definition set_reputation_feed :: "reputation_feed \<Rightarrow> collector \<Rightarrow> collector" where
  "set_reputation_feed feed co = co\<lparr>co_reputation := feed\<rparr>"

text \<open>
  What Windows answers during one snapshot.  An opened process tells its image name, the memory
  counters of a second handle and its kernel and user times, each of which may fail; a time is a pair
  of the high and the low half.  \<open>kw_trust\<close> is whether the path is a file and the status of
  \<^verbatim>\<open>WinVerifyTrust\<close>; \<open>kw_estats\<close> the statistics of a connection or the status of the failed call;
  \<open>kw_worker\<close> what the thread that resolves names does between two lookups.
\<close>

record process_entry =
  pe_process_id :: u32
  pe_parent_process_id :: u32
  pe_threads :: u32
  pe_exe_file :: "nat list"

record process_handle =
  ph_path :: "nat list option"
  ph_working_set :: "u64 option"
  ph_times :: "((u32 \<times> u32) \<times> u32 \<times> u32) option"

record process_details =
  pd_path :: string
  pd_working_set_bytes :: u64
  pd_cpu_total :: "u64 option"

record collector_world =
  kw_elevated :: bool
  kw_toolhelp :: "windows_error + process_entry \<times> process_entry list"
  kw_processes_at :: nat
  kw_endpoints_at :: nat
  kw_dns_at :: nat
  kw_unix_seconds :: nat
  kw_parallelism :: "nat option"
  kw_env :: "string \<Rightarrow> string option"
  kw_lc :: "string \<Rightarrow> string"
  kw_open :: "u32 \<Rightarrow> process_handle option"
  kw_metadata :: "string \<Rightarrow> (u64 \<times> nat option) option"
  kw_trust :: "string \<Rightarrow> bool \<times> u32"
  kw_cpu :: "u64 \<Rightarrow> nat \<Rightarrow> nat \<Rightarrow> u32"
  kw_rate :: "u64 \<Rightarrow> nat \<Rightarrow> u64"
  kw_tcp4 :: table_call
  kw_tcp6 :: table_call
  kw_udp4 :: table_call
  kw_udp6 :: table_call
  kw_estats :: "string \<Rightarrow> tcp_key \<Rightarrow> u32 + bool \<times> u64 \<times> u64"
  kw_enable :: "string \<Rightarrow> tcp_key \<Rightarrow> u32"
  kw_worker :: "dns_state \<Rightarrow> dns_state"

section \<open>Processes\<close>

definition filetime_value :: "u32 \<times> u32 \<Rightarrow> u64" where
  "filetime_value t = push_bit 32 (ucast (fst t)) OR ucast (snd t)"

definition query_process :: "collector_world \<Rightarrow> u32 \<Rightarrow> process_details option" where
  "query_process w pid =
     Option.bind (kw_open w pid) (\<lambda>h. map_option (\<lambda>path.
       \<lparr>pd_path = from_utf16_lossy path,
        pd_working_set_bytes = (case ph_working_set h of None \<Rightarrow> 0 | Some n \<Rightarrow> n),
        pd_cpu_total = map_option (\<lambda>(kernel, user). sat_add (filetime_value kernel) (filetime_value user)) (ph_times h)\<rparr>)
       (ph_path h))"

text \<open>An elapsed time of at most 119 ns is one of at most \<^verbatim>\<open>f32::EPSILON\<close> seconds.\<close>

definition cpu_percent ::
  "collector_world \<Rightarrow> u32 \<Rightarrow> u64 \<Rightarrow> nat \<Rightarrow> nat \<Rightarrow> collector \<Rightarrow> u32 \<times> collector" where
  "cpu_percent w pid total_100ns sampled_at processors co =
     (let previous = map_of (co_process_cpu co) pid;
          co = co\<lparr>co_process_cpu := AList.update pid (total_100ns, sampled_at) (co_process_cpu co)\<rparr> in
      case previous of
        None \<Rightarrow> (0, co)
      | Some (previous_total, previous_at) \<Rightarrow>
          (let elapsed = sampled_at - previous_at in
           if elapsed \<le> 119 \<or> total_100ns < previous_total then (0, co)
           else (let used = unat (sat_sub total_100ns previous_total) * 100 in
                 (kw_cpu w (of_nat (min used (2 ^ 64 - 1))) elapsed processors, co))))"

definition executable_identity :: "collector_world \<Rightarrow> string \<Rightarrow> string" where
  "executable_identity w path =
     (if path = [] then []
      else (let normalized = kw_lc w (to_backslashes path) in
            case kw_metadata w path of
              None \<Rightarrow> normalized
            | Some (len, modified) \<Rightarrow> normalized @ ''|'' @ show_nat (unat len) @ ''|''
                @ show_nat (case modified of None \<Rightarrow> 0 | Some nanos \<Rightarrow> nanos)))"

definition signature_status_of :: "collector_world \<Rightarrow> string \<Rightarrow> signature_status" where
  "signature_status_of w path =
     (let extension_text = to_ascii_lowercase (case path_extension path of None \<Rightarrow> [] | Some e \<Rightarrow> e) in
      if extension_text \<notin> {''exe'', ''dll'', ''sys'', ''scr'', ''com'', ''cpl'', ''msi''} then NotApplicable
      else if \<not> fst (kw_trust w path) then SignatureUnknown
      else (let status = snd (kw_trust w path) in
            if status = 0 then Trusted
            else if status \<in> {0x800B0001, 0x800B0003, 0x800B0100} then SignatureUnknown
            else Untrusted))"

text \<open>At most eight files are verified for one snapshot; the rest stays unknown until a later one.\<close>

definition cached_signature ::
  "collector_world \<Rightarrow> string \<Rightarrow> string \<Rightarrow> nat \<Rightarrow> collector \<Rightarrow> signature_status \<times> nat \<times> collector" where
  "cached_signature w identity path checks co =
     (if path = [] then (SignatureUnknown, checks, co)
      else case map_of (co_signature_cache co) identity of
        Some status \<Rightarrow> (status, checks, co)
      | None \<Rightarrow>
          if checks < 8 then
            (let status = signature_status_of w path in
             (status, checks + 1, co\<lparr>co_signature_cache := AList.update identity status (co_signature_cache co)\<rparr>))
          else (SignatureUnknown, checks, co))"

definition observe_entry ::
  "collector_world \<Rightarrow> process_entry \<Rightarrow> nat \<times> collector \<Rightarrow> process_record \<times> nat \<times> collector" where
  "observe_entry w entry state =
     (let (checks, co) = state; pid = pe_process_id entry; name = utf16_string (pe_exe_file entry);
          details = query_process w pid; accessible = (details \<noteq> None);
          path = (case details of None \<Rightarrow> [] | Some d \<Rightarrow> pd_path d);
          processors = (case kw_parallelism w of None \<Rightarrow> 1 | Some n \<Rightarrow> if n < 2 ^ 16 then n else 2 ^ 16 - 1);
          (cpu, co) = (case Option.bind details pd_cpu_total of
             None \<Rightarrow> (0, co) | Some t \<Rightarrow> cpu_percent w pid t (kw_processes_at w) processors co);
          identity = executable_identity w path;
          (signature, checks, co) = cached_signature w identity path checks co
      in (\<lparr>pr_pid = pid, pr_parent_pid = pe_parent_process_id entry, pr_name = name, pr_path = path,
           pr_thread_count = pe_threads entry,
           pr_working_set_bytes = (case details of None \<Rightarrow> 0 | Some d \<Rightarrow> pd_working_set_bytes d),
           pr_cpu_percent = cpu, pr_signature = signature, pr_accessible = accessible, pr_identity = identity,
           pr_is_new = False,
           pr_risk = assess_process (kw_lc w) name path signature accessible
             (from_process_environment (kw_lc w) (kw_env w))\<rparr>, checks, co))"

fun observe_entries ::
  "collector_world \<Rightarrow> process_entry list \<Rightarrow> nat \<times> collector \<Rightarrow> process_record list \<times> nat \<times> collector" where
  "observe_entries w [] state = ([], state)"
| "observe_entries w (entry # rest) state =
     (case observe_entry w entry state of
        (r, state) \<Rightarrow> (case observe_entries w rest state of (rs, state) \<Rightarrow> (r # rs, state)))"

definition process_order :: "process_record \<Rightarrow> nat \<times> string \<times> u32" where
  "process_order r = (255 - unat (ra_score (pr_risk r)), to_ascii_lowercase (pr_name r), pr_pid r)"

definition collect_processes ::
  "collector_world \<Rightarrow> collector \<Rightarrow> (windows_error + process_record list) \<times> collector" where
  "collect_processes w co =
     (case kw_toolhelp w of
        Inl e \<Rightarrow> (Inl e, co)
      | Inr (first, rest) \<Rightarrow>
          (case observe_entries w (first # rest) (0, co) of
             (records, _, co) \<Rightarrow>
               (let pids = map pe_process_id (first # rest);
                    co = co\<lparr>co_process_cpu := filter (\<lambda>(pid, _). pid \<in> set pids) (co_process_cpu co)\<rparr>;
                    co = (if 8192 < length (co_signature_cache co) then co\<lparr>co_signature_cache := []\<rparr> else co) in
                (Inr (sort_key process_order records), co))))"

section \<open>Connections\<close>

definition usage_status :: "string \<Rightarrow> tcp_usage" where
  "usage_status status =
     \<lparr>us_sent = None, us_received = None, us_send_rate = None, us_receive_rate = None, us_status = status\<rparr>"

text \<open>
  A rate is the saturating difference of two counters over the elapsed time, which is taken to be at
  least a microsecond.
\<close>

definition counter_rate :: "collector_world \<Rightarrow> u64 \<Rightarrow> u64 \<Rightarrow> nat \<Rightarrow> u64" where
  "counter_rate w current previous elapsed = kw_rate w (sat_sub current previous) elapsed"

definition sample_tcp_usage ::
  "collector_world \<Rightarrow> tcp_key \<Rightarrow> u64 \<Rightarrow> u64 \<Rightarrow> nat \<Rightarrow> collector \<Rightarrow> tcp_usage \<times> collector" where
  "sample_tcp_usage w key sent received sampled_at co =
     (let previous = map_of (co_tcp_previous co) key;
          current = \<lparr>ts_sent = sent, ts_received = received, ts_captured_at = sampled_at\<rparr>;
          co = co\<lparr>co_tcp_previous := AList.update key current (co_tcp_previous co)\<rparr>;
          rate = (\<lambda>now before. map_option (\<lambda>p.
            counter_rate w now (before p) (max (sampled_at - ts_captured_at p) 1000)) previous)
      in (\<lparr>us_sent = Some sent, us_received = Some received, us_send_rate = rate sent ts_sent,
           us_receive_rate = rate received ts_received, us_status = ''active''\<rparr>, co))"

text \<open>
  \<^verbatim>\<open>tcp6_usage\<close>, and \<^verbatim>\<open>tcp_usage\<close> with its other calls; \<open>protocol\<close> says which.  Collecting statistics is
  switched on once for a connection.  The code of \<^verbatim>\<open>tcp_usage\<close> repeats \<^verbatim>\<open>sample_tcp_usage\<close>; it follows as
  \<open>tcp4_usage\<close>.
\<close>

definition tcp_usage_of ::
  "collector_world \<Rightarrow> string \<Rightarrow> tcp_row \<Rightarrow> tcp_key \<Rightarrow> nat \<Rightarrow> collector \<Rightarrow> tcp_usage \<times> collector" where
  "tcp_usage_of w protocol row key sampled_at co =
     (if tw_state row \<noteq> 5 then (usage_status ''not_established'', co)
      else case kw_estats w protocol key of
        Inl result \<Rightarrow> (usage_status (''unavailable_'' @ show_nat (unat result)), co)
      | Inr (enabled, sent, received) \<Rightarrow>
          if enabled then sample_tcp_usage w key sent received sampled_at co
          else if \<not> kw_elevated w then (usage_status ''service_required'', co)
          else if key \<in> set (co_tcp_enable_attempted co) then (usage_status ''warming'', co)
          else (let co = co\<lparr>co_tcp_enable_attempted := key # co_tcp_enable_attempted co\<rparr>; result = kw_enable w protocol key in
                (usage_status (if result \<noteq> 0 then ''unavailable_'' @ show_nat (unat result) else ''warming''), co)))"

definition tcp4_usage ::
  "collector_world \<Rightarrow> tcp_row \<Rightarrow> tcp_key \<Rightarrow> nat \<Rightarrow> collector \<Rightarrow> tcp_usage \<times> collector" where
  "tcp4_usage w row key sampled_at co =
     (if tw_state row \<noteq> 5 then (usage_status ''not_established'', co)
      else case kw_estats w ''TCP4'' key of
        Inl result \<Rightarrow> (usage_status (''unavailable_'' @ show_nat (unat result)), co)
      | Inr (enabled, sent, received) \<Rightarrow>
          if \<not> enabled then
            (if \<not> kw_elevated w then (usage_status ''service_required'', co)
             else if key \<in> set (co_tcp_enable_attempted co) then (usage_status ''warming'', co)
             else (let co = co\<lparr>co_tcp_enable_attempted := key # co_tcp_enable_attempted co\<rparr>; result = kw_enable w ''TCP4'' key in
                   (usage_status (if result \<noteq> 0 then ''unavailable_'' @ show_nat (unat result) else ''warming''), co)))
          else
            (let previous = map_of (co_tcp_previous co) key;
                 co = co\<lparr>co_tcp_previous := AList.update key
                   \<lparr>ts_sent = sent, ts_received = received, ts_captured_at = sampled_at\<rparr> (co_tcp_previous co)\<rparr>;
                 (send_rate, receive_rate) =
                   (case previous of
                      None \<Rightarrow> (None, None)
                    | Some p \<Rightarrow>
                        (let elapsed = max (sampled_at - ts_captured_at p) 1000 in
                         (Some (counter_rate w sent (ts_sent p) elapsed),
                          Some (counter_rate w received (ts_received p) elapsed))))
             in (\<lparr>us_sent = Some sent, us_received = Some received, us_send_rate = send_rate,
                  us_receive_rate = receive_rate, us_status = ''active''\<rparr>, co)))"

lemma tcp4_usage_eq: "tcp4_usage w row key sampled_at co = tcp_usage_of w ''TCP4'' row key sampled_at co"
  by (auto simp: tcp4_usage_def tcp_usage_of_def sample_tcp_usage_def Let_def split: sum.splits option.splits)

definition owner_name :: "process_record option \<Rightarrow> string" where
  "owner_name owner = (case owner of None \<Rightarrow> [] | Some p \<Rightarrow> pr_name p)"

definition owner_path :: "process_record option \<Rightarrow> string" where
  "owner_path owner = (case owner of None \<Rightarrow> [] | Some p \<Rightarrow> pr_path p)"

definition tcp_endpoint :: "string \<Rightarrow> tcp_row \<Rightarrow> tcp_key \<Rightarrow> process_record option \<Rightarrow> tcp_usage \<Rightarrow> network_endpoint" where
  "tcp_endpoint protocol row key owner usage =
     \<lparr>ne_protocol = protocol, ne_local_address = tw_local_address row, ne_local_port = tk_local_port key,
      ne_remote_address = tw_remote_address row, ne_remote_port = tk_remote_port key,
      ne_state = tcp_state (tw_state row), ne_pid = tk_pid key, ne_process_name = owner_name owner,
      ne_process_path = owner_path owner, ne_remote_hostname = [], ne_reputation = ''unknown'',
      ne_reputation_reason = ''No signed local reputation match'', ne_bytes_sent = us_sent usage,
      ne_bytes_received = us_received usage, ne_send_rate_bps = us_send_rate usage,
      ne_receive_rate_bps = us_receive_rate usage, ne_usage_status = us_status usage\<rparr>"

definition udp_endpoint :: "string \<Rightarrow> udp_row \<Rightarrow> process_record option \<Rightarrow> network_endpoint" where
  "udp_endpoint protocol row owner =
     \<lparr>ne_protocol = protocol, ne_local_address = ud_local_address row, ne_local_port = network_port (ud_local_port row),
      ne_remote_address = ''*'', ne_remote_port = 0, ne_state = ''BOUND'', ne_pid = ud_pid row,
      ne_process_name = owner_name owner, ne_process_path = owner_path owner, ne_remote_hostname = [],
      ne_reputation = ''not_applicable'',
      ne_reputation_reason = ''UDP owner metadata does not expose a destination'', ne_bytes_sent = None,
      ne_bytes_received = None, ne_send_rate_bps = None, ne_receive_rate_bps = None,
      ne_usage_status = ''metadata_only''\<rparr>"

definition tcp_key_of :: "tcp_row \<Rightarrow> tcp_key" where
  "tcp_key_of row =
     \<lparr>tk_local_address = tw_local_address row, tk_local_port = network_port (tw_local_port row),
      tk_remote_address = tw_remote_address row, tk_remote_port = network_port (tw_remote_port row),
      tk_pid = tw_pid row\<rparr>"

fun tcp_endpoints ::
  "collector_world \<Rightarrow> string \<Rightarrow> (u32 \<Rightarrow> process_record option) \<Rightarrow> tcp_row list \<Rightarrow> collector
   \<Rightarrow> network_endpoint list \<times> collector" where
  "tcp_endpoints w protocol owners [] co = ([], co)"
| "tcp_endpoints w protocol owners (row # rows) co =
     (let key = tcp_key_of row; (usage, co) = tcp_usage_of w protocol row key (kw_endpoints_at w) co;
          (rest, co) = tcp_endpoints w protocol owners rows co
      in (tcp_endpoint protocol row key (owners (tw_pid row)) usage # rest, co))"

definition tcp4_endpoints ::
  "collector_world \<Rightarrow> (u32 \<Rightarrow> process_record option) \<Rightarrow> collector \<Rightarrow> network_endpoint list \<times> collector" where
  "tcp4_endpoints w owners co = tcp_endpoints w ''TCP4'' owners (tcp4_rows (kw_tcp4 w)) co"

definition tcp6_endpoints ::
  "collector_world \<Rightarrow> (u32 \<Rightarrow> process_record option) \<Rightarrow> collector \<Rightarrow> network_endpoint list \<times> collector" where
  "tcp6_endpoints w owners co = tcp_endpoints w ''TCP6'' owners (tcp6_rows (kw_tcp6 w)) co"

text \<open>\<^verbatim>\<open>DnsResolver::hostname\<close> to its end: the answer, and the address queued if it is a new one.\<close>

definition dns_settle :: "dns_state \<Rightarrow> dns_state" where
  "dns_settle s =
     (let s = (case dn_client s of ClientMiss a \<Rightarrow> dns_mark a s | _ \<Rightarrow> s);
          s = (case dn_client s of ClientSend a \<Rightarrow> dns_try_send a s | _ \<Rightarrow> s)
      in case dn_client s of ClientUndo a \<Rightarrow> dns_undo a s | _ \<Rightarrow> s)"

definition hostname_of :: "collector_world \<Rightarrow> string \<Rightarrow> collector \<Rightarrow> string \<times> collector" where
  "hostname_of w address co =
     (case dns_hostname (kw_dns_at w) address (kw_worker w (co_dns co)) of
        (hostname, s) \<Rightarrow> (hostname, co\<lparr>co_dns := dns_settle s\<rparr>))"

fun enrich_endpoints :: "collector_world \<Rightarrow> network_endpoint list \<Rightarrow> collector \<Rightarrow> network_endpoint list \<times> collector" where
  "enrich_endpoints w [] co = ([], co)"
| "enrich_endpoints w (e # es) co =
     (let (e, co) =
            (if ne_remote_address e = ''*'' then (e, co)
             else (let (verdict, reason) = classify_address (co_reputation co) (ne_remote_address e);
                       (hostname, co) = hostname_of w (ne_remote_address e) co
                   in (e\<lparr>ne_reputation := verdict, ne_reputation_reason := reason, ne_remote_hostname := hostname\<rparr>, co)));
          (es, co) = enrich_endpoints w es co
      in (e # es, co))"

definition endpoint_order :: "network_endpoint \<Rightarrow> string \<times> u32 \<times> string" where
  "endpoint_order e = (to_ascii_lowercase (ne_process_name e), ne_pid e, ne_protocol e)"

definition collect_endpoints ::
  "collector_world \<Rightarrow> (u32 \<Rightarrow> process_record option) \<Rightarrow> collector \<Rightarrow> network_endpoint list \<times> collector" where
  "collect_endpoints w owners co =
     (let (es4, co) = tcp4_endpoints w owners co;
          (es6, co) = tcp6_endpoints w owners co;
          udp4 = map (\<lambda>r. udp_endpoint ''UDP4'' r (owners (ud_pid r))) (udp4_rows (kw_udp4 w));
          udp6 = map (\<lambda>r. udp_endpoint ''UDP6'' r (owners (ud_pid r))) (udp6_rows (kw_udp6 w));
          active_keys = map tcp_key_of (tcp4_rows (kw_tcp4 w) @ tcp6_rows (kw_tcp6 w));
          co = co\<lparr>co_tcp_previous := filter (\<lambda>(k, _). k \<in> set active_keys) (co_tcp_previous co),
            co_tcp_enable_attempted := filter (\<lambda>k. k \<in> set active_keys) (co_tcp_enable_attempted co)\<rparr>;
          (es, co) = enrich_endpoints w (es4 @ es6 @ udp4 @ udp6) co
      in (sort_key endpoint_order es, co))"

section \<open>The snapshot\<close>

definition collector_coverage :: "collector_world \<Rightarrow> network_endpoint list \<Rightarrow> collector \<Rightarrow> coverage_note list" where
  "collector_coverage w endpoints co =
     (let active_counters = length (filter (\<lambda>e. ne_usage_status e = ''active'') endpoints);
          note = (\<lambda>source state detail. \<lparr>cn_source = source, cn_state = state, cn_detail = detail\<rparr>)
      in [note ''process_snapshot'' Active ''Tool Help inventory with executable, memory, and sampled CPU data'',
          note ''network_snapshot'' (if 0 < active_counters \<or> kw_elevated w then Active else Limited)
            (if 0 < active_counters then ''Owner PID metadata is active; TCP byte counters are active on ''
                @ show_nat active_counters @ '' flows''
             else if kw_elevated w then ''Owner PID metadata is active; TCP byte counters are warming up''
             else ''Owner PID metadata is active; TCP byte counters require the elevated service''),
          note ''network_reputation'' Active (''Signed local IP/CIDR reputation '' @ rf_version (co_reputation co)
            @ '' with bounded asynchronous PTR enrichment''),
          note ''wfp_net_events'' (if wm_status (co_wfp co) = ''subscribed'' then Active else Limited)
            (wm_detail (co_wfp co) @ ''; '' @ show_nat (wm_event_count (co_wfp co)) @ '' events observed''),
          note ''content_engine'' Active
            ''Native SHA-256, YARA-X, PE/script heuristics, Authenticode, and AMSI are active''])"

text \<open>The map of processes is keyed by process identifier; the last of several wins.\<close>

definition take_snapshot :: "collector_world \<Rightarrow> collector \<Rightarrow> (windows_error + system_snapshot) \<times> collector" where
  "take_snapshot w co =
     (case collect_processes w co of
        (Inl e, co) \<Rightarrow> (Inl e, co)
      | (Inr processes, co) \<Rightarrow>
          (case collect_endpoints w (map_of (rev (map (\<lambda>p. (pr_pid p, p)) processes))) co of
             (endpoints, co) \<Rightarrow>
               (Inr \<lparr>sn_processes = processes, sn_endpoints = endpoints,
                  sn_captured_at = ''unix:'' @ show_nat (kw_unix_seconds w), sn_elevated = kw_elevated w,
                  sn_coverage = collector_coverage w endpoints co\<rparr>, co)))"

section \<open>Signals of a file\<close>

text \<open>\<^verbatim>\<open>AmsiScanner::scan\<close>: \<open>provider\<close> is \<^verbatim>\<open>AmsiScanBuffer\<close>, whose result is a 32-bit number.\<close>

definition amsi_scan :: "(bytes \<Rightarrow> int option) \<Rightarrow> bytes \<Rightarrow> string" where
  "amsi_scan provider content =
     (if 2 ^ 32 \<le> length content then ''skipped_size_limit''
      else case provider content of
        None \<Rightarrow> ''scan_error''
      | Some result \<Rightarrow>
          if 32768 \<le> result then ''detected''
          else if 16384 \<le> result \<and> result \<le> 20479 then ''blocked_by_admin''
          else if result = 0 then ''clean''
          else ''not_detected'')"

text \<open>What \<open>apply_windows_scan_signals\<close> asks about a file; \<open>initialized\<close> is whether AMSI is there.\<close>

definition windows_signals_of ::
  "collector_world \<Rightarrow> (string \<Rightarrow> bytes option) \<Rightarrow> bool \<Rightarrow> (bytes \<Rightarrow> int option) \<Rightarrow> string \<Rightarrow> windows_signals" where
  "windows_signals_of w read_file initialized provider path =
     \<lparr>ws_signature = signature_status_of w path, ws_size = map_option fst (kw_metadata w path),
      ws_content = read_file path, ws_amsi = (if initialized then Some (amsi_scan provider) else None)\<rparr>"

end
