(* ===== verification/OG_Sampling.thy ===== *)
theory OG_Sampling
  imports OG_Collector "HOL-Library.Multiset"
begin

text \<open>
  What the collector (\<open>OG_Collector\<close>) guarantees: it never reads outside the tables that Windows returns,
  its caches follow what is running, and a snapshot lists everything that was found.
\<close>

section \<open>Tables\<close>

lemma those_map: "those (map f xs) = (if \<exists>x \<in> set xs. f x = None then None else Some (map (\<lambda>x. the (f x)) xs))"
  by (induction xs) (auto split: option.splits)

lemma length_table_buffer: "length (table_buffer t) = unat (snd (tc_first t))"
  by (simp add: table_buffer_def Let_def)

lemma row_in_bounds:
  assumes "i < k" "4 + k * n \<le> length b"
  shows "read_at b (4 + i * n) n = Some (take n (drop (4 + i * n) b))"
proof -
  have "i * n + n \<le> k * n" using assms(1) mult_le_mono1 [of "Suc i" k n] by simp
  with assms(2) show ?thesis by (simp add: read_at_def)
qed

lemma table_rows_cases:
  obtains e where "table_rows api n decode t = Some (Inl e)"
  | rows where "table_rows api n decode t = Some (Inr rows)"
    "4 + length rows * n \<le> length (table_buffer t)" "length rows = from_le_bytes (take 4 (table_buffer t))"
    "rows = map (\<lambda>i. decode (take n (drop (4 + i * n) (table_buffer t)))) [0..<length rows]"
proof -
  let ?b = "table_buffer t" and ?count = "from_le_bytes (take 4 (table_buffer t))"
  consider (err) e where "table_rows api n decode t = Some (Inl e)"
    | (ok) "\<not> snd (tc_first t) < 4" "4 + ?count * n \<le> length ?b" "table_rows api n decode t
        = map_option (\<lambda>rows. Inr (map decode rows)) (those (map (\<lambda>i. read_at ?b (4 + i * n) n) [0..<?count]))"
  proof (cases "\<not> snd (tc_first t) < 4")
    case True
    then have "4 \<le> length ?b" by (simp add: length_table_buffer word_less_nat_alt)
    then have h: "read_at ?b 0 4 = Some (take 4 ?b)" by (simp add: read_at_def)
    show ?thesis
    proof (cases "(fst (tc_first t) \<noteq> 0 \<and> fst (tc_first t) \<noteq> ERROR_INSUFFICIENT_BUFFER)
        \<or> fst (tc_second t) \<noteq> 0 \<or> length ?b < 4 + ?count * n")
      case True
      then have "\<exists>e. table_rows api n decode t = Some (Inl e)" by (auto simp: table_rows_def h Let_def)
      then show ?thesis using err by blast
    next
      case False
      have "length ?b < 2 ^ 32" using unsigned_less [where 'a = nat, of "snd (tc_first t)"]
        by (simp add: length_table_buffer)
      with False \<open>\<not> snd (tc_first t) < 4\<close> show ?thesis by (intro ok) (auto simp: table_rows_def h Let_def)
    qed
  next
    case False
    then have "\<exists>e. table_rows api n decode t = Some (Inl e)" by (auto simp: table_rows_def)
    then show ?thesis using err by blast
  qed
  then show ?thesis
  proof cases
    case ok
    have "those (map (\<lambda>i. read_at ?b (4 + i * n) n) [0..<?count])
        = Some (map (\<lambda>i. take n (drop (4 + i * n) ?b)) [0..<?count])"
      by (subst map_cong [OF refl, of _ _ "\<lambda>i. Some (take n (drop (4 + i * n) ?b))"])
        (auto simp: row_in_bounds [OF _ ok(2)] those_map)
    with ok that(2) [of "map (\<lambda>i. decode (take n (drop (4 + i * n) ?b))) [0..<?count]"] show ?thesis
      by (simp add: comp_def)
  qed (rule that(1))
qed

text \<open>
  C13. A table of connections is read within its bounds: whatever the two calls return, even when the
  table grew in between or announces more rows than fit, reading ends with an error or with exactly
  the announced rows, each taken from its own place inside the buffer.
\<close>

theorem tables_read_in_bounds:
  "table_rows api n decode t \<noteq> None
    \<and> (\<forall>rows. table_rows api n decode t = Some (Inr rows) \<longrightarrow>
         4 + length rows * n \<le> unat (snd (tc_first t)) \<and> length rows = from_le_bytes (take 4 (table_buffer t))
         \<and> (\<forall>i < length rows. rows ! i = decode (take n (drop (4 + i * n) (table_buffer t)))))"
proof (cases rule: table_rows_cases [of api n decode t])
  case (2 rows)
  have "rows ! i = decode (take n (drop (4 + i * n) (table_buffer t)))" if "i < length rows" for i
    by (subst 2(4)) (simp add: that)
  with 2(1-3) show ?thesis by (auto simp: length_table_buffer)
qed simp

text \<open>The table of a busy system may grow between the two calls; the connections are then left out.\<close>

lemma grown_table_has_no_rows:
  "fst (tc_second t) = ERROR_INSUFFICIENT_BUFFER \<Longrightarrow> tcp4_rows t = [] \<and> tcp6_rows t = []"
  by (simp add: tcp4_rows_def tcp6_rows_def rows_or_default_def table_rows_def ERROR_INSUFFICIENT_BUFFER_def)

section \<open>The caches\<close>

definition collector_ok :: "collector \<Rightarrow> bool" where
  "collector_ok co \<longleftrightarrow> distinct (map fst (co_process_cpu co)) \<and> distinct (map fst (co_tcp_previous co))
     \<and> distinct (co_tcp_enable_attempted co) \<and> length (co_signature_cache co) \<le> 8192"

definition processes_only :: "collector \<Rightarrow> collector \<Rightarrow> bool" where
  "processes_only co co' \<longleftrightarrow> co_tcp_previous co' = co_tcp_previous co
     \<and> co_tcp_enable_attempted co' = co_tcp_enable_attempted co"

lemma cpu_percent_effect:
  "cpu_percent w pid t sampled n co = (r, co') \<Longrightarrow>
     co' = co\<lparr>co_process_cpu := AList.update pid (t, sampled) (co_process_cpu co)\<rparr>"
  by (auto simp: cpu_percent_def Let_def split: option.splits if_splits)

lemma cached_signature_effect:
  assumes "cached_signature w i path checks co = (r, checks', co')"
  shows "checks \<le> checks' \<and> (checks' \<le> 8 \<or> checks' = checks)
    \<and> length (co_signature_cache co') + checks \<le> length (co_signature_cache co) + checks'
    \<and> co_process_cpu co' = co_process_cpu co \<and> processes_only co co'"
  using assms length_update_le [of i _ "co_signature_cache co"]
  by (auto simp: cached_signature_def processes_only_def Let_def split: option.splits if_splits)

lemma observe_entry_effect:
  assumes "observe_entry w e (checks, co) = (r, checks', co')"
  shows "checks \<le> checks' \<and> (checks' \<le> 8 \<or> checks' = checks) \<and> pr_pid r = pe_process_id e
    \<and> length (co_signature_cache co') + checks \<le> length (co_signature_cache co) + checks'
    \<and> processes_only co co' \<and> (distinct (map fst (co_process_cpu co)) \<longrightarrow> distinct (map fst (co_process_cpu co')))"
proof -
  let ?pid = "pe_process_id e"
  define d where "d = query_process w ?pid"
  define path where "path = (case d of None \<Rightarrow> [] | Some d \<Rightarrow> pd_path d)"
  define n where "n = (case kw_parallelism w of None \<Rightarrow> 1 | Some n \<Rightarrow> if n < 2 ^ 16 then n else 2 ^ 16 - 1)"
  obtain cpu co1 where c: "(case Option.bind d pd_cpu_total of None \<Rightarrow> (0, co)
      | Some t \<Rightarrow> cpu_percent w ?pid t (kw_processes_at w) n co) = (cpu, co1)" by force
  obtain sig checks2 co2 where s: "cached_signature w (executable_identity w path) path checks co1 = (sig, checks2, co2)"
    by (metis prod_cases3)
  have r: "pr_pid r = ?pid" "checks' = checks2" "co' = co2"
    using assms unfolding observe_entry_def Let_def prod.case d_def [symmetric] path_def [symmetric]
      n_def [symmetric] c s by (simp_all add: prod_eq_iff) (auto simp: prod_eq_iff)
  have co1: "co1 = co \<or> (\<exists>x. co1 = co\<lparr>co_process_cpu := AList.update ?pid x (co_process_cpu co)\<rparr>)"
    using c by (cases "Option.bind d pd_cpu_total") (auto dest!: cpu_percent_effect)
  then have "co_signature_cache co1 = co_signature_cache co" "processes_only co co1"
    "distinct (map fst (co_process_cpu co)) \<longrightarrow> distinct (map fst (co_process_cpu co1))"
    by (auto simp: processes_only_def distinct_update)
  with cached_signature_effect [OF s] r show ?thesis by (auto simp: processes_only_def)
qed

lemma observe_entries_effect:
  assumes "observe_entries w es (checks, co) = (rs, checks', co')" "checks \<le> 8"
  shows "checks' \<le> 8 \<and> checks \<le> checks' \<and> map pr_pid rs = map pe_process_id es
    \<and> length (co_signature_cache co') + checks \<le> length (co_signature_cache co) + checks'
    \<and> processes_only co co' \<and> (distinct (map fst (co_process_cpu co)) \<longrightarrow> distinct (map fst (co_process_cpu co')))"
  using assms
proof (induction es arbitrary: checks co rs)
  case (Cons e es)
  obtain r c1 co1 where 1: "observe_entry w e (checks, co) = (r, c1, co1)" by (metis prod_cases3)
  obtain rs' where 2: "observe_entries w es (c1, co1) = (rs', checks', co')" "rs = r # rs'"
    using Cons.prems(1) 1 by (auto split: prod.splits)
  note a = observe_entry_effect [OF 1]
  have "c1 \<le> 8" using a Cons.prems(2) by auto
  with a 2 Cons.IH [OF 2(1)] show ?case by (auto simp: processes_only_def)
qed (simp add: processes_only_def)

lemma collect_processes_effect:
  assumes "collect_processes w co = (Inr ps, co')" "collector_ok co"
  shows "collector_ok co' \<and> processes_only co co' \<and> fst ` set (co_process_cpu co') \<subseteq> pr_pid ` set ps
    \<and> sorted (map process_order ps)
    \<and> (\<exists>first rest. kw_toolhelp w = Inr (first, rest) \<and> mset (map pr_pid ps) = mset (map pe_process_id (first # rest)))"
proof -
  obtain first rest where t: "kw_toolhelp w = Inr (first, rest)"
    using assms(1) by (auto simp: collect_processes_def split: sum.splits)
  obtain rs checks co1 where o: "observe_entries w (first # rest) (0, co) = (rs, checks, co1)" by (metis prod_cases3)
  note e = observe_entries_effect [OF o]
  have ps: "ps = sort_key process_order rs"
    and co': "co_process_cpu co' = filter (\<lambda>(pid, _). pid \<in> set (map pe_process_id (first # rest))) (co_process_cpu co1)"
      "co_tcp_previous co' = co_tcp_previous co1" "co_tcp_enable_attempted co' = co_tcp_enable_attempted co1"
      "co_signature_cache co' = (if 8192 < length (co_signature_cache co1) then [] else co_signature_cache co1)"
    using assms(1) t o by (auto simp: collect_processes_def Let_def simp del: observe_entries.simps split: prod.splits)
  have pids: "map pr_pid rs = map pe_process_id (first # rest)" using e by simp
  have "mset (map pr_pid ps) = mset (map pr_pid rs)" by (simp add: ps)
  moreover have "set (map pr_pid ps) = set (map pr_pid rs)" by (simp add: ps)
  moreover have "distinct (map fst (co_process_cpu co'))"
    unfolding co'(1) using e assms(2) distinct_map_filter [of fst "co_process_cpu co1"] by (auto simp: collector_ok_def)
  ultimately show ?thesis
    using e assms(2) pids co' t by (auto simp: collector_ok_def processes_only_def ps)
qed

text \<open>Sampling and switching on statistics touch the entries of their own connection.\<close>

definition tcp_keys :: "collector_world \<Rightarrow> tcp_key set" where
  "tcp_keys w = tcp_key_of ` set (tcp4_rows (kw_tcp4 w) @ tcp6_rows (kw_tcp6 w))"

lemma tcp_usage_effect:
  assumes "tcp_usage_of w protocol row key t co = (u, co')" "collector_ok co"
  shows "collector_ok co' \<and> co_process_cpu co' = co_process_cpu co \<and> co_reputation co' = co_reputation co"
  using assms by (auto simp: tcp_usage_of_def sample_tcp_usage_def collector_ok_def Let_def distinct_update
      split: sum.splits prod.splits if_splits)

lemma tcp_endpoints_effect:
  assumes "tcp_endpoints w protocol owners rows co = (es, co')" "collector_ok co"
  shows "collector_ok co' \<and> co_process_cpu co' = co_process_cpu co \<and> co_reputation co' = co_reputation co
    \<and> list_all2 (\<lambda>row e. \<exists>u. e = tcp_endpoint protocol row (tcp_key_of row) (owners (tw_pid row)) u) rows es"
  using assms
proof (induction rows arbitrary: co es)
  case (Cons row rows)
  obtain u co1 where 1: "tcp_usage_of w protocol row (tcp_key_of row) (kw_endpoints_at w) co = (u, co1)" by force
  obtain es' where 2: "tcp_endpoints w protocol owners rows co1 = (es', co')"
    "es = tcp_endpoint protocol row (tcp_key_of row) (owners (tw_pid row)) u # es'"
    using Cons.prems(1) 1 by (auto simp: Let_def split: prod.splits)
  from tcp_usage_effect [OF 1 Cons.prems(2)] Cons.IH [OF 2(1)] 2(2) show ?case by auto
qed simp

lemma list_all2_origin: "list_all2 P xs ys \<Longrightarrow> y \<in> set ys \<Longrightarrow> \<exists>x \<in> set xs. P x y"
  by (induction rule: list_all2_induct) auto

text \<open>Enriching an endpoint leaves its identity and owner alone.\<close>

definition same_endpoint :: "network_endpoint \<Rightarrow> network_endpoint \<Rightarrow> bool" where
  "same_endpoint e e' \<longleftrightarrow> ne_pid e' = ne_pid e \<and> ne_process_name e' = ne_process_name e
     \<and> ne_process_path e' = ne_process_path e \<and> ne_protocol e' = ne_protocol e
     \<and> ne_remote_address e' = ne_remote_address e"

definition classified :: "reputation_feed \<Rightarrow> network_endpoint \<Rightarrow> bool" where
  "classified feed e \<longleftrightarrow> ne_remote_address e \<noteq> ''*''
     \<longrightarrow> (ne_reputation e, ne_reputation_reason e) = classify_address feed (ne_remote_address e)"

lemma enrich_endpoints_effect:
  assumes "enrich_endpoints w es co = (es', co')"
  shows "list_all2 same_endpoint es es' \<and> (\<forall>e \<in> set es'. classified (co_reputation co) e)
    \<and> (\<exists>s. co' = co\<lparr>co_dns := s\<rparr>)"
  using assms
proof (induction es arbitrary: co es')
  case Nil
  then show ?case by (metis (mono_tags) collector.surjective collector.update_convs(6) enrich_endpoints.simps(1) list.rel_inject(1) prod.inject empty_iff list.set(1))
next
  case (Cons e es)
  obtain e1 co1 where 1: "(if ne_remote_address e = ''*'' then (e, co)
      else (let (verdict, reason) = classify_address (co_reputation co) (ne_remote_address e);
                (hostname, co) = hostname_of w (ne_remote_address e) co
            in (e\<lparr>ne_reputation := verdict, ne_reputation_reason := reason, ne_remote_hostname := hostname\<rparr>, co))) = (e1, co1)"
    by force
  have e1: "same_endpoint e e1" "classified (co_reputation co) e1" "\<exists>s. co1 = co\<lparr>co_dns := s\<rparr>"
    using 1 by (auto simp: same_endpoint_def classified_def hostname_of_def split: if_splits prod.splits
        intro: exI [of _ "co_dns co"])
  obtain es1 where 2: "enrich_endpoints w es co1 = (es1, co')" "es' = e1 # es1"
    using Cons.prems unfolding enrich_endpoints.simps 1 by (auto split: prod.splits)
  from e1(3) obtain s where s: "co1 = co\<lparr>co_dns := s\<rparr>" ..
  with Cons.IH [OF 2(1)] e1(1,2) 2(2) show ?case by auto
qed

definition owned_by :: "(u32 \<Rightarrow> process_record option) \<Rightarrow> network_endpoint \<Rightarrow> bool" where
  "owned_by owners e \<longleftrightarrow> ne_process_name e = owner_name (owners (ne_pid e)) \<and> ne_process_path e = owner_path (owners (ne_pid e))"

lemma tcp_endpoint_owned: "owned_by owners (tcp_endpoint protocol row (tcp_key_of row) (owners (tw_pid row)) u)"
  by (simp add: owned_by_def tcp_endpoint_def tcp_key_of_def)

lemma udp_endpoint_owned: "owned_by owners (udp_endpoint protocol row (owners (ud_pid row)))"
  by (simp add: owned_by_def udp_endpoint_def)

lemma tcp_endpoints_owned:
  "tcp_endpoints w protocol owners rows co = (es, co') \<Longrightarrow> collector_ok co \<Longrightarrow> \<forall>e \<in> set es. owned_by owners e"
  using tcp_endpoints_effect [of w protocol owners rows co es co']
  by (auto dest!: list_all2_origin simp: tcp_endpoint_owned)

lemma owned_by_same: "same_endpoint x y \<Longrightarrow> owned_by owners x \<Longrightarrow> owned_by owners y"
  by (simp add: owned_by_def same_endpoint_def)

definition row_count :: "collector_world \<Rightarrow> nat" where
  "row_count w = length (tcp4_rows (kw_tcp4 w)) + length (tcp6_rows (kw_tcp6 w))
     + length (udp4_rows (kw_udp4 w)) + length (udp6_rows (kw_udp6 w))"

lemma collect_endpoints_effect:
  assumes "collect_endpoints w owners co = (es, co')" "collector_ok co"
  shows "collector_ok co' \<and> co_process_cpu co' = co_process_cpu co
    \<and> fst ` set (co_tcp_previous co') \<subseteq> tcp_keys w \<and> set (co_tcp_enable_attempted co') \<subseteq> tcp_keys w
    \<and> length es = row_count w \<and> sorted (map endpoint_order es)
    \<and> (\<forall>e \<in> set es. owned_by owners e \<and> classified (co_reputation co) e)"
proof -
  obtain es4 co1 where 4: "tcp_endpoints w ''TCP4'' owners (tcp4_rows (kw_tcp4 w)) co = (es4, co1)" by force
  obtain es6 co2 where 6: "tcp_endpoints w ''TCP6'' owners (tcp6_rows (kw_tcp6 w)) co1 = (es6, co2)" by force
  define udp where "udp = map (\<lambda>r. udp_endpoint ''UDP4'' r (owners (ud_pid r))) (udp4_rows (kw_udp4 w))
    @ map (\<lambda>r. udp_endpoint ''UDP6'' r (owners (ud_pid r))) (udp6_rows (kw_udp6 w))"
  define active where "active = map tcp_key_of (tcp4_rows (kw_tcp4 w) @ tcp6_rows (kw_tcp6 w))"
  define co3 where "co3 = co2\<lparr>co_tcp_previous := filter (\<lambda>(k, _). k \<in> set active) (co_tcp_previous co2),
    co_tcp_enable_attempted := filter (\<lambda>k. k \<in> set active) (co_tcp_enable_attempted co2)\<rparr>"
  obtain fs co4 where f: "enrich_endpoints w (es4 @ es6 @ udp) co3 = (fs, co4)" by force
  have es: "es = sort_key endpoint_order fs" "co' = co4"
    using assms(1) 4 6 f by (simp_all add: collect_endpoints_def tcp4_endpoints_def tcp6_endpoints_def Let_def udp_def active_def co3_def)
  note t4 = tcp_endpoints_effect [OF 4 assms(2)]
  have "collector_ok co1" using t4 by blast
  note t6 = tcp_endpoints_effect [OF 6 this]
  have keys: "fst ` set (co_tcp_previous co3) \<subseteq> tcp_keys w" "set (co_tcp_enable_attempted co3) \<subseteq> tcp_keys w"
    by (auto simp: co3_def active_def tcp_keys_def)
  have "distinct (map fst (co_tcp_previous co3))"
    unfolding co3_def using t6 distinct_map_filter [of fst "co_tcp_previous co2"] by (simp add: collector_ok_def)
  then have ok3: "collector_ok co3" using t6 \<open>collector_ok co1\<close> by (simp add: collector_ok_def co3_def)
  note e = enrich_endpoints_effect [OF f]
  have "owned_by owners x" if "x \<in> set (es4 @ es6 @ udp)" for x
    using that tcp_endpoints_owned [OF 4 assms(2)] tcp_endpoints_owned [OF 6 \<open>collector_ok co1\<close>] udp_endpoint_owned
    by (auto simp: udp_def)
  then have own: "\<forall>x \<in> set fs. owned_by owners x"
    using list_all2_origin [OF conjunct1 [OF e]] owned_by_same by blast
  have "length fs = length (es4 @ es6 @ udp)" using e list_all2_lengthD by metis
  moreover have "length es4 = length (tcp4_rows (kw_tcp4 w))" "length es6 = length (tcp6_rows (kw_tcp6 w))"
    using t4 t6 by (auto dest!: list_all2_lengthD)
  ultimately have len: "length es = row_count w" by (simp add: es row_count_def udp_def)
  obtain s where s: "co4 = co3\<lparr>co_dns := s\<rparr>" using e by blast
  have rep: "co_reputation co3 = co_reputation co" "co_process_cpu co3 = co_process_cpu co"
    using t4 t6 by (simp_all add: co3_def)
  show ?thesis
    using ok3 keys own len e rep by (auto simp: s es collector_ok_def)
qed

lemma collect_endpoints_reputation:
  assumes "collect_endpoints w owners co = (es, co')" "collector_ok co"
  shows "co_reputation co' = co_reputation co"
proof -
  obtain es4 co1 where 4: "tcp_endpoints w ''TCP4'' owners (tcp4_rows (kw_tcp4 w)) co = (es4, co1)" by force
  obtain es6 co2 where 6: "tcp_endpoints w ''TCP6'' owners (tcp6_rows (kw_tcp6 w)) co1 = (es6, co2)" by force
  note t4 = tcp_endpoints_effect [OF 4 assms(2)]
  then have "co_reputation co2 = co_reputation co" using tcp_endpoints_effect [OF 6] by simp
  with assms(1) 4 6 show ?thesis
    by (auto simp: collect_endpoints_def tcp4_endpoints_def tcp6_endpoints_def Let_def dest!: enrich_endpoints_effect split: prod.splits)
qed

section \<open>Snapshots\<close>

lemma take_snapshot_parts:
  assumes "take_snapshot w co = (Inr s, co')"
  obtains co1 where "collect_processes w co = (Inr (sn_processes s), co1)"
    "collect_endpoints w (map_of (rev (map (\<lambda>p. (pr_pid p, p)) (sn_processes s)))) co1 = (sn_endpoints s, co')"
  using assms by (auto simp: take_snapshot_def split: prod.splits sum.splits)

lemma collector_ok_failed: "collect_processes w co = (Inl e, co') \<Longrightarrow> co' = co"
  by (auto simp: collect_processes_def Let_def split: sum.splits prod.splits)

lemma collector_ok_step: "collector_ok co \<Longrightarrow> collector_ok (snd (take_snapshot w co))"
  using collect_processes_effect [of w co] collect_endpoints_effect [of w] collector_ok_failed [of w co]
  by (force simp: take_snapshot_def split: prod.splits sum.splits)

lemma collector_ok_run: "collector_ok co \<Longrightarrow> collector_ok (fold (\<lambda>w co. snd (take_snapshot w co)) ws co)"
  by (induction ws arbitrary: co) (simp_all add: collector_ok_step)

lemma collector_ok_new: "collector_ok (collector_new bundled monitor)"
  by (simp add: collector_ok_def collector_new_def)

lemma distinct_keys_bound: "distinct (map fst xs) \<Longrightarrow> fst ` set xs \<subseteq> A \<Longrightarrow> finite A \<Longrightarrow> length xs \<le> card A"
  by (metis card_mono distinct_card length_map list.set_map)

lemma tcp_keys_card: "card (tcp_keys w) \<le> row_count w" "finite (tcp_keys w)"
proof -
  have "card (tcp_keys w) \<le> length (tcp4_rows (kw_tcp4 w) @ tcp6_rows (kw_tcp6 w))"
    unfolding tcp_keys_def by (metis card_image_le card_length finite_set le_trans)
  then show "card (tcp_keys w) \<le> row_count w" by (simp add: row_count_def)
qed (simp add: tcp_keys_def)


text \<open>
  C22. A snapshot is complete and attributed: it lists exactly the processes of the inventory, riskiest
  first, and one endpoint for every row of the four tables; an endpoint carries the name and path of a
  listed process with its identifier, and its destination is classified by the feed in use.
\<close>

theorem snapshot_lists_everything:
  assumes "collector_ok co" "kw_toolhelp w = Inr (first, rest)" "take_snapshot w co = (Inr s, co')"
  shows "mset (map pr_pid (sn_processes s)) = mset (map pe_process_id (first # rest))
    \<and> sorted (map process_order (sn_processes s)) \<and> length (sn_endpoints s) = row_count w
    \<and> (\<forall>e \<in> set (sn_endpoints s). classified (co_reputation co') e
         \<and> (if ne_pid e \<in> pr_pid ` set (sn_processes s)
            then \<exists>p \<in> set (sn_processes s). pr_pid p = ne_pid e \<and> pr_name p = ne_process_name e \<and> pr_path p = ne_process_path e
            else ne_process_name e = [] \<and> ne_process_path e = []))"
proof -
  let ?owners = "map_of (rev (map (\<lambda>p. (pr_pid p, p)) (sn_processes s)))"
  obtain co1 where 1: "collect_processes w co = (Inr (sn_processes s), co1)"
    and 2: "collect_endpoints w ?owners co1 = (sn_endpoints s, co')"
    using take_snapshot_parts [OF assms(3)] .
  note p = collect_processes_effect [OF 1 assms(1)]
  then have ok: "collector_ok co1" by blast
  note e = collect_endpoints_effect [OF 2 ok]
  have rep: "co_reputation co' = co_reputation co1" by (rule collect_endpoints_reputation [OF 2 ok])
  have owner: "case ?owners i of None \<Rightarrow> i \<notin> pr_pid ` set (sn_processes s)
      | Some q \<Rightarrow> q \<in> set (sn_processes s) \<and> pr_pid q = i" for i
    by (force split: option.splits dest!: map_of_SomeD simp: map_of_eq_None_iff)
  have "if ne_pid x \<in> pr_pid ` set (sn_processes s)
      then \<exists>q \<in> set (sn_processes s). pr_pid q = ne_pid x \<and> pr_name q = ne_process_name x \<and> pr_path q = ne_process_path x
      else ne_process_name x = [] \<and> ne_process_path x = []" if "x \<in> set (sn_endpoints s)" for x
  proof -
    have own: "owned_by ?owners x" using e that by blast
    show ?thesis
    proof (cases "?owners (ne_pid x)")
      case (Some q)
      with owner [of "ne_pid x"] have q: "q \<in> set (sn_processes s)" "pr_pid q = ne_pid x" by simp_all
      then have "ne_pid x \<in> pr_pid ` set (sn_processes s)" by (metis imageI)
      with q own Some show ?thesis by (auto simp: owned_by_def owner_name_def owner_path_def)
    qed (insert own owner [of "ne_pid x"], simp add: owned_by_def owner_name_def owner_path_def)
  qed
  with p e assms(2) rep show ?thesis by simp
qed

section \<open>Concrete snapshots\<close>

definition sample_table :: table_call where
  "sample_table = \<lparr>tc_first = (122, 28), tc_second = (0, concat (map (le_bytes 4)
     [1, 5, 0x0100000A, 0x5000, 0x08080808, 0xBB01, 7]))\<rparr>"

definition empty_table :: table_call where
  "empty_table = \<lparr>tc_first = (0, 4), tc_second = (0, [])\<rparr>"

definition sample_entries :: "process_entry \<times> process_entry list" where
  "sample_entries = (\<lparr>pe_process_id = 4, pe_parent_process_id = 0, pe_threads = 1, pe_exe_file = [0x73, 0, 0]\<rparr>,
     [\<lparr>pe_process_id = 7, pe_parent_process_id = 4, pe_threads = 2, pe_exe_file = [0x61, 0]\<rparr>])"

definition sample_collector_world :: "windows_error + process_entry \<times> process_entry list \<Rightarrow> collector_world" where
  "sample_collector_world entries =
     \<lparr>kw_elevated = True, kw_toolhelp = entries, kw_processes_at = 1, kw_endpoints_at = 1, kw_dns_at = 1,
      kw_unix_seconds = 1, kw_parallelism = Some 2, kw_env = (\<lambda>_. None), kw_lc = id, kw_open = (\<lambda>_. None),
      kw_metadata = (\<lambda>_. None), kw_trust = (\<lambda>_. (True, 0)), kw_cpu = (\<lambda>_ _ _. 0), kw_rate = (\<lambda>n _. n),
      kw_tcp4 = sample_table, kw_tcp6 = empty_table, kw_udp4 = empty_table, kw_udp6 = empty_table,
      kw_estats = (\<lambda>_ _. Inr (True, 10, 20)), kw_enable = (\<lambda>_ _. 0), kw_worker = id\<rparr>"

definition sample_collector :: collector where
  "sample_collector = collector_new (Inl WinInvalidTable) (wfp_start 0 0)"

theorem tables_read_in_bounds_witness:
  "(case table_rows ''api'' 24 tcp4_row sample_table of
      Some (Inr rows) \<Rightarrow> length rows = 1 \<and> rows ! 0 = tcp4_row (take 24 (drop 4 (table_buffer sample_table)))
    | _ \<Rightarrow> False)"
proof -
  have "case table_rows ''api'' 24 tcp4_row sample_table of Some (Inr rows) \<Rightarrow> length rows = 1 | _ \<Rightarrow> False"
    by code_simp
  then obtain rows where r: "table_rows ''api'' 24 tcp4_row sample_table = Some (Inr rows)" "length rows = 1"
    by (auto split: option.splits sum.splits)
  with tables_read_in_bounds [of "''api''" 24 tcp4_row sample_table] show ?thesis by simp
qed


theorem snapshot_lists_everything_witness:
  "(case take_snapshot (sample_collector_world (Inr sample_entries)) sample_collector of
      (Inl e, _) \<Rightarrow> False
    | (Inr s, co) \<Rightarrow> mset (map pr_pid (sn_processes s)) = {#4, 7#} \<and> length (sn_endpoints s) = 1)"
proof -
  let ?run = "take_snapshot (sample_collector_world (Inr sample_entries)) sample_collector"
  have "case ?run of (Inl e, _) \<Rightarrow> False | (Inr s, co) \<Rightarrow> True" by code_simp
  then obtain s co where r: "?run = (Inr s, co)" by (auto split: prod.splits sum.splits)
  have ok: "collector_ok sample_collector" by (simp add: sample_collector_def collector_ok_new)
  have t: "kw_toolhelp (sample_collector_world (Inr sample_entries)) = Inr (fst sample_entries, snd sample_entries)"
    by (simp add: sample_collector_world_def)
  have "row_count (sample_collector_world (Inr sample_entries)) = 1" by code_simp
  with snapshot_lists_everything [OF ok t r] r show ?thesis by (simp add: sample_entries_def)
qed

text \<open>
  A connection of a dual-stack socket with a private IPv4 peer has an IPv4-mapped address; its text is
  taken for that of an unknown external destination.
\<close>

lemma mapped_private_address_is_external:
  "(let address = ipv6 (replicate 10 (CHR 0x00) @ [CHR 0xFF, CHR 0xFF, CHR 0x0A, CHR 0x00, CHR 0x00, CHR 0x01]) 0 in
      address = ''::ffff:10.0.0.1'' \<and> is_external_address address \<and> \<not> is_external_address ''10.0.0.1''
      \<and> fst (classify_address \<lparr>rf_version = [], rf_indicators = []\<rparr> address) = ''unknown''
      \<and> fst (classify_address \<lparr>rf_version = [], rf_indicators = []\<rparr> ''10.0.0.1'') = ''local'')"
  by code_simp

end
