(* ===== verification/OG_Protection.thy ===== *)
theory OG_Protection
  imports OG_EventLog OG_Memory OG_Chain OG_Risk OG_Scan OG_Host
begin

text \<open>
  The background protection loop (\<^verbatim>\<open>run_protection_loop\<close> and what it calls in
  \<^verbatim>\<open>openguard-service/src/main.rs\<close>): every cycle stores the events of the monitors, takes a snapshot,
  queues the processes that were not there before, analyses some of them and correlates their
  external flows.

  One cycle is a function of the state and of what the cycle meets: the snapshot, the files, the
  memory of the processes and the clock, which is read once for a cycle.  A warning that is only
  logged has no effect in the model.
\<close>

section \<open>Behaviour correlation\<close>

text \<open>
  \<^verbatim>\<open>apply_behavior_correlations\<close>.  A later process with the same identifier replaces an earlier one in
  the map of names.
\<close>

definition latest_by_pid :: "(process_record \<Rightarrow> 'a) \<Rightarrow> process_record list \<Rightarrow> u32 \<Rightarrow> 'a option" where
  "latest_by_pid f processes = map_of (rev (map (\<lambda>p. (pr_pid p, f p)) processes))"

type_synonym network_signals = "(u32 \<times> bool \<times> bool \<times> bool) list"

definition network_signal :: "network_endpoint \<Rightarrow> network_signals \<Rightarrow> network_signals" where
  "network_signal e signals =
     (if ne_remote_port e = 0 \<or> ne_remote_address e = ''*'' then signals
      else
        (let (a, b, c) = (case map_of signals (ne_pid e) of None \<Rightarrow> (False, False, False) | Some s \<Rightarrow> s) in
         AList.update (ne_pid e)
           (a \<or> ne_reputation e \<noteq> ''local'', b \<or> ne_reputation e = ''suspicious'',
            c \<or> ne_reputation e = ''malicious'') signals))"

definition network_signals :: "network_endpoint list \<Rightarrow> network_signals" where
  "network_signals endpoints = fold network_signal endpoints []"

definition correlate_process ::
  "(u32 \<Rightarrow> string option) \<Rightarrow> network_signals \<Rightarrow> process_record \<Rightarrow> process_record" where
  "correlate_process names signals p =
     (let parent = (case names (pr_parent_pid p) of None \<Rightarrow> [] | Some n \<Rightarrow> n);
          (a, b, c) = (case map_of signals (pr_pid p) of None \<Rightarrow> (False, False, False) | Some s \<Rightarrow> s) in
      p\<lparr>pr_risk := correlate_behavior (pr_risk p) (pr_name p) (pr_signature p) (pr_is_new p)
         \<lparr>bx_parent_name = parent, bx_has_public_network = a, bx_suspicious_destination = b,
          bx_malicious_destination = c\<rparr>\<rparr>)"

definition apply_behavior_correlations :: "system_snapshot \<Rightarrow> nat \<times> system_snapshot" where
  "apply_behavior_correlations s =
     (let names = latest_by_pid pr_name (sn_processes s);
          signals = network_signals (sn_endpoints s);
          processes = map (correlate_process names signals) (sn_processes s);
          correlated = filter (\<lambda>(p, q). length (ra_reasons (pr_risk p)) < length (ra_reasons (pr_risk q)))
                         (zip (sn_processes s) processes)
      in (length correlated, s\<lparr>sn_processes := processes\<rparr>))"

section \<open>The state of the loop\<close>

definition PROTECTION_HISTORY :: "u32 \<times> u32" where "PROTECTION_HISTORY = (10000, 100000)"
definition HISTORY_PRUNE_INTERVAL :: nat where "HISTORY_PRUNE_INTERVAL = 60 * 60 * 10 ^ 9"
definition REALTIME_SCAN_MAXIMUM_BYTES :: u64 where "REALTIME_SCAN_MAXIMUM_BYTES = 256 * 1024 * 1024"
definition MAXIMUM_REALTIME_SCANS_PER_CYCLE :: nat where "MAXIMUM_REALTIME_SCANS_PER_CYCLE = 8"

text \<open>
  The sets and maps of the loop; the processes analysed so far are a ghost field.  The database is
  the one of the host, whose outcomes decide which statements fail.
\<close>

record protection =
  pt_host :: host
  pt_scanner :: file_scanner
  pt_known :: "string list"
  pt_baselined :: bool
  pt_pending :: "process_record list"
  pt_suspicious :: "string list"
  pt_beacons :: "(string \<times> u8) list"
  pt_reported :: "string list"
  pt_sysmon :: sysmon_monitor
  pt_log :: event_log_monitor
  pt_chains :: engine
  pt_last_prune :: instant
  pt_snapshot :: "system_snapshot option"
  pt_analyzed :: "process_record list"

text \<open>
  What one cycle meets; \<open>pw_iter\<close> is the iteration order of the engine's map, and the deliveries are
  the callbacks of the monitors since the last cycle.
\<close>

record protection_world =
  pw_log_deliveries :: "(nat \<times> notify_action \<times> (string + sysmon_event)) list"
  pw_sysmon_deliveries :: "(notify_action \<times> (unit + sysmon_event)) list"
  pw_now :: instant
  pw_timestamp :: string
  pw_iter :: "(string \<times> chain) list \<Rightarrow> (string \<times> chain) list"
  pw_snapshot :: "string + system_snapshot"
  pw_is_file :: "string \<Rightarrow> bool"
  pw_size :: "string \<Rightarrow> u64 option"
  pw_scan :: "string \<Rightarrow> scan_world"
  pw_signals :: "string \<Rightarrow> windows_signals"
  pw_open_process :: "u32 \<Rightarrow> string + (u64 \<Rightarrow> memory_region option)"

text \<open>A statement whose failure is only logged.\<close>

definition pt_store :: "(database \<Rightarrow> 'a \<times> database) \<Rightarrow> protection \<Rightarrow> protection" where
  "pt_store f p =
     p\<lparr>pt_host := ignoring (db_call (\<lambda>d. case f d of (i, d) \<Rightarrow> (Inr i, d))) (pt_host p)\<rparr>"

section \<open>History and monitors\<close>

definition prune_protection_history :: "instant \<Rightarrow> protection \<Rightarrow> protection" where
  "prune_protection_history now p =
     (if now - pt_last_prune p < HISTORY_PRUNE_INTERVAL then p
      else (pt_store (prune_event_history (fst PROTECTION_HISTORY) (snd PROTECTION_HISTORY)) p)
             \<lparr>pt_last_prune := now\<rparr>)"

definition defender_event :: "windows_event \<Rightarrow> security_event" where
  "defender_event e =
     \<lparr>se_id = None, se_event_type = ''windows_defender_detection'', se_severity = we_severity e,
      se_title = we_title e, se_detail = we_detail e, se_process_id = we_process_id e,
      se_path = we_path e, se_created_at = we_occurred_at e, se_resolved = False\<rparr>"

definition windows_timeline :: "windows_event \<Rightarrow> timeline_event" where
  "windows_timeline e =
     \<lparr>te_id = None, te_category = ''windows_event'', te_action = we_action e, te_severity = we_severity e,
      te_title = we_title e, te_detail = we_detail e, te_process_id = we_process_id e,
      te_path = we_path e, te_remote_address = [], te_correlation_id = we_correlation_id e,
      te_occurred_at = we_occurred_at e\<rparr>"

definition persist_windows_event :: "windows_event \<Rightarrow> protection \<Rightarrow> protection" where
  "persist_windows_event e p =
     (if we_event_id e = 1116 then pt_store (record_event [] (defender_event e)) p
      else pt_store (record_timeline [] (windows_timeline e)) p)"

definition persist_windows_events :: "protection \<Rightarrow> protection" where
  "persist_windows_events p =
     (case event_log_drain 512 (pt_log p) of
        (events, m) \<Rightarrow> fold persist_windows_event events (p\<lparr>pt_log := m\<rparr>))"

definition sysmon_timeline :: "sysmon_event \<Rightarrow> timeline_event" where
  "sysmon_timeline e =
     \<lparr>te_id = None, te_category = ''sysmon'', te_action = event_action (sy_event_id e),
      te_severity = event_severity (sy_event_id e), te_title = sy_title e, te_detail = sy_detail e,
      te_process_id = sy_process_id e, te_path = sy_image e, te_remote_address = sy_remote_address e,
      te_correlation_id = sy_correlation_id e, te_occurred_at = sy_occurred_at e\<rparr>"

definition chain_event :: "string \<Rightarrow> behavior_alert \<Rightarrow> security_event" where
  "chain_event timestamp a =
     \<lparr>se_id = None, se_event_type = ba_event_type a, se_severity = ba_severity a, se_title = ba_title a,
      se_detail = ba_detail a @ ''; correlation='' @ ba_correlation_id a @ ''; remote='' @ ba_remote_address a,
      se_process_id = ba_process_id a, se_path = ba_path a, se_created_at = timestamp, se_resolved = False\<rparr>"

definition persist_sysmon_events :: "protection_world \<Rightarrow> protection \<Rightarrow> protection" where
  "persist_sysmon_events w p =
     (case sysmon_drain 512 (pt_sysmon p) of (events, m) \<Rightarrow>
        (let p = fold (\<lambda>e. pt_store (record_timeline [] (sysmon_timeline e))) events (p\<lparr>pt_sysmon := m\<rparr>);
             (alerts, chains) = ingest_at (pw_iter w) events (pw_now w) (pt_chains p) in
         fold (\<lambda>a. pt_store (record_event [] (chain_event (pw_timestamp w) a))) alerts
           (p\<lparr>pt_chains := chains\<rparr>)))"

section \<open>Analysis of a new process\<close>

definition realtime_scan :: "protection_world \<Rightarrow> file_scanner \<Rightarrow> string \<Rightarrow> scan_finding option" where
  "realtime_scan w scanner path =
     (case scan_file scanner (pw_scan w path) path of
        Some (Inr f) \<Rightarrow> Some (apply_windows_scan_signals (pw_signals w path) f)
      | _ \<Rightarrow> None)"

definition mitre_evidence :: "threat_capability \<Rightarrow> string list" where
  "mitre_evidence c =
     (''MITRE '' @ tc_mitre_technique c @ '': '' @ tc_category c @ '' (confidence ''
       @ show_nat (unat (tc_confidence c)) @ ''%)'') # tc_evidence c"

record analysis =
  an_score :: u16
  an_evidence :: "string list"
  an_categories :: "string list"
  an_verdict :: scan_verdict
  an_signature :: signature_status

definition analysis_start :: "process_record \<Rightarrow> analysis" where
  "analysis_start process =
     \<lparr>an_score = ucast (ra_score (pr_risk process)), an_evidence = ra_reasons (pr_risk process),
      an_categories = [], an_verdict = Clean, an_signature = pr_signature process\<rparr>"

definition finding_stage :: "scan_finding \<Rightarrow> analysis \<Rightarrow> analysis" where
  "finding_stage f a =
     a\<lparr>an_score := max (an_score a) (ucast (sf_score f)), an_verdict := sf_verdict f,
       an_signature := sf_signature f,
       an_evidence := an_evidence a @ sf_reasons f @ concat (map mitre_evidence (sf_capabilities f)),
       an_categories := fold (\<lambda>c. List.insert (tc_category c)) (sf_capabilities f) (an_categories a)\<rparr>"

definition file_stage :: "protection_world \<Rightarrow> file_scanner \<Rightarrow> string \<Rightarrow> analysis \<Rightarrow> analysis" where
  "file_stage w scanner path a =
     (if pw_is_file w path \<and> (case pw_size w path of None \<Rightarrow> False | Some n \<Rightarrow> n \<le> REALTIME_SCAN_MAXIMUM_BYTES)
      then (case realtime_scan w scanner path of None \<Rightarrow> a | Some f \<Rightarrow> finding_stage f a)
      else if pw_is_file w path
      then a\<lparr>an_evidence := an_evidence a
             @ [''Real-time content scan deferred because the executable exceeds 256 MiB'']\<rparr>
      else a)"

text \<open>\<^verbatim>\<open>score = score.saturating_add(n); evidence.push(text)\<close>.\<close>

definition raise_by :: "u16 \<Rightarrow> string \<Rightarrow> analysis \<Rightarrow> analysis" where
  "raise_by n text a = a\<lparr>an_score := sat_add (an_score a) n, an_evidence := an_evidence a @ [text]\<rparr>"

definition external_network :: "system_snapshot \<Rightarrow> process_record \<Rightarrow> bool" where
  "external_network s process \<longleftrightarrow>
     list_ex (\<lambda>e. ne_pid e = pr_pid process \<and> ne_remote_port e \<noteq> 0 \<and> ne_reputation e \<noteq> ''local'') (sn_endpoints s)"

definition malicious_destination :: "system_snapshot \<Rightarrow> process_record \<Rightarrow> bool" where
  "malicious_destination s process \<longleftrightarrow>
     list_ex (\<lambda>e. ne_pid e = pr_pid process \<and> ne_reputation e = ''malicious'') (sn_endpoints s)"

definition destination_stage :: "bool \<Rightarrow> analysis \<Rightarrow> analysis" where
  "destination_stage malicious a =
     (if malicious then raise_by 40 ''Runtime connection to a malicious reputation indicator'' a else a)"

definition memory_stage :: "memory_inspection option \<Rightarrow> analysis \<Rightarrow> analysis" where
  "memory_stage inspected a =
     (case inspected of None \<Rightarrow> a
      | Some m \<Rightarrow>
          let a = (if 0 < mi_private_executable_regions m then a\<lparr>an_evidence := an_evidence a
                     @ [''Memory metadata: '' @ show_nat (unat (mi_private_executable_regions m))
                        @ '' committed private executable regions (''
                        @ show_nat (unat (mi_writable_executable_regions m)) @ '' writable+executable)'']\<rparr>
                   else a) in
          if ''process_injection'' \<in> set (an_categories a) \<and> 0 < mi_writable_executable_regions m
          then raise_by 25 ''Correlated injection imports with writable+executable private memory'' a else a)"

definition inspected_memory :: "protection_world \<Rightarrow> u32 \<Rightarrow> analysis \<Rightarrow> memory_inspection option" where
  "inspected_memory w pid a =
     (if an_signature a \<noteq> Trusted \<or> ''process_injection'' \<in> set (an_categories a)
      then (case inspect_process_memory (pw_open_process w) pid of Inl _ \<Rightarrow> None | Inr m \<Rightarrow> Some m)
      else None)"

definition network_stage :: "bool \<Rightarrow> analysis \<Rightarrow> analysis" where
  "network_stage external a =
     (if an_signature a \<noteq> Trusted \<and> external then
        (let a = (if ''browser_credential_access'' \<in> set (an_categories a)
                  then raise_by 25 ''Credential-access capability correlated with an external flow'' a else a);
             a = (if ''keyboard_input_capture'' \<in> set (an_categories a)
                  then raise_by 25 ''Keyboard-capture capability correlated with an external flow'' a else a)
         in if ''remote_control_stack'' \<in> set (an_categories a)
            then raise_by 20 ''Remote-control capability stack correlated with an external flow'' a else a)
      else a)"

definition analysis_result ::
  "protection_world \<Rightarrow> file_scanner \<Rightarrow> system_snapshot \<Rightarrow> process_record \<Rightarrow> analysis" where
  "analysis_result w scanner s process =
     (let a = destination_stage (malicious_destination s process)
                (file_stage w scanner (pr_path process) (analysis_start process))
      in network_stage (external_network s process)
           (memory_stage (inspected_memory w (pr_pid process) a) a))"

definition final_score :: "analysis \<Rightarrow> u8" where
  "final_score a = ucast (min (an_score a) 100)"

definition event_kind :: "bool \<Rightarrow> analysis \<Rightarrow> string \<Rightarrow> string \<times> string" where
  "event_kind external a name =
     (if an_verdict a = Malicious then (''malware_detected'', ''Malware detected: '' @ name)
      else if ''browser_credential_access'' \<in> set (an_categories a) \<and> external
      then (''credential_theft_behavior'', ''Possible browser credential theft: '' @ name)
      else if ''process_injection'' \<in> set (an_categories a)
      then (''process_injection_behavior'', ''Possible process injection: '' @ name)
      else if ''keyboard_input_capture'' \<in> set (an_categories a) \<and> external
      then (''keylogging_behavior'', ''Possible keylogging activity: '' @ name)
      else if ''remote_control_stack'' \<in> set (an_categories a) \<and> external
      then (''remote_access_behavior'', ''Possible remote-control activity: '' @ name)
      else (''new_executable'', ''New executable observed: '' @ name))"

definition reported_evidence :: "analysis \<Rightarrow> string list" where
  "reported_evidence a = take 24 (remdups_adj (sort (an_evidence a)))"

definition process_event ::
  "protection_world \<Rightarrow> system_snapshot \<Rightarrow> process_record \<Rightarrow> analysis \<Rightarrow> security_event" where
  "process_event w s process a =
     (let (event_type, title) = event_kind (external_network s process) a (pr_name process) in
      \<lparr>se_id = None, se_event_type = event_type, se_severity = severity_from_score (final_score a),
       se_title = title,
       se_detail = (if reported_evidence a = []
                    then ''Executable identity was not present in the service baseline''
                    else join ''; '' (reported_evidence a)),
       se_process_id = Some (pr_pid process), se_path = pr_path process,
       se_created_at = pw_timestamp w, se_resolved = False\<rparr>)"

definition analyze_new_process ::
  "protection_world \<Rightarrow> system_snapshot \<Rightarrow> process_record \<Rightarrow> protection \<Rightarrow> bool \<times> protection" where
  "analyze_new_process w s process p =
     (let a = analysis_result w (pt_scanner p) s process in
      (45 \<le> final_score a \<or> an_categories a \<noteq> [],
       (pt_store (record_event [] (process_event w s process a)) p)
         \<lparr>pt_analyzed := pt_analyzed p @ [process]\<rparr>))"

section \<open>Beacons\<close>

definition beacon_key :: "process_record \<Rightarrow> network_endpoint \<Rightarrow> string" where
  "beacon_key process e =
     pr_identity process @ ''|'' @ ne_remote_address e @ ''|'' @ show_nat (unat (ne_remote_port e))"

definition beacon_event :: "string \<Rightarrow> process_record \<Rightarrow> network_endpoint \<Rightarrow> security_event" where
  "beacon_event timestamp process e =
     \<lparr>se_id = None, se_event_type = ''command_and_control_beacon'',
      se_severity = (if ne_reputation e = ''malicious'' then Critical else High),
      se_title = ''Repeated outbound activity: '' @ pr_name process,
      se_detail = ''MITRE T1071: suspicious executable maintained an external flow to ''
        @ ne_remote_address e @ '':'' @ show_nat (unat (ne_remote_port e))
        @ '' across at least eight protection cycles; reputation='' @ ne_reputation e,
      se_process_id = Some (pr_pid process), se_path = pr_path process,
      se_created_at = timestamp, se_resolved = False\<rparr>"

text \<open>The endpoints that count, with the process they belong to.\<close>

definition beacon_flows :: "system_snapshot \<Rightarrow> string list \<Rightarrow> (process_record \<times> network_endpoint) list" where
  "beacon_flows s suspicious =
     concat (map (\<lambda>e. if ne_remote_port e \<noteq> 0 \<and> ne_reputation e \<noteq> ''local'' then
         (case latest_by_pid id (sn_processes s) (ne_pid e) of
            None \<Rightarrow> []
          | Some process \<Rightarrow> if pr_identity process \<in> set suspicious then [(process, e)] else [])
       else []) (sn_endpoints s))"

definition count_flow ::
  "string \<Rightarrow> process_record \<times> network_endpoint \<Rightarrow> protection \<Rightarrow> protection" where
  "count_flow timestamp flow p =
     (let (process, e) = flow;
          key = beacon_key process e;
          count = sat_add (case map_of (pt_beacons p) key of None \<Rightarrow> 0 | Some n \<Rightarrow> n) 1;
          p = p\<lparr>pt_beacons := AList.update key count (pt_beacons p)\<rparr> in
      if count < 8 \<or> key \<in> set (pt_reported p) then p
      else pt_store (record_event [] (beacon_event timestamp process e))
             (p\<lparr>pt_reported := key # pt_reported p\<rparr>))"

definition correlate_beacons :: "string \<Rightarrow> system_snapshot \<Rightarrow> protection \<Rightarrow> protection" where
  "correlate_beacons timestamp s p =
     (let flows = beacon_flows s (pt_suspicious p);
          p = fold (count_flow timestamp) flows p;
          active = map (\<lambda>(process, e). beacon_key process e) flows in
      p\<lparr>pt_beacons := filter (\<lambda>(key, _). key \<in> set active) (pt_beacons p)\<rparr>)"

section \<open>Coverage\<close>

definition append_protection_coverage :: "protection \<Rightarrow> system_snapshot \<Rightarrow> system_snapshot" where
  "append_protection_coverage p s =
     (let sysmon = sysmon_coverage (pt_sysmon p) in
      s\<lparr>sn_coverage := sn_coverage s @
        [\<lparr>cn_source = ''background_protection'', cn_state = Active,
          cn_detail = ''Independent 3-second protection loop active; '' @ show_nat (length (pt_known p))
            @ '' executable identities baselined; '' @ show_nat (length (pt_pending p)) @ '' analyses queued''\<rparr>,
         \<lparr>cn_source = ''behavior_chain'', cn_state = cn_state sysmon,
          cn_detail = (if cn_state sysmon = Active
            then ''Bounded 10-minute Sysmon chains correlate credential access, injection, executable drops, persistence, DNS, and outbound connections; duplicate alerts are suppressed for one hour''
            else ''Behavior-chain engine is ready but optional Sysmon telemetry is unavailable; snapshot and ETW correlations remain active'')\<rparr>,
         \<lparr>cn_source = ''driverless_enforcement'', cn_state = Active,
          cn_detail = ''Confirmed response actions use Windows process controls and application-scoped Windows Firewall/WFP policy with identity revalidation and rollback; no custom kernel driver is loaded''\<rparr>,
         event_log_coverage (pt_log p), sysmon]\<rparr>)"

section \<open>The cycle\<close>

definition observe_process :: "bool \<Rightarrow> process_record \<Rightarrow> string list \<Rightarrow> process_record \<times> string list" where
  "observe_process baselined process known =
     (if pr_identity process = [] then (process, known)
      else (process\<lparr>pr_is_new := baselined \<and> pr_identity process \<notin> set known\<rparr>,
            List.insert (pr_identity process) known))"

fun observe_processes ::
  "bool \<Rightarrow> process_record list \<Rightarrow> string list \<Rightarrow> process_record list \<times> string list" where
  "observe_processes baselined [] known = ([], known)"
| "observe_processes baselined (process # rest) known =
     (case observe_process baselined process known of (process, known) \<Rightarrow>
      (case observe_processes baselined rest known of (rest, known) \<Rightarrow> (process # rest, known)))"

text \<open>The queue of processes to analyse forgets its oldest entries beyond 256.\<close>

definition enqueue_new :: "process_record list \<Rightarrow> process_record list \<Rightarrow> process_record list" where
  "enqueue_new processes pending =
     (let pending = pending @ filter pr_is_new processes in drop (length pending - 256) pending)"

fun analyze_pending :: "nat \<Rightarrow> protection_world \<Rightarrow> system_snapshot \<Rightarrow> protection \<Rightarrow> protection" where
  "analyze_pending 0 w s p = p"
| "analyze_pending (Suc n) w s p =
     (case pt_pending p of
        [] \<Rightarrow> p
      | process # rest \<Rightarrow>
          (case analyze_new_process w s process (p\<lparr>pt_pending := rest\<rparr>) of (suspicious, p) \<Rightarrow>
             analyze_pending n w s
               (if suspicious then p\<lparr>pt_suspicious := List.insert (pr_identity process) (pt_suspicious p)\<rparr> else p)))"

definition protect_snapshot :: "protection_world \<Rightarrow> system_snapshot \<Rightarrow> protection \<Rightarrow> protection" where
  "protect_snapshot w s p =
     (let (processes, known) = observe_processes (pt_baselined p) (sn_processes s) (pt_known p);
          s = snd (apply_behavior_correlations (s\<lparr>sn_processes := processes\<rparr>));
          p = p\<lparr>pt_known := known, pt_baselined := True,
                pt_pending := enqueue_new (sn_processes s) (pt_pending p)\<rparr>;
          p = analyze_pending MAXIMUM_REALTIME_SCANS_PER_CYCLE w s p;
          p = correlate_beacons (pw_timestamp w) s p
      in p\<lparr>pt_snapshot := Some (append_protection_coverage p s)\<rparr>)"

definition protection_cycle :: "protection_world \<Rightarrow> protection \<Rightarrow> protection" where
  "protection_cycle w p =
     (let p = persist_sysmon_events w (persist_windows_events (prune_protection_history (pw_now w) p)) in
      case pw_snapshot w of
        Inr s \<Rightarrow> protect_snapshot w s p
      | Inl _ \<Rightarrow> p)"

text \<open>The commands that end the wait of a cycle; the collector's reputation feed is part of the world.\<close>

datatype protection_command = UpdateContent file_scanner | StopProtection | ProtectionTimeout

definition protection_command :: "protection_command \<Rightarrow> protection \<Rightarrow> protection option" where
  "protection_command c p =
     (case c of UpdateContent scanner \<Rightarrow> Some (p\<lparr>pt_scanner := scanner\<rparr>)
      | StopProtection \<Rightarrow> None | ProtectionTimeout \<Rightarrow> Some p)"

definition protection_start ::
  "(string + unit) \<Rightarrow> (string \<Rightarrow> string + unit) \<Rightarrow> instant \<Rightarrow> file_scanner \<Rightarrow> host \<Rightarrow> protection" where
  "protection_start sysmon subscribe now scanner host =
     pt_store (prune_event_history (fst PROTECTION_HISTORY) (snd PROTECTION_HISTORY))
       \<lparr>pt_host = host, pt_scanner = scanner, pt_known = [], pt_baselined = False, pt_pending = [],
        pt_suspicious = [], pt_beacons = [], pt_reported = [], pt_sysmon = sysmon_start sysmon,
        pt_log = event_log_start subscribe, pt_chains = engine_default, pt_last_prune = now,
        pt_snapshot = None, pt_analyzed = []\<rparr>"

definition receive_events :: "protection_world \<Rightarrow> protection \<Rightarrow> protection" where
  "receive_events w p =
     (let sysmon = pt_sysmon p in
      p\<lparr>pt_log := monitor_run (pt_log p) (map (\<lambda>(k, a, r). Delivered k a r) (pw_log_deliveries w)),
        pt_sysmon := sysmon\<lparr>sm_channel := channel_run SYSMON_QUEUE_CAPACITY (sm_channel sysmon)
          (map (\<lambda>(a, r). Offer a r) (pw_sysmon_deliveries w))\<rparr>\<rparr>)"

fun run_protection_loop ::
  "(protection_world \<times> protection_command) list \<Rightarrow> protection \<Rightarrow> protection" where
  "run_protection_loop [] p = p"
| "run_protection_loop ((w, c) # rest) p =
     (let p = protection_cycle w (receive_events w p) in
      case protection_command c p of None \<Rightarrow> p | Some p \<Rightarrow> run_protection_loop rest p)"

end
