(* ===== verification/OG_Watch.thy ===== *)
theory OG_Watch
  imports OG_Protection
begin

text \<open>
  What the background protection loop (\<open>OG_Protection\<close>) guarantees: which processes it analyses, what
  an analysis reports, and when an external flow is reported as a beacon.
\<close>

section \<open>What the cycle keeps\<close>

text \<open>What storing events and draining the monitors leaves alone.\<close>

definition watch :: "protection \<Rightarrow> string list \<times> bool \<times> process_record list \<times> process_record list" where
  "watch p = (pt_known p, pt_baselined p, pt_pending p, pt_analyzed p)"

lemma watch_store: "watch (pt_store f p) = watch p"
  by (simp add: watch_def pt_store_def)

lemma watch_fold: "(\<And>x p. watch (f x p) = watch p) \<Longrightarrow> watch (fold f xs p) = watch p"
  by (induction xs arbitrary: p) simp_all

lemma watch_update:
  "watch (p\<lparr>pt_log := m\<rparr>) = watch p" "watch (p\<lparr>pt_sysmon := s\<rparr>) = watch p"
  "watch (p\<lparr>pt_chains := c\<rparr>) = watch p" "watch (p\<lparr>pt_last_prune := t\<rparr>) = watch p"
  "watch (p\<lparr>pt_scanner := x\<rparr>) = watch p" "watch (p\<lparr>pt_suspicious := u\<rparr>) = watch p"
  "watch (p\<lparr>pt_beacons := b\<rparr>) = watch p" "watch (p\<lparr>pt_reported := r\<rparr>) = watch p"
  "watch (p\<lparr>pt_snapshot := n\<rparr>) = watch p"
  by (simp_all add: watch_def)

lemma watch_prune: "watch (prune_protection_history now p) = watch p"
  by (simp add: prune_protection_history_def watch_store watch_update)

lemma watch_windows: "watch (persist_windows_events p) = watch p"
  by (auto simp: persist_windows_events_def persist_windows_event_def watch_store watch_update
      intro!: watch_fold [THEN trans] split: prod.splits)

lemma watch_sysmon: "watch (persist_sysmon_events w p) = watch p"
  by (auto simp: persist_sysmon_events_def Let_def watch_store watch_update
      intro!: watch_fold [THEN trans] split: prod.splits)

lemma watch_count_flow: "watch (count_flow t flow p) = watch p"
  by (simp add: count_flow_def Let_def watch_store watch_update split: prod.splits)

lemma watch_correlate: "watch (correlate_beacons t s p) = watch p"
  by (simp add: correlate_beacons_def Let_def watch_update watch_fold watch_count_flow)

lemma watch_receive: "watch (receive_events w p) = watch p"
  by (simp add: receive_events_def watch_def Let_def)

lemmas watch_simps = watch_store watch_update watch_prune watch_windows watch_sysmon watch_correlate watch_receive

section \<open>Every new process is analysed once\<close>

definition identities :: "process_record list \<Rightarrow> string list" where
  "identities ps = filter (\<lambda>i. i \<noteq> []) (map pr_identity ps)"

lemma identities_simps [simp]:
  "identities [] = []" "identities (ps @ qs) = identities ps @ identities qs"
  "identities (p # ps) = (if pr_identity p = [] then identities ps else pr_identity p # identities ps)"
  by (simp_all add: identities_def)

definition watch_ok :: "string list \<times> bool \<times> process_record list \<times> process_record list \<Rightarrow> bool" where
  "watch_ok v \<longleftrightarrow> (case v of (known, baselined, pending, analyzed) \<Rightarrow>
     length pending \<le> 256 \<and> distinct known \<and> distinct (identities (analyzed @ pending))
     \<and> set (identities (analyzed @ pending)) \<subseteq> set known)"

lemma observe_processes_new:
  "observe_processes b ps known = (qs, known') \<Longrightarrow>
     set known' = set known \<union> set (identities ps) \<and> (distinct known \<longrightarrow> distinct known')
     \<and> distinct (identities (filter pr_is_new qs))
     \<and> set (identities (filter pr_is_new qs)) \<inter> set known = {}
     \<and> set (identities (filter pr_is_new qs)) \<subseteq> set known'"
proof (induction b ps known arbitrary: qs known' rule: observe_processes.induct)
  case (2 b process rest known)
  obtain q k1 where q: "observe_process b process known = (q, k1)" by fastforce
  obtain rs k2 where rs: "observe_processes b rest k1 = (rs, k2)" by fastforce
  have out: "qs = q # rs" "known' = k2" using 2(2) q rs by simp_all
  note ih = 2(1) [OF q [symmetric] rs]
  show ?case
  proof (cases "pr_identity process = []")
    case True
    then have "q = process" "k1 = known" using q by (simp_all add: observe_process_def)
    with ih True out show ?thesis by auto
  next
    case False
    then have "q = process\<lparr>pr_is_new := b \<and> pr_identity process \<notin> set known\<rparr>"
      "k1 = List.insert (pr_identity process) known" using q by (simp_all add: observe_process_def)
    with ih False out show ?thesis by auto
  qed
qed simp

lemmas observe_new = observe_processes_new [THEN conjunct1]
  observe_processes_new [THEN conjunct2, THEN conjunct1, THEN mp]
  observe_processes_new [THEN conjunct2, THEN conjunct2, THEN conjunct1]
  observe_processes_new [THEN conjunct2, THEN conjunct2, THEN conjunct2, THEN conjunct1]
  observe_processes_new [THEN conjunct2, THEN conjunct2, THEN conjunct2, THEN conjunct2]

text \<open>Correlation changes the risk only.\<close>

lemma correlate_process_keeps:
  "pr_is_new (correlate_process names signals p) = pr_is_new p"
  "pr_identity (correlate_process names signals p) = pr_identity p"
  by (simp_all add: correlate_process_def Let_def split: prod.splits)

lemma identities_correlated:
  "identities (filter pr_is_new (sn_processes (snd (apply_behavior_correlations s))))
     = identities (filter pr_is_new (sn_processes s))"
proof -
  have "identities (filter pr_is_new (map (correlate_process names signals) ps))
      = identities (filter pr_is_new ps)" for names signals ps
    by (induction ps) (simp_all add: correlate_process_keeps)
  then show ?thesis by (simp add: apply_behavior_correlations_def Let_def)
qed

lemma set_identities_drop: "set (identities (drop n ps)) \<subseteq> set (identities ps)"
  by (auto simp: identities_def dest: in_set_dropD)

lemma distinct_identities_drop: "distinct (identities ps) \<Longrightarrow> distinct (identities (drop n ps))"
  using append_take_drop_id [of n ps] by (metis distinct_append identities_simps(2))

lemma watch_ok_enqueue:
  assumes "watch_ok (known, b, pending, analyzed)" "observe_processes b ps known = (qs, known')"
    "identities (filter pr_is_new rs) = identities (filter pr_is_new qs)"
  shows "watch_ok (known', b', enqueue_new rs pending, analyzed)"
proof -
  have old: "set (identities (analyzed @ pending)) \<subseteq> set known" "distinct (identities (analyzed @ pending))"
    "distinct known" using assms(1) by (auto simp: watch_ok_def)
  define queue where "queue = pending @ filter pr_is_new rs"
  have d: "distinct (identities (analyzed @ queue))"
    using old observe_new(3,4) [OF assms(2)] assms(3) by (auto simp: queue_def)
  have s: "set (identities (analyzed @ queue)) \<subseteq> set known'"
    using old observe_new(1,5) [OF assms(2)] assms(3) by (auto simp: queue_def)
  have "distinct (identities (analyzed @ drop n queue))" for n
    using d set_identities_drop [of n queue] distinct_identities_drop [of queue n] by auto
  moreover have "set (identities (analyzed @ drop n queue)) \<subseteq> set known'" for n
    using s set_identities_drop [of n queue] by auto
  moreover have "distinct known'" using observe_new(2) [OF assms(2)] old by blast
  ultimately show ?thesis by (simp add: watch_ok_def enqueue_new_def Let_def flip: queue_def)
qed

text \<open>Analysing moves processes from the front of the queue to the analysed ones.\<close>

lemma watch_analyze:
  "watch (snd (analyze_new_process w s process p))
     = (pt_known p, pt_baselined p, pt_pending p, pt_analyzed p @ [process])"
  by (simp add: analyze_new_process_def Let_def watch_def pt_store_def)

lemma analyze_pending_moves:
  "watch p = (known, b, pending, analyzed) \<Longrightarrow>
     watch (analyze_pending n w s p) = (known, b, drop n pending, analyzed @ take n pending)"
proof (induction n w s p arbitrary: pending analyzed rule: analyze_pending.induct)
  case (2 n w s p)
  show ?case
  proof (cases pending)
    case Nil
    with 2(2) show ?thesis by (simp add: watch_def)
  next
    case (Cons process rest)
    obtain f q where q: "analyze_new_process w s process (p\<lparr>pt_pending := rest\<rparr>) = (f, q)" by fastforce
    have p: "pt_pending p = process # rest" using 2(2) Cons by (simp add: watch_def)
    have "watch q = (known, b, rest, analyzed @ [process])"
      using watch_analyze [of w s process "p\<lparr>pt_pending := rest\<rparr>"] q 2(2) by (simp add: watch_def)
    then have "watch (if f then q\<lparr>pt_suspicious := List.insert (pr_identity process) (pt_suspicious q)\<rparr> else q)
        = (known, b, rest, analyzed @ [process])" by (simp add: watch_update)
    from 2(1) [OF p q [symmetric] this] show ?thesis by (simp add: p q Cons)
  qed
qed simp

lemma watch_ok_advance:
  "watch_ok (known, b, pending, analyzed) \<Longrightarrow> watch_ok (known, b, drop n pending, analyzed @ take n pending)"
  by (auto simp: watch_ok_def simp flip: identities_simps(2))

text \<open>One cycle, in terms of what is watched.\<close>

lemma watch_protect:
  assumes "observe_processes (pt_baselined p) (sn_processes s) (pt_known p) = (qs, known')"
  shows "\<exists>rs. identities (filter pr_is_new rs) = identities (filter pr_is_new qs)
     \<and> watch (protect_snapshot w s p)
         = (let queue = enqueue_new rs (pt_pending p) in
            (known', True, drop 8 queue, pt_analyzed p @ take 8 queue))"
proof -
  define c where "c = snd (apply_behavior_correlations (s\<lparr>sn_processes := qs\<rparr>))"
  define q where "q = p\<lparr>pt_known := known', pt_baselined := True,
      pt_pending := enqueue_new (sn_processes c) (pt_pending p)\<rparr>"
  have "watch q = (known', True, enqueue_new (sn_processes c) (pt_pending p), pt_analyzed p)"
    by (simp add: q_def watch_def)
  from analyze_pending_moves [OF this, of 8 w c]
  have "watch (protect_snapshot w s p)
      = (let queue = enqueue_new (sn_processes c) (pt_pending p) in
         (known', True, drop 8 queue, pt_analyzed p @ take 8 queue))"
    by (simp add: protect_snapshot_def assms Let_def watch_update watch_correlate
        MAXIMUM_REALTIME_SCANS_PER_CYCLE_def flip: c_def q_def)
  moreover have "identities (filter pr_is_new (sn_processes c)) = identities (filter pr_is_new qs)"
    by (simp add: c_def identities_correlated)
  ultimately show ?thesis by blast
qed

lemma watch_cycle_cases:
  obtains (failed) "watch (protection_cycle w p) = watch p"
  | (observed) s qs known' rs where "pw_snapshot w = Inr s"
      "observe_processes (pt_baselined p) (sn_processes s) (pt_known p) = (qs, known')"
      "identities (filter pr_is_new rs) = identities (filter pr_is_new qs)"
      "watch (protection_cycle w p)
         = (known', True, drop 8 (enqueue_new rs (pt_pending p)),
            pt_analyzed p @ take 8 (enqueue_new rs (pt_pending p)))"
proof (cases "pw_snapshot w")
  case (Inl e)
  then show thesis by (intro failed) (simp add: protection_cycle_def watch_simps)
next
  case (Inr s)
  define q where "q = persist_sysmon_events w (persist_windows_events (prune_protection_history (pw_now w) p))"
  have "watch q = watch p" by (simp add: q_def watch_simps)
  then have e: "pt_known q = pt_known p" "pt_baselined q = pt_baselined p" "pt_pending q = pt_pending p"
    "pt_analyzed q = pt_analyzed p" by (simp_all add: watch_def)
  obtain qs known' where o: "observe_processes (pt_baselined p) (sn_processes s) (pt_known p) = (qs, known')"
    by fastforce
  have "protection_cycle w p = protect_snapshot w s q" by (simp add: protection_cycle_def Inr q_def)
  with watch_protect [of q s qs known' w] o e obtain rs
    where "identities (filter pr_is_new rs) = identities (filter pr_is_new qs)"
      "watch (protection_cycle w p)
         = (known', True, drop 8 (enqueue_new rs (pt_pending p)),
            pt_analyzed p @ take 8 (enqueue_new rs (pt_pending p)))"
    by (auto simp: Let_def)
  with Inr o show thesis by (intro observed)
qed

lemma watch_ok_cycle: "watch_ok (watch p) \<Longrightarrow> watch_ok (watch (protection_cycle w p))"
proof (cases rule: watch_cycle_cases [of w p])
  case (observed s qs known' rs)
  assume "watch_ok (watch p)"
  then have "watch_ok (known', True, enqueue_new rs (pt_pending p), pt_analyzed p)"
    using watch_ok_enqueue [OF _ observed(2,3)] by (simp add: watch_def)
  from watch_ok_advance [OF this, of 8] show ?thesis by (simp add: observed(4))
qed simp

lemma watch_command: "protection_command c p = Some q \<Longrightarrow> watch q = watch p"
  by (auto simp: protection_command_def watch_update split: protection_command.splits)

text \<open>A property of what is watched that a cycle keeps holds after every run.\<close>

lemma run_protection_induct:
  assumes "\<And>w p. P (watch p) \<Longrightarrow> P (watch (protection_cycle w p))" "P (watch p)"
  shows "P (watch (run_protection_loop steps p))"
  using assms(2)
proof (induction steps p rule: run_protection_loop.induct)
  case (2 w c rest p)
  have ok: "P (watch (protection_cycle w (receive_events w p)))"
    using 2 by (intro assms(1)) (simp add: watch_receive)
  show ?case
  proof (cases "protection_command c (protection_cycle w (receive_events w p))")
    case None
    with ok show ?thesis by (simp add: Let_def)
  next
    case (Some q)
    with ok have "P (watch q)" by (simp add: watch_command)
    with 2(1) [OF refl Some] Some show ?thesis by (simp add: Let_def)
  qed
qed simp

text \<open>An identity that is known and waits nowhere.\<close>

definition settled :: "string \<Rightarrow> string list \<times> bool \<times> process_record list \<times> process_record list \<Rightarrow> bool" where
  "settled i v \<longleftrightarrow> (case v of (known, baselined, pending, analyzed) \<Rightarrow>
     i \<in> set known \<and> i \<notin> set (identities pending) \<and> i \<notin> set (identities analyzed))"

lemma settled_cycle: "settled i (watch p) \<Longrightarrow> settled i (watch (protection_cycle w p))"
proof (cases rule: watch_cycle_cases [of w p])
  case (observed s qs known' rs)
  assume a: "settled i (watch p)"
  then have i: "i \<in> set (pt_known p)" "i \<notin> set (identities (pt_pending p))" "i \<notin> set (identities (pt_analyzed p))"
    by (simp_all add: settled_def watch_def)
  define queue where "queue = enqueue_new rs (pt_pending p)"
  have "i \<notin> set (identities (filter pr_is_new rs))" using observe_new(4) [OF observed(2)] observed(3) i by auto
  then have "i \<notin> set (identities queue)"
    using i set_identities_drop [of _ "pt_pending p @ filter pr_is_new rs"]
    by (fastforce simp: queue_def enqueue_new_def Let_def)
  moreover have "set (identities queue) = set (identities (take 8 queue)) \<union> set (identities (drop 8 queue))"
    by (metis append_take_drop_id identities_simps(2) set_append)
  moreover have "i \<in> set known'" using observe_new(1) [OF observed(2)] i by blast
  ultimately show ?thesis using i by (simp add: settled_def observed(4) flip: queue_def)
qed simp

lemmas watch_ok_run = run_protection_induct [where P = watch_ok, OF watch_ok_cycle]

lemma settled_run: "settled i (watch p) \<Longrightarrow> settled i (watch (run_protection_loop steps p))"
  by (rule run_protection_induct [where P = "settled i", OF settled_cycle])

lemma watch_start: "watch (protection_start sysmon subscribe now scanner host) = ([], False, [], [])"
  by (simp add: protection_start_def watch_store) (simp add: watch_def)

lemma observe_baseline:
  "observe_processes False ps known = (qs, known') \<Longrightarrow> identities (filter pr_is_new qs) = []"
proof (induction False ps known arbitrary: qs known' rule: observe_processes.induct)
  case (2 process rest known)
  obtain q k1 where q: "observe_process False process known = (q, k1)" by fastforce
  obtain rs k2 where rs: "observe_processes False rest k1 = (rs, k2)" by fastforce
  have "identities (filter pr_is_new rs) = []" by (rule 2(1) [OF q [symmetric] rs])
  with 2(2) q rs show ?case by (auto simp: observe_process_def split: if_splits)
qed simp

lemma baseline_settled:
  assumes "watch p = ([], False, [], [])" "pw_snapshot w = Inr s" "i \<in> set (identities (sn_processes s))"
  shows "settled i (watch (protection_cycle w p))"
proof -
  have p: "pt_known p = []" "pt_baselined p = False" "pt_pending p = []" "pt_analyzed p = []"
    using assms(1) by (simp_all add: watch_def)
  show ?thesis
  proof (cases rule: watch_cycle_cases [of w p])
    case failed
    obtain qs known' where "observe_processes (pt_baselined p) (sn_processes s) (pt_known p) = (qs, known')"
      by fastforce
    then have o: "observe_processes False (sn_processes s) [] = (qs, known')" by (simp add: p)
    define q where "q = persist_sysmon_events w (persist_windows_events (prune_protection_history (pw_now w) p))"
    have "watch q = watch p" by (simp add: q_def watch_simps)
    moreover have "protection_cycle w p = protect_snapshot w s q" by (simp add: protection_cycle_def assms(2) q_def)
    ultimately have "pt_baselined p"
      using failed watch_protect [of q s qs known' w] o p by (auto simp: watch_def Let_def)
    then show ?thesis by (simp add: p)
  next
    case (observed s' qs known' rs)
    have s: "s' = s" using observed(1) assms(2) by simp
    have o: "observe_processes False (sn_processes s) [] = (qs, known')" using observed(2) by (simp add: p s)
    have "identities (filter pr_is_new rs) = []" using observe_baseline [OF o] observed(3) by simp
    then have "identities (take n (enqueue_new rs [])) = [] \<and> identities (drop n (enqueue_new rs [])) = []" for n
      using set_identities_drop [of _ "filter pr_is_new rs"] append_take_drop_id
      by (simp add: enqueue_new_def Let_def)
        (metis append_is_Nil_conv append_take_drop_id identities_simps(2))
    moreover have "i \<in> set known'" using observe_new(1) [OF o] assms(3) by simp
    ultimately show ?thesis by (simp add: settled_def observed(4) p)
  qed
qed

text \<open>
  C19. The protection loop analyses every new executable identity at most once and never one of the
  baseline: after any run the identities analysed or waiting are pairwise different, none of them
  was running when the first snapshot was taken, and at most 256 processes wait.
\<close>

theorem new_processes_analyzed_once:
  assumes "pw_snapshot w = Inr s"
    and "p = run_protection_loop ((w, c) # steps) (protection_start sysmon subscribe now scanner host)"
  shows "length (pt_pending p) \<le> 256
    \<and> distinct (identities (pt_analyzed p @ pt_pending p))
    \<and> set (identities (pt_analyzed p @ pt_pending p)) \<subseteq> set (pt_known p)
    \<and> set (identities (pt_analyzed p @ pt_pending p)) \<inter> set (identities (sn_processes s)) = {}"
proof -
  let ?p = "protection_start sysmon subscribe now scanner host"
  let ?q = "protection_cycle w (receive_events w ?p)"
  have "watch_ok (watch p)"
    unfolding assms(2) by (rule watch_ok_run) (simp_all add: watch_start watch_ok_def)
  moreover have "settled i (watch p)" if i: "i \<in> set (identities (sn_processes s))" for i
  proof -
    have q: "settled i (watch ?q)"
      using i assms(1) by (intro baseline_settled) (simp_all add: watch_receive watch_start)
    show ?thesis
    proof (cases "protection_command c ?q")
      case None
      with q show ?thesis by (simp add: assms(2) Let_def)
    next
      case (Some r)
      with q have "settled i (watch r)" by (simp add: watch_command)
      with Some show ?thesis
        using settled_run [of i r steps] by (simp add: assms(2) Let_def)
    qed
  qed
  ultimately show ?thesis unfolding watch_ok_def settled_def watch_def by auto
qed

text \<open>
  A process that the full queue forgot is never analysed: an identity that is known, waits nowhere
  and was not analysed stays so in every run of the loop, however often the process is observed.
\<close>

theorem forgotten_process_never_analyzed:
  assumes "i \<in> set (pt_known p)" "i \<notin> set (identities (pt_pending p))" "i \<notin> set (identities (pt_analyzed p))"
  shows "i \<notin> set (identities (pt_analyzed (run_protection_loop steps p)))"
proof -
  have "settled i (watch p)" using assms by (simp add: settled_def watch_def)
  then have "settled i (watch (run_protection_loop steps p))"
    by (rule settled_run)
  then show ?thesis by (simp add: settled_def watch_def)
qed

section \<open>Beacons\<close>

definition beacon_count :: "protection \<Rightarrow> string \<Rightarrow> nat" where
  "beacon_count p k = (case map_of (pt_beacons p) k of None \<Rightarrow> 0 | Some n \<Rightarrow> unat n)"

definition flow_count :: "(process_record \<times> network_endpoint) list \<Rightarrow> string \<Rightarrow> nat" where
  "flow_count flows k = length (filter (\<lambda>(process, e). beacon_key process e = k) flows)"

definition stored_events :: "protection \<Rightarrow> nat" where
  "stored_events p = length (lt_rows (db_events (hs_db (pt_host p))))"

lemma beacon_count_bound: "beacon_count p k \<le> 255"
  using unat_le_max [where 'a = 8] by (auto simp: beacon_count_def split: option.splits)

lemma store_keeps:
  "pt_beacons (pt_store f p) = pt_beacons p" "pt_reported (pt_store f p) = pt_reported p"
  by (simp_all add: pt_store_def)

lemma store_event:
  assumes "hs_outcomes (pt_host p) = []"
  shows "hs_outcomes (pt_host (pt_store (record_event owner e) p)) = []"
    and "stored_events (pt_store (record_event owner e) p) = Suc (stored_events p)"
    and "hs_db (pt_host (pt_store (record_event owner e) p)) = snd (record_event owner e (hs_db (pt_host p)))"
  using assms
  by (simp_all add: pt_store_def ignoring_def db_call_def take_outcome_def stored_events_def
      record_event_def insert_timeline_def log_insert_def Let_def split: prod.splits)

lemma count_flow_effect:
  fixes p t process e
  defines "q \<equiv> count_flow t (process, e) p" and "key \<equiv> beacon_key process e"
  shows "beacon_count q k = (if k = key then min 255 (Suc (beacon_count p k)) else beacon_count p k)"
    and "pt_reported q = (if 8 \<le> Suc (beacon_count p key) \<and> key \<notin> set (pt_reported p)
           then key # pt_reported p else pt_reported p)"
    and "hs_outcomes (pt_host p) = [] \<Longrightarrow> hs_outcomes (pt_host q) = []
           \<and> stored_events q = stored_events p + (length (pt_reported q) - length (pt_reported p))"
proof -
  let ?n = "sat_add (case map_of (pt_beacons p) key of None \<Rightarrow> 0 | Some n \<Rightarrow> n) (1 :: u8)"
  define r where "r = p\<lparr>pt_beacons := AList.update key ?n (pt_beacons p)\<rparr>"
  have n: "unat ?n = min 255 (Suc (beacon_count p key))"
    by (simp add: beacon_count_def unat_sat_add min.commute split: option.splits)
  have few: "?n < 8 \<longleftrightarrow> Suc (beacon_count p key) < 8" using n by (simp add: word_less_nat_alt) linarith
  have q: "q = (if Suc (beacon_count p key) < 8 \<or> key \<in> set (pt_reported p) then r
      else pt_store (record_event [] (beacon_event t process e)) (r\<lparr>pt_reported := key # pt_reported p\<rparr>))"
    unfolding q_def count_flow_def Let_def by (simp add: few flip: key_def) (simp add: r_def)
  have b: "beacon_count r k = (if k = key then min 255 (Suc (beacon_count p k)) else beacon_count p k)" for k
    using n by (auto simp: beacon_count_def r_def update_conv')
  show "beacon_count q k = (if k = key then min 255 (Suc (beacon_count p k)) else beacon_count p k)"
  proof -
    have "pt_beacons q = pt_beacons r" by (simp add: q store_keeps)
    then have "beacon_count q k = beacon_count r k" by (simp add: beacon_count_def)
    then show ?thesis using b by (rule trans)
  qed
  show "pt_reported q = (if 8 \<le> Suc (beacon_count p key) \<and> key \<notin> set (pt_reported p)
      then key # pt_reported p else pt_reported p)"
    by (auto simp: q store_keeps r_def)
  show "hs_outcomes (pt_host q) = []
      \<and> stored_events q = stored_events p + (length (pt_reported q) - length (pt_reported p))"
    if "hs_outcomes (pt_host p) = []"
    using that store_event [of "r\<lparr>pt_reported := key # pt_reported p\<rparr>" "[]" "beacon_event t process e"]
    by (auto simp: q store_keeps r_def stored_events_def)
qed

lemma count_flows_effect:
  fixes p t flows
  defines "q \<equiv> fold (count_flow t) flows p"
  shows "beacon_count q k = min 255 (beacon_count p k + flow_count flows k)
    \<and> (k \<in> set (pt_reported q) \<longleftrightarrow> k \<in> set (pt_reported p)
          \<or> 0 < flow_count flows k \<and> 8 \<le> beacon_count p k + flow_count flows k)
    \<and> (distinct (pt_reported p) \<longrightarrow> distinct (pt_reported q))
    \<and> length (pt_reported p) \<le> length (pt_reported q)
    \<and> (hs_outcomes (pt_host p) = [] \<longrightarrow> hs_outcomes (pt_host q) = []
         \<and> stored_events q = stored_events p + (length (pt_reported q) - length (pt_reported p)))"
  unfolding q_def
proof (induction flows arbitrary: p)
  case Nil
  then show ?case using beacon_count_bound [of p k] by (simp add: flow_count_def)
next
  case (Cons flow flows)
  obtain process e where flow: "flow = (process, e)" by fastforce
  define r where "r = count_flow t flow p"
  note r1 = count_flow_effect [where t = t and process = process and e = e and p = p, folded flow, folded r_def]
  have fc: "flow_count (flow # flows) k = flow_count flows k + (if beacon_key process e = k then 1 else 0)"
    by (simp add: flow_count_def flow)
  have count: "beacon_count r k = min 255 (beacon_count p k + (if beacon_key process e = k then 1 else 0))"
    using r1(1) [of k] beacon_count_bound [of p k] by auto
  have reported: "set (pt_reported r) = set (pt_reported p)
      \<union> (if 8 \<le> Suc (beacon_count p (beacon_key process e)) then {beacon_key process e} else {})"
    using r1(2) by auto
  have grown: "distinct (pt_reported p) \<longrightarrow> distinct (pt_reported r)" "length (pt_reported p) \<le> length (pt_reported r)"
    using r1(2) by auto
  note ih = Cons [of r]
  have "beacon_count (fold (count_flow t) (flow # flows) p) k = min 255 (beacon_count p k + flow_count (flow # flows) k)"
    using ih count fc by (simp flip: r_def)
  moreover have "k \<in> set (pt_reported (fold (count_flow t) (flow # flows) p)) \<longleftrightarrow> k \<in> set (pt_reported p)
      \<or> 0 < flow_count (flow # flows) k \<and> 8 \<le> beacon_count p k + flow_count (flow # flows) k"
  proof (cases "beacon_key process e = k")
    case True
    then have "k \<in> set (pt_reported r) \<longleftrightarrow> k \<in> set (pt_reported p) \<or> 8 \<le> Suc (beacon_count p k)"
      "beacon_count r k = min 255 (Suc (beacon_count p k))" "flow_count (flow # flows) k = Suc (flow_count flows k)"
      using reported count fc by auto
    with ih [THEN conjunct2, THEN conjunct1] show ?thesis by (simp flip: r_def) linarith
  next
    case False
    then have "k \<in> set (pt_reported r) \<longleftrightarrow> k \<in> set (pt_reported p)" "beacon_count r k = beacon_count p k"
      "flow_count (flow # flows) k = flow_count flows k"
      using reported r1(1) [of k] fc by auto
    with ih [THEN conjunct2, THEN conjunct1] show ?thesis by (simp flip: r_def)
  qed
  moreover have "distinct (pt_reported p) \<longrightarrow> distinct (pt_reported (fold (count_flow t) (flow # flows) p))"
    "length (pt_reported p) \<le> length (pt_reported (fold (count_flow t) (flow # flows) p))"
    using ih grown by (auto simp flip: r_def)
  moreover have "hs_outcomes (pt_host p) = [] \<longrightarrow> hs_outcomes (pt_host (fold (count_flow t) (flow # flows) p)) = []
      \<and> stored_events (fold (count_flow t) (flow # flows) p) = stored_events p
          + (length (pt_reported (fold (count_flow t) (flow # flows) p)) - length (pt_reported p))"
    using ih r1(3) grown(2) by (auto simp flip: r_def)
  ultimately show ?case by blast
qed

lemma map_of_restrict: "map_of (filter (\<lambda>(k, _). P k) al) k = (if P k then map_of al k else None)"
  by (induction al) auto

text \<open>
  A suspicious process is reported as a beacon exactly when its count reaches eight: after the
  correlation of a snapshot the count of a flow is its former count plus the number of its endpoints
  in the snapshot (at most 255), and zero when it has none; the flow is reported if it was before
  or has an endpoint and a count of eight, each flow once in the life of the loop, with one stored
  event for each new report.
\<close>

theorem beacon_reports_exact:
  assumes "distinct (pt_reported p)" "hs_outcomes (pt_host p) = []"
    and "q = correlate_beacons timestamp s p" "n = flow_count (beacon_flows s (pt_suspicious p)) k"
  shows "beacon_count q k = (if n = 0 then 0 else min 255 (beacon_count p k + n))
    \<and> (k \<in> set (pt_reported q) \<longleftrightarrow> k \<in> set (pt_reported p) \<or> 0 < n \<and> 8 \<le> beacon_count p k + n)
    \<and> distinct (pt_reported q)
    \<and> stored_events q = stored_events p + (length (pt_reported q) - length (pt_reported p))"
proof -
  let ?flows = "beacon_flows s (pt_suspicious p)"
  let ?active = "map (\<lambda>(process, e). beacon_key process e) ?flows"
  define r where "r = fold (count_flow timestamp) ?flows p"
  have q: "q = r\<lparr>pt_beacons := filter (\<lambda>(key, _). key \<in> set ?active) (pt_beacons r)\<rparr>"
    by (simp add: assms(3) correlate_beacons_def r_def Let_def)
  have n: "n = 0 \<longleftrightarrow> k \<notin> set ?active"
    by (auto simp: assms(4) flow_count_def filter_empty_conv)
  have "beacon_count q k = (if n = 0 then 0 else beacon_count r k)"
    by (auto simp: q n beacon_count_def map_of_restrict)
  moreover have "pt_reported q = pt_reported r" "stored_events q = stored_events r"
    by (simp_all add: q stored_events_def)
  ultimately show ?thesis
    using count_flows_effect [of timestamp ?flows p k] assms by (simp flip: r_def)
qed

text \<open>
  Endpoints count, not cycles: eight endpoints of one process to the same address and port, with
  different local ports, are reported in the first cycle that sees them.
\<close>

lemma one_cycle_is_a_beacon:
  assumes "8 \<le> flow_count (beacon_flows s (pt_suspicious p)) k"
  shows "k \<in> set (pt_reported (correlate_beacons timestamp s p))"
  using assms count_flows_effect [of timestamp "beacon_flows s (pt_suspicious p)" p k]
  by (simp add: correlate_beacons_def Let_def)

section \<open>The analysis of a process\<close>

lemma le_raise: "an_score a \<le> an_score (raise_by n t a)"
  by (simp add: raise_by_def le_sat_add)

lemma le_memory: "an_score a \<le> an_score (memory_stage m a)"
  by (auto simp: memory_stage_def Let_def raise_by_def le_sat_add split: option.splits)

lemma le_network: "an_score a \<le> an_score (network_stage x a)"
  using unat_le_max [of "an_score a"]
  by (simp add: network_stage_def Let_def raise_by_def word_le_nat_alt unat_sat_add min_def)

lemma le_destination: "an_score a \<le> an_score (destination_stage m a)"
  by (simp add: destination_stage_def raise_by_def le_sat_add)

lemma verdict_kept:
  "an_verdict (memory_stage m a) = an_verdict a" "an_verdict (network_stage x a) = an_verdict a"
  "an_verdict (destination_stage d a) = an_verdict a"
  by (auto simp: memory_stage_def network_stage_def destination_stage_def raise_by_def Let_def split: option.splits)

lemma le_file: "an_score a \<le> an_score (file_stage w scanner path a)"
  by (auto simp: file_stage_def finding_stage_def split: option.splits)

lemma unat_final_score: "unat (final_score a) = min 100 (unat (an_score a))"
  by (simp add: final_score_def unat_ucast_capped min.commute)

lemma unat_widened: "unat (ucast (x :: u8) :: u16) = unat x"
  using unsigned_less [of x, where ?'a = nat] by (simp add: unsigned_ucast_eq take_bit_nat_eq_self)

text \<open>The score of a process never falls below its risk, its file and its destinations.\<close>

lemma analysis_scores:
  "unat (ra_score (pr_risk process)) \<le> unat (an_score (analysis_result w scanner s process))"
  "malicious_destination s process \<Longrightarrow>
     unat (ra_score (pr_risk process)) + 40 \<le> unat (an_score (analysis_result w scanner s process))"
proof -
  define a where "a = file_stage w scanner (pr_path process) (analysis_start process)"
  define b where "b = destination_stage (malicious_destination s process) a"
  have le: "an_score b \<le> an_score (analysis_result w scanner s process)"
    using le_memory [of b] le_network by (auto simp: analysis_result_def Let_def a_def b_def intro: order_trans)
  have "an_score (analysis_start process) \<le> an_score a" by (simp add: a_def le_file)
  then have start: "unat (ra_score (pr_risk process)) \<le> unat (an_score a)"
    by (simp add: analysis_start_def word_le_nat_alt unat_widened)
  with le_destination [of a] le show "unat (ra_score (pr_risk process)) \<le> unat (an_score (analysis_result w scanner s process))"
    by (auto simp: b_def word_le_nat_alt intro: order_trans)
  show "unat (ra_score (pr_risk process)) + 40 \<le> unat (an_score (analysis_result w scanner s process))"
    if "malicious_destination s process"
  proof -
    have "unat (an_score b) = min (unat (an_score a) + 40) 65535"
      by (simp add: b_def destination_stage_def that raise_by_def unat_sat_add)
    moreover have "unat (ra_score (pr_risk process)) \<le> 255" using unat_le_max [where 'a = 8] by simp
    ultimately show ?thesis using start le by (simp add: word_le_nat_alt)
  qed
qed

lemma scanned_file:
  assumes "pw_is_file w path" "pw_size w path = Some n" "n \<le> REALTIME_SCAN_MAXIMUM_BYTES"
    "realtime_scan w scanner path = Some f"
  shows "file_stage w scanner path a = finding_stage f a"
  using assms by (simp add: file_stage_def)

lemma realtime_verdict:
  "realtime_scan w scanner path = Some f \<Longrightarrow> sf_verdict f = verdict (sf_score f)"
  by (auto simp: realtime_scan_def apply_windows_simps(2) split: option.splits sum.splits)

text \<open>
  C20. Malware that starts is reported: when the file of a new process is within the size limit and the
  scanner's verdict on it is malicious, the analysis calls the process suspicious and records a
  \<open>malware_detected\<close> event of at least high severity for it, whatever else is known of the process.
\<close>

theorem started_malware_is_reported:
  assumes "pw_is_file w (pr_path process)" "pw_size w (pr_path process) = Some n"
    and "n \<le> REALTIME_SCAN_MAXIMUM_BYTES" "realtime_scan w (pt_scanner p) (pr_path process) = Some f"
    and "sf_verdict f = Malicious" "hs_outcomes (pt_host p) = []"
    and "analyze_new_process w s process p = (suspicious, q)"
  shows "suspicious \<and> stored_events q = Suc (stored_events p)
    \<and> (let e = er_event (snd (last (lt_rows (db_events (hs_db (pt_host q)))))) in
         se_event_type e = ''malware_detected'' \<and> High \<le> se_severity e
         \<and> se_process_id e = Some (pr_pid process) \<and> se_path e = pr_path process)"
proof -
  define a where "a = analysis_result w (pt_scanner p) s process"
  define e where "e = process_event w s process a"
  note scanned = scanned_file [OF assms(1-4)]
  have score: "85 \<le> sf_score f"
    using realtime_verdict [OF assms(4)] assms(5) by (auto simp: verdict_def split: if_splits)
  have v: "an_verdict a = Malicious"
    unfolding a_def analysis_result_def Let_def verdict_kept scanned by (simp add: finding_stage_def assms(5))
  have "ucast (sf_score f) \<le> an_score (finding_stage f (analysis_start process))" by (simp add: finding_stage_def)
  also have "\<dots> \<le> an_score a"
    unfolding a_def analysis_result_def Let_def scanned
    by (rule order_trans [OF le_destination order_trans [OF le_memory le_network]])
  finally have "85 \<le> unat (an_score a)"
    using score by (simp add: word_le_nat_alt unat_widened)
  then have final: "85 \<le> final_score a" by (simp add: word_le_nat_alt unat_final_score)
  then have severity: "High \<le> severity_from_score (final_score a)"
    unfolding severity_from_score_iffs by (simp add: word_le_nat_alt)
  have e: "se_event_type e = ''malware_detected''" "se_severity e = severity_from_score (final_score a)"
    "se_process_id e = Some (pr_pid process)" "se_path e = pr_path process"
    by (simp_all add: e_def process_event_def event_kind_def v)
  have r: "suspicious \<longleftrightarrow> 45 \<le> final_score a \<or> an_categories a \<noteq> []"
    "q = (pt_store (record_event [] e) p)\<lparr>pt_analyzed := pt_analyzed p @ [process]\<rparr>"
    using assms(7) by (auto simp: analyze_new_process_def Let_def a_def e_def)
  have "stored_events q = Suc (stored_events p)"
    using store_event(2) [OF assms(6)] by (simp add: r(2) stored_events_def)
  moreover have "hs_db (pt_host q) = snd (record_event [] e (hs_db (pt_host p)))"
    using store_event(3) [OF assms(6)] by (simp add: r(2))
  then have "er_event (snd (last (lt_rows (db_events (hs_db (pt_host q)))))) = e"
    by (simp add: record_event_def insert_timeline_def log_insert_def Let_def)
  moreover have suspicious using final by (simp add: r(1) word_le_nat_alt)
  ultimately show ?thesis using e severity by (simp add: Let_def)
qed

section \<open>Witnesses\<close>

definition sample_process :: "u32 \<Rightarrow> string \<Rightarrow> process_record" where
  "sample_process pid identity =
     \<lparr>pr_pid = pid, pr_parent_pid = 0, pr_name = ''note.txt'', pr_path = ''note.txt'', pr_thread_count = 1,
      pr_working_set_bytes = 0, pr_cpu_percent = 0, pr_signature = SignatureUnknown, pr_accessible = True,
      pr_identity = identity, pr_is_new = False, pr_risk = default_risk\<rparr>"

definition sample_endpoint :: "u16 \<Rightarrow> network_endpoint" where
  "sample_endpoint local_port =
     \<lparr>ne_protocol = ''tcp'', ne_local_address = ''10.0.0.2'', ne_local_port = local_port,
      ne_remote_address = ''8.8.8.8'', ne_remote_port = 443, ne_state = ''established'', ne_pid = 7,
      ne_process_name = ''note.txt'', ne_process_path = ''note.txt'', ne_remote_hostname = [],
      ne_reputation = ''unknown'', ne_reputation_reason = [], ne_bytes_sent = None, ne_bytes_received = None,
      ne_send_rate_bps = None, ne_receive_rate_bps = None, ne_usage_status = []\<rparr>"

definition sample_system :: "process_record list \<Rightarrow> network_endpoint list \<Rightarrow> system_snapshot" where
  "sample_system processes endpoints =
     \<lparr>sn_processes = processes, sn_endpoints = endpoints, sn_captured_at = [], sn_elevated = True,
      sn_coverage = []\<rparr>"

definition sample_cycle :: "system_snapshot \<Rightarrow> bool \<Rightarrow> protection_world" where
  "sample_cycle s present_file =
     \<lparr>pw_log_deliveries = [], pw_sysmon_deliveries = [], pw_now = 0, pw_timestamp = ''t'', pw_iter = id,
      pw_snapshot = Inr s, pw_is_file = (\<lambda>_. present_file), pw_size = (\<lambda>_. Some 3),
      pw_scan = (\<lambda>_. sample_world ''abc''), pw_signals = (\<lambda>_. sample_signals ''clean''),
      pw_open_process = (\<lambda>_. Inl ''denied'')\<rparr>"

definition sample_protection :: protection where
  "sample_protection = protection_start (Inr ()) (\<lambda>_. Inr ()) 0 sample_scanner
     \<lparr>hs_files = Map.empty, hs_outcomes = [], hs_db = db_empty\<rparr>"

definition sample_steps :: "(protection_world \<times> protection_command) list" where
  "sample_steps =
     [(sample_cycle (sample_system [sample_process 7 ''a'', sample_process 8 ''b''] []) False, ProtectionTimeout),
      (sample_cycle (sample_system [sample_process 8 ''b'', sample_process 9 ''b''] []) False, ProtectionTimeout)]"

theorem new_processes_analyzed_once_witness:
  "(let p = run_protection_loop ((sample_cycle (sample_system [sample_process 7 ''a''] []) False,
        ProtectionTimeout) # sample_steps) sample_protection in
      identities (pt_analyzed p) = [''b''] \<and> length (pt_pending p) \<le> 256
      \<and> set (identities (pt_analyzed p @ pt_pending p)) \<inter> {''a''} = {})"
proof -
  let ?w = "sample_cycle (sample_system [sample_process 7 ''a''] []) False"
  have s: "pw_snapshot ?w = Inr (sample_system [sample_process 7 ''a''] [])" by (simp add: sample_cycle_def)
  have "identities (pt_analyzed (run_protection_loop ((?w, ProtectionTimeout) # sample_steps) sample_protection)) = [''b'']"
    by code_simp
  moreover have "identities (sn_processes (sample_system [sample_process 7 ''a''] [])) = [''a'']" by code_simp
  ultimately show ?thesis
    using new_processes_analyzed_once [OF s refl, of ProtectionTimeout sample_steps "Inr ()" "\<lambda>_. Inr ()" 0
        sample_scanner "\<lparr>hs_files = Map.empty, hs_outcomes = [], hs_db = db_empty\<rparr>"]
    by (simp add: Let_def flip: sample_protection_def)
qed

theorem forgotten_process_never_analyzed_witness:
  "''b'' \<notin> set (identities (pt_analyzed (run_protection_loop sample_steps (sample_protection\<lparr>pt_known := [''b'']\<rparr>))))"
  by (rule forgotten_process_never_analyzed)
    (simp_all add: sample_protection_def protection_start_def pt_store_def)

definition sample_flows :: system_snapshot where
  "sample_flows = sample_system [sample_process 7 ''b'']
     (map sample_endpoint [1, 2, 3, 4, 5, 6, 7, 8])"

theorem started_malware_is_reported_witness:
  "(case analyze_new_process (sample_cycle sample_flows True) sample_flows (sample_process 7 ''b'') sample_protection of
      (suspicious, q) \<Rightarrow> suspicious \<and> stored_events q = 1)"
proof -
  let ?w = "sample_cycle sample_flows True" and ?p = "sample_process 7 ''b''"
  have "(case realtime_scan ?w (pt_scanner sample_protection) (pr_path ?p) of
      None \<Rightarrow> False | Some f \<Rightarrow> sf_verdict f = Malicious)" by code_simp
  then obtain f where f: "realtime_scan ?w (pt_scanner sample_protection) (pr_path ?p) = Some f"
    "sf_verdict f = Malicious" by (auto split: option.splits)
  have w: "pw_is_file ?w (pr_path ?p)" "pw_size ?w (pr_path ?p) = Some 3" "(3 :: u64) \<le> REALTIME_SCAN_MAXIMUM_BYTES"
    by (simp_all add: sample_cycle_def REALTIME_SCAN_MAXIMUM_BYTES_def)
  have "hs_outcomes (pt_host sample_protection) = []" "stored_events sample_protection = 0" by code_simp+
  with started_malware_is_reported [OF w f, of sample_flows "fst (analyze_new_process ?w sample_flows ?p sample_protection)"
      "snd (analyze_new_process ?w sample_flows ?p sample_protection)"]
  show ?thesis by (simp add: split_beta)
qed

end
