(* ===== verification/OG_Replay.thy ===== *)
theory OG_Replay
  imports OG_Activity
begin

text \<open>
  What the recorded activity (\<open>OG_Activity\<close>) guarantees: a reader of the timeline can replay the
  differences between snapshots, and how many real-time scans run.
\<close>

section \<open>Replaying transitions\<close>

type_synonym activity_view = "(u32 \<rightharpoonup> string) \<times> string set"

fun replay :: "transition \<Rightarrow> activity_view \<Rightarrow> activity_view" where
  "replay (ProcessStarted p) (m, n) = (m(pr_pid p \<mapsto> pr_path p), n)"
| "replay (ProcessStopped pid path) (m, n) = (m(pid := None), n)"
| "replay (FlowOpened key e) (m, n) = (m, insert key n)"
| "replay (FlowClosed key e) (m, n) = (m, n - {key})"

definition activity_view :: "activity \<Rightarrow> activity_view" where
  "activity_view a = (map_of (av_processes a), fst ` set (av_network a))"

lemma replay_started: "fold replay (map ProcessStarted ps) (m, n) = (fold (\<lambda>p m. m(pr_pid p \<mapsto> pr_path p)) ps m, n)"
  by (induction ps arbitrary: m) simp_all

lemma replay_stopped:
  "fold replay (map (\<lambda>(pid, path). ProcessStopped pid path) xs) (m, n) = (\<lambda>k. if k \<in> fst ` set xs then None else m k, n)"
  by (induction xs arbitrary: m) (auto simp: fun_eq_iff)

lemma replay_opened:
  "fold replay (map (\<lambda>(key, e). FlowOpened key e) xs) (m, n) = (m, n \<union> fst ` set xs)"
  by (induction xs arbitrary: n) auto

lemma replay_closed:
  "fold replay (map (\<lambda>(key, e). FlowClosed key e) xs) (m, n) = (m, n - fst ` set xs)"
  by (induction xs arbitrary: n) auto

lemma fold_update_lookup:
  "distinct (map f xs) \<Longrightarrow> fold (\<lambda>x m. m(f x \<mapsto> g x)) xs m k
     = (case find (\<lambda>x. f x = k) xs of None \<Rightarrow> m k | Some x \<Rightarrow> Some (g x))"
proof (induction xs arbitrary: m)
  case (Cons x xs)
  have "f x \<notin> f ` set xs" using Cons(2) by simp
  then have "find (\<lambda>y. f y = f x) xs = None" unfolding find_None_iff by (metis image_eqI)
  with Cons show ?case by auto
qed simp

lemma map_of_fold_update: "map_of (fold (\<lambda>x. AList.update (f x) (g x)) xs al) = fold (\<lambda>x m. m(f x \<mapsto> g x)) xs (map_of al)"
  by (induction xs arbitrary: al) (simp_all add: update_conv)

lemma keys_fold_update: "fst ` set (fold (\<lambda>x. AList.update (f x) (g x)) xs al) = fst ` set al \<union> f ` set xs"
  by (induction xs arbitrary: al) (auto simp: dom_update)

lemma map_of_process_map:
  "distinct (map pr_pid (sn_processes s)) \<Longrightarrow> map_of (process_map s) k
     = map_option pr_path (find (\<lambda>p. pr_pid p = k) (sn_processes s))"
  by (simp add: process_map_def map_of_fold_update fold_update_lookup split: option.splits)

lemma find_filter:
  "distinct (map f xs) \<Longrightarrow> find (\<lambda>x. f x = k) (filter P xs)
     = (case find (\<lambda>x. f x = k) xs of None \<Rightarrow> None | Some x \<Rightarrow> if P x then Some x else None)"
proof (induction xs)
  case (Cons x xs)
  have "f x \<notin> f ` set xs" using Cons(2) by simp
  then have "find (\<lambda>y. f y = f x) xs = None" unfolding find_None_iff by (metis image_eqI)
  with Cons show ?case by auto
qed simp

lemma find_Some_eq: "find (\<lambda>x. f x = k) xs = Some x \<Longrightarrow> f x = k"
  by (auto simp: find_Some_iff)

lemma replay_processes:
  assumes "distinct (map pr_pid (sn_processes s))" "rearranges (aw_process_order w)"
  shows "fold replay (process_transitions w s active) (map_of active, n) = (map_of (process_map s), n)"
proof -
  let ?started = "filter (\<lambda>p. map_of active (pr_pid p) \<noteq> Some (pr_path p)) (sn_processes s)"
  let ?stopped = "filter (\<lambda>(pid, _). map_of (process_map s) pid = None) (aw_process_order w active)"
  have d: "distinct (map pr_pid ?started)" using assms(1) by (simp add: distinct_map_filter)
  have stopped: "k \<in> fst ` set ?stopped \<longleftrightarrow> k \<in> fst ` set active \<and> map_of (process_map s) k = None" for k
    using assms(2) by (force simp: rearranges_def image_iff)
  have "(if k \<in> fst ` set ?stopped then None
      else fold (\<lambda>p m. m(pr_pid p \<mapsto> pr_path p)) ?started (map_of active) k) = map_of (process_map s) k" for k
  proof (cases "find (\<lambda>p. pr_pid p = k) (sn_processes s)")
    case None
    then have gone: "map_of (process_map s) k = None" by (simp add: map_of_process_map assms(1))
    have "fold (\<lambda>p m. m(pr_pid p \<mapsto> pr_path p)) ?started (map_of active) k = map_of active k"
      using None by (simp add: fold_update_lookup [OF d] find_filter [OF assms(1)])
    then show ?thesis unfolding stopped using gone map_of_eq_None_iff [of active k] by auto
  next
    case (Some p)
    then have k: "pr_pid p = k" by (rule find_Some_eq)
    have "fold (\<lambda>p m. m(pr_pid p \<mapsto> pr_path p)) ?started (map_of active) k = Some (pr_path p)"
      using Some k by (simp add: fold_update_lookup [OF d] find_filter [OF assms(1)])
    then show ?thesis unfolding stopped using Some by (simp add: map_of_process_map assms(1))
  qed
  then have "(\<lambda>k. if k \<in> fst ` set ?stopped then None
      else fold (\<lambda>p m. m(pr_pid p \<mapsto> pr_path p)) ?started (map_of active) k) = map_of (process_map s)" by (rule ext)
  then show ?thesis unfolding process_transitions_def fold_append comp_def replay_started replay_stopped by simp
qed

lemma replay_network:
  assumes "rearranges (aw_network_order w)"
  shows "fold replay (network_transitions w s active) (m, fst ` set active) = (m, fst ` set (network_map s))"
proof -
  let ?opened = "filter (\<lambda>(key, _). map_of active key = None) (aw_network_order w (network_map s))"
  let ?closed = "filter (\<lambda>(key, _). map_of (network_map s) key = None) (aw_network_order w active)"
  have "fst ` set ?opened = {k \<in> fst ` set (network_map s). k \<notin> fst ` set active}"
    "fst ` set ?closed = {k \<in> fst ` set active. k \<notin> fst ` set (network_map s)}"
    using assms by (force simp: rearranges_def map_of_eq_None_iff image_iff)+
  then have "fst ` set active \<union> fst ` set ?opened - fst ` set ?closed = fst ` set (network_map s)" by blast
  then show ?thesis unfolding network_transitions_def fold_append comp_def replay_opened replay_closed by simp
qed

section \<open>What is recorded\<close>

definition timeline_rows :: "activity \<Rightarrow> timeline_row list" where
  "timeline_rows a = map snd (lt_rows (db_timeline (hs_db (av_host a))))"

lemma record_fresh_row:
  assumes "hs_outcomes (av_host a) = []"
  shows "hs_outcomes (av_host (record_fresh w owner event a)) = []"
    and "timeline_rows (record_fresh w owner event a) = timeline_rows a
      @ [\<lparr>tr_owner = owner, tr_severity = severity_display (te_severity (event (aw_uuid w (av_uuids a)))),
          tr_event = event (aw_uuid w (av_uuids a))\<rparr>]"
  using assms
  by (simp_all add: record_fresh_def av_store_def ignoring_def db_call_def take_outcome_def timeline_rows_def
      record_timeline_def insert_timeline_def log_insert_def Let_def split: prod.splits)

lemma record_fresh_keeps:
  "av_etw (record_fresh w owner event a) = av_etw a" "av_baselined (record_fresh w owner event a) = av_baselined a"
  "av_processes (record_fresh w owner event a) = av_processes a"
  "av_network (record_fresh w owner event a) = av_network a"
  by (simp_all add: record_fresh_def av_store_def)

text \<open>One row of the owner for each recorded item, in order.\<close>

lemma record_all_rows:
  assumes "hs_outcomes (av_host a) = []"
  shows "\<exists>rows. timeline_rows (fold (\<lambda>t. record_fresh w owner (f t)) ts a) = timeline_rows a @ rows
    \<and> list_all2 (\<lambda>t r. tr_owner r = owner \<and> (\<exists>u. tr_event r = f t u)) ts rows"
  using assms
proof (induction ts arbitrary: a)
  case Nil
  show ?case by simp
next
  case (Cons t ts)
  let ?b = "record_fresh w owner (f t) a"
  from Cons(1) [OF record_fresh_row(1) [OF Cons(2)], of w owner "f t"] obtain rows
    where "timeline_rows (fold (\<lambda>t. record_fresh w owner (f t)) ts ?b) = timeline_rows ?b @ rows"
      "list_all2 (\<lambda>t r. tr_owner r = owner \<and> (\<exists>u. tr_event r = f t u)) ts rows" by blast
  with record_fresh_row(2) [OF Cons(2), of w owner "f t"] show ?case
    by (intro exI [of _ "\<lparr>tr_owner = owner, tr_severity = severity_display (te_severity (f t (aw_uuid w (av_uuids a)))),
          tr_event = f t (aw_uuid w (av_uuids a))\<rparr> # rows"]) auto
qed

text \<open>A row of a process says enough to repeat what happened to it; a row of a flow does not name its local end.\<close>

definition replay_row :: "timeline_event \<Rightarrow> (u32 \<rightharpoonup> string) \<Rightarrow> u32 \<rightharpoonup> string" where
  "replay_row e m =
     (case te_process_id e of
        None \<Rightarrow> m
      | Some pid \<Rightarrow> if te_category e \<noteq> ''process'' then m
          else if te_action e = ''started'' then m(pid \<mapsto> te_path e) else m(pid := None))"

lemma replay_transition_row: "replay_row (transition_event captured t u) (fst v) = fst (replay t v)"
  by (cases t; cases v) (simp_all add: replay_row_def)

lemma replay_rows:
  "list_all2 (\<lambda>t r. tr_owner r = owner \<and> (\<exists>u. tr_event r = transition_event captured t u)) ts rows
     \<Longrightarrow> fold (\<lambda>r. replay_row (tr_event r)) rows (fst v) = fst (fold replay ts v)"
proof (induction ts rows arbitrary: v rule: list_all2_induct)
  case (Cons t ts r rows)
  then obtain u where "tr_event r = transition_event captured t u" by blast
  then show ?case using Cons.IH [of "replay t v"] by (simp add: replay_transition_row)
qed simp


definition sample_activity :: activity where
  "sample_activity = \<lparr>av_host = \<lparr>hs_files = Map.empty, hs_outcomes = [], hs_db = db_empty\<rparr>, av_mode = ''service'',
     av_etw = None, av_processes = [(4, ''old''), (5, ''same'')], av_network = [], av_baselined = True,
     av_monitors = [], av_reported = [], av_slots = 0, av_scans = [], av_uuids = 0\<rparr>"

definition sample_activity_world :: "(bool \<times> u64) option \<Rightarrow> activity_world" where
  "sample_activity_world metadata = \<lparr>aw_uuid = show_nat, aw_timestamp = ''t'', aw_process_order = id,
     aw_network_order = id, aw_folders = [Some ''R''], aw_local_app_data = None, aw_watcher = Inr (),
     aw_watch = (\<lambda>_. Inr ()), aw_files = sample_files, aw_metadata = (\<lambda>_. metadata), aw_canonical = (\<lambda>_. None),
     aw_scanner = sample_scanner, aw_scan = (\<lambda>_. sample_world ''abc'')\<rparr>"

definition sample_running :: "u32 \<Rightarrow> string \<Rightarrow> process_record" where
  "sample_running pid path = \<lparr>pr_pid = pid, pr_parent_pid = 0, pr_name = path, pr_path = path,
     pr_thread_count = 1, pr_working_set_bytes = 0, pr_cpu_percent = 0, pr_signature = Trusted,
     pr_accessible = True, pr_identity = path, pr_is_new = False, pr_risk = default_risk\<rparr>"

definition sample_later :: system_snapshot where
  "sample_later = \<lparr>sn_processes = [sample_running 5 ''same'', sample_running 6 ''new''], sn_endpoints = [],
     sn_captured_at = ''t'', sn_elevated = False, sn_coverage = []\<rparr>"


section \<open>Real-time scans\<close>

datatype realtime_step = ScheduleScan activity_world string string | FinishScan activity_world nat

fun realtime_run :: "activity \<Rightarrow> realtime_step list \<Rightarrow> activity" where
  "realtime_run s [] = s"
| "realtime_run s (ScheduleScan w owner path # steps) = realtime_run (schedule_realtime_scan w owner path s) steps"
| "realtime_run s (FinishScan w k # steps) = realtime_run (finish_realtime_scan w k s) steps"

definition slots_ok :: "activity \<Rightarrow> bool" where
  "slots_ok s \<longleftrightarrow> length (av_scans s) \<le> av_slots s \<and> av_slots s \<le> 2"

lemma av_read_keeps:
  "av_scans (snd (av_read f s)) = av_scans s" "av_slots (snd (av_read f s)) = av_slots s"
  by (simp_all add: av_read_def split: prod.splits sum.splits)

lemma store_realtime_keeps:
  "av_scans (store_realtime w owner path f s) = av_scans s" "av_slots (store_realtime w owner path f s) = av_slots s"
  by (simp_all add: store_realtime_def split_beta av_store_def Let_def av_read_keeps)

lemma finish_effect:
  "av_scans (finish_realtime_scan w k s)
     = (if k < length (av_scans s) then take k (av_scans s) @ drop (Suc k) (av_scans s) else av_scans s)"
  "av_slots (finish_realtime_scan w k s) = (if k < length (av_scans s) then av_slots s - 1 else av_slots s)"
  by (auto simp: finish_realtime_scan_def Let_def store_realtime_keeps split: prod.splits option.splits sum.splits)

lemma schedule_effect:
  "av_slots (schedule_realtime_scan w owner path s) \<le> max 2 (av_slots s)"
  "av_slots s \<le> av_slots (schedule_realtime_scan w owner path s)"
  "length (av_scans (schedule_realtime_scan w owner path s)) + av_slots s
     \<le> length (av_scans s) + av_slots (schedule_realtime_scan w owner path s)"
  "2 \<le> av_slots s \<Longrightarrow> schedule_realtime_scan w owner path s = s"
  by (auto simp: schedule_realtime_scan_def Let_def split: option.splits prod.splits)

lemma slots_ok_run: "slots_ok s \<Longrightarrow> slots_ok (realtime_run s steps)"
proof (induction s steps rule: realtime_run.induct)
  case (2 s w owner path steps)
  then have "slots_ok (schedule_realtime_scan w owner path s)"
    using schedule_effect(1) [of w owner path s] schedule_effect(2) [of s w owner path]
      schedule_effect(3) [of w owner path s] by (simp add: slots_ok_def)
  with 2 show ?case by simp
next
  case (3 s w k steps)
  then have "slots_ok (finish_realtime_scan w k s)" by (auto simp: slots_ok_def finish_effect)
  with 3 show ?case by simp
qed simp

text \<open>
  A real-time scan thread that cannot be started takes its slot with it: once both slots are taken
  and no scan is running, no real-time scan starts again, whatever files are scheduled later.  Until
  then at most two scans run at a time.
\<close>

theorem leaked_slots_stop_realtime_scans:
  assumes "av_scans s = []" "av_slots s \<le> 2" "s' = realtime_run s steps"
  shows "length (av_scans s') \<le> 2 \<and> av_slots s' \<le> 2 \<and> (av_slots s = 2 \<longrightarrow> s' = s)"
proof -
  have "slots_ok s'" using slots_ok_run [of s steps] assms by (simp add: slots_ok_def)
  moreover have "s' = s" if "av_slots s = 2"
    using assms(1) that unfolding assms(3)
    by (induction s steps rule: realtime_run.induct) (simp_all add: schedule_effect(4) finish_realtime_scan_def)
  ultimately show ?thesis by (auto simp: slots_ok_def)
qed

text \<open>Two failed starts are enough.\<close>

definition leaked_activity :: activity where
  "leaked_activity = realtime_run (sample_activity\<lparr>av_host := \<lparr>hs_files = Map.empty,
       hs_outcomes = [Fails ''no thread'' 0, Fails ''no thread'' 0], hs_db = db_empty\<rparr>\<rparr>)
     [ScheduleScan (sample_activity_world (Some (True, 3))) ''u'' ''a.exe'',
      ScheduleScan (sample_activity_world (Some (True, 3))) ''u'' ''b.exe'']"

theorem leaked_slots_stop_realtime_scans_witness:
  "hs_outcomes (av_host leaked_activity) = [] \<and> av_slots leaked_activity = 2
   \<and> av_scans (realtime_run leaked_activity
        [ScheduleScan (sample_activity_world (Some (True, 3))) ''u'' ''c.exe'',
         FinishScan (sample_activity_world (Some (True, 3))) 0,
         ScheduleScan (sample_activity_world (Some (True, 3))) ''u'' ''d.exe'']) = []"
proof -
  have s: "av_slots leaked_activity = 2" "av_scans leaked_activity = []" "hs_outcomes (av_host leaked_activity) = []"
    by code_simp+
  then have "av_slots leaked_activity \<le> 2" by simp
  from leaked_slots_stop_realtime_scans [OF s(2) this refl] s show ?thesis by metis
qed

text \<open>A process identifier that is used again for another program has no stop in the timeline.\<close>

lemma reused_pid_is_not_stopped:
  "process_transitions (sample_activity_world None)
     (sample_later\<lparr>sn_processes := [sample_running 4 ''other'']\<rparr>) [(4, ''old'')]
     = [ProcessStarted (sample_running 4 ''other'')]"
  by code_simp

end
