(* ===== verification/OG_Snapshot.thy ===== *)
theory OG_Snapshot
  imports OG_Activity OG_Protection OG_Records
begin

text \<open>
  The answer to a snapshot request (\<^verbatim>\<open>collect_snapshot\<close> and \<^verbatim>\<open>apply_executable_baseline\<close> in
  \<^verbatim>\<open>openguard-service/src/main.rs\<close>), the health report, and the check of the service's own files at
  its start (\<^verbatim>\<open>verify_runtime_integrity\<close>).
\<close>

section \<open>State and world\<close>

text \<open>The identities that the service has seen for one user since it started.\<close>

record executable_baseline =
  eb_identities :: "string list"
  eb_last_persisted :: instant

record session =
  zs_activity :: activity
  zs_baselines :: "(string \<times> executable_baseline) list"

text \<open>
  \<open>xw_monitor\<close> is the snapshot that the protection monitor has published, if any; \<open>xw_collect\<close> is
  what the collector answers otherwise.
\<close>

record snapshot_world =
  xw_activity :: activity_world
  xw_monitor :: "system_snapshot option"
  xw_collect :: "string + system_snapshot"
  xw_now :: instant
  xw_elevated :: bool

definition session_db ::
  "(database \<Rightarrow> (storage_error + 'a) \<times> database) \<Rightarrow> session \<Rightarrow> (storage_error + 'a) \<times> session" where
  "session_db f s =
     (case db_call f (av_host (zs_activity s)) of
        (r, h) \<Rightarrow> (r, s\<lparr>zs_activity := zs_activity s\<lparr>av_host := h\<rparr>\<rparr>))"

section \<open>The executable baseline\<close>

definition PERSIST_ALL_INTERVAL :: nat where "PERSIST_ALL_INTERVAL = 5 * 60 * 10 ^ 9"

definition seen_of :: "string \<Rightarrow> process_record \<Rightarrow> seen_executable" where
  "seen_of now p =
     \<lparr>sx_identity = pr_identity p, sx_path = pr_path p, sx_name = pr_name p,
      sx_signature = signature_display (pr_signature p), sx_risk_score = ra_score (pr_risk p),
      sx_observed_at = now\<rparr>"

text \<open>The loop over the processes when the user's baseline is in memory: \<^verbatim>\<open>insert\<close> tells what is new.\<close>

fun learn_processes :: "process_record list \<Rightarrow> string list \<Rightarrow> process_record list \<times> string list" where
  "learn_processes [] known = ([], known)"
| "learn_processes (p # ps) known =
     (let new = pr_identity p \<noteq> [] \<and> pr_identity p \<notin> set known;
          (qs, known) = learn_processes ps (if new then pr_identity p # known else known)
      in (p\<lparr>pr_is_new := new\<rparr> # qs, known))"

definition apply_cached_baseline ::
  "instant \<Rightarrow> string \<Rightarrow> string \<Rightarrow> executable_baseline \<Rightarrow> process_record list \<Rightarrow> session
   \<Rightarrow> (storage_error + bool) \<times> process_record list \<times> session" where
  "apply_cached_baseline now timestamp owner b ps s =
     (let persist_all = PERSIST_ALL_INTERVAL \<le> now - eb_last_persisted b;
          (ps, known) = learn_processes ps (eb_identities b);
          b = b\<lparr>eb_identities := known\<rparr>;
          s = s\<lparr>zs_baselines := AList.update owner b (zs_baselines s)\<rparr>;
          changed = map (seen_of timestamp) (filter (\<lambda>p. pr_is_new p \<or> persist_all) ps)
      in if changed = [] then (Inr False, ps, s)
         else (case session_db (record_executables owner changed) s of
                 (Inl e, s) \<Rightarrow> (Inl e, ps, s)
               | (Inr _, s) \<Rightarrow> (Inr False, ps,
                   s\<lparr>zs_baselines := AList.update owner (b\<lparr>eb_last_persisted := now\<rparr>) (zs_baselines s)\<rparr>)))"

definition baseline_key :: "string \<Rightarrow> string" where
  "baseline_key owner = ''baseline_initialized:'' @ owner"

definition observed_executables :: "string \<Rightarrow> process_record list \<Rightarrow> seen_executable list" where
  "observed_executables timestamp ps = map (seen_of timestamp) (filter (\<lambda>p. pr_identity p \<noteq> []) ps)"

text \<open>The first snapshot of a user after the service has started.\<close>

definition apply_stored_baseline ::
  "instant \<Rightarrow> string \<Rightarrow> string \<Rightarrow> process_record list \<Rightarrow> session
   \<Rightarrow> (storage_error + bool) \<times> process_record list \<times> session" where
  "apply_stored_baseline now timestamp owner ps s =
     (case session_db (\<lambda>d. (Inr (get_metadata (baseline_key owner) d), d)) s of
        (Inl e, s) \<Rightarrow> (Inl e, ps, s)
      | (Inr m, s) \<Rightarrow>
          let initialized = (m = Some ''1'') in
          (case session_db (\<lambda>d. (Inr (known_executable_identities owner (map pr_identity ps) d), d)) s of
             (Inl e, s) \<Rightarrow> (Inl e, ps, s)
           | (Inr known, s) \<Rightarrow>
               let ps = map (\<lambda>p. p\<lparr>pr_is_new := initialized \<and> pr_identity p \<noteq> [] \<and> pr_identity p \<notin> known\<rparr>) ps;
                   observations = observed_executables timestamp ps in
               (case session_db (record_executables owner observations) s of
                  (Inl e, s) \<Rightarrow> (Inl e, ps, s)
                | (Inr _, s) \<Rightarrow>
                    (case (if initialized then (Inr (), s)
                           else session_db (\<lambda>d. (Inr (), set_metadata (baseline_key owner) ''1'' d)) s) of
                       (Inl e, s) \<Rightarrow> (Inl e, ps, s)
                     | (Inr _, s) \<Rightarrow>
                         (Inr (\<not> initialized), ps,
                          s\<lparr>zs_baselines := AList.update owner
                              \<lparr>eb_identities = map sx_identity observations, eb_last_persisted = now\<rparr>
                              (zs_baselines s)\<rparr>)))))"

definition apply_executable_baseline ::
  "instant \<Rightarrow> string \<Rightarrow> string \<Rightarrow> process_record list \<Rightarrow> session
   \<Rightarrow> (storage_error + bool) \<times> process_record list \<times> session" where
  "apply_executable_baseline now timestamp owner ps s =
     (case map_of (zs_baselines s) owner of
        Some b \<Rightarrow> apply_cached_baseline now timestamp owner b ps s
      | None \<Rightarrow> apply_stored_baseline now timestamp owner ps s)"

section \<open>Reports\<close>

definition new_executable_event :: "string \<Rightarrow> process_record \<Rightarrow> security_event" where
  "new_executable_event now p =
     \<lparr>se_id = None, se_event_type = ''new_executable'', se_severity = ra_severity (pr_risk p),
      se_title = ''New executable observed: '' @ pr_name p,
      se_detail = (if ra_reasons (pr_risk p) = []
                   then ''This executable identity was not present in the saved baseline''
                   else join ''; '' (ra_reasons (pr_risk p))),
      se_process_id = Some (pr_pid p), se_path = pr_path p, se_created_at = now, se_resolved = False\<rparr>"

definition correlated_reasons :: "process_record \<Rightarrow> string list" where
  "correlated_reasons p = filter (\<lambda>r. starts_with r ''Behavior:'') (ra_reasons (pr_risk p))"

definition behavior_report :: "process_record \<Rightarrow> bool" where
  "behavior_report p \<longleftrightarrow> Medium \<le> ra_severity (pr_risk p) \<and> correlated_reasons p \<noteq> []"

definition behavior_event :: "string \<Rightarrow> process_record \<Rightarrow> security_event" where
  "behavior_event now p =
     \<lparr>se_id = None, se_event_type = ''behavior_correlation'', se_severity = ra_severity (pr_risk p),
      se_title = ''Correlated behavior needs review: '' @ pr_name p,
      se_detail = join ''; '' (correlated_reasons p), se_process_id = Some (pr_pid p),
      se_path = pr_path p, se_created_at = now, se_resolved = False\<rparr>"

definition new_executable_key :: "string \<Rightarrow> process_record \<Rightarrow> string" where
  "new_executable_key owner p = owner @ '':'' @ pr_identity p"

definition behavior_key :: "string \<Rightarrow> process_record \<Rightarrow> string" where
  "behavior_key owner p =
     ''behavior:'' @ owner @ '':'' @ show_nat (unat (pr_pid p)) @ '':'' @ pr_identity p @ '':''
     @ join ''|'' (correlated_reasons p)"

text \<open>One process of a report loop: the key is inserted before the event is stored.\<close>

definition report_process ::
  "string \<Rightarrow> (process_record \<Rightarrow> string) \<Rightarrow> (process_record \<Rightarrow> security_event) \<Rightarrow> process_record
   \<Rightarrow> activity \<Rightarrow> activity" where
  "report_process owner key event p s =
     (if key p \<in> set (av_reported s) then s
      else av_store (record_event owner (event p)) (s\<lparr>av_reported := key p # av_reported s\<rparr>))"

definition report_snapshot :: "string \<Rightarrow> string \<Rightarrow> process_record list \<Rightarrow> activity \<Rightarrow> activity" where
  "report_snapshot owner now ps s =
     fold (report_process owner (behavior_key owner) (behavior_event now)) (filter behavior_report ps)
       (fold (report_process owner (new_executable_key owner) (new_executable_event now)) (filter pr_is_new ps) s)"

section \<open>Coverage notes\<close>

definition file_monitor_note :: "file_monitor option \<Rightarrow> coverage_note" where
  "file_monitor_note m =
     \<lparr>cn_source = ''realtime_file_monitor'',
      cn_state = (case m of None \<Rightarrow> Limited | Some _ \<Rightarrow> Active),
      cn_detail = (case m of
          None \<Rightarrow> ''Per-user file monitoring has not initialized for this session''
        | Some m \<Rightarrow> ''ReadDirectoryChangesW monitoring is active on '' @ show_nat (length (fm_roots m))
            @ '' user-writable roots with USN gap checks and bounded reconciliation'')\<rparr>"

definition baseline_note :: "storage_error + bool \<Rightarrow> coverage_note" where
  "baseline_note r =
     \<lparr>cn_source = ''executable_baseline'',
      cn_state = (case r of Inr _ \<Rightarrow> Active | Inl _ \<Rightarrow> Limited),
      cn_detail = (case r of
          Inr True \<Rightarrow> ''Persistent per-user executable baseline initialized without alerting on existing processes''
        | Inr False \<Rightarrow> ''Persistent per-user executable baseline is active''
        | Inl e \<Rightarrow> ''Executable baseline persistence is unavailable: '' @ storage_error_display e)\<rparr>"

definition correlation_note :: "nat \<Rightarrow> coverage_note" where
  "correlation_note n =
     \<lparr>cn_source = ''behavior_correlation'', cn_state = Active,
      cn_detail = ''Explainable parent, identity, trust, baseline, and destination correlation is active; ''
        @ show_nat n @ '' processes currently have correlated evidence''\<rparr>"

section \<open>The snapshot request\<close>

definition current_snapshot :: "snapshot_world \<Rightarrow> string + system_snapshot" where
  "current_snapshot w = (case xw_monitor w of Some s \<Rightarrow> Inr s | None \<Rightarrow> xw_collect w)"

definition collect_snapshot ::
  "snapshot_world \<Rightarrow> string \<Rightarrow> session \<Rightarrow> (string + system_snapshot) \<times> session" where
  "collect_snapshot w owner s =
     (case current_snapshot w of
        Inl e \<Rightarrow> (Inl e, s)
      | Inr x \<Rightarrow>
          (let now = aw_timestamp (xw_activity w);
               s = s\<lparr>zs_activity := record_snapshot_transitions (xw_activity w) owner x (zs_activity s)\<rparr>;
               files = file_monitor_note (map_of (av_monitors (zs_activity s)) owner);
               (r, ps, s) = apply_executable_baseline (xw_now w) now owner (sn_processes x) s;
               x = x\<lparr>sn_processes := ps, sn_coverage := sn_coverage x @ [files, baseline_note r]\<rparr>;
               (n, x) = apply_behavior_correlations x;
               x = x\<lparr>sn_coverage := sn_coverage x @ [correlation_note n]\<rparr>
           in (Inr x, s\<lparr>zs_activity := report_snapshot owner now (sn_processes x) (zs_activity s)\<rparr>)))"

section \<open>Health\<close>

definition PROTECTION_SOURCES :: "string list" where
  "PROTECTION_SOURCES = [''background_protection'', ''windows_event_log'', ''sysmon_events'',
     ''behavior_chain'', ''driverless_enforcement'']"

text \<open>A note replaces the first one of the same source, or is appended.\<close>

fun replace_note :: "coverage_note \<Rightarrow> coverage_note list \<Rightarrow> coverage_note list" where
  "replace_note n [] = [n]"
| "replace_note n (m # ms) = (if cn_source m = cn_source n then n # ms else m # replace_note n ms)"

definition own_coverage ::
  "bool \<Rightarrow> etw_monitor option \<Rightarrow> bool \<Rightarrow> coverage_note \<Rightarrow> coverage_note list" where
  "own_coverage elevated etw inventoried integrity =
     [\<lparr>cn_source = ''windows'', cn_state = Active, cn_detail = ''Native Windows collector is available''\<rparr>,
      \<lparr>cn_source = ''privilege'', cn_state = (if elevated then Active else Limited),
       cn_detail = (if elevated then ''Elevated collection is active''
         else ''Running unelevated; protected details and TCP byte counters may be limited'')\<rparr>,
      (case etw of
         None \<Rightarrow> \<lparr>cn_source = ''etw_process_events'', cn_state = Limited,
           cn_detail = ''ETW helper is unavailable; bounded snapshot reconciliation remains active''\<rparr>
       | Some m \<Rightarrow> etw_coverage m),
      \<lparr>cn_source = ''investigation_timeline'', cn_state = Active,
       cn_detail = ''Owner-scoped cursor-paginated process, file, network, persistence, detection, and response history is active''\<rparr>,
      \<lparr>cn_source = ''persistence_inventory'', cn_state = (if inventoried then Active else CoverageUnknown),
       cn_detail = ''Services, drivers, scheduled tasks, WMI consumers, Run keys, and browser extensions are inventoried on demand''\<rparr>,
      \<lparr>cn_source = ''confirmed_response'', cn_state = Active,
       cn_detail = ''Identity-revalidated process control, recoverable quarantine, reversible startup disable, and temporary outbound blocking require explicit user confirmation and are audited''\<rparr>,
      integrity]"

definition health_coverage ::
  "bool \<Rightarrow> etw_monitor option \<Rightarrow> bool \<Rightarrow> coverage_note \<Rightarrow> system_snapshot option \<Rightarrow> coverage_note list" where
  "health_coverage elevated etw inventoried integrity monitor =
     (let own = own_coverage elevated etw inventoried integrity in
      case monitor of
        None \<Rightarrow> own
      | Some s \<Rightarrow> fold replace_note (filter (\<lambda>n. cn_source n \<in> set PROTECTION_SOURCES) (sn_coverage s)) own)"

section \<open>The service's own files\<close>

text \<open>
  \<open>iw_read\<close> opens a file and says what the reads return; the digest of \<^verbatim>\<open>sha2\<close> is \<open>iw_sha256\<close>, and
  \<open>iw_version\<close> is the version the service was built as.
\<close>

record integrity_world =
  iw_version :: string
  iw_current_exe :: "string + string"
  iw_is_file :: "string \<Rightarrow> bool"
  iw_read :: "string \<Rightarrow> copy_step list option"
  iw_sha256 :: "bytes \<Rightarrow> string"
  iw_process_id :: u32
  iw_timestamp :: string

definition with_file_name :: "string \<Rightarrow> string \<Rightarrow> string" where
  "with_file_name path name = rev (dropWhile (\<lambda>c. \<not> is_separator c) (rev path)) @ name"

definition sha256_path :: "integrity_world \<Rightarrow> string \<Rightarrow> string + string" where
  "sha256_path w path =
     (case iw_read w path of
        None \<Rightarrow> Inl (''open '' @ path)
      | Some steps \<Rightarrow>
          (case delivered steps of None \<Rightarrow> Inl (''read '' @ path) | Some bs \<Rightarrow> Inr (iw_sha256 w bs)))"

definition integrity_key :: "integrity_world \<Rightarrow> string \<Rightarrow> string" where
  "integrity_key w target =
     ''integrity:'' @ iw_version w @ '':''
     @ (case path_file_name target of None \<Rightarrow> ''binary'' | Some n \<Rightarrow> n)"

definition integrity_change :: "string \<Rightarrow> string \<Rightarrow> string \<Rightarrow> string" where
  "integrity_change target expected actual =
     target @ '' expected SHA-256 '' @ expected @ '', observed '' @ actual"

text \<open>The loop over the targets, with the number verified and the changes so far.\<close>

fun verify_targets ::
  "integrity_world \<Rightarrow> string list \<Rightarrow> nat \<Rightarrow> string list \<Rightarrow> host \<Rightarrow> (string + nat \<times> string list) \<times> host" where
  "verify_targets w [] n changed = (\<lambda>s. (Inr (n, changed), s))"
| "verify_targets w (target # rest) n changed =
     (\<lambda>s. case sha256_path w target of
        Inl e \<Rightarrow> (Inl e, s)
      | Inr actual \<Rightarrow>
          run_then (map_fail storage_error_display
              (db_call (\<lambda>d. (Inr (get_metadata (integrity_key w target) d), d))))
            (\<lambda>m. case m of
               Some expected \<Rightarrow>
                 if expected \<noteq> actual
                 then verify_targets w rest n (changed @ [integrity_change target expected actual])
                 else verify_targets w rest (Suc n) changed
             | None \<Rightarrow>
                 run_then (map_fail storage_error_display
                     (db_call (\<lambda>d. (Inr (), set_metadata (integrity_key w target) actual d))))
                   (\<lambda>_. verify_targets w rest (Suc n) changed)) s)"

definition integrity_targets :: "integrity_world \<Rightarrow> string \<Rightarrow> string list" where
  "integrity_targets w service =
     (let helper = with_file_name service ''OpenGuardETW.exe'' in
      if iw_is_file w helper then [service, helper] else [service])"

definition integrity_event :: "integrity_world \<Rightarrow> string \<Rightarrow> string \<Rightarrow> security_event" where
  "integrity_event w service detail =
     \<lparr>se_id = None, se_event_type = ''self_integrity_failure'', se_severity = Critical,
      se_title = ''OpenGuard component integrity changed'', se_detail = detail,
      se_process_id = Some (iw_process_id w), se_path = service, se_created_at = iw_timestamp w,
      se_resolved = False\<rparr>"

definition verify_runtime_integrity :: "integrity_world \<Rightarrow> host \<Rightarrow> (string + coverage_note) \<times> host" where
  "verify_runtime_integrity w s =
     (case iw_current_exe w of
        Inl _ \<Rightarrow> (Inl ''resolve service executable for integrity check'', s)
      | Inr service \<Rightarrow>
          run_then (verify_targets w (integrity_targets w service) 0 [])
            (\<lambda>(n, changed).
               if changed = [] then (\<lambda>s. (Inr \<lparr>cn_source = ''self_integrity'', cn_state = Active,
                 cn_detail = ''Verified '' @ show_nat n
                   @ '' version-bound service/helper hashes against the service-owned baseline''\<rparr>, s))
               else
                 (let detail = join ''; '' changed in
                  run_then (map_fail storage_error_display
                      (db_call (\<lambda>d. case record_event [] (integrity_event w service detail) d of (i, d) \<Rightarrow> (Inr i, d))))
                    (\<lambda>_ s. (Inr \<lparr>cn_source = ''self_integrity'', cn_state = Limited, cn_detail = detail\<rparr>, s)))) s)"

end
