(* ===== verification/OG_Baseline.thy ===== *)
theory OG_Baseline
  imports OG_Snapshot
begin

text \<open>
  What the executable baseline and the check of the service's own files (\<open>OG_Snapshot\<close>) guarantee.
\<close>

section \<open>Which executables are marked as new\<close>

definition baseline_of :: "session \<Rightarrow> string \<Rightarrow> string set" where
  "baseline_of s owner = (case map_of (zs_baselines s) owner of None \<Rightarrow> {} | Some b \<Rightarrow> set (eb_identities b))"

definition new_identities :: "process_record list \<Rightarrow> string list" where
  "new_identities ps = map pr_identity (filter pr_is_new ps)"

definition named_identities :: "process_record list \<Rightarrow> string set" where
  "named_identities ps = pr_identity ` set ps - {[]}"

lemma learn_processes_marks:
  "learn_processes ps known = (qs, known') \<Longrightarrow>
     distinct (new_identities qs) \<and> set (new_identities qs) = named_identities ps - set known
     \<and> set known' = set known \<union> named_identities ps \<and> map pr_identity qs = map pr_identity ps"
proof (induction ps known arbitrary: qs known' rule: learn_processes.induct)
  case (2 p ps known)
  let ?new = "pr_identity p \<noteq> [] \<and> pr_identity p \<notin> set known"
  obtain rs k where r: "learn_processes ps (if ?new then pr_identity p # known else known) = (rs, k)" by fastforce
  from "2.prems" r have out: "qs = p\<lparr>pr_is_new := ?new\<rparr> # rs" "known' = k" by (auto simp: Let_def)
  from "2.IH" [OF refl r] show ?case
    by (auto simp: out new_identities_def named_identities_def)
qed (simp add: new_identities_def named_identities_def)

lemma session_db_baselines: "session_db f s = (r, s') \<Longrightarrow> zs_baselines s' = zs_baselines s"
  by (auto simp: session_db_def split: prod.splits)

text \<open>A cached baseline learns a snapshot whether or not the database takes it.\<close>

lemma cached_baseline_step:
  assumes "map_of (zs_baselines s) owner = Some b"
    and "apply_executable_baseline t now owner ps s = (r, qs, s')"
  shows "distinct (new_identities qs) \<and> set (new_identities qs) = named_identities ps - baseline_of s owner"
    and "baseline_of s' o1 = (if o1 = owner then baseline_of s owner \<union> named_identities ps else baseline_of s o1)"
    and "map_of (zs_baselines s') o1 = None \<longleftrightarrow> map_of (zs_baselines s) o1 = None"
proof -
  obtain rs known where l: "learn_processes ps (eb_identities b) = (rs, known)" by fastforce
  note m = learn_processes_marks [OF l]
  let ?b = "b\<lparr>eb_identities := known\<rparr>"
  from assms have "qs = rs \<and> (zs_baselines s' = AList.update owner ?b (zs_baselines s)
      \<or> zs_baselines s' = AList.update owner (?b\<lparr>eb_last_persisted := t\<rparr>) (zs_baselines s))"
    by (auto simp: apply_executable_baseline_def apply_cached_baseline_def l Let_def
        dest!: session_db_baselines split: prod.splits sum.splits if_splits)
  then have "qs = rs \<and> (\<exists>b'. eb_identities b' = known \<and> zs_baselines s' = AList.update owner b' (zs_baselines s))"
    by (elim conjE disjE) (intro conjI, assumption, rule exI, rule conjI [rotated], assumption, simp)+
  then obtain b' where b': "qs = rs" "eb_identities b' = known"
    "zs_baselines s' = AList.update owner b' (zs_baselines s)" by blast
  from m b' assms(1) show "distinct (new_identities qs) \<and> set (new_identities qs) = named_identities ps - baseline_of s owner"
    and "baseline_of s' o1 = (if o1 = owner then baseline_of s owner \<union> named_identities ps else baseline_of s o1)"
    and "map_of (zs_baselines s') o1 = None \<longleftrightarrow> map_of (zs_baselines s) o1 = None"
    by (simp_all add: baseline_of_def update_conv)
qed

text \<open>A sequence of snapshots of several users, with the executables marked as new in it.\<close>

fun baseline_run ::
  "(instant \<times> string \<times> string \<times> process_record list) list \<Rightarrow> session \<Rightarrow> (string \<times> string) list" where
  "baseline_run [] s = []"
| "baseline_run ((t, now, owner, ps) # rest) s =
     (case apply_executable_baseline t now owner ps s of
        (_, qs, s) \<Rightarrow> map (Pair owner) (new_identities qs) @ baseline_run rest s)"

text \<open>The marks of one user.\<close>

definition marks_of :: "string \<Rightarrow> (string \<times> string) list \<Rightarrow> string list" where
  "marks_of owner marks = map snd (filter (\<lambda>(o1, _). o1 = owner) marks)"

lemma marks_of_append: "marks_of owner (map (Pair o1) xs @ ys) = (if o1 = owner then xs else []) @ marks_of owner ys"
  by (simp add: marks_of_def comp_def filter_map)

lemma other_baseline_step:
  assumes "apply_executable_baseline t now o1 ps s = (r, qs, s')" "o1 \<noteq> owner"
  shows "map_of (zs_baselines s') owner = map_of (zs_baselines s) owner"
proof (cases "map_of (zs_baselines s) o1")
  case None
  with assms show ?thesis
    by (auto simp: apply_executable_baseline_def apply_stored_baseline_def Let_def update_conv
        dest!: session_db_baselines split: prod.splits sum.splits if_splits)
next
  case (Some b)
  with assms show ?thesis
    by (auto simp: apply_executable_baseline_def apply_cached_baseline_def Let_def update_conv
        dest!: session_db_baselines split: prod.splits sum.splits if_splits)
qed


section \<open>What the stored baseline is used for\<close>

lemma session_db_works:
  "hs_outcomes (av_host (zs_activity s)) = [] \<Longrightarrow>
     session_db f s = (case f (hs_db (av_host (zs_activity s))) of
       (r, d) \<Rightarrow> (r, s\<lparr>zs_activity := zs_activity s\<lparr>av_host := (av_host (zs_activity s))\<lparr>hs_db := d\<rparr>\<rparr>\<rparr>))"
  by (simp add: session_db_def db_call_def take_outcome_def split: prod.splits)

lemma upsert_executables_works:
  "\<forall>x \<in> set xs. sx_risk_score x \<le> 100 \<Longrightarrow> \<exists>d'. upsert_executables owner xs d = Inr d'"
proof (induction xs arbitrary: d)
  case (Cons x xs)
  then have "\<not> 100 < sx_risk_score x" by (simp add: not_less)
  with Cons show ?case by (simp add: upsert_executable_def Let_def)
qed simp

lemma record_executables_works:
  "\<forall>p \<in> set ps. ra_score (pr_risk p) \<le> 100 \<Longrightarrow>
     \<exists>d'. record_executables owner (observed_executables now ps) d = (Inr (), d')"
proof -
  assume a: "\<forall>p \<in> set ps. ra_score (pr_risk p) \<le> 100"
  let ?xs = "filter (\<lambda>x. sx_identity x \<noteq> []) (observed_executables now ps)"
  have "\<forall>x \<in> set ?xs. sx_risk_score x \<le> 100" using a by (auto simp: observed_executables_def seen_of_def)
  from upsert_executables_works [OF this] obtain d' where "upsert_executables owner ?xs d = Inr d'" by blast
  then show ?thesis by (simp add: record_executables_def)
qed

lemma observed_executables_upd:
  "map sx_identity (observed_executables now (map (\<lambda>p. p\<lparr>pr_is_new := f p\<rparr>) ps)) = filter (\<lambda>i. i \<noteq> []) (map pr_identity ps)"
  by (induction ps) (simp_all add: observed_executables_def seen_of_def)

text \<open>The first snapshot of a user leaves only the executables that run at that time in memory.\<close>

lemma first_snapshot_baseline:
  assumes "map_of (zs_baselines s) owner = None" "hs_outcomes (av_host (zs_activity s)) = []"
    and "\<forall>p \<in> set ps. ra_score (pr_risk p) \<le> 100"
    and "apply_executable_baseline t now owner ps s = (r, qs, s')"
  shows "is_ok r" "map_of (zs_baselines s') owner \<noteq> None" "baseline_of s' owner = named_identities ps"
proof -
  let ?h = "av_host (zs_activity s)"
  let ?init = "get_metadata (baseline_key owner) (hs_db ?h) = Some ''1''"
  let ?qs = "map (\<lambda>p. p\<lparr>pr_is_new := ?init \<and> pr_identity p \<noteq> []
     \<and> pr_identity p \<notin> known_executable_identities owner (map pr_identity ps) (hs_db ?h)\<rparr>) ps"
  have "\<forall>p \<in> set ?qs. ra_score (pr_risk p) \<le> 100" using assms(3) by auto
  from record_executables_works [OF this] obtain d' where
    d': "record_executables owner (observed_executables now ?qs) (hs_db ?h) = (Inr (), d')" by metis
  have "is_ok r \<and> zs_baselines s' = AList.update owner
      \<lparr>eb_identities = map sx_identity (observed_executables now ?qs), eb_last_persisted = t\<rparr> (zs_baselines s)"
    using assms(1,4)
    by (auto simp: apply_executable_baseline_def apply_stored_baseline_def session_db_works assms(2) d' Let_def
        split: if_splits)
  then show "is_ok r" "map_of (zs_baselines s') owner \<noteq> None" "baseline_of s' owner = named_identities ps"
    by (auto simp: observed_executables_upd baseline_of_def update_conv named_identities_def)
qed

text \<open>
  The executables stored for a user are consulted for the first snapshot after a start of the
  service only: an executable that the database knows but that does not run at that moment is marked
  as new the next time it starts, although it was recorded before.
\<close>

theorem stored_executable_marked_new:
  assumes "map_of (zs_baselines s) owner = None" "hs_outcomes (av_host (zs_activity s)) = []"
    and "\<forall>p \<in> set ps. ra_score (pr_risk p) \<le> 100" "i \<noteq> []" "i \<notin> pr_identity ` set ps"
    and "i \<in> known_executable_identities owner [i] (hs_db (av_host (zs_activity s)))"
    and "apply_executable_baseline t now owner ps s = (r, ps', s1)"
    and "i \<in> pr_identity ` set qs" "apply_executable_baseline later now' owner qs s1 = (r2, qs', s2)"
  shows "\<exists>p \<in> set qs'. pr_identity p = i \<and> pr_is_new p"
proof -
  note first = first_snapshot_baseline [OF assms(1-3,7)]
  obtain b where b: "map_of (zs_baselines s1) owner = Some b" using first(2) by blast
  have "set (new_identities qs') = named_identities qs - named_identities ps"
    using cached_baseline_step(1) [OF b assms(9)] first(3) by simp
  moreover have "i \<in> named_identities qs - named_identities ps"
    using assms(4,5,8) by (auto simp: named_identities_def)
  ultimately have "i \<in> set (new_identities qs')" by simp
  then show ?thesis by (auto simp: new_identities_def)
qed

section \<open>Samples\<close>

definition sample_program :: "string \<Rightarrow> process_record" where
  "sample_program i =
     \<lparr>pr_pid = 7, pr_parent_pid = 1, pr_name = i @ ''.exe'', pr_path = [], pr_thread_count = 1,
      pr_working_set_bytes = 0, pr_cpu_percent = 0, pr_signature = Trusted, pr_accessible = True,
      pr_identity = i, pr_is_new = False, pr_risk = default_risk\<rparr>"

lemma identity_of_sample [simp]: "pr_identity (sample_program i) = i"
  by (simp add: sample_program_def)

definition sample_session :: session where
  "sample_session =
     \<lparr>zs_activity = \<lparr>av_host = \<lparr>hs_files = (\<lambda>_. None), hs_outcomes = [],
        hs_db = snd (record_executables ''u'' sample_batch db_empty)\<rparr>, av_mode = ''service'', av_etw = None,
        av_processes = [], av_network = [], av_baselined = False, av_monitors = [], av_reported = [],
        av_slots = 0, av_scans = [], av_uuids = 0\<rparr>,
      zs_baselines = [(''v'', \<lparr>eb_identities = [''b''], eb_last_persisted = 0\<rparr>)]\<rparr>"

text \<open>Two snapshots of a user whose baseline is in memory and one of a user whose baseline is not.\<close>

definition sample_run :: "(instant \<times> string \<times> string \<times> process_record list) list" where
  "sample_run = [(1, ''t'', ''v'', [sample_program ''a'', sample_program ''b'', sample_program ''a'']),
     (2, ''t'', ''u'', [sample_program ''c'']), (3, ''t'', ''v'', [sample_program ''a''])]"


theorem stored_executable_marked_new_witness:
  "\<exists>p \<in> set (fst (snd (apply_executable_baseline 2 ''t'' ''u'' [sample_program ''a'']
       (snd (snd (apply_executable_baseline 1 ''t'' ''u'' [sample_program ''c''] sample_session)))))).
     pr_identity p = ''a'' \<and> pr_is_new p"
proof -
  have k: "''a'' \<in> known_executable_identities ''u'' [''a''] (hs_db (av_host (zs_activity sample_session)))"
    by code_simp
  show ?thesis
    by (rule stored_executable_marked_new [where s = sample_session and ps = "[sample_program ''c'']"
          and qs = "[sample_program ''a'']" and t = 1 and now = "''t''" and owner = "''u''" and later = 2
          and now' = "''t''"])
      (auto simp: sample_program_def default_risk_def k prod_eq_iff, simp_all add: sample_session_def)
qed

section \<open>The service's own files\<close>

lemma get_set_metadata: "get_metadata k (set_metadata k1 v d) = (if k = k1 then Some v else get_metadata k d)"
  by (simp add: get_metadata_def set_metadata_def update_conv)

lemma get_metadata_record_event: "get_metadata k (snd (record_event owner e d)) = get_metadata k d"
  by (simp add: record_event_def insert_timeline_def get_metadata_def Let_def split: prod.splits)

lemma db_store_cases:
  obtains (fails) e t where "db_call (\<lambda>d. (Inr a, f d)) s = (Inl e, t)" "hs_db t = hs_db s"
  | (works) t where "db_call (\<lambda>d. (Inr a, f d)) s = (Inr a, t)" "hs_db t = f (hs_db s)"
proof (cases "take_outcome s")
  case (Pair r t)
  from take_outcome_keeps [OF Pair] Pair show thesis
    by (cases r) (auto simp: db_call_def intro: fails works)
qed

definition pinned :: "integrity_world \<Rightarrow> host \<Rightarrow> string \<Rightarrow> bool" where
  "pinned w s target \<longleftrightarrow>
     (\<exists>h. sha256_path w target = Inr h \<and> get_metadata (integrity_key w target) (hs_db s) = Some h)"

definition keeps_metadata :: "host \<Rightarrow> host \<Rightarrow> bool" where
  "keeps_metadata s t \<longleftrightarrow>
     (\<forall>k v. get_metadata k (hs_db s) = Some v \<longrightarrow> get_metadata k (hs_db t) = Some v)"

lemma keeps_metadata_simps:
  "hs_db s = hs_db t \<Longrightarrow> keeps_metadata s t"
  "keeps_metadata s t \<Longrightarrow> keeps_metadata t u \<Longrightarrow> keeps_metadata s u"
  by (auto simp: keeps_metadata_def)

lemma pinned_keeps:
  "keeps_metadata s t \<Longrightarrow> get_metadata (integrity_key w x) (hs_db s) \<noteq> None \<Longrightarrow> pinned w t x \<longleftrightarrow> pinned w s x"
  by (auto simp: pinned_def keeps_metadata_def)

lemma verify_targets_effect:
  "verify_targets w ts n changed s = (r, t) \<Longrightarrow>
     keeps_metadata s t \<and> (\<forall>m c. r = Inr (m, c) \<longrightarrow>
       (\<exists>more. c = changed @ more \<and> (more = [] \<longleftrightarrow> (\<forall>x \<in> set ts. pinned w t x))))"
proof (induction ts arbitrary: n changed s)
  case Nil
  then show ?case by (auto simp: keeps_metadata_simps)
next
  case (Cons x ts)
  show ?case
  proof (cases "sha256_path w x")
    case (Inl e)
    with Cons.prems show ?thesis by (auto simp: keeps_metadata_simps)
  next
    case actual: (Inr actual)
    show ?thesis
    proof (cases rule: db_read_cases [of "get_metadata (integrity_key w x)" s])
      case (fails e u)
      with Cons.prems actual show ?thesis
        by (auto simp: run_then_def map_fail_def intro: keeps_metadata_simps)
    next
      case (works u)
      have su: "keeps_metadata s u" using works by (simp add: keeps_metadata_simps)
      show ?thesis
      proof (cases "get_metadata (integrity_key w x) (hs_db s)")
        case (Some expected)
        have p: "pinned w t x \<longleftrightarrow> expected = actual" if "keeps_metadata u t"
          using pinned_keeps [OF that, of w x] Some works(3) actual by (auto simp: pinned_def)
        show ?thesis
        proof (cases "expected = actual")
          case True
          with Cons.prems actual works Some have "verify_targets w ts (Suc n) changed u = (r, t)"
            by (simp add: run_then_def map_fail_def)
          from Cons.IH [OF this] p True su show ?thesis by (auto intro: keeps_metadata_simps)
        next
          case False
          with Cons.prems actual works Some
          have "verify_targets w ts n (changed @ [integrity_change x expected actual]) u = (r, t)"
            by (simp add: run_then_def map_fail_def)
          from Cons.IH [OF this] p False su show ?thesis by (auto intro: keeps_metadata_simps)
        qed
      next
        case None
        show ?thesis
        proof (cases rule: db_store_cases [of "()" "set_metadata (integrity_key w x) actual" u])
          case (fails e v)
          with Cons.prems actual works None show ?thesis
            by (auto simp: run_then_def map_fail_def intro: keeps_metadata_simps)
        next
          case stored: (works v)
          have sv: "keeps_metadata s v"
            using None works(3) stored(2) by (auto simp: keeps_metadata_def get_set_metadata)
          have "verify_targets w ts (Suc n) changed v = (r, t)"
            using Cons.prems actual works None stored(1) by (simp add: run_then_def map_fail_def)
          note ih = Cons.IH [OF this]
          have "pinned w v x" using actual stored(2) by (simp add: pinned_def get_set_metadata)
          then have "pinned w t x" using ih pinned_keeps [of v t w x] by (auto simp: pinned_def)
          with ih sv show ?thesis by (auto intro: keeps_metadata_simps)
        qed
      qed
    qed
  qed
qed

text \<open>
  C38. The hashes of the service's own files are pinned once: the check at the start never changes a
  metadata value that exists, whatever fails; it reports the files as verified exactly when every
  target's digest is the stored one afterwards; and when it reports a change, a critical
  self-integrity event was recorded with that report as its text.
\<close>

theorem integrity_hashes_pinned_once:
  assumes "verify_runtime_integrity w s = (r, t)" "iw_current_exe w = Inr service"
  shows "keeps_metadata s t
    \<and> (\<forall>note. r = Inr note \<longrightarrow>
        (cn_state note = Active \<longleftrightarrow> (\<forall>x \<in> set (integrity_targets w service). pinned w t x))
      \<and> (cn_state note \<noteq> Active \<longrightarrow>
          (\<exists>row \<in> snd ` set (lt_rows (db_events (hs_db t))).
             er_event row = integrity_event w service (cn_detail note) \<and> er_severity row = ''critical'')))"
proof -
  let ?ts = "integrity_targets w service"
  obtain q u where q: "verify_targets w ?ts 0 [] s = (q, u)" by fastforce
  note effect = verify_targets_effect [OF q]
  show ?thesis
  proof (cases q)
    case (Inl e)
    with assms q effect show ?thesis by (auto simp: verify_runtime_integrity_def run_then_def)
  next
    case (Inr nc)
    obtain n c where nc: "nc = (n, c)" by fastforce
    have c: "c = [] \<longleftrightarrow> (\<forall>x \<in> set ?ts. pinned w u x)" using effect Inr nc by auto
    let ?e = "integrity_event w service (join ''; '' c)"
    let ?store = "db_call (\<lambda>d. case record_event [] ?e d of (i, d) \<Rightarrow> (Inr i, d)) u"
    show ?thesis
    proof (cases "c = []")
      case True
      with assms q Inr nc have "t = u" "\<exists>d. r = Inr \<lparr>cn_source = ''self_integrity'', cn_state = Active, cn_detail = d\<rparr>"
        by (auto simp: verify_runtime_integrity_def run_then_def)
      with effect c True show ?thesis by auto
    next
      case False
      obtain r1 v where call: "?store = (r1, v)" by fastforce
      have same: "get_metadata k (hs_db v) = get_metadata k (hs_db u)" for k
        using db_call_laws(3) [of "\<lambda>d. case record_event [] ?e d of (i, d) \<Rightarrow> (Inr i, d)" u] call
        by (auto simp: case_prod_beta get_metadata_record_event)
      then have v: "keeps_metadata u v" by (simp add: keeps_metadata_def)
      have step: "(r, t) = run_then (map_fail storage_error_display (\<lambda>_. ?store))
          (\<lambda>_ s. (Inr \<lparr>cn_source = ''self_integrity'', cn_state = Limited, cn_detail = join ''; '' c\<rparr>, s)) u"
        using assms q Inr nc False by (simp add: verify_runtime_integrity_def run_then_def map_fail_def Let_def)
      show ?thesis
      proof (cases r1)
        case (Inl e)
        with step call v effect show ?thesis
          by (auto simp: run_then_def map_fail_def intro: keeps_metadata_simps)
      next
        case (Inr i)
        with step call have rt: "t = v"
          "r = Inr \<lparr>cn_source = ''self_integrity'', cn_state = Limited, cn_detail = join ''; '' c\<rparr>"
          by (auto simp: run_then_def map_fail_def)
        have keep: "keeps_metadata s t" using effect v rt by (auto intro: keeps_metadata_simps)
        have "hs_db v = snd (record_event [] ?e (hs_db u))"
          using db_call_laws(2) [of _ u i v] call Inr by (fastforce split: prod.splits)
        then have row: "\<lparr>er_owner = [], er_severity = ''critical'', er_event = ?e\<rparr> \<in> snd ` set (lt_rows (db_events (hs_db t)))"
          by (simp add: rt record_event_def insert_timeline_def log_insert_def Let_def integrity_event_def
              split: prod.splits)
        have "\<not> (\<forall>x \<in> set ?ts. pinned w t x)" using c False same rt by (simp add: pinned_def)
        with keep row rt show ?thesis by force
      qed
    qed
  qed
qed

definition sample_integrity_world :: "bytes \<Rightarrow> integrity_world" where
  "sample_integrity_world content =
     \<lparr>iw_version = ''0.7.0'', iw_current_exe = Inr ''s.exe'', iw_is_file = (\<lambda>_. False),
      iw_read = (\<lambda>_. Some [CopyBytes content]), iw_sha256 = (\<lambda>b. b), iw_process_id = 4,
      iw_timestamp = ''t''\<rparr>"

theorem integrity_hashes_pinned_once_witness:
  "cn_state (projr (fst (verify_runtime_integrity (sample_integrity_world ''b'')
     (snd (verify_runtime_integrity (sample_integrity_world ''a'') (av_host (zs_activity sample_session))))))) \<noteq> Active"
proof -
  let ?s = "snd (verify_runtime_integrity (sample_integrity_world ''a'') (av_host (zs_activity sample_session)))"
  let ?r = "verify_runtime_integrity (sample_integrity_world ''b'') ?s"
  have ok: "is_ok (fst ?r)" "get_metadata ''integrity:0.7.0:s.exe'' (hs_db ?s) = Some ''a''" by code_simp+
  have k: "integrity_targets (sample_integrity_world ''b'') ''s.exe'' = [''s.exe'']"
    "integrity_key (sample_integrity_world ''b'') ''s.exe'' = ''integrity:0.7.0:s.exe''" by code_simp+
  have d: "sha256_path (sample_integrity_world ''b'') ''s.exe'' = Inr ''b''" by code_simp
  have e: "?r = (fst ?r, snd ?r)" "iw_current_exe (sample_integrity_world ''b'') = Inr ''s.exe''"
    by (simp_all add: sample_integrity_world_def)
  from ok(1) obtain x where x: "fst ?r = Inr x" by (auto simp: is_ok_iff)
  note main = integrity_hashes_pinned_once [OF e]
  have "get_metadata ''integrity:0.7.0:s.exe'' (hs_db (snd ?r)) = Some ''a''"
    using main ok(2) by (simp add: keeps_metadata_def)
  then have "\<not> pinned (sample_integrity_world ''b'') (snd ?r) ''s.exe''"
    by (simp add: pinned_def d k)
  with main x k show ?thesis by simp
qed

end
