(* ===== verification/OG_Service.thy ===== *)
theory OG_Service
  imports OG_Ipc OG_Content OG_Jobs OG_Response OG_Policy OG_Snapshot OG_Persistence
begin

text \<open>
  The requests of a client (\<^verbatim>\<open>handle_request\<close> and \<^verbatim>\<open>serve_connection\<close> in
  \<^verbatim>\<open>openguard-service/src/main.rs\<close>): one service state over the components, the dispatch of a request
  to them, and the exchange of one frame each way.

  The components were modelled with a host of their own; the service has one host, which every
  component works on in turn.
\<close>

section \<open>The state of the service\<close>

record service =
  ms_host :: host
  ms_session :: session
  ms_content :: content_service
  ms_jobs :: job_service
  ms_responder :: responder
  ms_integrity :: coverage_note

definition on_host :: "(host \<Rightarrow> 'r \<times> host) \<Rightarrow> service \<Rightarrow> 'r \<times> service" where
  "on_host f s = (case f (ms_host s) of (r, h) \<Rightarrow> (r, s\<lparr>ms_host := h\<rparr>))"

definition on_session :: "(session \<Rightarrow> 'r \<times> session) \<Rightarrow> service \<Rightarrow> 'r \<times> service" where
  "on_session f s =
     (let z = ms_session s in
      case f (z\<lparr>zs_activity := zs_activity z\<lparr>av_host := ms_host s\<rparr>\<rparr>) of
        (r, z) \<Rightarrow> (r, s\<lparr>ms_session := z, ms_host := av_host (zs_activity z)\<rparr>))"

definition on_content :: "(content_service \<Rightarrow> 'r \<times> content_service) \<Rightarrow> service \<Rightarrow> 'r \<times> service" where
  "on_content f s =
     (case f (ms_content s\<lparr>sv_host := ms_host s\<rparr>) of
        (r, c) \<Rightarrow> (r, s\<lparr>ms_content := c, ms_host := sv_host c\<rparr>))"

definition on_jobs :: "(job_service \<Rightarrow> 'r \<times> job_service) \<Rightarrow> service \<Rightarrow> 'r \<times> service" where
  "on_jobs f s =
     (case f (ms_jobs s\<lparr>js_host := ms_host s\<rparr>) of
        (r, j) \<Rightarrow> (r, s\<lparr>ms_jobs := j, ms_host := js_host j\<rparr>))"

definition on_responder :: "(responder \<Rightarrow> 'r \<times> responder) \<Rightarrow> service \<Rightarrow> 'r \<times> service" where
  "on_responder f s =
     (let p = ms_responder s in
      case f (p\<lparr>rp_os := rp_os p\<lparr>os_host := ms_host s\<rparr>\<rparr>) of
        (r, p) \<Rightarrow> (r, s\<lparr>ms_responder := p, ms_host := os_host (rp_os p)\<rparr>))"

section \<open>The world of a request\<close>

text \<open>
  The worlds of the components, the known folders of the client, the resolution of paths as the
  client and as the service, the time, and the fuel for directory enumeration and child processes.
\<close>

record request_world =
  mw_version :: string
  mw_snapshot :: snapshot_world
  mw_response :: response_world
  mw_persistence :: persistence_world
  mw_update :: update_world
  mw_feed :: "bytes \<Rightarrow> string + reputation_document"
  mw_folders :: known_folders
  mw_local_app_data :: "string option"
  mw_roaming_app_data :: "string option"
  mw_exists :: "string \<Rightarrow> bool"
  mw_tree :: file_tree
  mw_scan_id :: string
  mw_as_client :: "string \<Rightarrow> string + string"
  mw_as_service :: "string \<Rightarrow> string option"
  mw_now :: string
  mw_uptime :: u64
  mw_fuel :: nat

section \<open>Handlers\<close>

text \<open>\<^verbatim>\<open>map(..)\<close> on the result of a stateful call.\<close>

definition answer :: "('a \<Rightarrow> response_data) \<Rightarrow> (api_error + 'a) \<times> service \<Rightarrow> (api_error + response_data) \<times> service" where
  "answer f x = (case x of (r, s) \<Rightarrow> (case r of Inl e \<Rightarrow> Inl e | Inr a \<Rightarrow> Inr (f a), s))"

definition retry_error :: "error_code \<Rightarrow> string \<Rightarrow> api_error" where
  "retry_error code message = \<lparr>ae_code = code, ae_message = message, ae_retryable = True\<rparr>"

text \<open>A query of the database; \<open>wrap\<close> makes the error of the answer from its text.\<close>

definition query ::
  "(storage_error \<Rightarrow> api_error) \<Rightarrow> (database \<Rightarrow> storage_error + 'a) \<Rightarrow> service \<Rightarrow> (api_error + 'a) \<times> service" where
  "query wrap f = map_fail wrap (on_host (db_call (\<lambda>d. (f d, d))))"

definition health :: "request_world \<Rightarrow> service \<Rightarrow> service_health" where
  "health w s =
     \<lparr>sh_version = mw_version w, sh_protocol = PROTOCOL_VERSION,
      sh_service_state = av_mode (zs_activity (ms_session s)), sh_database_state = ''ready'',
      sh_content_version = sv_version (ms_content s), sh_uptime_seconds = mw_uptime w,
      sh_coverage = health_coverage (xw_elevated (mw_snapshot w)) (av_etw (zs_activity (ms_session s)))
        (rp_cache (ms_responder s) \<noteq> []) (ms_integrity s) (xw_monitor (mw_snapshot w))\<rparr>"

definition snapshot_handler :: "request_world \<Rightarrow> client_context \<Rightarrow> service \<Rightarrow> (api_error + system_snapshot) \<times> service" where
  "snapshot_handler w client =
     map_fail (retry_error LimitedCoverage) (on_session (collect_snapshot (mw_snapshot w) (cc_sid client)))"

text \<open>
  The timeline takes in what has happened since, with the service's scanner; \<open>None\<close> when that does
  not end within the fuel.
\<close>

definition take_in_activity :: "request_world \<Rightarrow> client_context \<Rightarrow> service \<Rightarrow> service option" where
  "take_in_activity w client s =
     (let z = ms_session s; aw = xw_activity (mw_snapshot w)\<lparr>aw_scanner := sv_scanner (ms_content s)\<rparr>;
          a = drain_etw_activity aw (zs_activity z\<lparr>av_host := ms_host s\<rparr>) in
      map_option (\<lambda>a. s\<lparr>ms_session := z\<lparr>zs_activity := a\<rparr>, ms_host := av_host a\<rparr>)
        (drain_file_activity (mw_fuel w) aw (cc_sid client) a))"

definition inventory_context :: "request_world \<Rightarrow> client_context \<Rightarrow> persistence_context" where
  "inventory_context w client =
     \<lparr>px_owner_sid = cc_sid client,
      px_local_app_data = (case mw_local_app_data w of None \<Rightarrow> [] | Some p \<Rightarrow> p),
      px_roaming_app_data = (case mw_roaming_app_data w of None \<Rightarrow> [] | Some p \<Rightarrow> p)\<rparr>"

text \<open>The world of the responder with the service's scanner and the inventory that it would collect.\<close>

definition responder_world ::
  "request_world \<Rightarrow> client_context \<Rightarrow> service \<Rightarrow> response_world option" where
  "responder_world w client s =
     map_option (\<lambda>inventory. mw_response w\<lparr>rw_scanner := sv_scanner (ms_content s), rw_inventory := inventory\<rparr>)
       (collect_persistence (mw_fuel w) (inventory_context w client) (mw_persistence w))"

definition quarantine_handler ::
  "request_world \<Rightarrow> client_context \<Rightarrow> scan_finding \<Rightarrow> service \<Rightarrow> (api_error + quarantine_record) \<times> service" where
  "quarantine_handler w client finding s =
     on_host (quarantine_finding (sv_scanner (ms_content s)) (rw_root (mw_response w))
       (rw_quarantine (mw_response w)) client finding) s"

definition start_handler ::
  "request_world \<Rightarrow> client_context \<Rightarrow> string \<Rightarrow> scan_profile option \<Rightarrow> service \<Rightarrow> (api_error + string) \<times> service" where
  "start_handler w client target profile =
     on_jobs (start_scan (mw_folders w) (mw_exists w) (mw_tree w) (mw_scan_id w) client target profile)"

section \<open>The dispatch\<close>

definition dispatch ::
  "request_world \<Rightarrow> client_context \<Rightarrow> request \<Rightarrow> service \<Rightarrow> ((api_error + response_data) \<times> service) option" where
  "dispatch w client body s =
     (case body of
        Ping \<Rightarrow> Some (Inr (Pong (mw_version w)), s)
      | GetHealth \<Rightarrow> Some (Inr (Health (health w s)), s)
      | GetSnapshot \<Rightarrow> Some (answer Snapshot (snapshot_handler w client s))
      | RecentEvents limit \<Rightarrow> Some (answer Events
          (query (\<lambda>e. retry_error Internal (storage_error_display e)) (recent_events (cc_sid client) limit) s))
      | GetTimeline before_id limit category process_id search \<Rightarrow>
          map_option (\<lambda>s. answer Timeline (query (storage_api_error ''Read investigation timeline'')
            (timeline (cc_sid client) before_id limit category process_id search) s)) (take_in_activity w client s)
      | GetPersistence refresh \<Rightarrow>
          map_option (\<lambda>rw. answer Persistence (on_responder (persistence_inventory_op rw client refresh) s))
            (responder_world w client s)
      | ExecuteResponse request \<Rightarrow>
          map_option (\<lambda>rw. answer ResponseAction (on_responder (execute_response rw client request) s))
            (responder_world w client s)
      | StartScan target profile \<Rightarrow> Some (answer ScanStarted (start_handler w client target profile s))
      | CancelScan scan_id \<Rightarrow>
          Some (answer (\<lambda>_. response_data.ScanCancelled scan_id) (on_jobs (cancel_scan scan_id (cc_sid client)) s))
      | GetScan scan_id \<Rightarrow> Some (answer ScanStatus (scan_status scan_id (cc_sid client) (ms_jobs s), s))
      | Quarantine finding \<Rightarrow> Some (answer QuarantineChanged (quarantine_handler w client finding s))
      | ListQuarantine limit \<Rightarrow> Some (answer Quarantines
          (query (\<lambda>e. retry_error Internal (''Read quarantine records: '' @ storage_error_display e))
            (\<lambda>d. Inr (list_quarantines (cc_sid client) limit d)) s))
      | RestoreQuarantine quarantine_id destination \<Rightarrow> Some (answer QuarantineChanged
          (on_host (restore_quarantine (rw_quarantine (mw_response w)) client quarantine_id destination) s))
      | GetContentStatus \<Rightarrow> Some (answer ContentStatus (on_content content_status_of s))
      | InstallContentUpdate \<Rightarrow>
          Some (answer ContentStatus (on_content (install_content_update (mw_update w) (mw_feed w)) s))
      | RollbackContentUpdate \<Rightarrow>
          Some (answer ContentStatus (on_content (rollback_content_update (mw_update w) (mw_feed w)) s))
      | ListExclusions \<Rightarrow> Some (answer Exclusions
          (query (storage_api_error ''Read exclusions'') (\<lambda>d. Inr (list_exclusions (cc_sid client) d)) s))
      | request.AddExclusion path recursive \<Rightarrow> Some (answer (\<lambda>_. PolicyChanged)
          (on_host (policy_add_exclusion (mw_as_client w) (mw_as_service w) (mw_now w) client path recursive) s))
      | request.RemoveExclusion path \<Rightarrow> Some (answer (\<lambda>_. PolicyChanged)
          (on_host (policy_remove_exclusion (mw_as_service w) client path) s))
      | ListAllowedHashes \<Rightarrow> Some (answer AllowedHashes
          (query (storage_api_error ''Read allowed hashes'') (\<lambda>d. Inr (list_allowed_hashes (cc_sid client) d)) s))
      | request.AllowHash sha256 label \<Rightarrow> Some (answer (\<lambda>_. PolicyChanged)
          (on_host (policy_allow_hash (mw_now w) client sha256 label) s))
      | RemoveAllowedHash sha256 \<Rightarrow> Some (answer (\<lambda>_. PolicyChanged)
          (on_host (policy_remove_allowed_hash client sha256) s)))"

definition handle_request ::
  "request_world \<Rightarrow> client_context \<Rightarrow> request_envelope \<Rightarrow> service \<Rightarrow> (response_envelope \<times> service) option" where
  "handle_request w client request s =
     map_option (\<lambda>(result, s).
       (case result of
          Inr data \<Rightarrow> response_success (rqe_request_id request) data
        | Inl e \<Rightarrow> response_error (rqe_request_id request) e, s))
       (dispatch w client (rqe_body request) s)"

section \<open>One connection\<close>

definition frame_error_display :: "frame_error \<Rightarrow> string" where
  "frame_error_display e = (case e of
     FrameIo \<Rightarrow> ''I/O error: '' | FrameJson \<Rightarrow> ''JSON error: ''
   | InvalidSize actual maximum \<Rightarrow> ''frame size '' @ show_nat actual @ '' is outside the allowed range 1..=''
       @ show_nat maximum
   | UnsupportedVersion actual expected \<Rightarrow> ''unsupported protocol version '' @ show_nat (unat actual)
       @ ''; expected '' @ show_nat (unat expected)
   | InvalidRequestId \<Rightarrow> ''request identifier must be 1..=64 visible ASCII letters, digits, ''
       @ [CHR 0x27] @ ''-'' @ [CHR 0x27] @ '' or '' @ [CHR 0x27] @ ''_'' @ [CHR 0x27])"

definition respond ::
  "request_world \<Rightarrow> client_context \<Rightarrow> request_envelope \<Rightarrow> service \<Rightarrow> (response_envelope \<times> service) option" where
  "respond w client request s =
     (case validate_request request of
        Inr _ \<Rightarrow> handle_request w client request s
      | Inl e \<Rightarrow> Some (response_error (rqe_request_id request)
          \<lparr>ae_code = InvalidRequest, ae_message = frame_error_display e, ae_retryable = False\<rparr>, s))"

text \<open>
  The exchange over a connected pipe: \<open>input\<close> is what the client sends, \<open>client\<close> what the pipe says
  about it, \<open>output\<close> what the client still accepts.  An error closes the connection without an answer.
\<close>

definition serve_connection ::
  "(bytes \<Rightarrow> (request_envelope \<times> bytes) option) \<Rightarrow> (response_envelope \<Rightarrow> bytes option) \<Rightarrow> request_world
   \<Rightarrow> string + client_context \<Rightarrow> bytes \<Rightarrow> sink \<Rightarrow> service \<Rightarrow> ((string + unit) \<times> sink \<times> service) option" where
  "serve_connection de ser w client input output s =
     (case read_frame de input of
        Inl _ \<Rightarrow> Some (Inl ''read request frame'', output, s)
      | Inr (request, _) \<Rightarrow>
          (case client of
             Inl _ \<Rightarrow> Some (Inl ''authenticate named-pipe client'', output, s)
           | Inr client \<Rightarrow>
               map_option (\<lambda>(response, s).
                 (case write_frame ser output response of
                    (output, Inl _) \<Rightarrow> (Inl ''write response frame'', output, s)
                  | (output, Inr _) \<Rightarrow> (Inr (), output, s))) (respond w client request s)))"

text \<open>The loop over connections: each with its world, and whether a stop was requested by its end.\<close>

type_synonym connection = "request_world \<times> (string + client_context) \<times> bytes \<times> sink \<times> bool"

fun run_pipe_loop ::
  "(bytes \<Rightarrow> (request_envelope \<times> bytes) option) \<Rightarrow> (response_envelope \<Rightarrow> bytes option) \<Rightarrow> bool
   \<Rightarrow> connection list \<Rightarrow> service \<Rightarrow> service option" where
  "run_pipe_loop de ser once [] s = Some s"
| "run_pipe_loop de ser once ((w, client, input, output, stop) # rest) s =
     (case serve_connection de ser w client input output s of
        None \<Rightarrow> None
      | Some (_, _, s) \<Rightarrow> if once \<or> stop then Some s else run_pipe_loop de ser once rest s)"

section \<open>Start\<close>

definition empty_activity :: "string \<Rightarrow> etw_monitor option \<Rightarrow> host \<Rightarrow> activity" where
  "empty_activity mode etw h =
     \<lparr>av_host = h, av_mode = mode, av_etw = etw, av_processes = [], av_network = [], av_baselined = False,
      av_monitors = [], av_reported = [], av_slots = 0, av_scans = [], av_uuids = 0\<rparr>"

text \<open>
  \<^verbatim>\<open>create_state\<close> over the opened database: the files of the service are checked, the rules of
  temporary blocks recovered, the version store initialised, the content chosen and the protection
  monitor started.  The bundled content is compiled whether or not it is used.
\<close>

definition create_state ::
  "request_world \<Rightarrow> integrity_world \<Rightarrow> string \<Rightarrow> etw_monitor option \<Rightarrow> string + store
   \<Rightarrow> string + file_scanner \<times> reputation_feed \<Rightarrow> os \<Rightarrow> (string + service) \<times> host" where
  "create_state w iw mode etw opened bundled os0 =
     (let idle = \<lparr>rp_os = os0, rp_cache = [], rp_expiry = []\<rparr> in
      case verify_runtime_integrity iw (os_host os0) of
        (Inl e, h) \<Rightarrow> (Inl e, h)
      | (Inr integrity, h) \<Rightarrow>
          (case recover_temporary_firewall_rules (mw_response w) (idle\<lparr>rp_os := os0\<lparr>os_host := h\<rparr>\<rparr>) of
             (Inl e, p) \<Rightarrow> (Inl (storage_error_display e), os_host (rp_os p))
           | (Inr _, p) \<Rightarrow>
               run_then (\<lambda>h. (opened, h)) (\<lambda>st.
               run_then (map_fail storage_error_display
                   (db_call (\<lambda>d. (Inr (get_metadata ''active_content_version'' d), d)))) (\<lambda>_.
               run_then (\<lambda>h. (bundled, h)) (\<lambda>bundle.
               run_then (map_fail (\<lambda>_. ''start background protection monitor'') plain_call) (\<lambda>_ h.
                 (Inr \<lparr>ms_host = h, ms_session = \<lparr>zs_activity = empty_activity mode etw h, zs_baselines = []\<rparr>,
                    ms_content = start_content (mw_update w) (mw_feed w) bundle st h,
                    ms_jobs = \<lparr>js_host = h, js_jobs = [], js_workers = []\<rparr>, ms_responder = p,
                    ms_integrity = integrity\<rparr>, h))))) (os_host (rp_os p))))"

end
