(* ===== verification/OG_Keeps.thy ===== *)
theory OG_Keeps
  imports OG_Service
begin

text \<open>
  What the handlers of the service keep: a predicate on stateful operations that composes along
  their definitions, and the interface of an observation of the database that the statements of one
  user do not change.  Every handler keeps every such observation; the properties of the whole
  service are instances of it.
\<close>

section \<open>Operations that keep an observation\<close>

definition keeps :: "('s \<Rightarrow> 'v) \<Rightarrow> ('s \<Rightarrow> 'r \<times> 's) \<Rightarrow> bool" where
  "keeps F m \<longleftrightarrow> (\<forall>s. F (snd (m s)) = F s)"

named_theorems keeping \<open>operations that keep an observation\<close>

lemma keepsI: "(\<And>s. F (snd (m s)) = F s) \<Longrightarrow> keeps F m"
  by (simp add: keeps_def)

lemma keepsD: "keeps F m \<Longrightarrow> F (snd (m s)) = F s"
  by (simp add: keeps_def)

lemma keepsE: "keeps F m \<Longrightarrow> m s = (r, s') \<Longrightarrow> F s' = F s"
  by (metis keepsD snd_conv)

lemma keeps_run [keeping]: "keeps F m \<Longrightarrow> (\<And>a. keeps F (f a)) \<Longrightarrow> keeps F (run_then m f)"
  unfolding keeps_def by (auto simp: run_then_def split: prod.splits sum.splits) (metis snd_conv)+

lemma keeps_fail [keeping]: "keeps F m \<Longrightarrow> keeps F (map_fail g m)"
  unfolding keeps_def by (auto simp: map_fail_def split: prod.splits) (metis snd_conv)

lemma keeps_pure [keeping]: "keeps F (\<lambda>s. (r s, s))"
  by (simp add: keeps_def)

lemma keeps_Pair [keeping]: "keeps F (Pair r)"
  by (simp add: keeps_def)

lemma keeps_if [keeping]: "keeps F m \<Longrightarrow> keeps F n \<Longrightarrow> keeps F (if b then m else n)"
  by simp

text \<open>A branch on the result of an earlier call.\<close>

lemma keeps_handle:
  assumes "keeps F m" "\<And>e. keeps F (g e)" "\<And>a. keeps F (f a)"
  shows "keeps F (\<lambda>s. case m s of (Inl e, s') \<Rightarrow> g e s' | (Inr a, s') \<Rightarrow> f a s')"
  using assms unfolding keeps_def by (auto split: prod.splits sum.splits) (metis snd_conv)+

lemma keeps_ignoring: "keeps F m \<Longrightarrow> F (ignoring m s) = F s"
  by (simp add: keeps_def ignoring_def)

lemma keeps_fold: "(\<And>x s. F (f x s) = F s) \<Longrightarrow> F (fold f xs s) = F s"
  by (induction xs arbitrary: s) simp_all

lemma keeps_if_state: "keeps F m \<Longrightarrow> keeps F n \<Longrightarrow> keeps F (\<lambda>s. if b then m s else n s)"
  by (cases b) simp_all

lemma keeps_prod: "(\<And>x y. keeps F (f x y)) \<Longrightarrow> keeps F (\<lambda>s. (case p of (x, y) \<Rightarrow> f x y) s)"
  "(\<And>x y. keeps F (f x y)) \<Longrightarrow> keeps F (\<lambda>s. case p of (x, y) \<Rightarrow> f x y s)"
  by (cases p; simp)+

lemma keeps_state: "(\<And>s. F (g s) = F s) \<Longrightarrow> keeps F (\<lambda>s. (r, g s))"
  by (simp add: keeps_def)

section \<open>Operations that leave the database alone\<close>

definition os_db :: "os \<Rightarrow> database" where "os_db s = hs_db (os_host s)"

lemma keeps_plain_call [keeping]: "keeps (\<lambda>h. v (hs_db h)) plain_call"
  by (simp add: keeps_def plain_call_laws)

lemma keeps_files [keeping]:
  "keeps (\<lambda>h. v (hs_db h)) (create_new p)" "keeps (\<lambda>h. v (hs_db h)) (write_file p bs)"
  "keeps (\<lambda>h. v (hs_db h)) (open_file p)" "keeps (\<lambda>h. v (hs_db h)) (remove_file p)"
  using create_new_laws(1) [of p] write_file_laws(1) [of p] remove_file_laws(1) [of p] open_file_laws(2) [of p]
  by (simp_all add: keeps_def besides_iff)

lemma keeps_copy [keeping]: "keeps (\<lambda>h. v (hs_db h)) (hash_copy (write_file p) steps digest)"
  using file_writer.copy_keeps [of p steps digest] by (simp add: keeps_def besides_iff)

lemma keeps_impersonation [keeping]:
  "keeps (\<lambda>h. v (hs_db h)) m \<Longrightarrow> keeps (\<lambda>h. v (hs_db h)) (with_client_impersonation client m)"
proof -
  assume m: "keeps (\<lambda>h. v (hs_db h)) m"
  have "keeps (\<lambda>h. v (hs_db h)) (run_then (map_fail (\<lambda>e. ''impersonate authenticated client: '' @ e) plain_call) (\<lambda>_. m))"
    by (intro keeping m)
  with m show ?thesis by (auto simp: keeps_def with_client_impersonation_def)
qed

lemma os_db_image: "keeps os_db (process_image_path pid)"
  by (simp add: keeps_def os_db_def process_image_path_def split: list.split)

lemma os_db_perform: "keeps os_db (perform action c)"
  by (auto simp: keeps_def os_db_def perform_def take_outcome_keeps split: prod.splits outcome.splits)

lemma os_db_open: "keeps os_db (os_open action)"
  using plain_call_laws(2) by (auto simp: keeps_def os_db_def os_open_def split: prod.splits) (metis snd_conv)

lemmas os_db_basic = os_db_image os_db_perform os_db_open

lemma os_db_terminate: "keeps os_db (terminate pid)"
  unfolding terminate_def by (intro keeping os_db_basic)

lemma os_db_each: "keeps os_db (control_each suspend ts)"
proof (induction ts)
  case Nil
  show ?case by (simp add: keeps_def)
next
  case (Cons t ts)
  let ?step = "perform [] (if suspend then CallSuspend t else CallResume t)"
  show ?case
  proof (rule keepsI)
    fix s
    obtain r u where p: "?step s = (r, u)" by fastforce
    have "os_db u = os_db s" using keepsE [OF os_db_perform p] .
    with p keepsD [OF Cons, of u] show "os_db (snd (control_each suspend (t # ts) s)) = os_db s"
      by (cases r) (simp_all add: case_prod_beta)
  qed
qed

lemma os_db_threads: "keeps os_db (control_threads w pid suspend)"
  using keepsE [OF os_db_each] by (auto simp: keeps_def control_threads_def split: sum.splits prod.splits)

lemma os_db_control: "keeps os_db (control_process w action pid expected)"
  unfolding control_process_def by (intro keeping os_db_basic os_db_terminate os_db_threads)

lemma os_db_children: "keeps os_db (terminate_children w children acc)"
proof (rule keepsI)
  show "os_db (snd (terminate_children w children acc s)) = os_db s" for s
  proof (induction w children acc s rule: terminate_children.induct)
    case (2 w child children affected skipped s)
    then show ?case
      using keepsE [OF os_db_image [of child], of s] keepsE [OF os_db_control]
      by (auto split: prod.splits sum.splits) 
  qed simp
qed

lemma os_db_tree: "keeps os_db (terminate_process_tree w pid expected)"
proof -
  have walk: "keeps os_db (\<lambda>s. case terminate_children w xs acc s of (r, s) \<Rightarrow> f r s)"
    if "\<And>r. keeps os_db (f r)" for xs acc and f :: "_ \<Rightarrow> os \<Rightarrow> 'r \<times> os"
    using keepsE [OF os_db_children] keepsD [OF that] by (auto simp: keeps_def split: prod.splits)
  have "keeps os_db (\<lambda>s. if c then (r, s) else (case cw_processes w of Inl e \<Rightarrow> (g e, s) | Inr entries \<Rightarrow> h entries s))"
    if "\<And>e. keeps os_db (h e)" for c r g and h :: "_ \<Rightarrow> os \<Rightarrow> 'r \<times> os"
    using keepsD [OF that] by (auto simp: keeps_def split: sum.splits)
  note branch = this
  show ?thesis
    unfolding terminate_process_tree_def
    by (intro keeps_run keeps_Pair os_db_image os_db_control branch walk [unfolded case_prod_beta'] | simp only: case_prod_beta')+
qed

lemma os_db_block: "keeps os_db (block_remote_address w rule address pid expected)"
  unfolding block_remote_address_def by (intro keeping os_db_basic)

lemma os_db_unblock: "keeps os_db (remove_firewall_rule w rule)"
  unfolding remove_firewall_rule_def by (intro keeping os_db_basic)

lemma os_db_persistence: "keeps os_db (set_persistence_enabled w category location enabled previous)"
  unfolding set_persistence_enabled_def Let_def by (intro keeping os_db_basic)

section \<open>The interface of an observation\<close>

text \<open>
  An observation of the database that the statements made for one user, and the machine-wide records,
  do not change.
\<close>

locale database_observer =
  fixes owner :: string and view :: "database \<Rightarrow> 'v"
  assumes view_timeline: "o1 \<in> {owner, []} \<Longrightarrow> view (snd (record_timeline o1 e d)) = view d"
    and view_event: "view (snd (record_event owner e1 d)) = view d"
    and view_executables: "view (snd (record_executables owner xs d)) = view d"
    and view_baseline: "view (set_metadata (baseline_key owner) text d) = view d"
    and view_exclusion: "view (add_exclusion owner key x d) = view d"
    and view_unexclusion: "view (snd (remove_exclusion owner key d)) = view d"
    and view_hash: "view (db_allow_hash owner h d) = view d"
    and view_unhash: "view (snd (db_remove_allowed_hash owner sha d)) = view d"
    and view_quarantine: "view (snd (record_quarantine owner q path d)) = view d"
    and view_restored: "view (snd (mark_quarantine_restored owner i now p d)) = view d"
    and view_delete: "view (snd (delete_quarantine owner i d)) = view d"
    and view_rollback: "view (snd (record_response_rollback owner r d)) = view d"
    and view_unrollback: "view (snd (mark_response_restored owner i now d)) = view d"
    and view_inventory: "view (snd (sync_persistence_inventory iter owner items now d)) = view d"
begin

lemma keeps_db [keeping]: "(\<And>d. view (snd (f d)) = view d) \<Longrightarrow> keeps (\<lambda>h. view (hs_db h)) (db_call f)"
proof (rule keepsI)
  fix h
  assume "\<And>d. view (snd (f d)) = view d"
  then show "view (hs_db (snd (db_call f h))) = view (hs_db h)" using db_call_laws(3) [of f h] by auto
qed

lemma keeps_db_pair:
  "(\<And>d. view (snd (f d)) = view d) \<Longrightarrow> keeps (\<lambda>h. view (hs_db h)) (db_call (\<lambda>d. case f d of (a, d) \<Rightarrow> (g a, d)))"
  by (rule keeps_db) (simp add: case_prod_beta)

text \<open>Policies and queries.\<close>

lemma keeps_policies:
  assumes "cc_sid client = owner"
  shows "keeps (\<lambda>h. view (hs_db h)) (policy_add_exclusion as_client as_service now client path recursive)"
    "keeps (\<lambda>h. view (hs_db h)) (policy_remove_exclusion as_service client path)"
    "keeps (\<lambda>h. view (hs_db h)) (policy_allow_hash now client sha label)"
    "keeps (\<lambda>h. view (hs_db h)) (policy_remove_allowed_hash client sha)"
proof -
  have store: "keeps (\<lambda>h. view (hs_db h)) (policy_store operation f)" if "\<And>d. view (snd (f d)) = view d" for operation f
    unfolding policy_store_def by (intro keeping keeps_db_pair that)
  show "keeps (\<lambda>h. view (hs_db h)) (policy_add_exclusion as_client as_service now client path recursive)"
    unfolding policy_add_exclusion_def assms by (intro keeping store) (simp add: view_exclusion)
  show "keeps (\<lambda>h. view (hs_db h)) (policy_remove_exclusion as_service client path)"
    unfolding policy_remove_exclusion_def assms by (intro keeping store view_unexclusion)
  show "keeps (\<lambda>h. view (hs_db h)) (policy_remove_allowed_hash client sha)"
    unfolding policy_remove_allowed_hash_def assms by (intro keeping store view_unhash)
  have "keeps (\<lambda>h. view (hs_db h)) (policy_store ''Allow hash'' (\<lambda>d. ((), db_allow_hash owner x d)))" for x
    by (rule store) (simp add: view_hash)
  then show "keeps (\<lambda>h. view (hs_db h)) (policy_allow_hash now client sha label)"
    unfolding keeps_def by (simp add: policy_allow_hash_def assms Let_def)
qed

text \<open>Quarantine.\<close>

lemma keeps_rescan [keeping]: "keeps (\<lambda>h. view (hs_db h)) (rescan scanner w path)"
  by (simp add: keeps_def)

lemma keeps_verify: "keeps (\<lambda>h. view (hs_db h)) (verify_quarantine_candidate scanner w client finding)"
  by (simp add: keeps_def verify_keeps)

lemma keeps_payload: "keeps (\<lambda>h. view (hs_db h)) (write_quarantine_payload w client source q)"
  using payload_keeps [of q w client source] by (simp add: keeps_def besides_iff)

lemma keeps_commit:
  assumes "cc_sid client = owner"
  shows "keeps (\<lambda>h. view (hs_db h)) (commit_quarantine client r q)"
proof -
  have remove: "view (hs_db (ignoring (remove_file p) s)) = view (hs_db s)" for p s
    by (rule keeps_ignoring) (intro keeping)
  have undo: "view (hs_db (ignoring (db_call (\<lambda>d. case delete_quarantine owner i d of (b, d') \<Rightarrow> (Inr b, d'))) s))
      = view (hs_db s)" for i s
    by (rule keeps_ignoring) (intro keeps_db_pair view_delete)
  show ?thesis
    unfolding commit_quarantine_def [abs_def] assms
    by (intro keeping keeps_handle keeps_state view_quarantine) (simp_all add: remove undo)
qed

lemma keeps_quarantine_finding:
  assumes "cc_sid client = owner"
  shows "keeps (\<lambda>h. view (hs_db h)) (quarantine_finding scanner folder w client finding)"
proof -
  have remove: "view (hs_db (ignoring (remove_file p) s)) = view (hs_db s)" for p s
    by (rule keeps_ignoring) (intro keeping)
  have branch: "keeps (\<lambda>h. view (hs_db h)) (\<lambda>s. if c then (r, ignoring (remove_file p) s) else f s)"
    if "keeps (\<lambda>h. view (hs_db h)) f" for c r p and f :: "host \<Rightarrow> 'r \<times> host"
    using that by (simp add: keeps_def remove)
  show ?thesis
    unfolding quarantine_finding_def Let_def
    by (intro keeping branch keeps_verify keeps_payload keeps_commit assms)
qed

lemma keeps_restore_body: "keeps (\<lambda>h. view (hs_db h)) (restore_body w p bs)"
  unfolding restore_body_def by (intro keeping)

lemma keeps_restore_payload: "keeps (\<lambda>h. view (hs_db h)) (restore_quarantine_payload w client q p)"
proof -
  have branch: "keeps (\<lambda>h. view (hs_db h)) (\<lambda>s. if a then (r1, s) else if b then (r2, s) else f s)"
    if "keeps (\<lambda>h. view (hs_db h)) f" for a b r1 r2 and f :: "host \<Rightarrow> 'r \<times> host"
    using that by (simp add: keeps_def)
  show ?thesis
    unfolding restore_quarantine_payload_def Let_def by (intro keeping branch keeps_restore_body)
qed

lemma keeps_finish_restore:
  assumes "cc_sid client = owner"
  shows "keeps (\<lambda>h. view (hs_db h)) (finish_restore w client i stored p hash)"
proof -
  have remove: "view (hs_db (ignoring (remove_file p) s)) = view (hs_db s)" for p s
    by (rule keeps_ignoring) (intro keeping)
  have client_remove: "view (hs_db (ignoring (with_client_impersonation client (remove_file p)) s)) = view (hs_db s)" for p s
    by (rule keeps_ignoring) (intro keeping)
  have branch: "keeps (\<lambda>h. view (hs_db h)) (\<lambda>s. if c
      then (r, ignoring (with_client_impersonation client (remove_file p)) s) else f s)"
    if "keeps (\<lambda>h. view (hs_db h)) f" for c r p and f :: "host \<Rightarrow> 'r \<times> host"
    using that by (simp add: keeps_def client_remove)
  show ?thesis
    unfolding finish_restore_def [abs_def] assms
    by (intro keeping branch keeps_db_pair view_restored keeps_state remove)
qed

lemma keeps_restore_quarantine:
  assumes "cc_sid client = owner"
  shows "keeps (\<lambda>h. view (hs_db h)) (restore_quarantine w client i destination)"
proof -
  have body: "keeps (\<lambda>h. view (hs_db h)) (\<lambda>s. case found of None \<Rightarrow> (r1, s)
      | Some stored \<Rightarrow> if c stored then (r2, s) else f stored s)"
    if "\<And>stored. keeps (\<lambda>h. view (hs_db h)) (f stored)" for found r1 c r2 and f :: "_ \<Rightarrow> host \<Rightarrow> 'r \<times> host"
    using keepsD [OF that] by (auto simp: keeps_def split: option.splits)
  show ?thesis
    unfolding restore_quarantine_def Let_def
    by (intro keeping body keeps_db keeps_restore_payload keeps_finish_restore assms) simp
qed

text \<open>Responses.\<close>

abbreviation rp_view :: "responder \<Rightarrow> 'v" where
  "rp_view s \<equiv> view (os_db (rp_os s))"

lemma keeps_on_os: "keeps os_db f \<Longrightarrow> keeps rp_view (on_os f)"
  by (auto simp: keeps_def on_os_def split: prod.splits) (metis snd_conv)

lemma keeps_rp_host: "keeps (\<lambda>h. view (hs_db h)) f \<Longrightarrow> keeps rp_view (OG_Response.on_host f)"
  by (auto simp: keeps_def OG_Response.on_host_def on_os_def os_db_def split: prod.splits) (metis snd_conv)

lemma keeps_rp_store: "(\<And>d. view (snd (f d)) = view d) \<Longrightarrow> keeps rp_view (rp_store operation f)"
  unfolding rp_store_def by (intro keeping keeps_rp_host)

lemma keeps_rp_control: "keeps os_db f \<Longrightarrow> keeps rp_view (rp_control f)"
  unfolding rp_control_def by (intro keeping keeps_on_os)

lemma keeps_rp_require: "keeps rp_view (rp_require e v)"
  by (simp add: keeps_def rp_require_def)

lemmas keeps_rp = keeps_rp_store keeps_rp_control keeps_rp_require

lemma keeps_inventory:
  assumes "cc_sid client = owner"
  shows "keeps rp_view (persistence_inventory_op w client refresh)"
proof -
  have cached: "keeps rp_view (\<lambda>s. case c s of Some x \<Rightarrow> (Inr x, s) | None \<Rightarrow> f s)"
    if "keeps rp_view f" for c and f :: "responder \<Rightarrow> ('e + 'b) \<times> responder"
    using that by (simp add: keeps_def split: option.split)
  show ?thesis
    unfolding persistence_inventory_op_def [abs_def] Let_def assms
    by (intro keeping cached keeps_rp_store keeps_state) (simp_all add: case_prod_beta view_inventory)
qed

lemma keeps_schedule: "rp_view (schedule_firewall_expiry o1 i rule delay s) = rp_view s"
proof -
  have "keeps rp_view (OG_Response.on_host plain_call)" by (intro keeping keeps_rp_host)
  from keepsE [OF this, of s] show ?thesis
    by (auto simp: schedule_firewall_expiry_def split: prod.splits sum.splits)
qed

lemma keeps_actions:
  assumes "cc_sid client = owner"
  shows "keeps rp_view (execute_response_inner w client request)"
proof -
  have process: "keeps rp_view (process_action w request)"
    unfolding process_action_def by (intro keeping keeps_rp os_db_tree os_db_control)
  have quarantine: "keeps rp_view (quarantine_action w client request)"
    unfolding quarantine_action_def by (intro keeping keeps_rp_host keeps_quarantine_finding assms)
  have block: "keeps rp_view (block_action w client request)"
    unfolding block_action_def assms
    by (intro keeping keeps_rp os_db_block keeps_state view_rollback keeps_schedule)
  have active: "keeps rp_view (active_rollback client i action operation missing)" for i action operation missing
    unfolding active_rollback_def by (intro keeping keeps_rp) simp
  have complete: "keeps rp_view (complete_rollback w client operation r)" for operation r
    unfolding complete_rollback_def assms by (intro keeps_rp) (simp add: case_prod_beta view_unrollback)
  have unblock: "keeps rp_view (unblock_action w client request)"
    unfolding unblock_action_def by (intro keeping keeps_rp active complete os_db_unblock)
  have forget: "rp_view (forget_inventory client s) = rp_view s" for s
    by (simp add: forget_inventory_def)
  have disable: "keeps rp_view (disable_action w client request)"
    unfolding disable_action_def assms
    by (intro keeping keeps_rp keeps_inventory os_db_persistence keeps_state view_rollback forget assms) simp_all
  have restore: "keeps rp_view (restore_action w client request)"
    unfolding restore_action_def case_prod_beta
    by (intro keeping keeps_rp active complete os_db_persistence keeps_state forget)
  show ?thesis
    unfolding execute_response_inner_def
    by (cases "rq_action request") (simp_all add: process quarantine block unblock disable restore)
qed

lemma keeps_execute_response:
  assumes "cc_sid client = owner"
  shows "keeps rp_view (execute_response w client request)"
proof -
  have call: "view (snd (timeline_call owner e d)) = view d" for e d
    by (simp add: timeline_call_snd view_timeline)
  have audit: "rp_view (audit_response_failure w client request m s) = rp_view s" for m s
    unfolding audit_response_failure_def assms by (rule keeps_ignoring) (intro keeps_rp_host keeps_db call)
  have refuse: "keeps rp_view (refuse w client request e)" for e
    unfolding refuse_def [abs_def] by (intro keeps_state audit)
  show ?thesis
    unfolding execute_response_def [abs_def] assms
    by (intro keeping keeps_if_state keeps_handle refuse keeps_prod keeps_actions assms keeps_rp call)
qed

text \<open>Activity and snapshots.\<close>

abbreviation av_view :: "activity \<Rightarrow> 'v" where
  "av_view a \<equiv> view (hs_db (av_host a))"

lemma keeps_av_store: "(\<And>d. view (snd (f d)) = view d) \<Longrightarrow> av_view (av_store f a) = av_view a"
proof -
  assume f: "\<And>d. view (snd (f d)) = view d"
  have "keeps (\<lambda>h. view (hs_db h)) (db_call (\<lambda>d. case f d of (i, d) \<Rightarrow> (Inr i, d)))"
    by (intro keeps_db_pair f)
  from keeps_ignoring [OF this, of "av_host a"] show ?thesis by (simp add: av_store_def)
qed

lemma keeps_record_fresh: "o1 \<in> {owner, []} \<Longrightarrow> av_view (record_fresh w o1 event a) = av_view a"
  by (simp add: record_fresh_def keeps_av_store view_timeline)

lemma keeps_transitions: "av_view (record_snapshot_transitions w owner x a) = av_view a"
  by (simp add: record_snapshot_transitions_def keeps_fold [where F = av_view] keeps_record_fresh)

lemma keeps_drain_etw: "av_view (drain_etw_activity w a) = av_view a"
  by (auto simp: drain_etw_activity_def keeps_fold [where F = av_view] keeps_record_fresh split: option.splits prod.splits)

lemma keeps_schedule_scan: "av_view (schedule_realtime_scan w o1 p a) = av_view a"
  using plain_call_laws(2) [of "av_host a"]
  by (auto simp: schedule_realtime_scan_def Let_def split: option.splits prod.splits)

lemma keeps_drain_files: "drain_file_activity fuel w owner a = Some a' \<Longrightarrow> av_view a' = av_view a"
proof -
  have one: "av_view (record_file_activity w owner x a) = av_view a" for x a
    by (simp add: record_file_activity_def Let_def keeps_schedule_scan keeps_record_fresh)
  have store: "av_view (store_file_activity w owner x a) = av_view a" for x a
    by (simp add: store_file_activity_def Let_def keeps_av_store view_timeline keeps_fold [where F = av_view] one)
  have ensure: "av_view (ensure_monitor w owner a) = av_view a" for a
    by (auto simp: ensure_monitor_def split: option.splits sum.splits)
  show "drain_file_activity fuel w owner a = Some a' \<Longrightarrow> av_view a' = av_view a"
    by (auto simp: drain_file_activity_def Let_def store ensure split: if_splits option.splits)
qed

abbreviation zs_view :: "session \<Rightarrow> 'v" where
  "zs_view s \<equiv> av_view (zs_activity s)"

lemma keeps_session_db: "(\<And>d. view (snd (f d)) = view d) \<Longrightarrow> keeps zs_view (session_db f)"
proof -
  assume "\<And>d. view (snd (f d)) = view d"
  then have "keeps (\<lambda>h. view (hs_db h)) (db_call f)" by (rule keeps_db)
  then show ?thesis
    by (auto simp: keeps_def session_db_def split: prod.splits) (metis snd_conv)
qed

lemma keeps_baseline_step: "zs_view (snd (snd (apply_executable_baseline t now owner ps s))) = zs_view s"
proof -
  have read: "keeps zs_view (session_db (\<lambda>d. (Inr (f d), d)))" for f
    by (intro keeps_session_db) simp
  have learn: "keeps zs_view (session_db (record_executables owner xs))" for xs
    by (intro keeps_session_db view_executables)
  have initialise: "keeps zs_view (session_db (\<lambda>d. (Inr (), set_metadata (baseline_key owner) v d)))" for v
    by (intro keeps_session_db) (simp add: view_baseline)
  have cached: "zs_view (snd (snd (apply_cached_baseline t now owner b ps s))) = zs_view s" for b
    using keepsE [OF learn]
    by (auto simp: apply_cached_baseline_def Let_def split: prod.splits sum.splits)
  have stored: "zs_view (snd (snd (apply_stored_baseline t now owner ps s))) = zs_view s"
  proof -
    obtain r1 s1 where 1: "session_db (\<lambda>d. (Inr (get_metadata (baseline_key owner) d), d)) s = (r1, s1)" by fastforce
    obtain r2 s2 where 2: "session_db (\<lambda>d. (Inr (known_executable_identities owner (map pr_identity ps) d), d)) s1 = (r2, s2)"
      by fastforce
    have v: "zs_view s1 = zs_view s" "zs_view s2 = zs_view s"
      using keepsE [OF read 1] keepsE [OF read 2] by simp_all
    have third: "zs_view u = zs_view s" if "session_db (record_executables owner xs) s2 = (r, u)" for xs r u
      using keepsE [OF learn that] v by simp
    have fourth: "zs_view u' = zs_view s"
      if "session_db (record_executables owner xs) s2 = (r, u)"
        "session_db (\<lambda>d. (Inr (), set_metadata (baseline_key owner) x d)) u = (r', u')" for xs r u x r' u'
      using keepsE [OF initialise that(2)] third [OF that(1)] by simp
    show ?thesis
      using v by (auto simp: apply_stored_baseline_def 1 2 Let_def third fourth split: prod.splits sum.splits)
  qed
  show ?thesis by (simp add: apply_executable_baseline_def cached stored split: option.split)
qed

lemma keeps_reports: "av_view (report_snapshot owner now ps a) = av_view a"
proof -
  have one: "av_view (report_process owner key event p a) = av_view a" for key event p a
    by (simp add: report_process_def keeps_av_store view_event)
  show ?thesis by (simp add: report_snapshot_def keeps_fold [where F = av_view] one)
qed

lemma keeps_collect: "keeps zs_view (collect_snapshot w owner)"
proof (rule keepsI)
  fix s
  show "zs_view (snd (collect_snapshot w owner s)) = zs_view s"
  proof (cases "current_snapshot w")
    case (Inr x)
    let ?s = "s\<lparr>zs_activity := record_snapshot_transitions (xw_activity w) owner x (zs_activity s)\<rparr>"
    obtain r ps t where b: "apply_executable_baseline (xw_now w) (aw_timestamp (xw_activity w)) owner (sn_processes x) ?s = (r, ps, t)"
      by (metis prod_cases3)
    have "zs_view t = zs_view s"
      using keeps_baseline_step [of "xw_now w" "aw_timestamp (xw_activity w)" "sn_processes x" ?s] b
      by (simp add: keeps_transitions)
    with Inr b show ?thesis
      by (simp add: collect_snapshot_def Let_def keeps_reports split: prod.splits)
  qed (simp add: collect_snapshot_def)
qed

text \<open>Scan jobs.\<close>

lemma keeps_roots: "keeps (\<lambda>h. view (hs_db h)) (resolve_scan_roots k ex t client target profile)"
proof -
  have branch: "keeps (\<lambda>h. view (hs_db h)) (\<lambda>s. if c then (r, s) else f s)"
    if "keeps (\<lambda>h. view (hs_db h)) f" for c r and f :: "host \<Rightarrow> 'r \<times> host"
    using that by (simp add: keeps_def)
  show ?thesis
    unfolding resolve_scan_roots_def Let_def by (intro keeping branch)
qed

abbreviation js_view :: "job_service \<Rightarrow> 'v" where
  "js_view s \<equiv> view (hs_db (js_host s))"

lemma keeps_js_call: "keeps (\<lambda>h. view (hs_db h)) f \<Longrightarrow> keeps js_view (js_call f)"
  by (auto simp: keeps_def js_call_def split: prod.splits) (metis snd_conv)

lemma keeps_start_scan: "keeps js_view (start_scan k ex t i client target profile)"
proof -
  have spawn: "keeps js_view (spawn_scan client i roots)" for roots
    unfolding spawn_scan_def by (intro keeping keeps_js_call keeps_state) simp_all
  show ?thesis
    unfolding start_scan_def
    by (rule keeps_run, rule keeps_js_call [OF keeps_roots]) (simp add: keeps_def Let_def keepsD [OF spawn])
qed

lemma keeps_cancel: "keeps js_view (cancel_scan i o1)"
  by (auto simp: keeps_def cancel_scan_def split: option.splits sum.splits)

text \<open>The service.\<close>

abbreviation ms_view :: "service \<Rightarrow> 'v" where
  "ms_view s \<equiv> view (hs_db (ms_host s))"

lemma keeps_lifts:
  "keeps (\<lambda>h. view (hs_db h)) f1 \<Longrightarrow> keeps ms_view (on_host f1)"
  "keeps zs_view f2 \<Longrightarrow> keeps ms_view (on_session f2)"
  "keeps js_view f3 \<Longrightarrow> keeps ms_view (on_jobs f3)"
  "keeps rp_view f4 \<Longrightarrow> keeps ms_view (on_responder f4)"
proof -
  show "keeps (\<lambda>h. view (hs_db h)) f1 \<Longrightarrow> keeps ms_view (on_host f1)"
    by (simp add: keeps_def on_host_def case_prod_beta)
  show "keeps zs_view f2 \<Longrightarrow> keeps ms_view (on_session f2)"
    by (simp add: keeps_def on_session_def case_prod_beta Let_def)
  show "keeps js_view f3 \<Longrightarrow> keeps ms_view (on_jobs f3)"
    by (simp add: keeps_def on_jobs_def case_prod_beta)
  show "keeps rp_view f4 \<Longrightarrow> keeps ms_view (on_responder f4)"
    by (simp add: keeps_def on_responder_def os_db_def case_prod_beta Let_def)
qed

abbreviation sv_view :: "content_service \<Rightarrow> 'v" where
  "sv_view s \<equiv> view (hs_db (sv_host s))"

lemma keeps_sv_host: "keeps (\<lambda>h. view (hs_db h)) f \<Longrightarrow> keeps sv_view (OG_Content.on_host f)"
  by (simp add: keeps_def OG_Content.on_host_def case_prod_beta)

lemma keeps_on_content: "keeps sv_view f \<Longrightarrow> keeps ms_view (on_content f)"
  by (simp add: keeps_def on_content_def case_prod_beta)

lemma keeps_content_status: "keeps sv_view content_status_of"
  unfolding content_status_of_def read_metadata_def by (intro keeping keeps_sv_host keeps_db) simp

lemma keeps_query: "keeps ms_view (query wrap f)"
  unfolding query_def by (intro keeping keeps_lifts keeps_db) simp

lemma answered: "keeps ms_view m \<Longrightarrow> answer f (m s) = (r, s') \<Longrightarrow> ms_view s' = ms_view s"
  by (auto simp: answer_def split: prod.splits dest: keepsE)

lemma answer_now: "answer f (x, s) = (r, s') \<longleftrightarrow> (case x of Inl e \<Rightarrow> Inl e | Inr a \<Rightarrow> Inr (f a)) = r \<and> s = s'"
  by (simp add: answer_def)

lemma take_in_keeps:
  assumes "cc_sid client = owner" "take_in_activity w client s = Some s'"
  shows "ms_view s' = ms_view s"
  using assms(2)
  by (auto simp: take_in_activity_def Let_def keeps_drain_etw assms(1) dest!: keeps_drain_files)

lemma dispatch_keeps:
  assumes "cc_sid client = owner" "dispatch w client body s = Some (r, s')"
    and "body \<noteq> InstallContentUpdate" "body \<noteq> RollbackContentUpdate"
  shows "ms_view s' = ms_view s"
proof -
  note host = keeps_lifts(1) and session = keeps_lifts(2) and jobs = keeps_lifts(3) and responder = keeps_lifts(4)
  have snapshot: "keeps ms_view (snapshot_handler w client)"
    unfolding snapshot_handler_def assms(1) by (intro keeping session keeps_collect)
  have quarantine: "answer f (quarantine_handler w client finding s) = (r, s') \<Longrightarrow> ms_view s' = ms_view s" for f finding
    unfolding quarantine_handler_def by (rule answered, rule host, rule keeps_quarantine_finding [OF assms(1)])
  have start: "keeps ms_view (start_handler w client target profile)" for target profile
    unfolding start_handler_def by (intro jobs keeps_start_scan)
  note policies = keeps_policies [OF assms(1), THEN host, THEN answered]
  show ?thesis
  proof (cases body)
    case (GetTimeline before_id limit category process_id search)
    with assms(2) obtain t where t: "take_in_activity w client s = Some t"
      "answer Timeline (query (storage_api_error ''Read investigation timeline'')
         (timeline (cc_sid client) before_id limit category process_id search) t) = (r, s')"
      by (auto simp: dispatch_def)
    with answered [OF keeps_query t(2)] take_in_keeps [OF assms(1) t(1)] show ?thesis by simp
  next
    case (ExecuteResponse request)
    with assms(2) show ?thesis
      by (auto simp: dispatch_def dest: answered [OF responder [OF keeps_execute_response [OF assms(1)]]])
  next
    case (GetPersistence refresh)
    with assms(2) show ?thesis
      by (auto simp: dispatch_def dest: answered [OF responder [OF keeps_inventory [OF assms(1)]]])
  qed (insert assms(2-4), auto simp: dispatch_def answer_now dest: policies quarantine answered [OF snapshot] answered [OF start]
        answered [OF keeps_query] answered [OF jobs [OF keeps_cancel]] answered [OF host [OF keeps_restore_quarantine [OF assms(1)]]]
        answered [OF keeps_on_content [OF keeps_content_status]])
qed

end

text \<open>An observation that the activation of content does not change either.\<close>

locale activation_observer = database_observer +
  assumes view_activation: "view (activate_content_version version previous d) = view d"
begin

lemma keeps_after: "keeps F m \<Longrightarrow> (\<And>s. F (g s) = F s) \<Longrightarrow> keeps F (\<lambda>s. m (g s))"
  by (simp add: keeps_def)

lemma keeps_activation:
  "keeps sv_view (install_content_update u feed_json)" "keeps sv_view (rollback_content_update u feed_json)"
proof -
  have store: "keeps sv_view (on_store f)" for f
    by (simp add: keeps_def on_store_def case_prod_beta)
  have load: "keeps sv_view (load_version u feed_json a b v)" for a b v
    by (simp add: keeps_def load_version_def)
  have read: "keeps sv_view (read_metadata k)" for k
    unfolding read_metadata_def by (intro keeps_sv_host keeps_db) simp
  have commit: "keeps sv_view (commit_activation what v p)" for what v p
    unfolding commit_activation_def by (intro keeping keeps_sv_host keeps_db) (simp add: view_activation)
  have adopted: "keeps sv_view (\<lambda>s. content_status_of (adopt scanner feed v s))" for scanner feed v
    by (rule keeps_after [OF keeps_content_status]) (simp add: adopt_def)
  have activate: "keeps sv_view (run_then (load_version u feed_json a b v) (\<lambda>(scanner, feed) s.
      run_then (commit_activation what v (p s)) (\<lambda>_ s. content_status_of (adopt scanner feed v s)) s))" for a b v what p
  proof (rule keeps_run [OF load])
    fix x :: "file_scanner \<times> reputation_feed"
    obtain scanner feed where x: "x = (scanner, feed)" by fastforce
    have "keeps sv_view (run_then (commit_activation what v q) (\<lambda>_ s. content_status_of (adopt scanner feed v s)))" for q
      by (intro keeping commit adopted)
    then show "keeps sv_view (case x of (scanner, feed) \<Rightarrow> \<lambda>s.
        run_then (commit_activation what v (p s)) (\<lambda>_ s. content_status_of (adopt scanner feed v s)) s)"
      by (simp add: x keeps_def)
  qed
  have chosen: "keeps sv_view (\<lambda>s. if c s then content_status_of s else f s)" if "keeps sv_view f" for c f
    using that keeps_content_status by (simp add: keeps_def)
  show "keeps sv_view (install_content_update u feed_json)"
    unfolding install_content_update_def by (intro keeping store chosen activate)
  have "keeps sv_view (\<lambda>s. case found of None \<Rightarrow> (r, s) | Some v \<Rightarrow> f v s)" if "\<And>v. keeps sv_view (f v)" for found r f
    using that by (simp add: keeps_def split: option.split)
  note branch = this
  show "keeps sv_view (rollback_content_update u feed_json)"
    unfolding rollback_content_update_def by (intro keeping read branch activate)
qed

lemma dispatch_keeps_all:
  assumes "cc_sid client = owner" "dispatch w client body s = Some (r, s')"
  shows "ms_view s' = ms_view s"
proof (cases "body = InstallContentUpdate \<or> body = RollbackContentUpdate")
  case True
  with assms(2) keeps_activation [THEN keeps_on_content, THEN answered] show ?thesis by (auto simp: dispatch_def)
next
  case False
  with dispatch_keeps [OF assms] show ?thesis by blast
qed

lemma respond_keeps:
  assumes "cc_sid client = owner" "respond w client request s = Some (response, s')"
  shows "ms_view s' = ms_view s"
proof (cases "validate_request request")
  case (Inr u)
  with assms(2) obtain r where "dispatch w client (rqe_body request) s = Some (r, s')"
    by (auto simp: respond_def handle_request_def)
  then show ?thesis by (rule dispatch_keeps_all [OF assms(1)])
next
  case (Inl e)
  with assms(2) show ?thesis by (simp add: respond_def)
qed

end

end
