(* ===== verification/OG_Requests.thy ===== *)
theory OG_Requests
  imports OG_Keeps OG_Baseline OG_Startup OG_Replay
begin

text \<open>
  Properties of the whole service: answers are of the kind that the request announces, requests of
  one user leave the records of all others alone, and the invariants of the components hold together
  over the database they share.
\<close>

section \<open>Answers of the announced kind\<close>

fun answers :: "request \<Rightarrow> response_data \<Rightarrow> bool" where
  "answers Ping d \<longleftrightarrow> (\<exists>v. d = Pong v)"
| "answers GetHealth d \<longleftrightarrow> (\<exists>h. d = Health h \<and> sh_protocol h = PROTOCOL_VERSION)"
| "answers GetSnapshot d \<longleftrightarrow> (\<exists>x. d = Snapshot x)"
| "answers (RecentEvents limit) d \<longleftrightarrow> (\<exists>es. d = Events es \<and> length es \<le> 2000)"
| "answers (GetTimeline b limit c p s) d \<longleftrightarrow> (\<exists>page. d = Timeline page)"
| "answers (GetPersistence r) d \<longleftrightarrow> (\<exists>i. d = Persistence i)"
| "answers (ExecuteResponse q) d \<longleftrightarrow> (\<exists>r. d = ResponseAction r \<and> rr_action r = rq_action q)"
| "answers (StartScan t p) d \<longleftrightarrow> (\<exists>i. d = ScanStarted i)"
| "answers (CancelScan i) d \<longleftrightarrow> d = response_data.ScanCancelled i"
| "answers (GetScan i) d \<longleftrightarrow> (\<exists>st. d = ScanStatus st)"
| "answers (Quarantine f) d \<longleftrightarrow> (\<exists>q. d = QuarantineChanged q)"
| "answers (ListQuarantine limit) d \<longleftrightarrow> (\<exists>qs. d = Quarantines qs \<and> length qs \<le> 2000)"
| "answers (RestoreQuarantine i p) d \<longleftrightarrow> (\<exists>q. d = QuarantineChanged q)"
| "answers GetContentStatus d \<longleftrightarrow> (\<exists>c. d = ContentStatus c)"
| "answers InstallContentUpdate d \<longleftrightarrow> (\<exists>c. d = ContentStatus c)"
| "answers RollbackContentUpdate d \<longleftrightarrow> (\<exists>c. d = ContentStatus c)"
| "answers ListExclusions d \<longleftrightarrow> (\<exists>xs. d = Exclusions xs)"
| "answers (request.AddExclusion p r) d \<longleftrightarrow> d = PolicyChanged"
| "answers (request.RemoveExclusion p) d \<longleftrightarrow> d = PolicyChanged"
| "answers ListAllowedHashes d \<longleftrightarrow> (\<exists>hs. d = AllowedHashes hs)"
| "answers (request.AllowHash h l) d \<longleftrightarrow> d = PolicyChanged"
| "answers (RemoveAllowedHash h) d \<longleftrightarrow> d = PolicyChanged"

lemma answer_Inr: "answer f x = (Inr d, s') \<longleftrightarrow> (\<exists>a. x = (Inr a, s') \<and> d = f a)"
  by (auto simp: answer_def split: prod.splits sum.splits)

lemma query_Inr: "query wrap f s = (Inr a, s') \<Longrightarrow> \<exists>d. f d = Inr a"
  by (auto simp: query_def map_fail_Inr_iff on_host_def db_call_def split: prod.splits outcome.splits)

lemma collect_rows_length: "collect_rows f xs = Inr ys \<Longrightarrow> length ys = length xs"
  by (induction xs arbitrary: ys) (auto simp: result_iffs)

lemma recent_events_length: "recent_events o1 limit d = Inr es \<Longrightarrow> length es \<le> 2000"
proof -
  assume "recent_events o1 limit d = Inr es"
  then have "length es \<le> unat (min (max limit 1) 2000)"
    by (auto simp: recent_events_def Let_def dest!: collect_rows_length)
  also have "\<dots> \<le> 2000" by (simp add: unat_min_word)
  finally show ?thesis .
qed

lemma list_quarantines_length: "length (list_quarantines o1 limit d) \<le> 2000"
  by (simp add: list_quarantines_def unat_min_word)

lemma execute_response_action: "execute_response w client request s = (Inr r, s') \<Longrightarrow> rr_action r = rq_action request"
  by (auto simp: execute_response_def refuse_def run_then_def split: if_splits prod.splits sum.splits)

lemma on_responder_Inr: "on_responder f s = (Inr a, s') \<Longrightarrow> \<exists>p p'. f p = (Inr a, p')"
  by (auto simp: on_responder_def Let_def split: prod.splits)

lemma dispatch_typed: "dispatch w client body s = Some (Inr d, s') \<Longrightarrow> answers body d"
  by (cases body)
    (auto simp: dispatch_def answer_Inr health_def dest!: query_Inr on_responder_Inr
      dest: recent_events_length execute_response_action intro: list_quarantines_length)

text \<open>
  C5. The answer to a request carries the request's identifier and the protocol version, and when it
  is a success its data is of the kind that the request announces: an action's own kind, the
  identifier of the cancelled scan, at most 2,000 events or quarantine records.  A request that fails
  validation is refused and changes nothing.
\<close>

theorem requests_answered_in_kind:
  assumes "respond w client request s = Some (response, s')"
  shows "rse_protocol response = PROTOCOL_VERSION \<and> rse_request_id response = rqe_request_id request
    \<and> (\<forall>d. rse_body response = Success d \<longrightarrow> is_ok (validate_request request) \<and> answers (rqe_body request) d)
    \<and> (\<not> is_ok (validate_request request) \<longrightarrow> s' = s)"
proof (cases "validate_request request")
  case (Inl e)
  with assms show ?thesis by (auto simp: respond_def response_error_def)
next
  case (Inr u)
  with assms obtain result where d: "dispatch w client (rqe_body request) s = Some (result, s')"
    and r: "response = (case result of Inr data \<Rightarrow> response_success (rqe_request_id request) data
       | Inl e \<Rightarrow> response_error (rqe_request_id request) e)"
    by (auto simp: respond_def handle_request_def)
  show ?thesis
    using Inr r dispatch_typed [of w client "rqe_body request" s] d
    by (cases result) (auto simp: response_success_def response_error_def)
qed

section \<open>Requests of one user leave the others alone\<close>

text \<open>Everything that the database holds for one user.\<close>

definition owned :: "string \<Rightarrow> ((string \<times> string) \<times> 'v) list \<Rightarrow> ((string \<times> string) \<times> 'v) list" where
  "owned o1 t = filter (\<lambda>((o2, _), _). o2 = o1) t"

record user_records =
  ur_baseline :: "string option"
  ur_seen :: "((string \<times> string) \<times> seen_row) list"
  ur_events :: "(nat \<times> event_row) list"
  ur_timeline :: "(nat \<times> timeline_row) list"
  ur_scans :: "(nat \<times> string \<times> scan_finding) list"
  ur_quarantines :: "(string \<times> string \<times> stored_quarantine) list"
  ur_exclusions :: "((string \<times> string) \<times> exclusion_record) list"
  ur_hashes :: "((string \<times> string) \<times> allowed_hash_record) list"
  ur_persistence :: "((string \<times> string) \<times> persistence_row) list"
  ur_rollbacks :: "(string \<times> string \<times> response_rollback) list"

definition records_of :: "string \<Rightarrow> database \<Rightarrow> user_records" where
  "records_of o1 d =
     \<lparr>ur_baseline = get_metadata (baseline_key o1) d, ur_seen = owned o1 (db_seen d),
      ur_events = filter (\<lambda>(_, r). er_owner r = o1) (lt_rows (db_events d)),
      ur_timeline = filter (\<lambda>(_, r). tr_owner r = o1) (lt_rows (db_timeline d)),
      ur_scans = filter (\<lambda>(_, o2, _). o2 = o1) (lt_rows (db_scans d)),
      ur_quarantines = filter (\<lambda>(_, o2, _). o2 = o1) (db_quarantines d),
      ur_exclusions = owned o1 (db_exclusions d), ur_hashes = owned o1 (db_hashes d),
      ur_persistence = owned o1 (db_persistence d),
      ur_rollbacks = filter (\<lambda>(_, o2, _). o2 = o1) (db_rollbacks d)\<rparr>"

lemma owned_update: "o2 \<noteq> o1 \<Longrightarrow> owned o1 (AList.update (o2, k) v t) = owned o1 t"
  by (induction t) (auto simp: owned_def)

lemma owned_put: "o2 \<noteq> o1 \<Longrightarrow> owned o1 (keyed_put o2 k v t) = owned o1 t"
  by (simp add: keyed_put_def owned_update)

lemma owned_del: "o2 \<noteq> o1 \<Longrightarrow> owned o1 (snd (keyed_del o2 k t)) = owned o1 t"
  by (auto simp: keyed_del_def owned_def Let_def intro: filter_cong)

lemma baseline_keys: "baseline_key o1 = baseline_key o2 \<longleftrightarrow> o1 = o2"
  "baseline_key o1 \<noteq> ''active_content_version''" "baseline_key o1 \<noteq> ''previous_content_version''"
  by (simp_all add: baseline_key_def)

lemma filter_map_fixed:
  "(\<And>x. x \<in> set xs \<Longrightarrow> P (f x) = P x) \<Longrightarrow> (\<And>x. x \<in> set xs \<Longrightarrow> P x \<Longrightarrow> f x = x) \<Longrightarrow> filter P (map f xs) = filter P xs"
  by (induction xs) auto

lemma records_timeline: "o2 \<noteq> o1 \<Longrightarrow> records_of o1 (snd (record_timeline o2 e d)) = records_of o1 d"
  by (simp add: record_timeline_def insert_timeline_def log_insert_def records_of_def Let_def get_metadata_def)

lemma records_event: "o2 \<noteq> o1 \<Longrightarrow> records_of o1 (snd (record_event o2 e d)) = records_of o1 d"
  by (simp add: record_event_def insert_timeline_def log_insert_def records_of_def Let_def get_metadata_def)

lemma records_executables: "o2 \<noteq> o1 \<Longrightarrow> records_of o1 (snd (record_executables o2 xs d)) = records_of o1 d"
proof -
  assume o: "o2 \<noteq> o1"
  have "upsert_executables o2 ys d = Inr d' \<Longrightarrow> records_of o1 d' = records_of o1 d" for ys d'
    by (induction ys arbitrary: d)
      (auto simp: result_iffs upsert_executable_def Let_def records_of_def owned_update o get_metadata_def split: if_splits)
  then show ?thesis by (auto simp: record_executables_def split: sum.splits)
qed

lemma records_metadata: "k \<noteq> baseline_key o1 \<Longrightarrow> records_of o1 (set_metadata k v d) = records_of o1 d"
  by (simp add: records_of_def get_set_metadata) (simp add: set_metadata_def)

lemma records_sync: "o2 \<noteq> o1 \<Longrightarrow> records_of o1 (snd (sync_persistence_inventory iter o2 items now d)) = records_of o1 d"
proof -
  assume o: "o2 \<noteq> o1"
  have items: "records_of o1 (snd (sync_items o2 now ex items d)) = records_of o1 d" for ex d
    by (induction items arbitrary: d)
      (simp_all add: Let_def case_prod_beta records_of_def upsert_persistence_def owned_update o get_metadata_def)
  have removed: "records_of o1 (snd (sync_removed o2 now act rows d)) = records_of o1 d" for act rows d
    by (induction rows arbitrary: d)
      (auto simp: Let_def case_prod_beta records_of_def owned_update o get_metadata_def split: option.splits)
  have inserts: "records_of o1 (insert_timelines o2 es d) = records_of o1 d" for es d
    using records_timeline [OF o] by (induction es arbitrary: d) (simp_all add: record_timeline_def)
  show ?thesis
    by (simp add: sync_persistence_inventory_def Let_def case_prod_beta inserts removed items)
qed

lemma records_policy:
  "o2 \<noteq> o1 \<Longrightarrow> records_of o1 (add_exclusion o2 k x d) = records_of o1 d"
  "o2 \<noteq> o1 \<Longrightarrow> records_of o1 (snd (remove_exclusion o2 k d)) = records_of o1 d"
  "o2 \<noteq> o1 \<Longrightarrow> records_of o1 (db_allow_hash o2 h d) = records_of o1 d"
  "o2 \<noteq> o1 \<Longrightarrow> records_of o1 (snd (db_remove_allowed_hash o2 sha d)) = records_of o1 d"
  by (simp_all add: records_of_def add_exclusion_def remove_exclusion_def db_allow_hash_def
      db_remove_allowed_hash_def owned_put owned_del get_metadata_def case_prod_beta Let_def)

lemma records_quarantine:
  "o2 \<noteq> o1 \<Longrightarrow> records_of o1 (snd (record_quarantine o2 q p d)) = records_of o1 d"
  "o2 \<noteq> o1 \<Longrightarrow> records_of o1 (snd (mark_quarantine_restored o2 i now p d)) = records_of o1 d"
  "o2 \<noteq> o1 \<Longrightarrow> records_of o1 (snd (delete_quarantine o2 i d)) = records_of o1 d"
  by (auto simp: records_of_def record_quarantine_def mark_quarantine_restored_def delete_quarantine_def Let_def
      get_metadata_def intro!: filter_map_fixed intro: filter_cong)

lemma records_rollback:
  "o2 \<noteq> o1 \<Longrightarrow> records_of o1 (snd (record_response_rollback o2 r d)) = records_of o1 d"
  "o2 \<noteq> o1 \<Longrightarrow> records_of o1 (snd (mark_response_restored o2 i now d)) = records_of o1 d"
  by (auto simp: records_of_def record_response_rollback_def mark_response_restored_def Let_def
      get_metadata_def intro!: filter_map_fixed)

text \<open>The records of any other user are an observation that a request keeps.\<close>

definition foreign_records :: "string \<Rightarrow> string \<Rightarrow> database \<Rightarrow> user_records option" where
  "foreign_records owner other d = (if other = owner \<or> other = [] then None else Some (records_of other d))"

interpretation foreign: database_observer owner "foreign_records owner other" for owner other
  by unfold_locales
    (auto simp: foreign_records_def records_timeline records_event records_executables records_metadata
      records_sync records_policy records_quarantine records_rollback baseline_keys)

interpretation foreign_activation: activation_observer owner "foreign_records owner other" for owner other
  by unfold_locales
    (simp add: foreign_records_def activate_content_version_def records_metadata not_sym [OF baseline_keys(2)] not_sym [OF baseline_keys(3)])

lemma respond_isolates:
  assumes "respond w client request s = Some (response, s')" "cc_sid client \<noteq> other" "other \<noteq> []"
  shows "records_of other (hs_db (ms_host s')) = records_of other (hs_db (ms_host s))"
  using foreign_activation.respond_keeps [OF refl assms(1), of other] assms(2,3)
  by (simp add: foreign_records_def)

lemma serve_connection_state:
  assumes "serve_connection de ser w client bs sink s = Some (r, out, t)"
  shows "t = s \<or> (\<exists>cl request response. client = Inr cl \<and> respond w cl request s = Some (response, t))"
proof (cases "read_frame de bs")
  case (Inr x)
  obtain request rest where x: "x = (request, rest)" by fastforce
  show ?thesis
  proof (cases client)
    case client: (Inr cl)
    with assms Inr x obtain response u where u: "respond w cl request s = Some (response, u)"
      "(case write_frame ser sink response of (o1, Inl _) \<Rightarrow> (Inl ''write response frame'', o1, u)
         | (o1, Inr _) \<Rightarrow> (Inr (), o1, u)) = (r, out, t)"
      by (auto simp: serve_connection_def)
    obtain o1 q where "write_frame ser sink response = (o1, q)" by fastforce
    with u(2) have "u = t" by (cases q) simp_all
    with u(1) client show ?thesis by blast
  qed (insert assms Inr x, simp add: serve_connection_def)
qed (insert assms, simp add: serve_connection_def)

text \<open>
  C2. Users are isolated from each other: whatever requests other users send over any number of
  connections, and whatever fails meanwhile, everything that the database holds for a user stays as
  it was: executables, events, timeline, scans, quarantine, exclusions, allowed hashes, start-up
  entries, rollbacks and the mark that the baseline exists.
\<close>

theorem requests_isolate_users:
  assumes "run_pipe_loop de ser once connections s = Some s'" "other \<noteq> []"
    and "\<forall>c \<in> set connections. \<forall>client. fst (snd c) = Inr client \<longrightarrow> cc_sid client \<noteq> other"
  shows "records_of other (hs_db (ms_host s')) = records_of other (hs_db (ms_host s))"
  using assms(1,3)
proof (induction connections arbitrary: s)
  case (Cons c connections)
  obtain w client bs sink stop where c: "c = (w, client, bs, sink, stop)" by (cases c) auto
  from Cons.prems(1) obtain r out t where t: "serve_connection de ser w client bs sink s = Some (r, out, t)"
    "(if once \<or> stop then Some t else run_pipe_loop de ser once connections t) = Some s'"
    by (auto simp: c split: option.splits)
  have "records_of other (hs_db (ms_host t)) = records_of other (hs_db (ms_host s))"
    using serve_connection_state [OF t(1)] Cons.prems(2) respond_isolates [OF _ _ assms(2)] by (auto simp: c)
  with t(2) Cons.IH [of t] Cons.prems(2) show ?case by (auto split: if_splits)
qed simp

section \<open>The invariants of the components hold together\<close>

text \<open>The active content is the one in the shared database, and the job table is bounded and well-formed.\<close>

definition loader_of :: "request_world \<Rightarrow> loader" where
  "loader_of w = (mw_update w, mw_feed w)"

definition service_ok ::
  "loader set \<Rightarrow> ((file_scanner \<times> reputation_feed) \<times> string option) option \<Rightarrow> service \<Rightarrow> bool" where
  "service_ok L start s \<longleftrightarrow> content_ok L start (ms_content s\<lparr>sv_host := ms_host s\<rparr>) \<and> jobs_ok (ms_jobs s)"

definition active_version :: "database \<Rightarrow> string option" where
  "active_version d = get_metadata ''active_content_version'' d"

text \<open>No statement of a request other than an activation touches the active version.\<close>

lemma active_version_metadata:
  "k \<noteq> ''active_content_version'' \<Longrightarrow> active_version (set_metadata k v d) = active_version d"
  by (simp add: active_version_def get_set_metadata)

lemma active_version_tables:
  "db_metadata d' = db_metadata d \<Longrightarrow> active_version d' = active_version d"
  by (simp add: active_version_def get_metadata_def)

lemma active_version_executables: "active_version (snd (record_executables o1 xs d)) = active_version d"
proof -
  have "upsert_executables o1 ys d = Inr d' \<Longrightarrow> db_metadata d' = db_metadata d" for ys d'
    by (induction ys arbitrary: d) (auto simp: result_iffs upsert_executable_def Let_def split: if_splits)
  then have "db_metadata (snd (record_executables o1 xs d)) = db_metadata d"
    by (auto simp: record_executables_def split: sum.splits)
  then show ?thesis by (rule active_version_tables)
qed

lemma active_version_timeline: "db_metadata (snd (insert_timeline o1 e d)) = db_metadata d"
  by (simp add: insert_timeline_def log_insert_def Let_def)

lemma active_version_sync: "active_version (snd (sync_persistence_inventory iter o1 items now d)) = active_version d"
proof (rule active_version_tables)
  have items: "db_metadata (snd (sync_items o1 now ex items d)) = db_metadata d" for ex d
    by (induction items arbitrary: d) (simp_all add: Let_def case_prod_beta upsert_persistence_def)
  have removed: "db_metadata (snd (sync_removed o1 now act rows d)) = db_metadata d" for act rows d
    by (induction rows arbitrary: d) (auto simp: Let_def case_prod_beta split: option.splits)
  have inserts: "db_metadata (insert_timelines o1 es d) = db_metadata d" for es d
    by (induction es arbitrary: d) (simp_all add: active_version_timeline)
  show "db_metadata (snd (sync_persistence_inventory iter o1 items now d)) = db_metadata d"
    by (simp add: sync_persistence_inventory_def Let_def case_prod_beta inserts removed items)
qed

interpretation active: database_observer owner active_version for owner
proof unfold_locales
qed (auto simp: active_version_executables active_version_sync active_version_metadata baseline_keys
    record_timeline_def record_event_def active_version_timeline log_insert_def add_exclusion_def
    remove_exclusion_def db_allow_hash_def db_remove_allowed_hash_def record_quarantine_def
    mark_quarantine_restored_def delete_quarantine_def record_response_rollback_def mark_response_restored_def
    Let_def case_prod_beta intro!: active_version_tables)

lemma content_ok_host:
  "active_version (hs_db h) = active_version (hs_db h') \<Longrightarrow>
     content_ok L start (c\<lparr>sv_host := h\<rparr>) = content_ok L start (c\<lparr>sv_host := h'\<rparr>)"
  by (simp add: content_ok_def active_version_def)

lemma keeps_answer: "keeps F m \<Longrightarrow> answer f (m s) = (r, s') \<Longrightarrow> F s' = F s"
  by (auto simp: answer_def split: prod.splits dest: keepsE)

lemma parts_kept:
  "keeps ms_content (on_host f1)" "keeps ms_content (on_session f2)" "keeps ms_content (on_jobs f3)"
  "keeps ms_content (on_responder f4)" "keeps ms_jobs (on_host f1)" "keeps ms_jobs (on_session f2)"
  "keeps ms_jobs (on_content f5)" "keeps ms_jobs (on_responder f4)"
  by (simp_all add: keeps_def on_host_def on_session_def on_jobs_def on_responder_def on_content_def
      case_prod_beta Let_def)

lemma handlers_keep_parts:
  "keeps ms_content (query wrap f)" "keeps ms_jobs (query wrap f)"
  "keeps ms_content (snapshot_handler w client)" "keeps ms_jobs (snapshot_handler w client)"
  "keeps ms_content (start_handler w client target profile)"
  unfolding query_def snapshot_handler_def start_handler_def by (intro keeping parts_kept)+

lemma quarantine_keeps_parts:
  "keeps ms_content (quarantine_handler w client finding)" "keeps ms_jobs (quarantine_handler w client finding)"
  by (simp_all add: keeps_def quarantine_handler_def keepsD [OF parts_kept(1)] keepsD [OF parts_kept(5)])

lemma take_in_parts:
  "take_in_activity w client s = Some s' \<Longrightarrow> ms_content s' = ms_content s \<and> ms_jobs s' = ms_jobs s"
  by (auto simp: take_in_activity_def Let_def)

lemmas answer_parts = parts_kept [THEN keeps_answer] handlers_keep_parts [THEN keeps_answer]
  quarantine_keeps_parts [THEN keeps_answer]

lemma dispatch_content:
  assumes "dispatch w client body s = Some (r, s')"
    and "body \<notin> {GetContentStatus, InstallContentUpdate, RollbackContentUpdate}"
  shows "ms_content s' = ms_content s"
proof (cases body)
  case (GetTimeline b l c p q)
  with assms(1) show ?thesis
    by (auto simp: dispatch_def dest!: take_in_parts keeps_answer [OF handlers_keep_parts(1)])
qed (insert assms, auto simp: dispatch_def active.answer_now dest: answer_parts)

lemma dispatch_jobs:
  assumes "dispatch w client body s = Some (r, s')" "jobs_ok (ms_jobs s)"
  shows "jobs_ok (ms_jobs s')"
proof -
  have ok: "jobs_ok (ms_jobs s\<lparr>js_host := h\<rparr>)" for h by (rule jobs_ok_cong [OF assms(2)]) simp
  show ?thesis
  proof (cases body)
    case (GetTimeline b l c p q)
    with assms show ?thesis
      by (auto simp: dispatch_def dest!: take_in_parts keeps_answer [OF handlers_keep_parts(2)])
  next
    case (StartScan target profile)
    with assms(1) jobs_ok_start [OF ok] show ?thesis
      by (auto simp: dispatch_def answer_def start_handler_def on_jobs_def split: prod.splits) (metis snd_conv)
  next
    case (CancelScan i)
    with assms(1) jobs_ok_cancel [OF ok] show ?thesis
      by (auto simp: dispatch_def answer_def on_jobs_def split: prod.splits) (metis snd_conv)
  qed (insert assms, auto simp: dispatch_def active.answer_now dest: answer_parts)
qed

lemma on_content_ok:
  assumes "on_content f s = (r, s')" "content_ok L start (snd (f (ms_content s\<lparr>sv_host := ms_host s\<rparr>)))"
  shows "content_ok L start (ms_content s'\<lparr>sv_host := ms_host s'\<rparr>)"
  using assms by (auto simp: on_content_def split: prod.splits)

lemma dispatch_content_ok:
  assumes "dispatch w client body s = Some (r, s')"
    and "content_ok L start (ms_content s\<lparr>sv_host := ms_host s\<rparr>)" "loader_of w \<in> L"
  shows "content_ok L start (ms_content s'\<lparr>sv_host := ms_host s'\<rparr>)"
proof -
  have answered: "content_ok L start (ms_content s'\<lparr>sv_host := ms_host s'\<rparr>)"
    if a: "answer g (on_content f s) = (r, s')"
      and ok: "content_ok L start (snd (f (ms_content s\<lparr>sv_host := ms_host s\<rparr>)))" for f g
  proof -
    obtain q where "on_content f s = (q, s')" using a by (auto simp: answer_def split: prod.splits)
    then show ?thesis using ok by (rule on_content_ok)
  qed
  consider "body = GetContentStatus" | "body = InstallContentUpdate" | "body = RollbackContentUpdate"
    | (other) "body \<notin> {GetContentStatus, InstallContentUpdate, RollbackContentUpdate}" by blast
  then show ?thesis
  proof cases
    case 1
    have "content_ok L start (snd (content_status_of (ms_content s\<lparr>sv_host := ms_host s\<rparr>)))"
      using content_ok_same [OF content_status_same] assms(2) by simp
    with assms(1) 1 answered [of ContentStatus content_status_of] show ?thesis
      by (simp add: dispatch_def)
  next
    case 2
    with assms(1) answered [of ContentStatus] install_content_effect [OF assms(2) assms(3) [unfolded loader_of_def]] show ?thesis
      by (simp add: dispatch_def)
  next
    case 3
    with assms(1) answered [of ContentStatus] rollback_content_effect [OF assms(2) assms(3) [unfolded loader_of_def]] show ?thesis
      by (simp add: dispatch_def)
  next
    case other
    then have "active_version (hs_db (ms_host s')) = active_version (hs_db (ms_host s))"
      using active.dispatch_keeps [OF refl assms(1)] by blast
    then show ?thesis
      using assms(2) content_ok_host [of "ms_host s'" "ms_host s"]
      by (simp add: dispatch_content [OF assms(1) other])
  qed
qed

lemma respond_service_ok:
  assumes "respond w client request s = Some (response, s')" "service_ok L start s" "loader_of w \<in> L"
  shows "service_ok L start s'"
proof (cases "validate_request request")
  case (Inl e)
  with assms show ?thesis by (simp add: respond_def)
next
  case (Inr u)
  with assms(1) obtain r where "dispatch w client (rqe_body request) s = Some (r, s')"
    by (auto simp: respond_def handle_request_def)
  with assms(2,3) dispatch_content_ok dispatch_jobs show ?thesis by (auto simp: service_ok_def)
qed

lemma run_service_ok:
  assumes "service_ok L start s" "run_pipe_loop de ser once connections s = Some s'"
    and "\<forall>c \<in> set connections. loader_of (fst c) \<in> L"
  shows "service_ok L start s'"
  using assms
proof (induction connections arbitrary: s)
  case (Cons c connections)
  obtain w client bs sink stop where c: "c = (w, client, bs, sink, stop)" by (cases c) auto
  from Cons.prems(2) obtain r out t where t: "serve_connection de ser w client bs sink s = Some (r, out, t)"
    "(if once \<or> stop then Some t else run_pipe_loop de ser once connections t) = Some s'"
    by (auto simp: c split: option.splits)
  have "service_ok L start t"
    using serve_connection_state [OF t(1)] Cons.prems(1,3) respond_service_ok [of w] by (auto simp: c)
  with t(2) Cons.IH [of t] Cons.prems(3) show ?case by (auto split: if_splits)
qed simp

lemma create_state_ok:
  assumes "create_state w iw mode etw opened bdd os0 = (Inr s, h)" "loader_of w \<in> L"
  obtains bd st where "bdd = Inr bd" "opened = Inr st"
    "service_ok L (bundle_start (loader_of w) bd (get_metadata ''active_content_version'' (hs_db h)) st) s"
proof -
  from assms(1) obtain st bd where s: "ms_content s = start_content (mw_update w) (mw_feed w) bd st h"
    "ms_host s = h" "js_jobs (ms_jobs s) = []" and o: "bdd = Inr bd" "opened = Inr st"
    by (auto simp: create_state_def run_iffs Let_def split: prod.splits sum.splits)
  have "(start_content (mw_update w) (mw_feed w) bd st h)\<lparr>sv_host := h\<rparr>
      = start_content (mw_update w) (mw_feed w) bd st h"
    by (simp add: start_content_def split: prod.splits)
  then have "service_ok L (bundle_start (loader_of w) bd (get_metadata ''active_content_version'' (hs_db h)) st) s"
    using start_content_ok [OF assms(2) [unfolded loader_of_def] refl, where h = h and bundled = bd and st = st]
    by (simp add: s service_ok_def jobs_ok_def loader_of_def)
  with o show thesis by (rule that)
qed


section \<open>Every request is answered\<close>

lemma wait_child_more: "wait_child n w k = Some r \<Longrightarrow> n \<le> m \<Longrightarrow> wait_child m w k = Some r"
proof (induction n w k arbitrary: m rule: wait_child.induct)
  case (2 n w k)
  from "2.prems"(2) obtain j where m: "m = Suc j" "n \<le> j" by (cases m) auto
  show ?case
  proof (cases "pc_poll w k")
    case PollRunning
    show ?thesis
    proof (cases "pc_start w + POWERSHELL_TIMEOUT \<le> pc_clock w k")
      case False
      with "2.prems"(1) PollRunning have "wait_child n w (Suc k) = Some r" by simp
      from "2.IH" [OF PollRunning False this m(2)] PollRunning False show ?thesis by (simp add: m(1))
    qed (use "2.prems"(1) PollRunning m(1) in simp)
  qed (use "2.prems"(1) m(1) in simp_all)
qed simp

lemma collect_persistence_enough:
  assumes "clock_advances (pc_powershell w)" "601 \<le> k"
  shows "collect_persistence k context w = collect_persistence 601 context w \<and> collect_persistence 601 context w \<noteq> None"
proof -
  obtain r where r: "wait_child 601 (pc_powershell w) 0 = Some r"
    using wait_child_ends [OF assms(1), of 0 601] by auto
  with wait_child_more [OF r assms(2)] show ?thesis
    by (simp add: collect_persistence_def run_powershell_json_def split: sum.splits)
qed

lemma ensure_monitor_cases:
  assumes "map_of (av_monitors (ensure_monitor w owner s)) owner = Some m"
  shows "map_of (av_monitors s) owner = Some m \<or> \<not> fm_baseline_ready m \<and> fm_enumerated m = None"
  using assms started_unready [of "aw_files w" "aw_watcher w" "aw_watch w" "monitored_folders w"]
  by (auto simp: ensure_monitor_def update_conv split: if_splits sum.splits)

lemma drain_etw_monitors: "av_monitors (drain_etw_activity w s) = av_monitors s"
proof -
  have "av_monitors (record_fresh w o1 e t) = av_monitors t" for o1 e t
    by (simp add: record_fresh_def av_store_def)
  then have "av_monitors (fold (\<lambda>e s. if ee_pid e = 0 then s else record_fresh w [] (etw_timeline n e) s) es t)
      = av_monitors t" for n es t
    by (induction es arbitrary: t) simp_all
  then show ?thesis by (simp add: drain_etw_activity_def split: option.split prod.split)
qed

lemma drain_files_enough:
  assumes "weighed (aw_files aw) weight" "n \<le> k"
    and "\<forall>m. map_of (av_monitors s) owner = Some m \<longrightarrow> sum_list (map weight (fm_roots m)) \<le> n"
  shows "drain_file_activity k aw owner s = drain_file_activity n aw owner s \<and> drain_file_activity n aw owner s \<noteq> None"
proof (cases "av_mode s = ''test''")
  case False
  let ?t = "ensure_monitor aw owner s"
  show ?thesis
  proof (cases "map_of (av_monitors ?t) owner")
    case None
    with False show ?thesis by (simp add: drain_file_activity_def Let_def)
  next
    case (Some m)
    have "file_monitor_drain k (aw_files aw) 512 m = file_monitor_drain n (aw_files aw) 512 m
        \<and> file_monitor_drain n (aw_files aw) 512 m \<noteq> None"
      using ensure_monitor_cases [OF Some]
    proof
      assume "map_of (av_monitors s) owner = Some m"
      then obtain b where "enumerate n (aw_files aw) (fm_roots m) = Some b"
        using assms(3) enumerate_ends [OF assms(1)] by blast
      from drain_fuel [OF this assms(2)] show ?thesis .
    next
      assume "\<not> fm_baseline_ready m \<and> fm_enumerated m = None"
      then show ?thesis using drain_unready by blast
    qed
    with False Some show ?thesis by (auto simp: drain_file_activity_def Let_def)
  qed
qed (simp add: drain_file_activity_def)

text \<open>The fuel that is enough for a user in a state of the service.\<close>

definition enough_fuel :: "(string \<Rightarrow> nat) \<Rightarrow> client_context \<Rightarrow> service \<Rightarrow> nat" where
  "enough_fuel weight client s =
     max 601 (case map_of (av_monitors (zs_activity (ms_session s))) (cc_sid client) of
                None \<Rightarrow> 0 | Some m \<Rightarrow> sum_list (map weight (fm_roots m)))"

lemma dispatch_enough:
  assumes "clock_advances (pc_powershell (mw_persistence w))"
    and "weighed (aw_files (xw_activity (mw_snapshot w))) weight" "enough_fuel weight client s \<le> k"
  shows "dispatch (w\<lparr>mw_fuel := k\<rparr>) client body s = dispatch (w\<lparr>mw_fuel := enough_fuel weight client s\<rparr>) client body s
    \<and> dispatch (w\<lparr>mw_fuel := enough_fuel weight client s\<rparr>) client body s \<noteq> None"
proof -
  let ?n = "enough_fuel weight client s" and ?p = "mw_persistence w"
  have "601 \<le> ?n" by (simp add: enough_fuel_def)
  with assms(3) have "601 \<le> k" by simp
  have c: "inventory_context (w\<lparr>mw_fuel := f\<rparr>) client = inventory_context w client" for f
    by (simp add: inventory_context_def)
  have rw: "responder_world (w\<lparr>mw_fuel := k\<rparr>) client s = responder_world (w\<lparr>mw_fuel := ?n\<rparr>) client s"
    "responder_world (w\<lparr>mw_fuel := ?n\<rparr>) client s \<noteq> None"
    using collect_persistence_enough [OF assms(1) \<open>601 \<le> k\<close>] collect_persistence_enough [OF assms(1) \<open>601 \<le> ?n\<close>]
    by (simp_all add: responder_world_def c)
  let ?aw = "xw_activity (mw_snapshot w)\<lparr>aw_scanner := sv_scanner (ms_content s)\<rparr>"
  let ?a = "drain_etw_activity ?aw (zs_activity (ms_session s)\<lparr>av_host := ms_host s\<rparr>)"
  have "drain_file_activity k ?aw (cc_sid client) ?a = drain_file_activity ?n ?aw (cc_sid client) ?a
      \<and> drain_file_activity ?n ?aw (cc_sid client) ?a \<noteq> None"
    by (rule drain_files_enough [OF _ assms(3), of _ weight])
      (use assms(2) in \<open>auto simp: drain_etw_monitors enough_fuel_def\<close>)
  then have ta: "take_in_activity (w\<lparr>mw_fuel := k\<rparr>) client s = take_in_activity (w\<lparr>mw_fuel := ?n\<rparr>) client s"
    "take_in_activity (w\<lparr>mw_fuel := ?n\<rparr>) client s \<noteq> None"
    by (simp_all add: take_in_activity_def Let_def)
  show ?thesis
    using rw ta
    by (cases body)
      (simp_all add: dispatch_def health_def snapshot_handler_def start_handler_def quarantine_handler_def)
qed

text \<open>
  C6. Every request is answered.  When the clock advances while the inventory process runs and the
  directory trees of the file system are finite, a request of any kind, valid or not, from any user
  and in any state of the service has one answer and one next state: the reconciliation of lost file
  notifications inside a timeline request and the wait for the inventory process end, and the fuel
  that the model gives to the two loops does not matter from a bound on.
\<close>

theorem requests_are_answered:
  assumes "clock_advances (pc_powershell (mw_persistence w))"
    and "weighed (aw_files (xw_activity (mw_snapshot w))) weight"
  shows "\<exists>response s'. \<forall>k \<ge> enough_fuel weight client s.
    respond (w\<lparr>mw_fuel := k\<rparr>) client request s = Some (response, s')"
proof (cases "validate_request request")
  case (Inl e)
  then show ?thesis by (simp add: respond_def)
next
  case (Inr u)
  let ?n = "enough_fuel weight client s"
  obtain r s' where "dispatch (w\<lparr>mw_fuel := ?n\<rparr>) client (rqe_body request) s = Some (r, s')"
    using dispatch_enough [OF assms order_refl] by fastforce
  then have "dispatch (w\<lparr>mw_fuel := k\<rparr>) client (rqe_body request) s = Some (r, s')" if "?n \<le> k" for k
    using dispatch_enough [OF assms that] by simp
  with Inr show ?thesis by (auto simp: respond_def handle_request_def)
qed

section \<open>Concrete runs\<close>

definition sample_request_world :: request_world where
  "sample_request_world =
     \<lparr>mw_version = ''0.7.0'',
      mw_snapshot = \<lparr>xw_activity = sample_activity_world None, xw_monitor = None, xw_collect = Inl ''busy'',
        xw_now = 1, xw_elevated = False\<rparr>,
      mw_response = sample_response_world, mw_persistence = sample_startup, mw_update = sample_updates [],
      mw_feed = sample_feed_json,
      mw_folders = \<lparr>kf_downloads = None, kf_local_app_data = None, kf_startup = None, kf_common_startup = None,
        kf_system_drive = None\<rparr>,
      mw_local_app_data = None, mw_roaming_app_data = None, mw_exists = (\<lambda>_. True),
      mw_tree = OG_Collect.sample_tree, mw_scan_id = ''1'', mw_as_client = Inr, mw_as_service = Some,
      mw_now = ''t'', mw_uptime = 1, mw_fuel = 601\<rparr>"

definition sample_start_up :: "(string + service) \<times> host" where
  "sample_start_up = create_state sample_request_world (sample_integrity_world ''a'') ''service'' None
     (Inr \<lparr>st_dirs = [(''v0'', sample_dir ''v0'')], st_outcomes = []\<rparr>) (Inr sample_bundle)
     (sample_os\<lparr>os_host := \<lparr>hs_files = Map.empty, hs_outcomes = [],
        hs_db = activate_content_version ''v0'' None db_empty\<rparr>\<rparr>)"

definition sample_service :: service where
  "sample_service = projr (fst sample_start_up)"

lemma sample_start_up_ok: "sample_start_up = (Inr sample_service, snd sample_start_up)"
proof -
  have "case fst sample_start_up of Inl _ \<Rightarrow> False | Inr _ \<Rightarrow> True" by code_simp
  then show ?thesis by (auto simp: sample_service_def prod_eq_iff split: sum.splits)
qed

definition sample_call :: "request \<Rightarrow> request_envelope" where
  "sample_call body = \<lparr>rqe_protocol = PROTOCOL_VERSION, rqe_request_id = ''r-1'', rqe_body = body\<rparr>"

definition sample_connection :: "bytes \<Rightarrow> connection" where
  "sample_connection letter = (sample_request_world, Inr sample_client,
     [CHR 0x01, CHR 0x00, CHR 0x00, CHR 0x00] @ letter, \<lparr>sk_written = [], sk_room = 100\<rparr>, False)"

text \<open>A toy encoding of two requests: one letter each, and answers of one byte.\<close>

definition sample_read :: "bytes \<Rightarrow> (request_envelope \<times> bytes) option" where
  "sample_read bs = (case bs of
     [] \<Rightarrow> None
   | c # rest \<Rightarrow> Some (sample_call (if c = CHR ''x'' then request.AddExclusion ''Dir'' True
       else if c = CHR ''s'' then StartScan ''R'' None else RollbackContentUpdate), rest))"

definition sample_run_of_requests :: "service option" where
  "sample_run_of_requests = run_pipe_loop sample_read (\<lambda>_. Some ''.'') False
     [sample_connection ''x'', sample_connection ''s'', sample_connection ''r''] sample_service"

theorem requests_answered_in_kind_witness:
  "(case respond sample_request_world sample_client (sample_call (StartScan ''R'' None)) sample_service of
      None \<Rightarrow> False
    | Some (response, s') \<Rightarrow> rse_request_id response = ''r-1'' \<and> rse_body response = Success (ScanStarted ''1''))"
proof -
  let ?run = "respond sample_request_world sample_client (sample_call (StartScan ''R'' None)) sample_service"
  have "case ?run of None \<Rightarrow> False | Some (q, s') \<Rightarrow> (case rse_body q of Success d \<Rightarrow> d = ScanStarted ''1'' | _ \<Rightarrow> False)"
    by code_simp
  then obtain q s' where r: "?run = Some (q, s')" "rse_body q = Success (ScanStarted ''1'')"
    by (auto split: option.splits response.splits)
  from requests_answered_in_kind [OF r(1)] r show ?thesis by (simp add: sample_call_def)
qed

lemma sample_run_ok:
  "\<exists>s'. sample_run_of_requests = Some s' \<and> db_exclusions (hs_db (ms_host s')) \<noteq> [] \<and> length (js_jobs (ms_jobs s')) = 1"
proof -
  have "case sample_run_of_requests of None \<Rightarrow> False
    | Some s' \<Rightarrow> db_exclusions (hs_db (ms_host s')) \<noteq> [] \<and> length (js_jobs (ms_jobs s')) = 1"
    by code_simp
  then show ?thesis by (auto split: option.splits)
qed

theorem requests_isolate_users_witness:
  "(case sample_run_of_requests of
      None \<Rightarrow> False
    | Some s' \<Rightarrow> records_of ''S-2'' (hs_db (ms_host s')) = records_of ''S-2'' (hs_db (ms_host sample_service))
        \<and> db_exclusions (hs_db (ms_host s')) \<noteq> [])"
proof -
  obtain s' where r: "sample_run_of_requests = Some s'" "db_exclusions (hs_db (ms_host s')) \<noteq> []"
    using sample_run_ok by blast
  have "records_of ''S-2'' (hs_db (ms_host s')) = records_of ''S-2'' (hs_db (ms_host sample_service))"
    by (rule requests_isolate_users [OF r(1) [unfolded sample_run_of_requests_def]])
      (simp_all add: sample_connection_def sample_client_def)
  then show ?thesis unfolding r(1) option.case using r(2) by (rule conjI)
qed


text \<open>A timeline request while a monitor reconciles: the tree of the sample has two directories.\<close>

definition sample_reconciling :: service where
  "sample_reconciling = sample_service\<lparr>ms_session := (ms_session sample_service)\<lparr>zs_activity :=
     (zs_activity (ms_session sample_service))\<lparr>av_monitors := [(cc_sid sample_client, sample_monitor)]\<rparr>\<rparr>\<rparr>"

theorem requests_are_answered_witness:
  "\<exists>response s'. \<forall>k \<ge> 601. respond (sample_request_world\<lparr>mw_fuel := k\<rparr>) sample_client
     (sample_call (GetTimeline None 10 None None None)) sample_reconciling = Some (response, s')"
proof -
  let ?weight = "\<lambda>d. if d = ''R'' then 2 else (1::nat)"
  have w: "pc_powershell (mw_persistence sample_request_world) = pc_powershell sample_startup"
    "aw_files (xw_activity (mw_snapshot sample_request_world)) = sample_files"
    by (simp_all add: sample_request_world_def sample_activity_world_def)
  have f: "weighed (aw_files (xw_activity (mw_snapshot sample_request_world))) ?weight"
    unfolding w by (rule sample_files_weighed)
  have "enough_fuel ?weight sample_client sample_reconciling = 601"
    by (simp add: enough_fuel_def sample_reconciling_def sample_monitor_def)
  with requests_are_answered [OF sample_startup_clock [folded w(1)] f, of sample_client sample_reconciling]
  show ?thesis by simp
qed

end
