(* ===== verification/OG_Process.thy ===== *)
theory OG_Process
  imports OG_Service
begin

text \<open>
  The process around the service (\<^verbatim>\<open>main\<close>, \<^verbatim>\<open>run_windows_service\<close>, \<^verbatim>\<open>capture_client_context\<close> and
  \<^verbatim>\<open>with_client_impersonation\<close> in \<^verbatim>\<open>openguard-service/src/main.rs\<close>) and the stand-alone scanner
  (\<^verbatim>\<open>openguard-scanner/src/main.rs\<close>): whose identity a thread has, which tokens it holds, and what the
  Service Control Manager is told.

  Messages are given without the text of the Windows error that follows them.
\<close>

section \<open>Identity and tokens of a thread\<close>

datatype identity = AsService | AsUser string

text \<open>
  \<open>th_calls\<close> is whether the next calls of Windows work; when it runs out they all do.  \<open>None\<close> as a result
  is the end of the process: a guard that cannot revert aborts it.
\<close>

record thread =
  th_identity :: identity
  th_tokens :: "nat list"
  th_handles :: nat
  th_calls :: "bool list"

definition win_call :: "thread \<Rightarrow> bool \<times> thread" where
  "win_call t = (case th_calls t of [] \<Rightarrow> (True, t) | ok # rest \<Rightarrow> (ok, t\<lparr>th_calls := rest\<rparr>))"

definition win_try :: "string \<Rightarrow> (thread \<Rightarrow> (string + 'a) \<times> thread) \<Rightarrow> thread \<Rightarrow> (string + 'a) \<times> thread" where
  "win_try failure m t = (case win_call t of (ok, t) \<Rightarrow> if ok then m t else (Inl failure, t))"

text \<open>The scope of an \<^verbatim>\<open>ImpersonationGuard\<close>: its drop reverts, or aborts the process.\<close>

definition guarded :: "(thread \<Rightarrow> 'r \<times> thread) \<Rightarrow> thread \<Rightarrow> ('r \<times> thread) option" where
  "guarded m t =
     (case m t of (r, t) \<Rightarrow>
        (case win_call t of (ok, t) \<Rightarrow> if ok then Some (r, t\<lparr>th_identity := AsService\<rparr>) else None))"

definition new_token :: "thread \<Rightarrow> nat \<times> thread" where
  "new_token t = (th_handles t, t\<lparr>th_tokens := th_handles t # th_tokens t, th_handles := Suc (th_handles t)\<rparr>)"

definition close_token :: "nat \<Rightarrow> thread \<Rightarrow> thread" where
  "close_token h t = t\<lparr>th_tokens := removeAll h (th_tokens t)\<rparr>"

text \<open>What the pipe and the token of its client tell.\<close>

record pipe_client =
  pl_user :: string
  pl_process_id :: u32
  pl_bytes_needed :: nat
  pl_sid :: "string option"

definition token_user_sid :: "pipe_client \<Rightarrow> thread \<Rightarrow> (string + string) \<times> thread" where
  "token_user_sid p t =
     (let t = snd (win_call t) in
      if pl_bytes_needed p = 0 then (Inl ''GetTokenInformation did not return a token-user buffer size'', t)
      else win_try ''read named-pipe client SID'' (win_try ''format named-pipe client SID'' (\<lambda>t.
        (case pl_sid p of None \<Rightarrow> Inl ''decode named-pipe client SID'' | Some sid \<Rightarrow> Inr sid, t))) t)"

record token_context =
  tn_sid :: string
  tn_process_id :: u32
  tn_token :: nat

definition capture_client_context :: "pipe_client \<Rightarrow> thread \<Rightarrow> ((string + token_context) \<times> thread) option" where
  "capture_client_context p t =
     (case win_call t of (ok, t) \<Rightarrow>
        if \<not> ok then Some (Inl ''identify named-pipe client process'', t)
        else (case win_call t of (ok, t) \<Rightarrow>
          if \<not> ok then Some (Inl ''impersonate named-pipe client'', t)
          else guarded (win_try ''open named-pipe client token'' (\<lambda>t.
            (case new_token t of (h, t) \<Rightarrow>
               (case token_user_sid p t of
                  (Inl e, t) \<Rightarrow> (Inl e, close_token h t)
                | (Inr sid, t) \<Rightarrow> (Inr \<lparr>tn_sid = sid, tn_process_id = pl_process_id p, tn_token = h\<rparr>, t)))))
            (t\<lparr>th_identity := AsUser (pl_user p)\<rparr>)))"

text \<open>\<open>user\<close> is the user of a token, if the client has one.\<close>

definition impersonated :: "string option \<Rightarrow> (thread \<Rightarrow> 'a \<times> thread) \<Rightarrow> thread \<Rightarrow> ((string + 'a) \<times> thread) option" where
  "impersonated user operation t =
     (case user of
        None \<Rightarrow> Some (case operation t of (a, t) \<Rightarrow> (Inr a, t))
      | Some u \<Rightarrow>
          (case win_call t of (ok, t) \<Rightarrow>
             if \<not> ok then Some (Inl ''impersonate authenticated client'', t)
             else guarded (\<lambda>t. case operation t of (a, t) \<Rightarrow> (Inr a, t)) (t\<lparr>th_identity := AsUser u\<rparr>)))"

definition duplicate_token :: "nat option \<Rightarrow> thread \<Rightarrow> (string + nat option) \<times> thread" where
  "duplicate_token token t =
     (case token of
        None \<Rightarrow> (Inr None, t)
      | Some _ \<Rightarrow> win_try ''duplicate client impersonation token''
          (\<lambda>t. case new_token t of (h, t) \<Rightarrow> (Inr (Some h), t)) t)"

section \<open>The service process\<close>

datatype scm_status = ScmRunning | ScmStopped

text \<open>
  Registering the handler and reporting a state may fail; \<open>created\<close> is the result of \<open>create_state\<close>.
  The result comes with the states that the Service Control Manager was told; \<open>None\<close> is a request that
  is not answered.
\<close>

definition run_windows_service ::
  "(bytes \<Rightarrow> (request_envelope \<times> bytes) option) \<Rightarrow> (response_envelope \<Rightarrow> bytes option) \<Rightarrow> bool \<Rightarrow> (scm_status \<Rightarrow> bool)
   \<Rightarrow> string + service \<Rightarrow> connection list \<Rightarrow> ((string + service) \<times> scm_status list) option" where
  "run_windows_service de ser registered reports created connections =
     (if \<not> registered then Some (Inl ''register native service control handler'', [])
      else if \<not> reports ScmRunning then Some (Inl ''report native service running'', [])
      else case created of
        Inl e \<Rightarrow> Some (Inl e, [ScmRunning])
      | Inr s \<Rightarrow>
          map_option (\<lambda>s. if reports ScmStopped then (Inr s, [ScmRunning, ScmStopped])
              else (Inl ''report native service stopped'', [ScmRunning]))
            (run_pipe_loop de ser False connections s))"

definition wake_request :: request_envelope where
  "wake_request = request_new ''service-stop'' Ping"

definition default_database_path :: "(string \<Rightarrow> string option) \<Rightarrow> bool \<Rightarrow> string" where
  "default_database_path env console =
     (let fallback = (if console then ''.'' else ''C:'' @ [backslash] @ ''ProgramData'');
          root = (case env (if console then ''LOCALAPPDATA'' else ''PROGRAMDATA'') of None \<Rightarrow> fallback | Some v \<Rightarrow> v) in
      join_path (join_path root ''OpenGuard'') ''openguard-native.db'')"

section \<open>The stand-alone scanner\<close>

definition scanner_main ::
  "scan_error + file_scanner \<Rightarrow> (string \<Rightarrow> scan_world) \<Rightarrow> string \<Rightarrow> u64 \<Rightarrow> (scan_error + scan_finding) option" where
  "scanner_main compiled w target maximum_bytes =
     (case compiled of
        Inl e \<Rightarrow> Some (Inl e)
      | Inr scanner \<Rightarrow> scan_file (with_maximum_bytes maximum_bytes scanner) (w target) target)"

section \<open>The identity of the service\<close>

lemma win_call_same:
  "win_call t = (ok, t') \<Longrightarrow> th_identity t' = th_identity t \<and> th_tokens t' = th_tokens t \<and> th_handles t' = th_handles t"
  by (auto simp: win_call_def split: list.splits)

lemma token_user_sid_same:
  "token_user_sid p t = (r, t') \<Longrightarrow> th_identity t' = th_identity t \<and> th_tokens t' = th_tokens t
     \<and> th_handles t' = th_handles t \<and> (\<forall>sid. r = Inr sid \<longrightarrow> pl_sid p = Some sid)"
  unfolding token_user_sid_def win_try_def Let_def
  by (auto split: if_splits prod.splits option.splits dest!: win_call_same) (metis prod.collapse win_call_same)+

lemma guarded_Some:
  "guarded m t = Some (r, t') \<Longrightarrow> \<exists>u. m t = (r, u) \<and> th_identity t' = AsService \<and> th_tokens t' = th_tokens u
     \<and> th_handles t' = th_handles u"
  by (auto simp: guarded_def dest: win_call_same split: prod.splits if_splits)

text \<open>Handles are given out in order, so that a new one is no open one.\<close>

definition thread_ok :: "thread \<Rightarrow> bool" where
  "thread_ok t \<longleftrightarrow> th_identity t = AsService \<and> (\<forall>h \<in> set (th_tokens t). h < th_handles t)"

lemma close_fresh: "thread_ok t \<Longrightarrow> th_handles t \<le> h \<Longrightarrow> removeAll h (th_tokens t) = th_tokens t"
  by (rule removeAll_id) (auto simp: thread_ok_def)

lemma capture_effect:
  assumes "thread_ok t" "capture_client_context p t = Some (r, t1)"
  shows "th_identity t1 = AsService \<and> th_handles t \<le> th_handles t1
    \<and> (case r of Inl _ \<Rightarrow> th_tokens t1 = th_tokens t
        | Inr c \<Rightarrow> th_tokens t1 = tn_token c # th_tokens t \<and> th_handles t \<le> tn_token c
            \<and> tn_token c < th_handles t1 \<and> pl_sid p = Some (tn_sid c))"
proof -
  have service: "th_identity t = AsService" using assms(1) by (simp add: thread_ok_def)
  obtain ok1 u1 where 1: "win_call t = (ok1, u1)" by force
  obtain ok2 u2 where 2: "win_call u1 = (ok2, u2)" by force
  note same = win_call_same [OF 1] win_call_same [OF 2]
  show ?thesis
  proof (cases "ok1 \<and> ok2")
    case False
    with assms(2) 1 2 same service show ?thesis by (auto simp: capture_client_context_def split: if_splits)
  next
    case True
    let ?u = "u2\<lparr>th_identity := AsUser (pl_user p)\<rparr>"
    obtain ok3 u3 where 3: "win_call ?u = (ok3, u3)" by force
    obtain s u4 where 4: "token_user_sid p (snd (new_token u3)) = (s, u4)" by force
    note same3 = win_call_same [OF 3] token_user_sid_same [OF 4]
    have fresh: "removeAll (th_handles t) (th_tokens t) = th_tokens t"
      using assms(1) by (simp add: close_fresh)
    from assms(2) True 1 2 have "guarded (win_try ''open named-pipe client token'' (\<lambda>t.
            (case new_token t of (h, t) \<Rightarrow>
               (case token_user_sid p t of
                  (Inl e, t) \<Rightarrow> (Inl e, close_token h t)
                | (Inr sid, t) \<Rightarrow> (Inr \<lparr>tn_sid = sid, tn_process_id = pl_process_id p, tn_token = h\<rparr>, t))))) ?u = Some (r, t1)"
      by (simp add: capture_client_context_def)
    from guarded_Some [OF this] 3 4 same same3 fresh show ?thesis
      by (cases s) (auto simp: win_try_def new_token_def close_token_def split: if_splits)
  qed
qed

text \<open>
  C4. The identity of a client never stays with the service: whichever calls of Windows fail, when the
  client of a pipe has been identified, and when something has been done in a client's name, the
  thread has the service's own identity again (or the process has ended).  Identifying a client leaves
  exactly one more token open, and none when it fails; what is done in a client's name is done with
  the identity of that client.
\<close>

theorem client_identity_never_stays:
  assumes "thread_ok t"
  shows "(capture_client_context p t = Some (r, t1) \<longrightarrow>
      th_identity t1 = AsService
      \<and> th_tokens t1 = (case r of Inl _ \<Rightarrow> th_tokens t | Inr c \<Rightarrow> tn_token c # th_tokens t))
    \<and> (impersonated (Some user) operation t = Some (q, t2) \<longrightarrow>
      th_identity t2 = AsService
      \<and> (\<forall>a. q = Inr a \<longrightarrow> (\<exists>u v. operation u = (a, v) \<and> th_identity u = AsUser user)))"
proof (rule conjI; rule impI)
  assume "capture_client_context p t = Some (r, t1)"
  from capture_effect [OF assms this]
  show "th_identity t1 = AsService \<and> th_tokens t1 = (case r of Inl _ \<Rightarrow> th_tokens t | Inr c \<Rightarrow> tn_token c # th_tokens t)"
    by (simp split: sum.splits)
next
  assume "impersonated (Some user) operation t = Some (q, t2)"
  then obtain t0 where g: "q = Inl ''impersonate authenticated client'' \<and> th_identity t2 = th_identity t
      \<or> guarded (\<lambda>t. case operation t of (a, t) \<Rightarrow> (Inr a, t)) (t0\<lparr>th_identity := AsUser user\<rparr>) = Some (q, t2)"
    by (auto simp: impersonated_def dest!: win_call_same split: prod.splits if_splits)
  obtain a v where o1: "operation (t0\<lparr>th_identity := AsUser user\<rparr>) = (a, v)" by force
  then have w: "\<exists>u v. operation u = (a, v) \<and> th_identity u = AsUser user"
    by (intro exI [of _ "t0\<lparr>th_identity := AsUser user\<rparr>"] exI [of _ v]) simp
  from g show "th_identity t2 = AsService \<and> (\<forall>a. q = Inr a \<longrightarrow> (\<exists>u v. operation u = (a, v) \<and> th_identity u = AsUser user))"
  proof
    assume "q = Inl ''impersonate authenticated client'' \<and> th_identity t2 = th_identity t"
    with assms show ?thesis by (simp add: thread_ok_def)
  next
    assume "guarded (\<lambda>t. case operation t of (a, t) \<Rightarrow> (Inr a, t)) (t0\<lparr>th_identity := AsUser user\<rparr>) = Some (q, t2)"
    from guarded_Some [OF this] o1 have "q = Inr a" "th_identity t2 = AsService" by auto
    with w show ?thesis by simp
  qed
qed

definition sample_thread :: "bool list \<Rightarrow> thread" where
  "sample_thread calls = \<lparr>th_identity = AsService, th_tokens = [], th_handles = 0, th_calls = calls\<rparr>"

theorem client_identity_never_stays_witness:
  "(case capture_client_context \<lparr>pl_user = ''u'', pl_process_id = 4, pl_bytes_needed = 8, pl_sid = Some ''S-1''\<rparr>
      (sample_thread [True, True, True, True, True, False]) of
    None \<Rightarrow> False
  | Some (r, t1) \<Rightarrow> th_identity t1 = AsService \<and> th_tokens t1 = [])"
proof -
  let ?p = "\<lparr>pl_user = ''u'', pl_process_id = 4, pl_bytes_needed = 8, pl_sid = Some ''S-1''\<rparr>"
    and ?t = "sample_thread [True, True, True, True, True, False]"
  have "case capture_client_context ?p ?t of None \<Rightarrow> False | Some (r, t1) \<Rightarrow> (case r of Inl _ \<Rightarrow> True | Inr _ \<Rightarrow> False)"
    by code_simp
  then obtain e t1 where c: "capture_client_context ?p ?t = Some (Inl e, t1)"
    by (auto split: option.splits sum.splits)
  have "thread_ok ?t" by (simp add: thread_ok_def sample_thread_def)
  from client_identity_never_stays [OF this, of ?p "Inl e" t1 "''u''" "\<lambda>t. ((), t)"] c show ?thesis by (simp add: sample_thread_def)
qed

text \<open>
  The service reports that it runs before it creates its state; when that fails it never reports that
  it has stopped.
\<close>

lemma failed_start_stays_running:
  "reports ScmRunning \<Longrightarrow> run_windows_service de ser True reports (Inl e) connections = Some (Inl e, [ScmRunning])"
  by (simp add: run_windows_service_def)

end
