(* ===== verification/OG_Resources.thy ===== *)
theory OG_Resources
  imports OG_Process OG_Requests
begin

text \<open>
  What the service opens and closes again: the named pipe of a connection, the helper process of the
  ETW monitor (\<^verbatim>\<open>openguard-service/src/main.rs\<close>), the volume of a USN query
  (\<^verbatim>\<open>openguard-windows/src/file_monitor.rs\<close>) and the token of its own process
  (\<^verbatim>\<open>openguard-windows/src/lib.rs\<close>).  The open handles of a thread are its \<open>th_tokens\<close>, whatever they
  stand for.
\<close>

section \<open>Handles that are closed at the end of their scope\<close>

text \<open>\<^verbatim>\<open>OwnedHandle\<close>: \<open>failure\<close> is the result when the handle cannot be opened.\<close>

definition with_handle :: "'r \<Rightarrow> (nat \<Rightarrow> thread \<Rightarrow> 'r \<times> thread) \<Rightarrow> thread \<Rightarrow> 'r \<times> thread" where
  "with_handle failure m t =
     (case win_call t of (ok, t) \<Rightarrow>
        if \<not> ok then (failure, t)
        else (case new_token t of (h, t) \<Rightarrow> (case m h t of (r, t) \<Rightarrow> (r, close_token h t))))"

definition is_elevated :: "bool \<Rightarrow> thread \<Rightarrow> bool \<times> thread" where
  "is_elevated token_elevated =
     with_handle False (\<lambda>_ t. case win_call t of (ok, t) \<Rightarrow> (ok \<and> token_elevated, t))"

record platform_report =
  pf_platform :: string
  pf_process_token_available :: bool
  pf_elevated :: bool

definition platform_health :: "bool \<Rightarrow> thread \<Rightarrow> platform_report \<times> thread" where
  "platform_health token_elevated t =
     (case with_handle False (\<lambda>_ t. (True, t)) t of (available, t) \<Rightarrow>
        (case is_elevated token_elevated t of (elevated, t) \<Rightarrow>
          (\<lparr>pf_platform = ''windows'', pf_process_token_available = available, pf_elevated = elevated\<rparr>, t)))"

section \<open>The change journal of a volume\<close>

text \<open>
  The first component of a path has a colon as its second byte exactly when the path has one there and
  does not begin with a separator.
\<close>

definition drive_volume :: "string \<Rightarrow> string option" where
  "drive_volume path = (case path of
     drive # colon # _ \<Rightarrow>
       if colon = CHR '':'' \<and> \<not> is_separator drive
       then Some ([backslash, backslash] @ ''.'' @ [backslash, drive, colon]) else None
   | _ \<Rightarrow> None)"

text \<open>What \<^verbatim>\<open>DeviceIoControl\<close> writes and how many bytes of it; the structure has seven fields of eight bytes.\<close>

record usn_answer =
  ua_returned :: u32
  ua_checkpoint :: usn_checkpoint

definition query_usn_checkpoint :: "usn_answer \<Rightarrow> string \<Rightarrow> thread \<Rightarrow> (windows_error + usn_checkpoint) \<times> thread" where
  "query_usn_checkpoint reply path =
     (case drive_volume path of
        None \<Rightarrow> (\<lambda>t. (Inl (WinApi (path @ '' has no drive volume'')), t))
      | Some volume \<Rightarrow>
          with_handle (Inl (WinApi (''open USN volume '' @ volume))) (\<lambda>_ t.
            case win_call t of (ok, t) \<Rightarrow>
              (if \<not> ok then Inl (WinApi (''query USN volume '' @ volume))
               else if ua_returned reply < 56 then Inl (WinApi ''USN query returned a short buffer'')
               else Inr (ua_checkpoint reply), t)))"

section \<open>The helper process of the ETW monitor\<close>

record helper_world =
  hw_process_id :: u32
  hw_uuid :: string
  hw_spawns :: bool

definition stop_event_name :: "helper_world \<Rightarrow> string" where
  "stop_event_name w = ''Local'' @ [backslash] @ ''OpenGuardETWStop-'' @ show_nat (unat (hw_process_id w)) @ ''-'' @ hw_uuid w"

definition helper_arguments :: "helper_world \<Rightarrow> string list" where
  "helper_arguments w =
     [''--stop-event'', stop_event_name w, ''--parent-pid'', show_nat (unat (hw_process_id w))]"

text \<open>A started monitor: the handle of its stop event, the arguments of the helper and the state of the readers.\<close>

definition etw_monitor_start ::
  "string \<Rightarrow> helper_world \<Rightarrow> thread \<Rightarrow> (string + nat \<times> string list \<times> etw_monitor) \<times> thread" where
  "etw_monitor_start helper w t =
     (case win_call t of (ok, t) \<Rightarrow>
        if \<not> ok then (Inl ''create ETW stop event'', t)
        else (case new_token t of (h, t) \<Rightarrow>
          if hw_spawns w then (Inr (h, helper_arguments w, etw_start helper), t)
          else (Inl (''start ETW helper '' @ helper), close_token h t)))"

definition etw_helper_path :: "string option \<Rightarrow> (string \<Rightarrow> bool) \<Rightarrow> string \<Rightarrow> string" where
  "etw_helper_path exe is_file crate_directory =
     (let adjacent = with_file_name (case exe of None \<Rightarrow> [] | Some p \<Rightarrow> p) ''OpenGuardETW.exe'' in
      if is_file adjacent then adjacent
      else join_path crate_directory (to_backslashes ''../../build/native/OpenGuardETW.exe''))"

text \<open>
  The drop of the monitor as the steps it takes; \<open>exited i\<close> is the answer to question number \<open>i\<close> whether the
  helper has ended.
\<close>

datatype helper_step = SignalStop | PollHelper | SleepHelper nat | KillHelper | WaitHelper

fun poll_helper :: "(nat \<Rightarrow> bool) \<Rightarrow> nat \<Rightarrow> nat \<Rightarrow> nat \<times> helper_step list" where
  "poll_helper exited 0 i = (i, [])"
| "poll_helper exited (Suc n) i =
     (if exited i then (Suc i, [PollHelper])
      else (case poll_helper exited n (Suc i) of (j, steps) \<Rightarrow> (j, PollHelper # SleepHelper 50 # steps)))"

definition etw_monitor_drop :: "(nat \<Rightarrow> bool) \<Rightarrow> nat \<Rightarrow> thread \<Rightarrow> helper_step list \<times> thread" where
  "etw_monitor_drop exited h t =
     (case poll_helper exited 20 0 of (i, steps) \<Rightarrow>
        (SignalStop # steps @ PollHelper # (if exited i then [] else [KillHelper, WaitHelper]),
         close_token h (snd (win_call t))))"

section \<open>One connection of the named pipe\<close>

text \<open>
  Who connects and what it sends; \<open>pp_connected\<close> is whether the client was faster than the call that waits
  for it, and \<open>pp_stop\<close> whether a stop has been requested by the end of the connection.
\<close>

record pipe_end =
  pp_client :: pipe_client
  pp_connected :: bool
  pp_input :: bytes
  pp_output :: sink
  pp_stop :: bool

definition context_of :: "token_context \<Rightarrow> client_context" where
  "context_of c = \<lparr>cc_sid = tn_sid c, cc_process_id = tn_process_id c, cc_token = True\<rparr>"

text \<open>\<open>None\<close> is a process that has ended, or a request that is not answered.\<close>

type_synonym served = "((string + unit) \<times> sink \<times> service) option"

definition serve_client ::
  "(bytes \<Rightarrow> (request_envelope \<times> bytes) option) \<Rightarrow> (response_envelope \<Rightarrow> bytes option) \<Rightarrow> request_world
   \<Rightarrow> pipe_end \<Rightarrow> service \<Rightarrow> thread \<Rightarrow> served \<times> thread" where
  "serve_client de ser w p s t =
     (case read_frame de (pp_input p) of
        Inl _ \<Rightarrow> (Some (Inl ''read request frame'', pp_output p, s), t)
      | Inr _ \<Rightarrow>
          (case capture_client_context (pp_client p) t of
             None \<Rightarrow> (None, t)
           | Some (client, t) \<Rightarrow>
               (serve_connection de ser w (map_sum id context_of client) (pp_input p) (pp_output p) s,
                case client of Inl _ \<Rightarrow> t | Inr c \<Rightarrow> close_token (tn_token c) t)))"

definition serve_pipe ::
  "(bytes \<Rightarrow> (request_envelope \<times> bytes) option) \<Rightarrow> (response_envelope \<Rightarrow> bytes option) \<Rightarrow> request_world
   \<Rightarrow> pipe_end \<Rightarrow> service \<Rightarrow> thread \<Rightarrow> served \<times> thread" where
  "serve_pipe de ser w p s =
     (let refused = (\<lambda>e. Some (Inl e, pp_output p, s)) in
      with_handle (refused ''create named-pipe security descriptor'') (\<lambda>_.
        with_handle (refused ''CreateNamedPipeW failed'') (\<lambda>_ t.
          case win_call t of (ok, t) \<Rightarrow>
            if ok \<or> pp_connected p then serve_client de ser w p s t
            else (refused ''ConnectNamedPipe failed'', t))))"

fun run_pipes ::
  "(bytes \<Rightarrow> (request_envelope \<times> bytes) option) \<Rightarrow> (response_envelope \<Rightarrow> bytes option) \<Rightarrow> bool
   \<Rightarrow> (request_world \<times> pipe_end) list \<Rightarrow> thread \<Rightarrow> service \<Rightarrow> (thread \<times> service) option" where
  "run_pipes de ser once [] t s = Some (t, s)"
| "run_pipes de ser once ((w, p) # rest) t s =
     (case serve_pipe de ser w p s t of
        (None, _) \<Rightarrow> None
      | (Some (_, _, s), t) \<Rightarrow> if once \<or> pp_stop p then Some (t, s) else run_pipes de ser once rest t s)"

section \<open>Nothing stays open\<close>

text \<open>An operation that gives back what it opens.\<close>

definition tidy :: "(thread \<Rightarrow> 'r \<times> thread) \<Rightarrow> bool" where
  "tidy m \<longleftrightarrow> (\<forall>t. thread_ok t \<longrightarrow> th_identity (snd (m t)) = AsService
     \<and> th_tokens (snd (m t)) = th_tokens t \<and> th_handles t \<le> th_handles (snd (m t)))"

lemma tidyI:
  assumes "\<And>t. thread_ok t \<Longrightarrow> th_identity (snd (m t)) = AsService \<and> th_tokens (snd (m t)) = th_tokens t
    \<and> th_handles t \<le> th_handles (snd (m t))"
  shows "tidy m"
  using assms by (simp add: tidy_def)

lemma tidy_thread: "tidy m \<Longrightarrow> thread_ok t \<Longrightarrow> thread_ok (snd (m t)) \<and> th_tokens (snd (m t)) = th_tokens t"
  by (fastforce simp: tidy_def thread_ok_def)

lemma tidy_pure: "tidy (\<lambda>t. (r, t))"
  by (auto simp: tidy_def thread_ok_def)

lemma win_call_keeps:
  "th_identity (snd (win_call t)) = th_identity t" "th_tokens (snd (win_call t)) = th_tokens t"
  "th_handles (snd (win_call t)) = th_handles t"
  using win_call_same [of t "fst (win_call t)" "snd (win_call t)"] by simp_all

lemma thread_ok_win_call: "thread_ok t \<Longrightarrow> thread_ok (snd (win_call t))"
  by (simp add: thread_ok_def win_call_keeps)

lemma tidy_call:
  assumes "\<And>ok. tidy (m ok)"
  shows "tidy (\<lambda>t. case win_call t of (ok, t) \<Rightarrow> m ok t)"
proof (rule tidyI)
  fix t
  assume "thread_ok t"
  from assms [unfolded tidy_def, rule_format, OF thread_ok_win_call [OF this], of "fst (win_call t)"]
  show "th_identity (snd (case win_call t of (ok, t) \<Rightarrow> m ok t)) = AsService
    \<and> th_tokens (snd (case win_call t of (ok, t) \<Rightarrow> m ok t)) = th_tokens t
    \<and> th_handles t \<le> th_handles (snd (case win_call t of (ok, t) \<Rightarrow> m ok t))"
    by (simp add: win_call_keeps case_prod_beta)
qed

lemma tidy_if: "tidy a \<Longrightarrow> tidy b \<Longrightarrow> tidy (\<lambda>t. if c then a t else b t)"
  by (cases c) simp_all

lemma thread_ok_new_token: "thread_ok t \<Longrightarrow> thread_ok (snd (new_token t))"
  by (auto simp: thread_ok_def new_token_def)

lemma tidy_handle:
  assumes "\<And>h. tidy (m h)"
  shows "tidy (with_handle failure m)"
proof (rule tidyI)
  fix t
  assume ok: "thread_ok t"
  obtain works u where u: "win_call t = (works, u)" by force
  note same = win_call_same [OF u]
  from ok same have "thread_ok u" by (simp add: thread_ok_def)
  then have v: "thread_ok (snd (new_token u))" by (rule thread_ok_new_token)
  obtain r v where m: "m (th_handles u) (snd (new_token u)) = (r, v)" by force
  with assms [of "th_handles u"] v have "th_identity v = AsService" "th_tokens v = th_handles u # th_tokens u"
    "Suc (th_handles u) \<le> th_handles v"
    unfolding tidy_def by (auto simp: new_token_def)
  with ok same u m close_fresh [OF ok order_refl]
  show "th_identity (snd (with_handle failure m t)) = AsService
    \<and> th_tokens (snd (with_handle failure m t)) = th_tokens t
    \<and> th_handles t \<le> th_handles (snd (with_handle failure m t))"
    by (auto simp: with_handle_def new_token_def close_token_def thread_ok_def)
qed

lemma tidy_serve_client: "tidy (serve_client de ser w p s)"
proof (rule tidyI)
  fix t
  assume ok: "thread_ok t"
  show "th_identity (snd (serve_client de ser w p s t)) = AsService
    \<and> th_tokens (snd (serve_client de ser w p s t)) = th_tokens t
    \<and> th_handles t \<le> th_handles (snd (serve_client de ser w p s t))"
    using ok capture_effect [OF ok, of "pp_client p"] close_fresh [OF ok]
    by (auto simp: serve_client_def thread_ok_def close_token_def split: sum.splits option.splits)
qed

lemma tidy_serve_pipe: "tidy (serve_pipe de ser w p s)"
  unfolding serve_pipe_def Let_def
  by (intro tidy_handle tidy_call tidy_if tidy_serve_client tidy_pure)

text \<open>The questions about the platform and the volume close what they open.\<close>

lemma tidy_queries:
  "tidy (is_elevated e)" "tidy (platform_health e)" "tidy (query_usn_checkpoint reply path)"
proof -
  show elevated: "tidy (is_elevated e)"
    unfolding is_elevated_def by (intro tidy_handle tidy_call tidy_pure)
  show "tidy (query_usn_checkpoint reply path)"
    unfolding query_usn_checkpoint_def by (cases "drive_volume path") (simp_all add: tidy_pure tidy_handle tidy_call)
  have available: "tidy (with_handle False (\<lambda>_ t. (True, t)))" by (intro tidy_handle tidy_pure)
  show "tidy (platform_health e)"
  proof (rule tidyI)
    fix t
    assume ok: "thread_ok t"
    let ?u = "snd (with_handle False (\<lambda>_ t. (True, t)) t)"
    have "thread_ok ?u" using tidy_thread [OF available ok] by simp
    with available elevated ok show "th_identity (snd (platform_health e t)) = AsService
      \<and> th_tokens (snd (platform_health e t)) = th_tokens t \<and> th_handles t \<le> th_handles (snd (platform_health e t))"
      by (fastforce simp: platform_health_def tidy_def case_prod_beta)
  qed
qed

section \<open>The pipe as a sequence of connections\<close>

text \<open>
  The connection that a pipe stands for: the client is nobody, or the user of the pipe's token with what
  came over the pipe.
\<close>

definition admits :: "pipe_end \<Rightarrow> string + client_context \<Rightarrow> bytes \<Rightarrow> bool" where
  "admits p client input \<longleftrightarrow>
     (case client of Inl _ \<Rightarrow> True | Inr c \<Rightarrow> input = pp_input p \<and> pl_sid (pp_client p) = Some (cc_sid c))"

fun stands_for :: "request_world \<times> pipe_end \<Rightarrow> connection \<Rightarrow> bool" where
  "stands_for (w, p) (w', client, input, output, stop) \<longleftrightarrow>
     w' = w \<and> output = pp_output p \<and> stop = pp_stop p \<and> admits p client input"

lemma with_handle_cases:
  assumes "thread_ok t" "P failure" "\<And>h u. thread_ok u \<Longrightarrow> P (fst (m h u))"
  shows "P (fst (with_handle failure m t))"
proof -
  obtain works u where u: "win_call t = (works, u)" by force
  with thread_ok_new_token [OF thread_ok_win_call [OF assms(1)]] assms(2) assms(3) [of "snd (new_token u)" "th_handles u"]
  show ?thesis by (cases works) (simp_all add: with_handle_def new_token_def case_prod_beta)
qed

lemma serve_nobody: "serve_connection de ser w (Inl e) [] output s = Some (Inl ''read request frame'', output, s)"
  by (simp add: serve_connection_def read_frame_def read_exact_def)

text \<open>What a pipe does to the service is what some admitted connection does.\<close>

definition accounted ::
  "(bytes \<Rightarrow> (request_envelope \<times> bytes) option) \<Rightarrow> (response_envelope \<Rightarrow> bytes option) \<Rightarrow> request_world
   \<Rightarrow> pipe_end \<Rightarrow> service \<Rightarrow> served \<Rightarrow> bool" where
  "accounted de ser w p s result \<longleftrightarrow> (\<forall>r out s'. result = Some (r, out, s') \<longrightarrow>
     (\<exists>q client input. serve_connection de ser w client input (pp_output p) s = Some (q, out, s') \<and> admits p client input))"

lemma accounted_refused: "accounted de ser w p s (Some (Inl e, pp_output p, s))"
proof -
  have "admits p (Inl []) []" by (simp add: admits_def)
  with serve_nobody show ?thesis unfolding accounted_def by blast
qed

lemma accounted_client:
  assumes "thread_ok t"
  shows "accounted de ser w p s (fst (serve_client de ser w p s t))"
proof (cases "read_frame de (pp_input p)")
  case (Inl e)
  then show ?thesis by (simp add: serve_client_def accounted_refused)
next
  case (Inr v)
  show ?thesis
  proof (cases "capture_client_context (pp_client p) t")
    case None
    with Inr show ?thesis by (simp add: serve_client_def accounted_def)
  next
    case (Some captured)
    obtain r u where c: "captured = (r, u)" by force
    have "admits p (map_sum id context_of r) (pp_input p)"
      using capture_effect [OF assms, of "pp_client p" r u] Some c
      by (auto simp: admits_def context_of_def split: sum.splits)
    with Inr Some c show ?thesis unfolding accounted_def serve_client_def by fastforce
  qed
qed

lemma serve_pipe_accounted:
  assumes "thread_ok t"
  shows "accounted de ser w p s (fst (serve_pipe de ser w p s t))"
proof -
  let ?refused = "\<lambda>e. Some (Inl e, pp_output p, s)"
  let ?wait = "\<lambda>t. case win_call t of (ok, t) \<Rightarrow>
    if ok \<or> pp_connected p then serve_client de ser w p s t else (?refused ''ConnectNamedPipe failed'', t)"
  have wait: "accounted de ser w p s (fst (?wait u))" if "thread_ok u" for u
  proof -
    from thread_ok_win_call [OF that] show ?thesis by (simp add: case_prod_beta accounted_client accounted_refused)
  qed
  have pipe: "accounted de ser w p s (fst (with_handle (?refused ''CreateNamedPipeW failed'') (\<lambda>_. ?wait) u))"
    if "thread_ok u" for u
    by (rule with_handle_cases [OF that]) (rule accounted_refused, erule wait)
  show ?thesis
    unfolding serve_pipe_def Let_def
    by (rule with_handle_cases [OF assms]) (rule accounted_refused, erule pipe)
qed


text \<open>A pipe that cannot be created is followed by one whose client adds an exclusion.\<close>

definition sample_pipe :: "request_world \<times> pipe_end" where
  "sample_pipe = (sample_request_world,
     \<lparr>pp_client = \<lparr>pl_user = ''u'', pl_process_id = 4, pl_bytes_needed = 8, pl_sid = Some (cc_sid sample_client)\<rparr>,
      pp_connected = False, pp_input = [CHR 0x01, CHR 0x00, CHR 0x00, CHR 0x00] @ ''x'',
      pp_output = \<lparr>sk_written = [], sk_room = 100\<rparr>, pp_stop = False\<rparr>)"

definition sample_run_of_pipes :: "(thread \<times> service) option" where
  "sample_run_of_pipes = run_pipes sample_read (\<lambda>_. Some ''.'') False [sample_pipe, sample_pipe]
     (sample_thread [True, False]) sample_service"


section \<open>The helper always ends\<close>

definition slept :: "helper_step list \<Rightarrow> nat" where
  "slept steps = sum_list (map (\<lambda>s. case s of SleepHelper ms \<Rightarrow> ms | _ \<Rightarrow> 0) steps)"

lemma poll_helper_steps:
  "slept (snd (poll_helper exited n i)) \<le> 50 * n
   \<and> KillHelper \<notin> set (snd (poll_helper exited n i)) \<and> WaitHelper \<notin> set (snd (poll_helper exited n i))"
  by (induction exited n i rule: poll_helper.induct) (auto simp: slept_def split: prod.splits)

lemma poll_helper_last:
  "fst (poll_helper exited n i) \<le> i + n
   \<and> (fst (poll_helper exited n i) = i + n \<or> (\<exists>k < fst (poll_helper exited n i). exited k))"
  by (induction exited n i rule: poll_helper.induct) (auto split: prod.splits)

text \<open>
  The drop of the ETW monitor ends: the helper is asked to stop, waited for at most one second, and
  killed and waited for exactly when it has not ended by itself; the stop event is closed.  What has
  ended stays ended.
\<close>

lemma helper_always_ends:
  assumes "mono exited" "thread_ok t" "etw_monitor_start helper hw t = (Inr (h, arguments, m), u)"
    and "etw_monitor_drop exited h u = (steps, v)"
  shows "th_tokens v = th_tokens t
    \<and> slept steps \<le> 1000
    \<and> (KillHelper \<in> set steps \<longleftrightarrow> \<not> exited 20) \<and> (WaitHelper \<in> set steps \<longleftrightarrow> \<not> exited 20)"
proof -
  obtain j polls where p: "poll_helper exited 20 0 = (j, polls)" by force
  from poll_helper_last [of exited 20 0] p have j: "j \<le> 20" "j = 20 \<or> (\<exists>k < j. exited k)" by simp_all
  have up: "exited a \<Longrightarrow> a \<le> b \<Longrightarrow> exited b" for a b
    using monoD [OF assms(1), of a b] by (simp add: le_bool_def)
  have "exited j \<longleftrightarrow> exited 20"
    using j up [of j 20] up [of _ j] up [of _ 20] by auto
  moreover have "th_tokens v = th_tokens t"
  proof -
    obtain ok t1 where c: "win_call t = (ok, t1)" by force
    from assms(3,4) c win_call_same [OF c] close_fresh [OF assms(2) order_refl] show ?thesis
      by (auto simp: etw_monitor_start_def etw_monitor_drop_def new_token_def close_token_def win_call_keeps
          split: if_splits prod.splits)
  qed
  ultimately show ?thesis using assms(4) p poll_helper_steps [of exited 20 0]
    by (auto simp: etw_monitor_drop_def slept_def)
qed

text \<open>A canonical path of Windows has no drive letter in front: its volume is never found.\<close>

lemma verbatim_path_has_no_volume:
  "query_usn_checkpoint reply ([backslash, backslash] @ path) t
     = (Inl (WinApi ([backslash, backslash] @ path @ '' has no drive volume'')), t)"
  by (simp add: query_usn_checkpoint_def drive_volume_def is_separator_def)

end
