(* ===== verification/OG_Client.thy ===== *)
theory OG_Client
  imports OG_Service
begin

text \<open>
  The command-line client (\<^verbatim>\<open>openguard-cli/src/main.rs\<close>): connecting to the pipe of the service, one
  exchange per request, waiting for a scan, and the commands.

  The other end of the pipe is a parameter: a state of any type, an attempt to open the pipe, and an
  exchange that takes what was written and gives back what the client reads.  Times are nanoseconds;
  every step takes the time it likes, and a sleep ends at \<open>cx_wake\<close>.
\<close>

section \<open>The client and its surroundings\<close>

datatype scm_call =
  OpenManager bool | CreateService string | OpenService "string list" | StartService | StopService
  | QueryStatus | DeleteService

record 'p cli_world =
  cx_open :: "'p \<Rightarrow> nat \<Rightarrow> (nat option + sink) \<times> 'p \<times> nat"
  cx_exchange :: "'p \<Rightarrow> bytes \<Rightarrow> nat \<Rightarrow> bytes \<times> 'p \<times> nat"
  cx_wake :: "nat \<Rightarrow> nat \<Rightarrow> nat"
  cx_uuid :: "nat \<Rightarrow> string"
  cx_ser :: "request_envelope \<Rightarrow> bytes option"
  cx_de :: "bytes \<Rightarrow> (response_envelope \<times> bytes) option"
  cx_canonical :: "string \<Rightarrow> string option"
  cx_is_file :: "string \<Rightarrow> bool"
  cx_current_exe :: "string option"
  cx_token :: bool
  cx_elevated :: bool
  cx_version :: string
  cx_scm_works :: "nat \<Rightarrow> bool"
  cx_scm_state :: "nat \<Rightarrow> string"
  cx_scm_pid :: "nat \<Rightarrow> nat option"

text \<open>\<open>cl_log\<close> is every request that was sent in full, with what became of it.\<close>

record 'p cli =
  cl_peer :: 'p
  cl_now :: nat
  cl_uuids :: nat
  cl_log :: "(request \<times> (string + response)) list"
  cl_scm :: "scm_call list"

type_synonym ('p, 'a) cli_result = "((string + 'a) \<times> 'p cli) option"

text \<open>The operator \<^verbatim>\<open>?\<close>; \<open>None\<close> is a computation that does not end within its fuel.\<close>

definition cli_then :: "('p, 'a) cli_result \<Rightarrow> ('a \<Rightarrow> 'p cli \<Rightarrow> ('p, 'b) cli_result) \<Rightarrow> ('p, 'b) cli_result" where
  "cli_then m k = (case m of None \<Rightarrow> None | Some (Inl e, c) \<Rightarrow> Some (Inl e, c) | Some (Inr a, c) \<Rightarrow> k a c)"

definition cli_sleep :: "'p cli_world \<Rightarrow> nat \<Rightarrow> 'p cli \<Rightarrow> 'p cli" where
  "cli_sleep w duration c = c\<lparr>cl_now := cx_wake w (cl_now c) duration\<rparr>"

definition MILLISECOND :: nat where "MILLISECOND = 10 ^ 6"

definition SECOND :: nat where "SECOND = 1000 * MILLISECOND"

section \<open>Requests\<close>

text \<open>
  A pipe that does not exist yet (2) or whose instances are all busy (231) is tried again for three
  seconds.
\<close>

fun connect_pipe :: "nat \<Rightarrow> 'p cli_world \<Rightarrow> nat \<Rightarrow> 'p cli \<Rightarrow> ('p, sink) cli_result" where
  "connect_pipe 0 w started c = None"
| "connect_pipe (Suc fuel) w started c =
     (case cx_open w (cl_peer c) (cl_now c) of
        (opened, p, t) \<Rightarrow>
          (let c = c\<lparr>cl_peer := p, cl_now := t\<rparr> in
           case opened of
             Inr pipe \<Rightarrow> Some (Inr pipe, c)
           | Inl os_error \<Rightarrow>
               if (os_error = Some 2 \<or> os_error = Some 231) \<and> cl_now c - started < 3 * SECOND
               then connect_pipe fuel w started (cli_sleep w (25 * MILLISECOND) c)
               else Some (Inl ''connect to the OpenGuard native service pipe'', c)))"

fun error_code_name :: "error_code \<Rightarrow> string" where
  "error_code_name InvalidRequest = ''invalid_request''"
| "error_code_name UnsupportedProtocol = ''unsupported_protocol''"
| "error_code_name Unauthorized = ''unauthorized''"
| "error_code_name Forbidden = ''forbidden''"
| "error_code_name NotFound = ''not_found''"
| "error_code_name Conflict = ''conflict''"
| "error_code_name Busy = ''busy''"
| "error_code_name LimitedCoverage = ''limited_coverage''"
| "error_code_name Internal = ''internal''"

text \<open>The code is printed as a JSON value, with its quotation marks.\<close>

definition api_error_text :: "api_error \<Rightarrow> string" where
  "api_error_text e = [CHR 0x22] @ error_code_name (ae_code e) @ [CHR 0x22] @ '': '' @ ae_message e"

text \<open>What the client makes of the bytes it reads.\<close>

definition receive_response :: "'p cli_world \<Rightarrow> string \<Rightarrow> bytes \<Rightarrow> string + response" where
  "receive_response w request_id bs =
     (case read_frame (cx_de w) bs of
        Inl _ \<Rightarrow> Inl ''read native service response''
      | Inr (response, _) \<Rightarrow>
          (case validate_response response of
             Inl _ \<Rightarrow> Inl ''validate native service response''
           | Inr _ \<Rightarrow>
               if rse_request_id response \<noteq> request_id
               then Inl ''native service response request identifier mismatch''
               else (case rse_body response of
                       Error e \<Rightarrow> Inl (api_error_text e)
                     | Success data \<Rightarrow> Inr (Success data))))"

text \<open>A request that cannot be written in full is cut off; the other end sees what was written of it.\<close>

definition send :: "nat \<Rightarrow> 'p cli_world \<Rightarrow> request \<Rightarrow> 'p cli \<Rightarrow> ('p, response) cli_result" where
  "send fuel w body c =
     (let request_id = cx_uuid w (cl_uuids c); c = c\<lparr>cl_uuids := Suc (cl_uuids c)\<rparr> in
      cli_then (connect_pipe fuel w (cl_now c) c) (\<lambda>pipe c.
        (case write_frame (cx_ser w) pipe (request_new request_id body) of
           (pipe, written) \<Rightarrow>
             (case cx_exchange w (cl_peer c) (sk_written pipe) (cl_now c) of
                (bs, p, t) \<Rightarrow>
                  (let c = c\<lparr>cl_peer := p, cl_now := t\<rparr> in
                   case written of
                     Inl _ \<Rightarrow> Some (Inl ''write native service request'', c)
                   | Inr _ \<Rightarrow>
                       (let r = receive_response w request_id bs in
                        Some (r, c\<lparr>cl_log := cl_log c @ [(body, r)]\<rparr>)))))))"

section \<open>Waiting for a scan\<close>

fun wait_scan ::
  "nat \<Rightarrow> nat \<Rightarrow> 'p cli_world \<Rightarrow> string \<Rightarrow> nat \<Rightarrow> nat \<Rightarrow> 'p cli \<Rightarrow> ('p, scan_job_status) cli_result" where
  "wait_scan 0 fuel w scan_id seconds started c = None"
| "wait_scan (Suc polls) fuel w scan_id seconds started c =
     (if seconds * SECOND < cl_now c - started
      then Some (Inl (''scan '' @ scan_id @ '' timed out after '' @ show_nat seconds @ ''s''), c)
      else cli_then (send fuel w (GetScan scan_id) c) (\<lambda>response c.
        (case response of
           Error _ \<Rightarrow> Some (Inl ''native service rejected scan status request'', c)
         | Success data \<Rightarrow>
             (case data of
                ScanStatus status \<Rightarrow>
                  if sj_state status = Queued \<or> sj_state status = Running
                  then wait_scan polls fuel w scan_id seconds started (cli_sleep w (100 * MILLISECOND) c)
                  else Some (Inr status, c)
              | _ \<Rightarrow> Some (Inl ''native service returned the wrong scan status response'', c)))))"

definition start_scan_and_wait ::
  "nat \<Rightarrow> nat \<Rightarrow> 'p cli_world \<Rightarrow> request \<Rightarrow> nat \<Rightarrow> 'p cli \<Rightarrow> ('p, scan_job_status) cli_result" where
  "start_scan_and_wait polls fuel w request seconds c =
     cli_then (send fuel w request c) (\<lambda>response c.
       (case response of
          Error _ \<Rightarrow> Some (Inl ''native service rejected scan request'', c)
        | Success data \<Rightarrow>
            (case data of
               ScanStarted scan_id \<Rightarrow> wait_scan polls fuel w scan_id seconds (cl_now c) c
             | _ \<Rightarrow> Some (Inl ''native service returned the wrong scan response'', c))))"

definition resolve_path :: "'p cli_world \<Rightarrow> string \<Rightarrow> string \<Rightarrow> 'p cli \<Rightarrow> ('p, string) cli_result" where
  "resolve_path w what path c =
     Some (case cx_canonical w path of None \<Rightarrow> Inl (''resolve '' @ what @ '' '' @ path) | Some p \<Rightarrow> Inr p, c)"

definition scan_path_status ::
  "nat \<Rightarrow> nat \<Rightarrow> 'p cli_world \<Rightarrow> string \<Rightarrow> nat \<Rightarrow> 'p cli \<Rightarrow> ('p, scan_job_status) cli_result" where
  "scan_path_status polls fuel w target seconds c =
     cli_then (resolve_path w ''scan target'' target c) (\<lambda>target.
       start_scan_and_wait polls fuel w (StartScan target None) seconds)"

definition status_finding :: "scan_job_status \<Rightarrow> scan_finding option" where
  "status_finding status =
     (case sj_finding status of
        Some f \<Rightarrow> Some f
      | None \<Rightarrow> (case sj_findings status of [] \<Rightarrow> None | f # _ \<Rightarrow> Some f))"

definition response_value :: "response \<Rightarrow> 'p cli \<Rightarrow> ('p, response_data) cli_result" where
  "response_value response c =
     Some (case response of Success data \<Rightarrow> Inr data | Error e \<Rightarrow> Inl (ae_message e), c)"

definition quarantine_file ::
  "nat \<Rightarrow> nat \<Rightarrow> 'p cli_world \<Rightarrow> string \<Rightarrow> nat \<Rightarrow> 'p cli \<Rightarrow> ('p, response_data) cli_result" where
  "quarantine_file polls fuel w target seconds c =
     (if \<not> cx_is_file w target then Some (Inl ''quarantine accepts one regular file at a time'', c)
      else cli_then (scan_path_status polls fuel w target seconds c) (\<lambda>status c.
        (case status_finding status of
           None \<Rightarrow> Some (Inl ''the scan did not return a file finding'', c)
         | Some finding \<Rightarrow> cli_then (send fuel w (Quarantine finding) c) response_value)))"

section \<open>The Windows service\<close>

text \<open>
  Calls to the Service Control Manager, each of which may fail; \<open>cx_scm_state\<close> is the state that the
  k-th call reports, as \<^verbatim>\<open>Debug\<close> prints it, and \<open>cx_scm_pid\<close> the process identifier with it.
\<close>

definition scm_do :: "'p cli_world \<Rightarrow> string \<Rightarrow> scm_call \<Rightarrow> 'p cli \<Rightarrow> ('p, nat) cli_result" where
  "scm_do w failure call c =
     (let k = length (cl_scm c) in
      Some (if cx_scm_works w k then Inr k else Inl failure, c\<lparr>cl_scm := cl_scm c @ [call]\<rparr>))"

definition SERVICE_NAME :: string where "SERVICE_NAME = ''OpenGuardNative''"

definition open_service :: "'p cli_world \<Rightarrow> string list \<Rightarrow> 'p cli \<Rightarrow> ('p, nat) cli_result" where
  "open_service w access c =
     cli_then (scm_do w ''open the Windows Service Control Manager'' (OpenManager False) c) (\<lambda>_.
       scm_do w ''open OpenGuardNative service'' (OpenService access))"

definition service_binary_next_to_cli :: "'p cli_world \<Rightarrow> 'p cli \<Rightarrow> ('p, string) cli_result" where
  "service_binary_next_to_cli w c =
     Some (case cx_current_exe w of
         None \<Rightarrow> Inl ''locate OpenGuardCLI executable''
       | Some exe \<Rightarrow> Inr (with_file_name exe ''OpenGuardService.exe''), c)"

datatype service_command =
  ServiceStatus | ServiceInstall "string option" | ServiceStart | ServiceStop | ServiceUninstall

definition service_report :: "string \<Rightarrow> (string \<times> json) list \<Rightarrow> json" where
  "service_report state members =
     JObject ([(''service'', JString SERVICE_NAME), (''state'', JString state)] @ members)"

definition manage_service :: "'p cli_world \<Rightarrow> service_command \<Rightarrow> 'p cli \<Rightarrow> ('p, json) cli_result" where
  "manage_service w action c =
     (case action of
        ServiceInstall binary \<Rightarrow>
          cli_then (case binary of None \<Rightarrow> service_binary_next_to_cli w c | Some b \<Rightarrow> Some (Inr b, c)) (\<lambda>binary c.
          (case cx_canonical w binary of
             None \<Rightarrow> Some (Inl ''canonicalize'', c)
           | Some binary \<Rightarrow>
               cli_then (scm_do w ''open the Windows Service Control Manager; installation requires elevation''
                   (OpenManager True) c) (\<lambda>_ c.
               cli_then (scm_do w ''create OpenGuardNative service; installation requires elevation''
                   (CreateService binary) c) (\<lambda>_ c.
               cli_then (scm_do w ''start OpenGuardNative'' StartService c) (\<lambda>_ c.
                 Some (Inr (service_report ''start_requested'' [(''binary'', JString binary)]), c))))))
      | ServiceStatus \<Rightarrow>
          cli_then (open_service w [''QUERY_STATUS''] c) (\<lambda>_ c.
          cli_then (scm_do w ''query OpenGuardNative status'' QueryStatus c) (\<lambda>k c.
            Some (Inr (service_report (to_ascii_lowercase (cx_scm_state w k))
              [(''process_id'', case cx_scm_pid w k of None \<Rightarrow> JNull | Some pid \<Rightarrow> JPosInt pid)]), c)))
      | ServiceStart \<Rightarrow>
          cli_then (open_service w [''START'', ''QUERY_STATUS''] c) (\<lambda>_ c.
          cli_then (scm_do w ''start OpenGuardNative'' StartService c) (\<lambda>_ c.
            Some (Inr (service_report ''start_requested'' []), c)))
      | ServiceStop \<Rightarrow>
          cli_then (open_service w [''STOP'', ''QUERY_STATUS''] c) (\<lambda>_ c.
          cli_then (scm_do w ''stop OpenGuardNative'' StopService c) (\<lambda>k c.
            Some (Inr (service_report (to_ascii_lowercase (cx_scm_state w k)) []), c)))
      | ServiceUninstall \<Rightarrow>
          cli_then (open_service w [''STOP'', ''QUERY_STATUS'', ''DELETE''] c) (\<lambda>_ c.
            (let k = length (cl_scm c);
                 running = cx_scm_works w k \<and> cx_scm_state w k \<in> {''Running'', ''StartPending''};
                 c = c\<lparr>cl_scm := cl_scm c @ [QueryStatus]\<rparr>;
                 c = (if running then c\<lparr>cl_scm := cl_scm c @ [StopService]\<rparr> else c) in
             cli_then (scm_do w ''delete OpenGuardNative service'' DeleteService c) (\<lambda>_ c.
               Some (Inr (service_report ''delete_requested'' []), c)))))"

section \<open>The commands\<close>

datatype update_command = UpdateStatus | UpdateInstall | UpdateRollback

datatype policy_command =
  PolicyExclusions | PolicyExclude string bool | PolicyRemoveExclusion string
  | PolicyAllowedHashes | PolicyAllowHash string string | PolicyRemoveAllowedHash string

datatype profile_argument = QuickProfile | DownloadsProfile | StartupProfile | FullProfile

datatype cli_command =
  CmdDoctor | CmdHealth | CmdSnapshot | CmdEvents u32 | CmdScan string nat
  | CmdScanProfile profile_argument nat | CmdScanStatus string | CmdCancelScan string
  | CmdQuarantine string nat | CmdQuarantineList u32 | CmdQuarantineRestore string "string option"
  | CmdUpdate update_command | CmdPolicy policy_command | CmdService service_command | CmdProtocolFixture

fun profile_of :: "profile_argument \<Rightarrow> scan_profile" where
  "profile_of QuickProfile = Quick"
| "profile_of DownloadsProfile = Downloads"
| "profile_of StartupProfile = Startup"
| "profile_of FullProfile = Full"

text \<open>What is printed: the JSON of one of these values.\<close>

datatype cli_output =
  DataOutput response_data | StatusOutput scan_job_status | JsonOutput json
  | EnvelopeOutput request_envelope | DoctorOutput string u16 bool bool "string + response_data"

definition cli_map :: "('a \<Rightarrow> 'b) \<Rightarrow> ('p, 'a) cli_result \<Rightarrow> ('p, 'b) cli_result" where
  "cli_map f m = cli_then m (\<lambda>a c. Some (Inr (f a), c))"

definition ask :: "nat \<Rightarrow> 'p cli_world \<Rightarrow> request \<Rightarrow> 'p cli \<Rightarrow> ('p, response_data) cli_result" where
  "ask fuel w body c = cli_then (send fuel w body c) response_value"

definition doctor :: "nat \<Rightarrow> 'p cli_world \<Rightarrow> 'p cli \<Rightarrow> ('p, cli_output) cli_result" where
  "doctor fuel w c =
     map_option (\<lambda>(service, c). (Inr (DoctorOutput (cx_version w) PROTOCOL_VERSION (cx_token w) (cx_elevated w) service), c))
       (ask fuel w GetHealth c)"

definition run_policy :: "nat \<Rightarrow> 'p cli_world \<Rightarrow> policy_command \<Rightarrow> 'p cli \<Rightarrow> ('p, response_data) cli_result" where
  "run_policy fuel w action c =
     (case action of
        PolicyExclusions \<Rightarrow> ask fuel w ListExclusions c
      | PolicyExclude path exact \<Rightarrow>
          cli_then (resolve_path w ''exclusion path'' path c) (\<lambda>path. ask fuel w (request.AddExclusion path (\<not> exact)))
      | PolicyRemoveExclusion path \<Rightarrow>
          cli_then (resolve_path w ''exclusion path'' path c) (\<lambda>path. ask fuel w (request.RemoveExclusion path))
      | PolicyAllowedHashes \<Rightarrow> ask fuel w ListAllowedHashes c
      | PolicyAllowHash sha256 label \<Rightarrow> ask fuel w (request.AllowHash sha256 label) c
      | PolicyRemoveAllowedHash sha256 \<Rightarrow> ask fuel w (RemoveAllowedHash sha256) c)"

definition run_command ::
  "nat \<Rightarrow> nat \<Rightarrow> 'p cli_world \<Rightarrow> cli_command \<Rightarrow> 'p cli \<Rightarrow> ('p, cli_output) cli_result" where
  "run_command polls fuel w command c =
     (case command of
        CmdDoctor \<Rightarrow> doctor fuel w c
      | CmdHealth \<Rightarrow> cli_map DataOutput (ask fuel w GetHealth c)
      | CmdSnapshot \<Rightarrow> cli_map DataOutput (ask fuel w GetSnapshot c)
      | CmdEvents limit \<Rightarrow> cli_map DataOutput (ask fuel w (RecentEvents limit) c)
      | CmdScan target seconds \<Rightarrow> cli_map StatusOutput (scan_path_status polls fuel w target seconds c)
      | CmdScanProfile profile seconds \<Rightarrow>
          cli_map StatusOutput (start_scan_and_wait polls fuel w (StartScan [] (Some (profile_of profile))) seconds c)
      | CmdScanStatus scan_id \<Rightarrow> cli_map DataOutput (ask fuel w (GetScan scan_id) c)
      | CmdCancelScan scan_id \<Rightarrow> cli_map DataOutput (ask fuel w (CancelScan scan_id) c)
      | CmdQuarantine target seconds \<Rightarrow> cli_map DataOutput (quarantine_file polls fuel w target seconds c)
      | CmdQuarantineList limit \<Rightarrow> cli_map DataOutput (ask fuel w (ListQuarantine limit) c)
      | CmdQuarantineRestore quarantine_id destination \<Rightarrow>
          cli_map DataOutput (ask fuel w (RestoreQuarantine quarantine_id destination) c)
      | CmdUpdate action \<Rightarrow>
          cli_map DataOutput (ask fuel w (case action of
              UpdateStatus \<Rightarrow> GetContentStatus
            | UpdateInstall \<Rightarrow> InstallContentUpdate
            | UpdateRollback \<Rightarrow> RollbackContentUpdate) c)
      | CmdPolicy action \<Rightarrow> cli_map DataOutput (run_policy fuel w action c)
      | CmdService action \<Rightarrow> cli_map JsonOutput (manage_service w action c)
      | CmdProtocolFixture \<Rightarrow>
          Some (Inr (EnvelopeOutput (request_new (cx_uuid w (cl_uuids c)) Ping)), c\<lparr>cl_uuids := Suc (cl_uuids c)\<rparr>))"

end
