(* ===== verification/OG_Exchange.thy ===== *)
theory OG_Exchange
  imports OG_Client OG_Requests
begin

text \<open>
  What the command-line client (\<open>OG_Client\<close>) guarantees: its loops end, what it sends over the pipe, and,
  against the service of \<open>OG_Service\<close> on the other end, that a command has the effect and the answer of
  the request it stands for.
\<close>

section \<open>The loops end\<close>

text \<open>Time does not run backwards, and a sleep lasts at least as long as asked for.\<close>

definition clock_ok :: "'p cli_world \<Rightarrow> bool" where
  "clock_ok w \<longleftrightarrow> (\<forall>p t. t \<le> snd (snd (cx_open w p t))) \<and> (\<forall>p bs t. t \<le> snd (snd (cx_exchange w p bs t)))
     \<and> (\<forall>t d. t + d \<le> cx_wake w t d)"

lemma clock_okD:
  "clock_ok w \<Longrightarrow> cx_open w p t = (r, p', t') \<Longrightarrow> t \<le> t'"
  "clock_ok w \<Longrightarrow> cx_exchange w p bs t = (b, p', t') \<Longrightarrow> t \<le> t'"
  "clock_ok w \<Longrightarrow> t + d \<le> cx_wake w t d"
  unfolding clock_ok_def by (metis snd_conv)+

lemma cli_then_Some:
  "cli_then m k = Some (r, c) \<longleftrightarrow>
     (\<exists>e. m = Some (Inl e, c) \<and> r = Inl e) \<or> (\<exists>a c1. m = Some (Inr a, c1) \<and> k a c1 = Some (r, c))"
  by (auto simp: cli_then_def split: option.splits prod.splits sum.splits)

lemma cli_then_Inr [simp]: "cli_then (Some (Inr a, c)) k = k a c"
  and cli_then_Inl [simp]: "cli_then (Some (Inl e, c)) k = Some (Inl e, c)"
  by (simp_all add: cli_then_def)

lemma connect_pipe_ends:
  assumes "clock_ok w" "started + k * (25 * MILLISECOND) \<le> cl_now c" "120 < k + fuel" "k \<le> 120"
  shows "\<exists>r c'. connect_pipe fuel w started c = Some (r, c') \<and> cl_now c \<le> cl_now c'"
  using assms(2-4)
proof (induction fuel arbitrary: k c)
  case (Suc fuel)
  obtain r p t where o: "cx_open w (cl_peer c) (cl_now c) = (r, p, t)" by (metis prod_cases3)
  have t: "cl_now c \<le> t" using clock_okD(1) [OF assms(1) o] .
  let ?d = "c\<lparr>cl_peer := p, cl_now := t\<rparr>"
  let ?c = "cli_sleep w (25 * MILLISECOND) ?d"
  have wake: "t + 25 * MILLISECOND \<le> cl_now ?c"
    using clock_okD(3) [OF assms(1), of t "25 * MILLISECOND"] by (simp add: cli_sleep_def)
  show ?case
  proof (cases r)
    case (Inr pipe)
    with o t show ?thesis by simp
  next
    case (Inl e)
    show ?thesis
    proof (cases "(e = Some 2 \<or> e = Some 231) \<and> t - started < 3 * SECOND")
      case True
      have "k \<noteq> 120" using True Suc.prems(1) t by (auto simp: SECOND_def MILLISECOND_def)
      then have "\<exists>r c'. connect_pipe fuel w started ?c = Some (r, c') \<and> cl_now ?c \<le> cl_now c'"
        using Suc.prems t wake by (intro Suc.IH [of "Suc k"]) auto
      then show ?thesis using o Inl True t wake by (auto simp: Let_def)
    next
      case False
      then show ?thesis using o Inl t by (auto simp: Let_def)
    qed
  qed
qed simp

lemma connect_pipe_log: "connect_pipe fuel w started c = Some (r, c') \<Longrightarrow> cl_log c' = cl_log c"
  by (induction fuel w started c rule: connect_pipe.induct)
    (auto simp: Let_def cli_sleep_def split: prod.splits sum.splits if_splits)

lemma send_ends:
  assumes "clock_ok w" "120 < fuel"
  shows "\<exists>r c'. send fuel w body c = Some (r, c') \<and> cl_now c \<le> cl_now c'"
proof -
  let ?c = "c\<lparr>cl_uuids := Suc (cl_uuids c)\<rparr>"
  obtain r c1 where c1: "connect_pipe fuel w (cl_now ?c) ?c = Some (r, c1)" "cl_now c \<le> cl_now c1"
    using connect_pipe_ends [OF assms(1), of "cl_now ?c" 0 ?c fuel] assms(2) by auto
  show ?thesis
  proof (cases r)
    case (Inl e)
    with c1 show ?thesis by (simp add: send_def Let_def)
  next
    case (Inr pipe)
    obtain sink q where q: "write_frame (cx_ser w) pipe (request_new (cx_uuid w (cl_uuids c)) body) = (sink, q)" by fastforce
    obtain bs p t where x: "cx_exchange w (cl_peer c1) (sk_written sink) (cl_now c1) = (bs, p, t)" by (metis prod_cases3)
    have "cl_now c \<le> t" using clock_okD(2) [OF assms(1) x] c1(2) by simp
    with c1 Inr q x show ?thesis by (cases q) (simp_all add: send_def Let_def)
  qed
qed

lemma send_cases:
  assumes "send fuel w body c = Some (r, c')"
  obtains (failed) e where "r = Inl e" "cl_log c' = cl_log c"
  | (answered) bs where "r = receive_response w (cx_uuid w (cl_uuids c)) bs" "cl_log c' = cl_log c @ [(body, r)]"
proof -
  let ?c = "c\<lparr>cl_uuids := Suc (cl_uuids c)\<rparr>"
  obtain q c1 where c1: "connect_pipe fuel w (cl_now ?c) ?c = Some (q, c1)"
    using assms by (auto simp: send_def Let_def cli_then_Some)
  note keeps = connect_pipe_log [OF c1]
  show thesis
  proof (cases q)
    case (Inl e)
    with c1 assms have "r = Inl e" "c' = c1" by (simp_all add: send_def Let_def)
    with keeps show thesis by (intro failed) simp_all
  next
    case (Inr pipe)
    obtain sink o1 where o1: "write_frame (cx_ser w) pipe (request_new (cx_uuid w (cl_uuids c)) body) = (sink, o1)" by fastforce
    obtain bs p t where x: "cx_exchange w (cl_peer c1) (sk_written sink) (cl_now c1) = (bs, p, t)" by (metis prod_cases3)
    show thesis
    proof (cases o1)
      case (Inl e)
      with c1 Inr o1 x assms have "r = Inl ''write native service request''" "c' = c1\<lparr>cl_peer := p, cl_now := t\<rparr>"
        by (simp_all add: send_def Let_def)
      with keeps show thesis by (intro failed) simp_all
    next
      case (Inr u)
      with c1 \<open>q = Inr pipe\<close> o1 x assms have "r = receive_response w (cx_uuid w (cl_uuids c)) bs"
        "c' = c1\<lparr>cl_peer := p, cl_now := t, cl_log := cl_log c1 @ [(body, r)]\<rparr>"
        by (auto simp: send_def Let_def)
      with keeps show thesis by (intro answered) simp_all
    qed
  qed
qed

lemma send_log:
  assumes "send fuel w body c = Some (r, c')"
  shows "cl_log c' = cl_log c \<and> \<not> is_ok r \<or> cl_log c' = cl_log c @ [(body, r)]"
  by (rule send_cases [OF assms]) simp_all

lemma send_success:
  assumes "send fuel w body c = Some (Inr response, c')"
  shows "\<exists>data. response = Success data"
proof (rule send_cases [OF assms])
  fix bs assume "Inr response = receive_response w (cx_uuid w (cl_uuids c)) bs"
  then show "\<exists>data. response = Success data"
    by (cases response) (auto simp: receive_response_def split: sum.splits response.splits if_splits)
qed simp

text \<open>Requests for the status of a scan that is still pending.\<close>

definition pending :: "scan_job_status \<Rightarrow> bool" where
  "pending status \<longleftrightarrow> sj_state status = Queued \<or> sj_state status = Running"

definition polled :: "string \<Rightarrow> (request \<times> (string + response)) list \<Rightarrow> bool" where
  "polled i sent \<longleftrightarrow> (\<forall>x \<in> set sent. \<exists>status. x = (GetScan i, Inr (Success (ScanStatus status))) \<and> pending status)"

text \<open>The last exchange of a wait: the final status, an exchange that failed or none.\<close>

definition wait_end :: "string \<Rightarrow> string + scan_job_status \<Rightarrow> (request \<times> (string + response)) list \<Rightarrow> bool" where
  "wait_end i r sent \<longleftrightarrow>
     (case r of
        Inr status \<Rightarrow> sent = [(GetScan i, Inr (Success (ScanStatus status)))] \<and> \<not> pending status
      | Inl _ \<Rightarrow> sent = [] \<or> (\<exists>x. sent = [(GetScan i, x)]))"

lemma wait_scan_ends:
  assumes "clock_ok w" "120 < fuel" "started + k * (100 * MILLISECOND) \<le> cl_now c"
    and "10 * seconds + 1 < k + polls" "k \<le> 10 * seconds + 1"
  shows "\<exists>r c'. wait_scan polls fuel w i seconds started c = Some (r, c')"
  using assms(3-5)
proof (induction polls arbitrary: k c)
  case (Suc polls)
  show ?case
  proof (cases "seconds * SECOND < cl_now c - started")
    case False
    then have k: "k \<le> 10 * seconds" using Suc.prems(1) by (auto simp: SECOND_def MILLISECOND_def)
    obtain r c1 where c1: "send fuel w (GetScan i) c = Some (r, c1)" "cl_now c \<le> cl_now c1"
      using send_ends [OF assms(1,2)] by blast
    let ?c = "cli_sleep w (100 * MILLISECOND) c1"
    have wake: "cl_now c1 + 100 * MILLISECOND \<le> cl_now ?c"
      using clock_okD(3) [OF assms(1), of "cl_now c1" "100 * MILLISECOND"] by (simp add: cli_sleep_def)
    have "\<exists>r c'. wait_scan polls fuel w i seconds started ?c = Some (r, c')"
      using Suc.prems k c1(2) wake by (intro Suc.IH [of "Suc k"]) auto
    with False c1 show ?thesis
      by (cases r) (auto split: response.splits response_data.splits)
  qed simp
qed simp

lemma wait_scan_log:
  assumes "wait_scan polls fuel w i seconds started c = Some (r, c')"
  shows "\<exists>ps fin. cl_log c' = cl_log c @ ps @ fin \<and> polled i ps \<and> wait_end i r fin"
  using assms
proof (induction polls fuel w i seconds started c rule: wait_scan.induct)
  case (2 polls fuel w i seconds started c)
  show ?case
  proof (cases "seconds * SECOND < cl_now c - started")
    case True
    with "2.prems" show ?thesis by (auto simp: wait_end_def polled_def)
  next
    case False
    obtain q c1 where s: "send fuel w (GetScan i) c = Some (q, c1)"
      using "2.prems" False by (auto simp: cli_then_Some)
    consider (failed) e where "q = Inl e" "r = Inl e" "c' = c1"
      | (odd) x e where "q = Inr x" "r = Inl e" "c' = c1"
      | (again) status where "q = Inr (Success (ScanStatus status))" "pending status"
          "wait_scan polls fuel w i seconds started (cli_sleep w (100 * MILLISECOND) c1) = Some (r, c')"
      | (final) status where "q = Inr (Success (ScanStatus status))" "\<not> pending status" "r = Inr status" "c' = c1"
      using "2.prems" False s
      by (cases q) (auto simp: pending_def split: response.splits response_data.splits if_splits)
    moreover have at_once: ?thesis if w: "wait_end i r fin" and l: "cl_log c' = cl_log c @ fin" for fin
      using w l by (intro exI [of _ "[]"] exI [of _ fin]) (simp add: polled_def)
    ultimately show ?thesis
    proof cases
      case (again status)
      obtain ps fin where e: "cl_log c' = cl_log (cli_sleep w (100 * MILLISECOND) c1) @ ps @ fin" "polled i ps" "wait_end i r fin"
        using "2.IH" [OF False refl refl again(2) [unfolded pending_def] again(3)] by blast
      have "cl_log c1 = cl_log c @ [(GetScan i, q)]" using send_log [OF s] again(1) by simp
      with e again show ?thesis
        by (intro exI [of _ "(GetScan i, q) # ps"] exI [of _ fin]) (simp add: polled_def cli_sleep_def)
    next
      case (final status)
      with send_log [OF s] show ?thesis by (intro at_once [of "[(GetScan i, q)]"]) (simp_all add: wait_end_def)
    next
      case failed
      then have "wait_end i r []" "wait_end i r [(GetScan i, q)]" by (simp_all add: wait_end_def)
      with send_log [OF s] failed at_once [of "[]"] at_once [of "[(GetScan i, q)]"] show ?thesis by auto
    next
      case odd
      then have "wait_end i r [(GetScan i, q)]" by (simp add: wait_end_def)
      with send_log [OF s] odd at_once [of "[(GetScan i, q)]"] show ?thesis by auto
    qed
  qed
qed simp

text \<open>What a scan command sends: its request, and then only requests for the status of that scan.\<close>

definition scan_log :: "request \<Rightarrow> string + scan_job_status \<Rightarrow> (request \<times> (string + response)) list \<Rightarrow> bool" where
  "scan_log request r sent \<longleftrightarrow>
     (\<not> is_ok r \<and> (sent = [] \<or> (\<exists>x. sent = [(request, x)])))
     \<or> (\<exists>i ps fin. sent = (request, Inr (Success (ScanStarted i))) # ps @ fin \<and> polled i ps \<and> wait_end i r fin)"

lemma start_scan_log:
  assumes "start_scan_and_wait polls fuel w request seconds c = Some (r, c')"
  shows "\<exists>sent. cl_log c' = cl_log c @ sent \<and> scan_log request r sent"
proof -
  obtain q c1 where s: "send fuel w request c = Some (q, c1)"
    using assms by (auto simp: start_scan_and_wait_def cli_then_Some)
  consider (failed) e where "r = Inl e" "c' = c1"
    | (waits) i where "q = Inr (Success (ScanStarted i))" "wait_scan polls fuel w i seconds (cl_now c1) c1 = Some (r, c')"
    using assms s by (cases q) (auto simp: start_scan_and_wait_def split: response.splits response_data.splits)
  then show ?thesis
  proof cases
    case failed
    then show ?thesis using send_log [OF s] by (auto simp: scan_log_def)
  next
    case (waits i)
    moreover have "cl_log c1 = cl_log c @ [(request, q)]" using send_log [OF s] waits(1) by simp
    ultimately show ?thesis using wait_scan_log [OF waits(2)] by (auto simp: scan_log_def)
  qed
qed

text \<open>At most one request per 100 milliseconds of the timeout.\<close>

lemma send_log_length: "send fuel w body c = Some (r, c') \<Longrightarrow> length (cl_log c') \<le> Suc (length (cl_log c))"
  by (drule send_log) auto

lemma wait_scan_count:
  assumes "clock_ok w" "120 < fuel" "started + k * (100 * MILLISECOND) \<le> cl_now c" "k \<le> 10 * seconds + 1"
    and "wait_scan polls fuel w i seconds started c = Some (r, c')"
  shows "length (cl_log c') + k \<le> length (cl_log c) + 10 * seconds + 1"
  using assms(3-5)
proof (induction polls arbitrary: k c)
  case (Suc polls)
  show ?case
  proof (cases "seconds * SECOND < cl_now c - started")
    case True
    with Suc.prems show ?thesis by simp
  next
    case False
    then have k: "k \<le> 10 * seconds" using Suc.prems(1) by (auto simp: SECOND_def MILLISECOND_def)
    obtain q c1 where s: "send fuel w (GetScan i) c = Some (q, c1)" "cl_now c \<le> cl_now c1"
      using send_ends [OF assms(1,2)] by blast
    let ?c = "cli_sleep w (100 * MILLISECOND) c1"
    have wake: "cl_now c1 + 100 * MILLISECOND \<le> cl_now ?c"
      using clock_okD(3) [OF assms(1), of "cl_now c1" "100 * MILLISECOND"] by (simp add: cli_sleep_def)
    note one = send_log_length [OF s(1)]
    from Suc.prems(3) False s(1) consider "c' = c1" | "wait_scan polls fuel w i seconds started ?c = Some (r, c')"
      by (cases q) (auto split: response.splits response_data.splits if_splits)
    then show ?thesis
    proof cases
      case 2
      have "length (cl_log c') + Suc k \<le> length (cl_log ?c) + 10 * seconds + 1"
        by (rule Suc.IH [OF _ _ 2]) (use Suc.prems(1) s(2) wake k in auto)
      with one show ?thesis by (simp add: cli_sleep_def)
    qed (use one k in simp)
  qed
qed simp

text \<open>
  A surrounding that answers in time: opening the pipe, an exchange and waking up from a sleep each
  take at most so long.
\<close>

definition prompt :: "'p cli_world \<Rightarrow> nat \<Rightarrow> nat \<Rightarrow> nat \<Rightarrow> bool" where
  "prompt w opens exchange slack \<longleftrightarrow>
     (\<forall>p t. snd (snd (cx_open w p t)) \<le> t + opens)
     \<and> (\<forall>p bs t. snd (snd (cx_exchange w p bs t)) \<le> t + exchange)
     \<and> (\<forall>t d. cx_wake w t d \<le> t + d + slack)"

lemma connect_pipe_time:
  assumes "prompt w opens exchange slack" "connect_pipe fuel w started c = Some (r, c')"
    and "cl_now c \<le> started + 3 * SECOND + 25 * MILLISECOND + slack"
  shows "cl_now c' \<le> started + 3 * SECOND + 25 * MILLISECOND + slack + opens"
  using assms(2,3)
proof (induction fuel arbitrary: c)
  case (Suc fuel)
  obtain q p t where o: "cx_open w (cl_peer c) (cl_now c) = (q, p, t)" by (metis prod_cases3)
  have "snd (snd (cx_open w (cl_peer c) (cl_now c))) \<le> cl_now c + opens"
    using assms(1) unfolding prompt_def by blast
  then have t: "t \<le> cl_now c + opens" by (simp add: o)
  let ?d = "c\<lparr>cl_peer := p, cl_now := t\<rparr>"
  let ?c = "cli_sleep w (25 * MILLISECOND) ?d"
  show ?case
  proof (cases "\<exists>e. q = Inl e \<and> (e = Some 2 \<or> e = Some 231) \<and> t - started < 3 * SECOND")
    case True
    then have "connect_pipe fuel w started ?c = Some (r, c')" using Suc.prems(1) o by (auto simp: Let_def)
    moreover have "cx_wake w t (25 * MILLISECOND) \<le> t + 25 * MILLISECOND + slack"
      using assms(1) unfolding prompt_def by blast
    then have "cl_now ?c \<le> started + 3 * SECOND + 25 * MILLISECOND + slack"
    proof -
      assume "cx_wake w t (25 * MILLISECOND) \<le> t + 25 * MILLISECOND + slack"
      moreover from True have "t - started < 3 * SECOND" by blast
      ultimately show ?thesis unfolding cli_sleep_def by simp
    qed
    ultimately show ?thesis by (rule Suc.IH)
  next
    case False
    then have "c' = ?d" using Suc.prems(1) o by (cases q) (auto simp: Let_def split: if_splits)
    with t Suc.prems(2) show ?thesis by simp
  qed
qed simp

definition send_time :: "nat \<Rightarrow> nat \<Rightarrow> nat \<Rightarrow> nat" where
  "send_time opens exchange slack = 3 * SECOND + 25 * MILLISECOND + slack + opens + exchange"

lemma send_in_time:
  assumes "prompt w opens exchange slack" "send fuel w body c = Some (r, c')"
  shows "cl_now c' \<le> cl_now c + send_time opens exchange slack"
proof -
  let ?c = "c\<lparr>cl_uuids := Suc (cl_uuids c)\<rparr>"
  obtain q c1 where c1: "connect_pipe fuel w (cl_now ?c) ?c = Some (q, c1)"
    using assms(2) by (auto simp: send_def Let_def cli_then_Some)
  have t1: "cl_now c1 \<le> cl_now c + 3 * SECOND + 25 * MILLISECOND + slack + opens"
    using connect_pipe_time [OF assms(1) c1] by simp
  show ?thesis
  proof (cases q)
    case (Inl e)
    with c1 assms(2) have "c' = c1" by (simp add: send_def Let_def)
    with t1 show ?thesis by (simp add: send_time_def)
  next
    case (Inr pipe)
    obtain sink o1 where o1: "write_frame (cx_ser w) pipe (request_new (cx_uuid w (cl_uuids c)) body) = (sink, o1)" by fastforce
    obtain bs p t where x: "cx_exchange w (cl_peer c1) (sk_written sink) (cl_now c1) = (bs, p, t)" by (metis prod_cases3)
    have "snd (snd (cx_exchange w (cl_peer c1) (sk_written sink) (cl_now c1))) \<le> cl_now c1 + exchange"
      using assms(1) unfolding prompt_def by blast
    then have "t \<le> cl_now c1 + exchange" by (simp add: x)
    moreover have "cl_now c' = t" using c1 Inr o1 x assms(2) by (cases o1) (auto simp: send_def Let_def)
    ultimately show ?thesis using t1 by (simp add: send_time_def)
  qed
qed

lemma wait_scan_in_time:
  assumes "prompt w opens exchange slack" "wait_scan polls fuel w i seconds started c = Some (r, c')"
    and "cl_now c \<le> started + seconds * SECOND + send_time opens exchange slack + 100 * MILLISECOND + slack"
  shows "cl_now c' \<le> started + seconds * SECOND + send_time opens exchange slack + 100 * MILLISECOND + slack"
  using assms(2,3)
proof (induction polls arbitrary: c)
  case (Suc polls)
  show ?case
  proof (cases "seconds * SECOND < cl_now c - started")
    case True
    with Suc.prems show ?thesis by simp
  next
    case False
    obtain q c1 where s: "send fuel w (GetScan i) c = Some (q, c1)"
      using Suc.prems(1) False by (auto simp: cli_then_Some)
    have t: "cl_now c1 \<le> started + seconds * SECOND + send_time opens exchange slack"
      using send_in_time [OF assms(1) s] False by simp
    let ?c = "cli_sleep w (100 * MILLISECOND) c1"
    have wake: "cl_now ?c \<le> cl_now c1 + 100 * MILLISECOND + slack"
      using assms(1) unfolding prompt_def cli_sleep_def by simp
    from Suc.prems(1) False s consider "c' = c1" | "wait_scan polls fuel w i seconds started ?c = Some (r, c')"
      by (cases q) (auto split: response.splits response_data.splits if_splits)
    then show ?thesis
    proof cases
      case 2
      then show ?thesis by (rule Suc.IH) (use t wake in simp)
    qed (use t in simp)
  qed
qed simp


text \<open>
  C40. Nothing but a scanned file is quarantined: whatever the service answers, the quarantine command
  sends nothing for what is not a regular file; otherwise it scans the resolved path first, and a
  request to quarantine comes last, once, and names the finding that the finished scan reported.
\<close>

theorem quarantine_sends_scanned_finding:
  assumes "quarantine_file polls fuel w target seconds c = Some (r, c')"
  shows "(\<not> cx_is_file w target \<longrightarrow> cl_log c' = cl_log c)
    \<and> (\<exists>path q sent fin. cl_log c' = cl_log c @ sent @ fin \<and> (sent \<noteq> [] \<longrightarrow> cx_canonical w target = Some path)
         \<and> scan_log (StartScan path None) q sent
         \<and> (fin = [] \<and> \<not> is_ok r
            \<or> (\<exists>status finding x. q = Inr status \<and> status_finding status = Some finding \<and> fin = [(Quarantine finding, x)])))"
proof (cases "cx_is_file w target \<and> cx_canonical w target \<noteq> None")
  case False
  have "scan_log request (Inl e) []" for request e by (simp add: scan_log_def)
  moreover have "cl_log c' = cl_log c \<and> \<not> is_ok r"
    using False assms by (auto simp: quarantine_file_def scan_path_status_def resolve_path_def split: if_splits)
  ultimately show ?thesis by fastforce
next
  case True
  then obtain path where path: "cx_canonical w target = Some path" by blast
  have run: "cli_then (start_scan_and_wait polls fuel w (StartScan path None) seconds c) (\<lambda>status c.
        (case status_finding status of
           None \<Rightarrow> Some (Inl ''the scan did not return a file finding'', c)
         | Some finding \<Rightarrow> cli_then (send fuel w (Quarantine finding) c) response_value)) = Some (r, c')"
    using assms True path by (simp add: quarantine_file_def scan_path_status_def resolve_path_def)
  then obtain q c1 where q: "start_scan_and_wait polls fuel w (StartScan path None) seconds c = Some (q, c1)"
    by (auto simp: cli_then_Some)
  obtain sent where sent: "cl_log c1 = cl_log c @ sent" "scan_log (StartScan path None) q sent"
    using start_scan_log [OF q] by blast
  show ?thesis
  proof (cases "\<exists>status finding. q = Inr status \<and> status_finding status = Some finding")
    case False
    with run q have "cl_log c' = cl_log c1 \<and> \<not> is_ok r"
      by (cases q) (auto split: option.splits)
    with sent path True show ?thesis
      by (intro conjI exI [of _ path] exI [of _ q] exI [of _ sent] exI [of _ "[]"]) auto
  next
    case found: True
    then obtain status finding where f: "q = Inr status" "status_finding status = Some finding" by blast
    then obtain x c2 where x: "send fuel w (Quarantine finding) c1 = Some (x, c2)" and r: "cli_then (Some (x, c2)) response_value = Some (r, c')"
      using run q by (auto simp: cli_then_Some)
    have c': "cl_log c' = cl_log c2 \<and> (is_ok r \<longrightarrow> is_ok x)"
      using r by (cases x) (auto simp: response_value_def)
    from send_log [OF x] show ?thesis
    proof
      assume "cl_log c2 = cl_log c1 \<and> \<not> is_ok x"
      with c' sent path True show ?thesis
        by (intro conjI exI [of _ path] exI [of _ q] exI [of _ sent] exI [of _ "[]"]) auto
    next
      assume "cl_log c2 = cl_log c1 @ [(Quarantine finding, x)]"
      with c' sent path True f show ?thesis
        by (intro conjI exI [of _ path] exI [of _ q] exI [of _ sent] exI [of _ "[(Quarantine finding, x)]"]) auto
    qed
  qed
qed

section \<open>Against the service\<close>

text \<open>
  The other end of the pipe is the service: it serves the connection with what was written, and the
  client reads what it wrote.
\<close>

definition service_exchange ::
  "(bytes \<Rightarrow> (request_envelope \<times> bytes) option) \<Rightarrow> (response_envelope \<Rightarrow> bytes option) \<Rightarrow> request_world
   \<Rightarrow> client_context \<Rightarrow> nat \<Rightarrow> service \<Rightarrow> bytes \<Rightarrow> nat \<Rightarrow> bytes \<times> service \<times> nat" where
  "service_exchange de ser w client room s bs t =
     (case serve_connection de ser w (Inr client) bs \<lparr>sk_written = [], sk_room = room\<rparr> s of
        None \<Rightarrow> ([], s, t)
      | Some (_, out, s') \<Rightarrow> (sk_written out, s', t))"

text \<open>A value that the JSON library carries over a pipe with this much room, and reads back.\<close>

definition carries :: "('a \<Rightarrow> bytes option) \<Rightarrow> (bytes \<Rightarrow> ('a \<times> bytes) option) \<Rightarrow> nat \<Rightarrow> 'a \<Rightarrow> bool" where
  "carries ser de room v \<longleftrightarrow>
     (\<exists>payload trailing. ser v = Some payload \<and> payload \<noteq> [] \<and> length payload \<le> MAX_FRAME_BYTES
        \<and> 4 + length payload \<le> room \<and> de payload = Some (v, trailing) \<and> (\<forall>ch \<in> set trailing. json_space ch))"

lemma carried_frame:
  assumes "carries ser de room v"
  shows "\<exists>sink. write_frame ser \<lparr>sk_written = [], sk_room = room\<rparr> v = (sink, Inr ())
    \<and> read_frame de (sk_written sink) = Inr (v, [])"
proof -
  obtain payload trailing where p: "ser v = Some payload" "payload \<noteq> []" "length payload \<le> MAX_FRAME_BYTES"
    "4 + length payload \<le> room" "de payload = Some (v, trailing)" "\<forall>ch \<in> set trailing. json_space ch"
    using assms by (auto simp: carries_def)
  have w: "write_frame ser \<lparr>sk_written = [], sk_room = room\<rparr> v
      = (\<lparr>sk_written = le_bytes 4 (length payload) @ payload, sk_room = room - (4 + length payload)\<rparr>, Inr ())"
    using write_frame_ok [where ser = ser and v = v and w = "\<lparr>sk_written = [], sk_room = room\<rparr>", OF p(1-3)] p(4) by simp
  show ?thesis unfolding w using frame_read_back [where de = de and rest = "[]", OF p(2,3,5,6)] by simp
qed

definition answer_of :: "string \<Rightarrow> api_error + response_data \<Rightarrow> response_envelope" where
  "answer_of i r = (case r of Inr data \<Rightarrow> response_success i data | Inl e \<Rightarrow> response_error i e)"

lemma answer_of_id [simp]: "rse_request_id (answer_of i r) = i" "rse_protocol (answer_of i r) = PROTOCOL_VERSION"
  by (cases r; simp add: answer_of_def response_success_def response_error_def)+

text \<open>
  C12. A command has the effect and the answer of the request it stands for: when the pipe opens, has
  room for both frames and the JSON library carries the request and the answer, sending a request
  leaves the service in the state to which its dispatch leads, and yields the data of the answer or
  the text of its error.
\<close>

theorem client_reaches_service:
  assumes "cx_open w s (cl_now c) = (Inr \<lparr>sk_written = [], sk_room = room\<rparr>, s, t)" "cl_peer c = s"
    and "cx_exchange w = service_exchange de ser rw client room"
    and "valid_request_id i" "cx_uuid w (cl_uuids c) = i"
    and "carries (cx_ser w) de room (request_new i body)" "dispatch rw client body s = Some (r, s')"
    and "carries ser (cx_de w) room (answer_of i r)"
  shows "\<exists>c'. send (Suc fuel) w body c
      = Some (case r of Inl e \<Rightarrow> Inl (api_error_text e) | Inr data \<Rightarrow> Inr (Success data), c')
    \<and> cl_peer c' = s'"
proof -
  obtain req where req: "write_frame (cx_ser w) \<lparr>sk_written = [], sk_room = room\<rparr> (request_new i body) = (req, Inr ())"
    "read_frame de (sk_written req) = Inr (request_new i body, [])"
    using carried_frame [OF assms(6)] by blast
  obtain ans where ans: "write_frame ser \<lparr>sk_written = [], sk_room = room\<rparr> (answer_of i r) = (ans, Inr ())"
    "read_frame (cx_de w) (sk_written ans) = Inr (answer_of i r, [])"
    using carried_frame [OF assms(8)] by blast
  have v: "validate_request (request_new i body) = Inr ()" "validate_response (answer_of i r) = Inr ()"
    using assms(4) by (simp_all add: validate_request_def validate_response_def request_new_def)
  have "respond rw client (request_new i body) s = Some (answer_of i r, s')"
    using v(1) assms(7) by (cases r) (simp_all add: respond_def handle_request_def request_new_def answer_of_def)
  then have x: "cx_exchange w s (sk_written req) t = (sk_written ans, s', t)"
    using req(2) ans(1) by (simp add: assms(3) service_exchange_def serve_connection_def)
  have "receive_response w i (sk_written ans)
      = (case r of Inl e \<Rightarrow> Inl (api_error_text e) | Inr data \<Rightarrow> Inr (Success data))"
    using ans(2) v(2)
    by (cases r) (simp_all add: receive_response_def answer_of_def response_success_def response_error_def)
  then show ?thesis
    using assms(1,2,5) req(1) x by (simp add: send_def Let_def)
qed

section \<open>Concrete commands\<close>

text \<open>A peer that counts its exchanges and answers each with a letter.\<close>

definition counting_exchange :: "nat \<Rightarrow> bytes \<Rightarrow> nat \<Rightarrow> bytes \<times> nat \<times> nat" where
  "counting_exchange n bs t = (le_bytes 4 1 @ (if n = 0 then ''s'' else if n = 1 then ''r'' else ''f''), n + 1, t)"

definition sample_finding_status :: "scan_job_state \<Rightarrow> scan_job_status" where
  "sample_finding_status state =
     \<lparr>sj_scan_id = ''1'', sj_target = ''note.txt'', sj_state = state, sj_finding = Some OG_Quarantine.sample_request,
      sj_findings = [], sj_files_scanned = 1, sj_total_files = 1, sj_current_path = [], sj_error = None\<rparr>"

definition sample_answer :: "bytes \<Rightarrow> (response_envelope \<times> bytes) option" where
  "sample_answer bs = Some (response_success ''r-1''
     (if bs = ''s'' then ScanStarted ''1''
      else if bs = ''r'' then ScanStatus (sample_finding_status Running)
      else if bs = ''f'' then ScanStatus (sample_finding_status Completed)
      else PolicyChanged), [])"

definition sample_cli_world :: "('p \<Rightarrow> bytes \<Rightarrow> nat \<Rightarrow> bytes \<times> 'p \<times> nat) \<Rightarrow> 'p cli_world" where
  "sample_cli_world exchange =
     \<lparr>cx_open = (\<lambda>p t. (Inr \<lparr>sk_written = [], sk_room = 100\<rparr>, p, t)), cx_exchange = exchange, cx_wake = (+),
      cx_uuid = (\<lambda>_. ''r-1''), cx_ser = (\<lambda>_. Some ''x''), cx_de = sample_answer, cx_canonical = Some,
      cx_is_file = (\<lambda>_. True), cx_current_exe = None, cx_token = True, cx_elevated = False, cx_version = ''0.7.0'',
      cx_scm_works = (\<lambda>_. True), cx_scm_state = (\<lambda>_. ''Running''), cx_scm_pid = (\<lambda>_. None)\<rparr>"

definition sample_cli :: "'p \<Rightarrow> 'p cli" where
  "sample_cli p = \<lparr>cl_peer = p, cl_now = 0, cl_uuids = 0, cl_log = [], cl_scm = []\<rparr>"

lemma counting_clock: "clock_ok (sample_cli_world counting_exchange)"
  by (simp add: clock_ok_def sample_cli_world_def counting_exchange_def)

lemma counting_prompt: "prompt (sample_cli_world counting_exchange) 0 0 0"
  by (simp add: prompt_def sample_cli_world_def counting_exchange_def)


theorem quarantine_sends_scanned_finding_witness:
  "\<exists>r c' path q sent fin. quarantine_file 9 1 (sample_cli_world counting_exchange) ''note.txt'' 1 (sample_cli 0) = Some (r, c')
     \<and> cl_log c' = sent @ fin \<and> scan_log (StartScan path None) q sent"
proof -
  let ?run = "quarantine_file 9 1 (sample_cli_world counting_exchange) ''note.txt'' 1 (sample_cli 0)"
  have "case ?run of None \<Rightarrow> False | Some (r, c') \<Rightarrow> length (cl_log c') = 4" by code_simp
  then obtain r c' where r: "?run = Some (r, c')" by (auto split: option.splits)
  have "cl_log (sample_cli (0 :: nat)) = []" by (simp add: sample_cli_def)
  with quarantine_sends_scanned_finding [OF r] r show ?thesis by auto
qed

theorem client_reaches_service_witness:
  "\<exists>c'. send 1 (sample_cli_world (service_exchange sample_read (\<lambda>_. Some ''.'') sample_request_world sample_client 100))
        (request.AddExclusion ''Dir'' True) (sample_cli sample_service) = Some (Inr (Success PolicyChanged), c')
    \<and> db_exclusions (hs_db (ms_host (cl_peer c'))) \<noteq> []"
proof -
  let ?body = "request.AddExclusion ''Dir'' True" and ?w = "sample_cli_world (service_exchange sample_read (\<lambda>_. Some ''.'')
    sample_request_world sample_client 100)"
  have "case dispatch sample_request_world sample_client ?body sample_service of
      None \<Rightarrow> False | Some (r, s') \<Rightarrow> (case r of Inl e \<Rightarrow> False | Inr d \<Rightarrow> d = PolicyChanged) \<and> db_exclusions (hs_db (ms_host s')) \<noteq> []"
    by code_simp
  then obtain s' where d: "dispatch sample_request_world sample_client ?body sample_service = Some (Inr PolicyChanged, s')"
    "db_exclusions (hs_db (ms_host s')) \<noteq> []"
    by (auto split: option.splits sum.splits)
  have o1: "cx_open ?w sample_service (cl_now (sample_cli sample_service))
      = (Inr \<lparr>sk_written = [], sk_room = 100\<rparr>, sample_service, cl_now (sample_cli sample_service))"
    "cl_peer (sample_cli sample_service) = sample_service"
    "cx_exchange ?w = service_exchange sample_read (\<lambda>_. Some ''.'') sample_request_world sample_client 100"
    "cx_uuid ?w (cl_uuids (sample_cli sample_service)) = ''r-1''"
    by (simp_all add: sample_cli_world_def sample_cli_def)
  have v: "valid_request_id ''r-1''" by code_simp
  have q: "carries (cx_ser ?w) sample_read 100 (request_new ''r-1'' ?body)"
    by (simp add: carries_def sample_cli_world_def sample_read_def sample_call_def request_new_def MAX_FRAME_BYTES_def)
  have a: "carries (\<lambda>_. Some ''.'') (cx_de ?w) 100 (answer_of ''r-1'' (Inr PolicyChanged))"
    by (simp add: carries_def sample_cli_world_def sample_answer_def answer_of_def MAX_FRAME_BYTES_def)
  from client_reaches_service [OF o1(1,2,3) v o1(4) q d(1) a, of 0] d(2) show ?thesis by auto
qed

section \<open>Gaps\<close>

text \<open>
  The client resolves the path of an exclusion before it asks for its removal, which fails when the path
  no longer exists, although the service would remove the exclusion under its recorded path.
\<close>

lemma exclusion_of_missing_path_stays:
  "cx_canonical w path = None \<Longrightarrow> \<exists>e. run_policy fuel w (PolicyRemoveExclusion path) c = Some (Inl e, c)"
  by (simp add: run_policy_def resolve_path_def)

text \<open>A scan that the client has given up goes on in the service: nothing asks to cancel it.\<close>

lemma abandoned_scan_is_not_cancelled:
  assumes "start_scan_and_wait polls fuel w (StartScan target profile) seconds c = Some (r, c')" "cl_log c = []"
  shows "CancelScan i \<notin> fst ` set (cl_log c')"
  using start_scan_log [OF assms(1)] assms(2)
  by (cases r) (fastforce simp: scan_log_def polled_def wait_end_def)+

end
